(* ===== verification/Prelude.thy ===== *)
theory Prelude
  imports Main "HOL-Library.Char_ord" "HOL-Library.List_Lexorder" "HOL-Library.Product_Lexorder"
    "HOL-Library.Multiset"
begin

text \<open>
  What every component of the development shares: the reading of Go's built-in types
  (\<open>time.Time\<close>, \<open>time.Duration\<close>, \<open>map\<close>, \<open>string\<close>), the iteration of a map in the
  order the runtime picks, sorting by a key, and the generic lemmas on them.

  \<^item> A \<open>time.Time\<close> is the number of nanoseconds since Go's zero time, so \<open>IsZero\<close> is
    \<open>t = 0\<close>; a \<open>time.Duration\<close> is a signed number of nanoseconds. Arithmetic on
    durations that can leave 64 bits is written with \<open>wrap64\<close>.
  \<^item> A table of the program (\<open>map[string]*T\<close>) is a partial function. Go ranges over a map
    in an unspecified order, so every operation that ranges takes the order it meets as
    an argument: a list of keys \<open>ks\<close> with \<open>iterates ks m\<close>. What is proved holds for
    every order.
\<close>

section \<open>Time, durations, machine integers\<close>

type_synonym go_time = int
type_synonym duration = int

abbreviation Second :: duration where "Second \<equiv> 1000000000"
abbreviation Minute :: duration where "Minute \<equiv> 60 * Second"
abbreviation Hour :: duration where "Hour \<equiv> 60 * Minute"

definition IsZero :: "go_time \<Rightarrow> bool" where
  "IsZero t \<longleftrightarrow> t = 0"

definition wrap64 :: "int \<Rightarrow> int" where
  "wrap64 x = (x + 2 ^ 63) mod 2 ^ 64 - 2 ^ 63"

text \<open>\<open>Time.Sub\<close> saturates at the least and greatest duration instead of wrapping.\<close>

definition time_Sub :: "go_time \<Rightarrow> go_time \<Rightarrow> duration" where
  "time_Sub t u = max (- (2 ^ 63)) (min (2 ^ 63 - 1) (t - u))"

lemma time_Sub_ge_iff: "0 < d \<Longrightarrow> d < 2 ^ 63 \<Longrightarrow> d \<le> time_Sub t u \<longleftrightarrow> d \<le> t - u"
  by (auto simp: time_Sub_def)

lemma time_Sub_less_iff: "0 < d \<Longrightarrow> d < 2 ^ 63 - 1 \<Longrightarrow> d < time_Sub t u \<longleftrightarrow> d < t - u"
  by (auto simp: time_Sub_def)

lemma time_Sub_exact: "- (2 ^ 63) \<le> t - u \<Longrightarrow> t - u < 2 ^ 63 \<Longrightarrow> time_Sub t u = t - u"
  by (auto simp: time_Sub_def)

lemma wrap64_id: "- (2 ^ 63) \<le> x \<Longrightarrow> x < 2 ^ 63 \<Longrightarrow> wrap64 x = x"
  by (simp add: wrap64_def)

lemma wrap64_negative:
  assumes "2 ^ 63 \<le> x" and "x < 2 ^ 64"
  shows "wrap64 x < 0"
proof -
  have "(x + 2 ^ 63) mod 2 ^ 64 = (x + 2 ^ 63 - 2 ^ 64) mod 2 ^ 64" by (rule minus_mod_self2 [symmetric])
  also have "\<dots> = x + 2 ^ 63 - 2 ^ 64" by (rule mod_pos_pos_trivial) (use assms in simp_all)
  finally show ?thesis using assms by (simp add: wrap64_def)
qed

lemma wrap64_range: "- (2 ^ 63) \<le> wrap64 x \<and> wrap64 x < 2 ^ 63"
  by (simp add: wrap64_def)

lemma IsZero_simps [simp]: "IsZero 0" "IsZero t \<longleftrightarrow> t = 0"
  by (simp_all add: IsZero_def)

text \<open>The value a constructor keeps when it is set, else the default it fills in.\<close>

definition or_default_time :: "go_time \<Rightarrow> go_time \<Rightarrow> go_time" where
  "or_default_time t d = (if IsZero t then d else t)"

definition or_default :: "string \<Rightarrow> string \<Rightarrow> string" where
  "or_default s d = (if s = [] then d else s)"

lemma or_default_simps [simp]:
  "or_default [] d = d" "s \<noteq> [] \<Longrightarrow> or_default s d = s"
  "or_default_time 0 n = n" "t \<noteq> 0 \<Longrightarrow> or_default_time t n = t"
  by (simp_all add: or_default_def or_default_time_def)

section \<open>Ranging over a map\<close>

definition iterates :: "'k list \<Rightarrow> ('k \<rightharpoonup> 'v) \<Rightarrow> bool" where
  "iterates ks m \<longleftrightarrow> distinct ks \<and> set ks = dom m"

definition entries :: "'k list \<Rightarrow> ('k \<rightharpoonup> 'v) \<Rightarrow> ('k \<times> 'v) list" where
  "entries ks m = List.map_filter (\<lambda>k. map_option (Pair k) (m k)) ks"

definition vals :: "'k list \<Rightarrow> ('k \<rightharpoonup> 'v) \<Rightarrow> 'v list" where
  "vals ks m = map snd (entries ks m)"

lemma entries_Nil [simp]: "entries [] m = []"
  by (simp add: entries_def List.map_filter_def)

lemma entries_Cons [simp]:
  "entries (k # ks) m = (case m k of None \<Rightarrow> entries ks m | Some v \<Rightarrow> (k, v) # entries ks m)"
  by (simp add: entries_def List.map_filter_def split: option.splits)

lemma set_entries: "set (entries ks m) = {(k, v). k \<in> set ks \<and> m k = Some v}"
  by (induction ks) (auto split: option.splits)

lemma in_entries_iff: "(k, v) \<in> set (entries ks m) \<longleftrightarrow> k \<in> set ks \<and> m k = Some v"
  by (simp add: set_entries)

lemma iterates_entries: "iterates ks m \<Longrightarrow> (k, v) \<in> set (entries ks m) \<longleftrightarrow> m k = Some v"
  by (auto simp: iterates_def in_entries_iff)

lemma vals_Nil [simp]: "vals [] m = []"
  by (simp add: vals_def)

lemma vals_Cons [simp]:
  "vals (k # ks) m = (case m k of None \<Rightarrow> vals ks m | Some v \<Rightarrow> v # vals ks m)"
  by (simp add: vals_def split: option.splits)

lemma vals_upd_other [simp]: "k \<notin> set ks \<Longrightarrow> vals ks (m(k := x)) = vals ks m"
  by (induction ks) (auto split: option.split)

lemma set_vals: "set (vals ks m) = {v. \<exists>k \<in> set ks. m k = Some v}"
  by (auto simp: vals_def set_entries image_iff)

lemma iterates_vals: "iterates ks m \<Longrightarrow> v \<in> set (vals ks m) \<longleftrightarrow> v \<in> ran m"
  by (auto simp: iterates_def set_vals ran_def)

lemma iterates_length: "iterates ks m \<Longrightarrow> length ks = card (dom m)"
  by (metis iterates_def distinct_card)

lemma map_fst_entries: "iterates ks m \<Longrightarrow> map fst (entries ks m) = ks"
proof -
  have "set xs \<subseteq> dom m \<Longrightarrow> map fst (entries xs m) = xs" for xs
    by (induction xs) auto
  then show "iterates ks m \<Longrightarrow> map fst (entries ks m) = ks" by (simp add: iterates_def)
qed

lemma distinct_entries: "distinct ks \<Longrightarrow> distinct (entries ks m)"
  by (induction ks) (auto simp: in_entries_iff split: option.splits)

lemma iterates_empty [simp]: "iterates [] Map.empty"
  by (simp add: iterates_def)

lemma iterates_upd: "iterates ks m \<Longrightarrow> k \<notin> set ks \<Longrightarrow> iterates (k # ks) (m(k \<mapsto> v))"
  by (auto simp: iterates_def)

lemma iterates_upd_same: "iterates ks m \<Longrightarrow> k \<in> set ks \<Longrightarrow> iterates ks (m(k \<mapsto> v))"
  by (auto simp: iterates_def)

lemma length_filter_vals:
  assumes "iterates ks m"
  shows "length (filter P (vals ks m)) = card {k. \<exists>v. m k = Some v \<and> P v}"
proof -
  let ?es = "filter (\<lambda>e. P (snd e)) (entries ks m)"
  have "distinct (map fst ?es)"
    using assms by (simp add: distinct_map_filter map_fst_entries iterates_def)
  then have "card (set (map fst ?es)) = length ?es" by (metis distinct_card length_map)
  moreover have "set (map fst ?es) = {k. \<exists>v. m k = Some v \<and> P v}"
    using iterates_entries [OF assms] by force
  ultimately show ?thesis by (simp add: vals_def filter_map comp_def)
qed

section \<open>Sorting by a key and the first element\<close>

lemma sort_key_first:
  assumes "sort_key f xs = y # ys"
  shows "y \<in> set xs" and "\<And>x. x \<in> set xs \<Longrightarrow> f y \<le> f x"
proof -
  have s: "set (y # ys) = set xs" using assms by (metis set_sort)
  then show "y \<in> set xs" by auto
  have "sorted (map f (y # ys))" using assms by (metis sorted_sort_key)
  then show "f y \<le> f x" if "x \<in> set xs" for x using that s by auto
qed

lemma sort_key_Nil_iff: "sort_key f xs = [] \<longleftrightarrow> xs = []"
  by (metis length_0_conv length_sort)

text \<open>With an injective key the result does not depend on the order the map was met in.\<close>

lemma sort_key_order_free:
  assumes "inj_on f (set xs)" and "distinct xs" and "distinct ys" and "set xs = set ys"
  shows "sort_key f xs = sort_key f ys"
proof (rule sort_key_inj_key_eq [OF _ assms(1)])
  have "mset xs = mset ys"
    by (rule iffD1 [OF set_eq_iff_mset_eq_distinct [OF assms(2,3)] assms(4)])
  then show "mset xs = mset (sort_key f ys)" by simp
  show "sorted (map f (sort_key f ys))" by simp
qed

lemma distinct_vals:
  assumes "distinct ks" and "\<And>k k' v. m k = Some v \<Longrightarrow> m k' = Some v \<Longrightarrow> k = k'"
  shows "distinct (vals ks m)"
proof -
  have "inj_on snd (set (entries ks m))"
    using assms(2) by (auto simp: inj_on_def in_entries_iff)
  then show ?thesis using assms(1) by (simp add: vals_def distinct_map distinct_entries)
qed

lemma iterates_set_vals: "iterates ks m \<Longrightarrow> set (vals ks m) = ran m"
  by (simp add: set_eq_iff iterates_vals)

definition limited :: "int \<Rightarrow> 'a list \<Rightarrow> 'a list" where
  "limited n xs = (if n > 0 \<and> int (length xs) > n then take (nat n) xs else xs)"

lemma set_limited: "x \<in> set (limited n xs) \<Longrightarrow> x \<in> set xs"
  by (auto simp: limited_def dest: in_set_takeD split: if_splits)

lemma length_limited: "n > 0 \<Longrightarrow> int (length (limited n xs)) \<le> n"
  by (auto simp: limited_def)

lemma limited_prefix: "\<exists>zs. xs = limited n xs @ zs"
  by (auto simp: limited_def intro: exI [of _ "drop (nat n) xs"])

section \<open>Strings\<close>

fun HasPrefix :: "string \<Rightarrow> string \<Rightarrow> bool" where
  "HasPrefix s [] = True"
| "HasPrefix [] (p # ps) = False"
| "HasPrefix (c # cs) (p # ps) = (c = p \<and> HasPrefix cs ps)"

fun Contains :: "string \<Rightarrow> string \<Rightarrow> bool" where
  "Contains [] p = (p = [])"
| "Contains (c # cs) p = (HasPrefix (c # cs) p \<or> Contains cs p)"

definition lower_char :: "char \<Rightarrow> char" where
  "lower_char c = (if 65 \<le> (of_char c :: nat) \<and> (of_char c :: nat) \<le> 90
     then char_of ((of_char c :: nat) + 32) else c)"

text \<open>\<open>strings.ToLower\<close> on the ASCII letters; other bytes are left alone.\<close>

definition ToLower :: "string \<Rightarrow> string" where
  "ToLower s = map lower_char s"

lemma HasPrefix_iff: "HasPrefix s p \<longleftrightarrow> (\<exists>r. s = p @ r)"
  by (induction s p rule: HasPrefix.induct) auto

lemma Contains_iff: "Contains s p \<longleftrightarrow> (\<exists>a b. s = a @ p @ b)"
proof (induction s p rule: Contains.induct)
  case (1 p)
  then show ?case by simp
next
  case (2 c cs p)
  show ?case
  proof
    assume "Contains (c # cs) p"
    then consider r where "c # cs = p @ r" | a b where "cs = a @ p @ b"
      using 2 by (auto simp: HasPrefix_iff)
    then show "\<exists>a b. c # cs = a @ p @ b"
      by cases (metis append_Nil, metis append_Cons)
  next
    assume "\<exists>a b. c # cs = a @ p @ b"
    then obtain a b where ab: "c # cs = a @ p @ b" by blast
    show "Contains (c # cs) p"
    proof (cases a)
      case Nil
      with ab have "HasPrefix (c # cs) p" by (auto simp: HasPrefix_iff)
      then show ?thesis by simp
    next
      case (Cons d a')
      with ab 2 show ?thesis by auto
    qed
  qed
qed

definition HasSuffix :: "string \<Rightarrow> string \<Rightarrow> bool" where
  "HasSuffix s p = HasPrefix (rev s) (rev p)"

definition TrimPrefix :: "string \<Rightarrow> string \<Rightarrow> string" where
  "TrimPrefix s p = (if HasPrefix s p then drop (length p) s else s)"

definition TrimSuffix :: "string \<Rightarrow> string \<Rightarrow> string" where
  "TrimSuffix s p = (if HasSuffix s p then take (length s - length p) s else s)"

text \<open>\<open>strings.TrimSpace\<close> on the ASCII white space; the white space beyond ASCII is left alone.\<close>

definition is_space :: "char \<Rightarrow> bool" where
  "is_space c \<longleftrightarrow> (of_char c :: nat) \<in> {9, 10, 11, 12, 13, 32}"

definition TrimSpace :: "string \<Rightarrow> string" where
  "TrimSpace s = rev (dropWhile is_space (rev (dropWhile is_space s)))"

definition is_digit :: "char \<Rightarrow> bool" where
  "is_digit c \<longleftrightarrow> 48 \<le> (of_char c :: nat) \<and> (of_char c :: nat) \<le> 57"

fun digits_value :: "string \<Rightarrow> int \<Rightarrow> int" where
  "digits_value [] acc = acc"
| "digits_value (c # cs) acc = digits_value cs (10 * acc + (int (of_char c) - 48))"

text \<open>\<open>strconv.Atoi\<close>: an optional sign, then decimal digits, within 64 bits; no value is an error.\<close>

definition Atoi :: "string \<Rightarrow> int option" where
  "Atoi s =
     (let neg = (case s of c # _ \<Rightarrow> c = CHR ''-'' | [] \<Rightarrow> False);
          ds = (case s of c # cs \<Rightarrow> if c = CHR ''-'' \<or> c = CHR ''+'' then cs else s | [] \<Rightarrow> [])
      in if ds = [] \<or> \<not> list_all is_digit ds then None
         else let v = (if neg then - digits_value ds 0 else digits_value ds 0)
              in if - (2 ^ 63) \<le> v \<and> v < 2 ^ 63 then Some v else None)"

fun nat_digits :: "nat \<Rightarrow> string" where
  "nat_digits n = (if n < 10 then [char_of (48 + n)] else nat_digits (n div 10) @ [char_of (48 + n mod 10)])"

declare nat_digits.simps [simp del]

definition Itoa :: "int \<Rightarrow> string" where
  "Itoa i = (if i < 0 then CHR ''-'' # nat_digits (nat (- i)) else nat_digits (nat i))"

lemma HasSuffix_iff: "HasSuffix s p \<longleftrightarrow> (\<exists>r. s = r @ p)"
proof
  assume "HasSuffix s p"
  then obtain r where "rev s = rev p @ r" by (auto simp: HasSuffix_def HasPrefix_iff)
  then have "s = rev r @ p" by (metis rev_append rev_rev_ident)
  then show "\<exists>r. s = r @ p" ..
next
  assume "\<exists>r. s = r @ p"
  then show "HasSuffix s p" by (auto simp: HasSuffix_def HasPrefix_iff)
qed

lemma HasPrefix_append [simp]: "HasPrefix (p @ r) p"
  by (auto simp: HasPrefix_iff)

lemma HasSuffix_append [simp]: "HasSuffix (r @ p) p"
  by (auto simp: HasSuffix_iff)

lemma TrimPrefix_append [simp]: "TrimPrefix (p @ r) p = r"
  by (simp add: TrimPrefix_def)

lemma TrimSuffix_append [simp]: "TrimSuffix (r @ p) p = r"
  by (simp add: TrimSuffix_def)

lemma digits_value_nonneg: "list_all is_digit ds \<Longrightarrow> 0 \<le> acc \<Longrightarrow> 0 \<le> digits_value ds acc"
  by (induction ds acc rule: digits_value.induct) (simp_all add: is_digit_def)

text \<open>A number that parses to more than one is an optional plus sign and digits.\<close>

lemma Atoi_positive:
  assumes "Atoi s = Some v" and "0 < v"
  shows "\<exists>sign ds. s = sign @ ds \<and> (sign = [] \<or> sign = ''+'') \<and> ds \<noteq> [] \<and> list_all is_digit ds \<and>
    v = digits_value ds 0"
proof (cases s)
  case Nil
  with assms show ?thesis by (simp add: Atoi_def)
next
  case (Cons c cs)
  consider (minus) "c = CHR ''-''" | (plus) "c = CHR ''+''" | (none) "c \<noteq> CHR ''-''" "c \<noteq> CHR ''+''" by blast
  then show ?thesis
  proof cases
    case minus
    with assms Cons have "list_all is_digit cs" "v = - digits_value cs 0"
      by (auto simp: Atoi_def Let_def split: if_splits)
    with assms(2) digits_value_nonneg [of cs 0] show ?thesis by simp
  next
    case plus
    with assms Cons show ?thesis
      by (intro exI [of _ "''+''"] exI [of _ cs]) (auto simp: Atoi_def Let_def split: if_splits)
  next
    case none
    with assms Cons show ?thesis
      by (intro exI [of _ "[]"] exI [of _ s]) (auto simp: Atoi_def Let_def split: if_splits)
  qed
qed

lemma nat_digits_digits: "list_all is_digit (nat_digits n)"
proof (induction n rule: nat_digits.induct)
  case (1 n)
  have d: "is_digit (char_of (48 + k))" if "k < 10" for k :: nat
    using that by (simp add: is_digit_def)
  show ?case
  proof (cases "n < 10")
    case True
    with d [of n] show ?thesis by (subst nat_digits.simps) simp
  next
    case False
    with 1 d [of "n mod 10"] show ?thesis by (subst nat_digits.simps) simp
  qed
qed

lemma nat_digits_nonempty [simp]: "nat_digits n \<noteq> []"
  by (subst nat_digits.simps) simp

end
