(* ===== verification/StoreTypes.thy ===== *)
theory StoreTypes
  imports Prelude
begin

text \<open>
  The persistence vocabulary of \<open>internal/store/store.go\<close> and \<open>disposition.go\<close>: one record
  per struct (its fields in the source's order, with a prefix for the struct), the string
  constants of the statuses, the errors a store method can return, and the pure functions
  \<open>tagsMatch\<close>, \<open>reopens\<close> and \<open>ObservationDisposition\<close>.

  A \<open>*time.Time\<close> is an optional time. A \<open>map[string]string\<close> inside a struct is an
  association list read with \<open>map_of\<close> (a missing key reads as the empty string), and a nil
  map is the empty one. Every method of the store copies a struct on its way in and on its
  way out, so the model passes the values themselves. Status fields are strings, as in the
  source: nothing in the types keeps a caller from storing another one.
\<close>

section \<open>Constants\<close>

abbreviation StatusPending :: string where "StatusPending \<equiv> ''pending''"
abbreviation StatusOnline :: string where "StatusOnline \<equiv> ''online''"
abbreviation StatusUnreachable :: string where "StatusUnreachable \<equiv> ''unreachable''"

abbreviation SourceAgentlessProbe :: string where "SourceAgentlessProbe \<equiv> ''agentless_probe''"
abbreviation SourceEBPFSensor :: string where "SourceEBPFSensor \<equiv> ''ebpf_sensor''"
abbreviation SourceFleet :: string where "SourceFleet \<equiv> ''fleet''"
abbreviation SourceBaseline :: string where "SourceBaseline \<equiv> ''baseline''"

abbreviation RoleAdmin :: string where "RoleAdmin \<equiv> ''admin''"
abbreviation RoleOperator :: string where "RoleOperator \<equiv> ''operator''"
abbreviation RoleViewer :: string where "RoleViewer \<equiv> ''viewer''"

abbreviation TriggerScheduled :: string where "TriggerScheduled \<equiv> ''scheduled''"

abbreviation ObsOpen :: string where "ObsOpen \<equiv> ''open''"
abbreviation ObsAcknowledged :: string where "ObsAcknowledged \<equiv> ''acknowledged''"
abbreviation ObsResolved :: string where "ObsResolved \<equiv> ''resolved''"
abbreviation ObsFalsePositive :: string where "ObsFalsePositive \<equiv> ''false_positive''"

abbreviation ScanRunning :: string where "ScanRunning \<equiv> ''running''"
abbreviation ScanOK :: string where "ScanOK \<equiv> ''ok''"
abbreviation ScanPartial :: string where "ScanPartial \<equiv> ''partial''"
abbreviation ScanFailed :: string where "ScanFailed \<equiv> ''failed''"

abbreviation ScanJobQueued :: string where "ScanJobQueued \<equiv> ''queued''"
abbreviation ScanJobRunning :: string where "ScanJobRunning \<equiv> ''running''"
abbreviation ScanJobSucceeded :: string where "ScanJobSucceeded \<equiv> ''succeeded''"
abbreviation ScanJobFailed :: string where "ScanJobFailed \<equiv> ''failed''"

abbreviation ResponsePending :: string where "ResponsePending \<equiv> ''pending''"
abbreviation ResponseApproved :: string where "ResponseApproved \<equiv> ''approved''"
abbreviation ResponseRejected :: string where "ResponseRejected \<equiv> ''rejected''"
abbreviation ResponseRunning :: string where "ResponseRunning \<equiv> ''running''"
abbreviation ResponseSucceeded :: string where "ResponseSucceeded \<equiv> ''succeeded''"
abbreviation ResponseFailed :: string where "ResponseFailed \<equiv> ''failed''"

abbreviation DeliveryQueued :: string where "DeliveryQueued \<equiv> ''queued''"
abbreviation DeliveryDelivering :: string where "DeliveryDelivering \<equiv> ''delivering''"
abbreviation DeliverySent :: string where "DeliverySent \<equiv> ''sent''"
abbreviation DeliveryDead :: string where "DeliveryDead \<equiv> ''dead''"

definition DefaultReopenAfter :: duration where
  "DefaultReopenAfter = 24 * Hour"

section \<open>Records\<close>

type_synonym string_map = "(string \<times> string) list"
type_synonym bytes = string

definition lookup_str :: "string_map \<Rightarrow> string \<Rightarrow> string" where
  "lookup_str m k = (case map_of m k of None \<Rightarrow> [] | Some v \<Rightarrow> v)"

record rule_record =
  r_id :: string
  r_source :: string
  r_category :: string
  r_severity :: string
  r_mitre :: "string list"
  r_enabled :: bool
  r_definition :: string

record user =
  u_id :: string
  u_username :: string
  u_password_hash :: string
  u_role :: string
  u_disabled :: bool
  u_mfa_secret_enc :: bytes
  u_mfa_enabled :: bool
  u_must_change_password :: bool
  u_created_at :: go_time

record audit_event =
  a_id :: string
  a_time :: go_time
  a_actor :: string
  a_actor_ip :: string
  a_action :: string
  a_target :: string
  a_result :: string
  a_detail :: string

record session =
  ss_token_hash :: string
  ss_user_id :: string
  ss_expires_at :: go_time

record sensor_token =
  t_id :: string
  t_host_id :: string
  t_token_hash :: string
  t_created_at :: go_time
  t_expires_at :: "go_time option"
  t_revoked_at :: "go_time option"

record schedule =
  sc_id :: string
  sc_name :: string
  sc_host_id :: string
  sc_collection_id :: string
  sc_interval_s :: int
  sc_enabled :: bool
  sc_last_run :: "go_time option"
  sc_next_run :: go_time
  sc_created_at :: go_time

record collection =
  co_id :: string
  co_name :: string
  co_description :: string
  co_dynamic :: bool
  co_match_tags :: string_map
  co_created_at :: go_time

record baseline =
  b_host_id :: string
  b_digest :: "(string \<times> string list) list"
  b_created_at :: go_time

record inventory =
  i_host_id :: string
  i_items :: "(string \<times> string list) list"
  i_updated_at :: go_time

record scan_job =
  sj_id :: string
  sj_host_id :: string
  sj_trigger :: string
  sj_status :: string
  sj_attempts :: int
  sj_max_attempts :: int
  sj_worker_id :: string
  sj_lease_until :: "go_time option"
  sj_next_attempt_at :: go_time
  sj_scan_id :: string
  sj_error :: string
  sj_created_at :: go_time
  sj_updated_at :: go_time

record credential =
  cr_id :: string
  cr_name :: string
  cr_username :: string
  cr_auth_type :: string
  cr_secret_enc :: bytes
  cr_sudo_secret_enc :: bytes
  cr_created_at :: go_time

record host =
  h_id :: string
  h_hostname :: string
  h_primary_ip :: string
  h_ssh_port :: int
  h_credential_id :: string
  h_ssh_host_key :: string
  h_os_name :: string
  h_os_version :: string
  h_kernel :: string
  h_arch :: string
  h_mode :: string
  h_status :: string
  h_tags :: string_map
  h_last_seen :: "go_time option"
  h_created_at :: go_time

record scan =
  s_id :: string
  s_host_id :: string
  s_trigger :: string
  s_status :: string
  s_probe_version :: string
  s_started_at :: go_time
  s_finished_at :: "go_time option"
  s_duration_ms :: int
  s_error :: string
  s_risk_score :: int

text \<open>
  \<open>map[string]any\<close>: the dynamic types the program stores in evidence (\<open>AnyOther\<close> holds the
  JSON text of anything else a sensor sends).
\<close>

datatype any_value = AnyString string | AnyInt int | AnyBool bool | AnyStrings "string list" | AnyTime go_time |
  AnyOther string

record observation =
  o_id :: string
  o_host_id :: string
  o_scan_id :: string
  o_source :: string
  o_rule_id :: string
  o_category :: string
  o_title :: string
  o_severity :: string
  o_score :: int
  o_mitre :: "string list"
  o_evidence :: "(string \<times> any_value) list"
  o_dedup_key :: string
  o_status :: string
  o_verdict :: string
  o_first_seen :: go_time
  o_last_seen :: go_time
  o_count :: int

record observation_filter =
  f_verdict :: string
  f_host_id :: string
  f_severity :: string
  f_status :: string
  f_source :: string
  f_rule_id :: string
  f_query :: string
  f_limit :: int
  f_before_time :: go_time
  f_before_id :: string

record audit_filter =
  af_limit :: int
  af_before_time :: go_time
  af_before_id :: string

record retention_policy =
  rp_observation_age :: duration
  rp_scan_age :: duration
  rp_audit_age :: duration
  rp_archive_age :: duration

record retention_result =
  rr_observations :: int
  rr_scans :: int
  rr_audit :: int
  rr_archive :: int

text \<open>The payload of an archived record is the value whose JSON rendering the code stores.\<close>

datatype archived_value = ArchObservation observation | ArchScan scan | ArchAudit audit_event

record archived_record =
  ar_id :: string
  ar_kind :: string
  ar_original_id :: string
  ar_archived_at :: go_time
  ar_payload :: archived_value

record response_action =
  ra_id :: string
  ra_host_id :: string
  ra_playbook :: string
  ra_params :: string_map
  ra_dry_run :: bool
  ra_status :: string
  ra_requested_by :: string
  ra_approved_by :: string
  ra_rejected_by :: string
  ra_reject_reason :: string
  ra_worker_id :: string
  ra_lease_until :: "go_time option"
  ra_output :: string
  ra_error :: string
  ra_created_at :: go_time
  ra_approved_at :: "go_time option"
  ra_rejected_at :: "go_time option"
  ra_started_at :: "go_time option"
  ra_finished_at :: "go_time option"
  ra_updated_at :: go_time

record export_target =
  et_id :: string
  et_name :: string
  et_type :: string
  et_config :: string_map
  et_secret_enc :: bytes
  et_enabled :: bool
  et_created_at :: go_time
  et_updated_at :: go_time

record export_delivery =
  d_id :: string
  d_target_id :: string
  d_observation_id :: string
  d_status :: string
  d_attempts :: int
  d_max_attempts :: int
  d_worker_id :: string
  d_lease_until :: "go_time option"
  d_available_at :: go_time
  d_last_error :: string
  d_created_at :: go_time
  d_updated_at :: go_time
  d_delivered_at :: "go_time option"

section \<open>Errors\<close>

text \<open>
  The errors the methods return, and the panic of the one place that dereferences the
  result of a map lookup unchecked (\<open>UpsertObservation\<close>).
\<close>

datatype store_error =
    ErrNotFound string string
  | ErrSelfApproval string string
  | ErrDisposition
  | ErrInvalidVerdict
  | NilPointerPanic

section \<open>Pure functions\<close>

definition store_error_text :: "store_error \<Rightarrow> string" where
  "store_error_text e = (case e of
       ErrNotFound kind i \<Rightarrow> kind @ '' not found: '' @ i
     | ErrSelfApproval i actor \<Rightarrow> ''response action '' @ i @ '' was requested by '' @ actor @
         ''; approval requires a different administrator''
     | ErrDisposition \<Rightarrow> ''invalid action or finding is not confirmed''
     | ErrInvalidVerdict \<Rightarrow> ''invalid verdict''
     | NilPointerPanic \<Rightarrow> ''invalid memory address or nil pointer dereference'')"

definition tagsMatch :: "string_map \<Rightarrow> string_map \<Rightarrow> bool" where
  "tagsMatch hostTags want \<longleftrightarrow> list_all (\<lambda>(k, v). lookup_str hostTags k = v) want"

definition reopens :: "string \<Rightarrow> go_time \<Rightarrow> go_time \<Rightarrow> duration \<Rightarrow> bool" where
  "reopens status lastSeen now window =
     (if window \<le> 0 \<or> (status \<noteq> ObsFalsePositive \<and> status \<noteq> ObsResolved) then False
      else time_Sub now lastSeen \<ge> window)"

definition ObservationDisposition :: "string \<Rightarrow> store_error + (string \<times> string)" where
  "ObservationDisposition action =
     (if action = ''take_ownership'' then Inr (ObsAcknowledged, [])
      else if action = ''confirm_finding'' then Inr (ObsAcknowledged, ''true_positive'')
      else if action = ''close_false_positive'' then Inr (ObsFalsePositive, ''false_positive'')
      else if action = ''resolve'' then Inr (ObsResolved, [])
      else if action = ''close_inconclusive'' then Inr (ObsResolved, ''unknown'')
      else if action = ''reopen'' then Inr (ObsOpen, [])
      else Inl ErrDisposition)"

lemma ObservationDisposition_status:
  "ObservationDisposition action = Inr (status, verdict) \<Longrightarrow>
   status \<in> {ObsOpen, ObsAcknowledged, ObsResolved, ObsFalsePositive} \<and>
   verdict \<in> {[], ''true_positive'', ''false_positive'', ''unknown''}"
  by (auto simp: ObservationDisposition_def split: if_splits)

lemma reopens_closed:
  "reopens status lastSeen now window \<Longrightarrow> status = ObsFalsePositive \<or> status = ObsResolved"
  by (auto simp: reopens_def split: if_splits)

lemma tagsMatch_empty [simp]: "tagsMatch hostTags []"
  by (simp add: tagsMatch_def)

lemma tagsMatch_mono: "set want' \<subseteq> set want \<Longrightarrow> tagsMatch t want \<Longrightarrow> tagsMatch t want'"
  by (auto simp: tagsMatch_def list_all_iff)

end
