(* ===== verification/Memory.thy ===== *)
theory Memory
  imports StoreTypes
begin

text \<open>
  The state of the in-memory store (\<open>Memory\<close> in \<open>internal/store/memory.go\<close>) and the methods
  on its plain tables: collections, schedules, baselines, inventories, rules, credentials,
  hosts and scans.

  A method that takes the write lock is a function of the state that returns the new state
  and either an error or the method's result; one that takes the read lock returns the
  result alone. Go's mutex makes each method atomic, so a run of the store is a sequence of
  these calls. \<open>time.Now()\<close> and \<open>uuid.NewString()\<close> are arguments (\<open>now\<close>, \<open>uuid\<close>). A
  method that fills in fields of the struct its caller passed returns the struct as it
  leaves it.
\<close>

section \<open>State\<close>

record memory =
  ReopenAfter :: duration
  hosts :: "string \<rightharpoonup> host"
  creds :: "string \<rightharpoonup> credential"
  scans :: "string \<rightharpoonup> scan"
  scanJobs :: "string \<rightharpoonup> scan_job"
  obs :: "string \<rightharpoonup> observation"
  exports :: "string \<rightharpoonup> export_target"
  deliveries :: "string \<rightharpoonup> export_delivery"
  rules :: "string \<rightharpoonup> rule_record"
  baselines :: "string \<rightharpoonup> baseline"
  inventories :: "string \<rightharpoonup> inventory"
  schedules :: "string \<rightharpoonup> schedule"
  colls :: "string \<rightharpoonup> collection"
  collMem :: "string \<rightharpoonup> (string \<rightharpoonup> bool)"
  users :: "string \<rightharpoonup> user"
  sessions :: "string \<rightharpoonup> session"
  sensorTok :: "string \<rightharpoonup> sensor_token"
  audit :: "audit_event list"
  archive :: "archived_record list"
  responses :: "string \<rightharpoonup> response_action"
  dedup :: "string \<rightharpoonup> (string \<rightharpoonup> string)"
  AllowSelfApproval :: bool

type_synonym 'a result = "store_error + 'a"
type_synonym 'a outcome = "memory \<times> (store_error + 'a)"

definition NewMemory :: memory where
  "NewMemory = \<lparr>
     ReopenAfter = DefaultReopenAfter,
     hosts = Map.empty, creds = Map.empty, scans = Map.empty, scanJobs = Map.empty,
     obs = Map.empty, exports = Map.empty, deliveries = Map.empty, rules = Map.empty,
     baselines = Map.empty, inventories = Map.empty, schedules = Map.empty,
     colls = Map.empty, collMem = Map.empty, users = Map.empty, sessions = Map.empty,
     sensorTok = Map.empty, audit = [], archive = [], responses = Map.empty,
     dedup = Map.empty, AllowSelfApproval = False \<rparr>"

text \<open>A lookup by key that answers \<open>ErrNotFound\<close> on a miss.\<close>

definition get_or :: "string \<Rightarrow> (string \<rightharpoonup> 'b) \<Rightarrow> string \<Rightarrow> 'b result" where
  "get_or kind m oid = (case m oid of None \<Rightarrow> Inl (ErrNotFound kind oid) | Some v \<Rightarrow> Inr v)"

lemma get_or_Inr [simp]: "get_or kind m oid = Inr v \<longleftrightarrow> m oid = Some v"
  by (auto simp: get_or_def split: option.splits)

lemma get_or_Inl [simp]: "get_or kind m oid = Inl e \<longleftrightarrow> m oid = None \<and> e = ErrNotFound kind oid"
  by (auto simp: get_or_def split: option.splits)

section \<open>Hosts\<close>

definition CreateHost :: "string \<Rightarrow> go_time \<Rightarrow> host \<Rightarrow> memory \<Rightarrow> host outcome" where
  "CreateHost uuid now h m =
     (let h = h\<lparr>h_id := or_default (h_id h) uuid,
                h_created_at := or_default_time (h_created_at h) now\<rparr>
      in (m\<lparr>hosts := (hosts m)(h_id h \<mapsto> h)\<rparr>, Inr h))"

definition GetHost :: "string \<Rightarrow> memory \<Rightarrow> host result" where
  "GetHost oid m = get_or ''host'' (hosts m) oid"

definition ListHosts :: "string list \<Rightarrow> memory \<Rightarrow> host list" where
  "ListHosts ks m = sort_key h_created_at (vals ks (hosts m))"

definition UpdateHost :: "host \<Rightarrow> memory \<Rightarrow> unit outcome" where
  "UpdateHost h m =
     (case hosts m (h_id h) of
        None \<Rightarrow> (m, Inl (ErrNotFound ''host'' (h_id h)))
      | Some _ \<Rightarrow> (m\<lparr>hosts := (hosts m)(h_id h \<mapsto> h)\<rparr>, Inr ()))"

definition SetHostOnline ::
  "string \<Rightarrow> go_time \<Rightarrow> string \<Rightarrow> string \<Rightarrow> string \<Rightarrow> string \<Rightarrow> memory \<Rightarrow> unit outcome" where
  "SetHostOnline oid lastSeen osName kernelName arch hostname m =
     (case hosts m oid of
        None \<Rightarrow> (m, Inl (ErrNotFound ''host'' oid))
      | Some h \<Rightarrow>
          let h = h\<lparr>h_status := StatusOnline, h_last_seen := Some lastSeen\<rparr>;
              h = (if osName \<noteq> [] then h\<lparr>h_os_name := osName\<rparr> else h);
              h = (if kernelName \<noteq> [] then h\<lparr>h_kernel := kernelName\<rparr> else h);
              h = (if arch \<noteq> [] then h\<lparr>h_arch := arch\<rparr> else h);
              h = (if h_hostname h = [] then h\<lparr>h_hostname := hostname\<rparr> else h)
          in (m\<lparr>hosts := (hosts m)(oid \<mapsto> h)\<rparr>, Inr ()))"

definition SetHostUnreachable :: "string \<Rightarrow> memory \<Rightarrow> unit outcome" where
  "SetHostUnreachable oid m =
     (case hosts m oid of
        None \<Rightarrow> (m, Inl (ErrNotFound ''host'' oid))
      | Some h \<Rightarrow> (m\<lparr>hosts := (hosts m)(oid \<mapsto> h\<lparr>h_status := StatusUnreachable\<rparr>)\<rparr>, Inr ()))"

definition SetHostSSHHostKey :: "string \<Rightarrow> string \<Rightarrow> memory \<Rightarrow> unit outcome" where
  "SetHostSSHHostKey oid key m =
     (case hosts m oid of
        None \<Rightarrow> (m, Inl (ErrNotFound ''host'' oid))
      | Some h \<Rightarrow> (m\<lparr>hosts := (hosts m)(oid \<mapsto> h\<lparr>h_ssh_host_key := key\<rparr>)\<rparr>, Inr ()))"

definition DeleteHost :: "string \<Rightarrow> memory \<Rightarrow> unit outcome" where
  "DeleteHost oid m =
     (case hosts m oid of
        None \<Rightarrow> (m, Inl (ErrNotFound ''host'' oid))
      | Some _ \<Rightarrow> (m\<lparr>hosts := (hosts m)(oid := None)\<rparr>, Inr ()))"

section \<open>Credentials\<close>

definition CreateCredential :: "string \<Rightarrow> go_time \<Rightarrow> credential \<Rightarrow> memory \<Rightarrow> credential outcome" where
  "CreateCredential uuid now c m =
     (let c = c\<lparr>cr_id := or_default (cr_id c) uuid,
                cr_created_at := or_default_time (cr_created_at c) now\<rparr>
      in (m\<lparr>creds := (creds m)(cr_id c \<mapsto> c)\<rparr>, Inr c))"

definition GetCredential :: "string \<Rightarrow> memory \<Rightarrow> credential result" where
  "GetCredential oid m = get_or ''credential'' (creds m) oid"

definition ListCredentials :: "string list \<Rightarrow> memory \<Rightarrow> credential list" where
  "ListCredentials ks m = sort_key cr_created_at (vals ks (creds m))"

definition DeleteCredential :: "string \<Rightarrow> memory \<Rightarrow> unit outcome" where
  "DeleteCredential oid m =
     (case creds m oid of
        None \<Rightarrow> (m, Inl (ErrNotFound ''credential'' oid))
      | Some _ \<Rightarrow> (m\<lparr>creds := (creds m)(oid := None)\<rparr>, Inr ()))"

section \<open>Rules\<close>

definition UpsertRule :: "rule_record \<Rightarrow> memory \<Rightarrow> unit outcome" where
  "UpsertRule r m = (m\<lparr>rules := (rules m)(r_id r \<mapsto> r)\<rparr>, Inr ())"

definition ListRules :: "string list \<Rightarrow> memory \<Rightarrow> rule_record list" where
  "ListRules ks m = sort_key r_id (vals ks (rules m))"

definition GetRule :: "string \<Rightarrow> memory \<Rightarrow> rule_record result" where
  "GetRule oid m = get_or ''rule'' (rules m) oid"

definition DeleteRule :: "string \<Rightarrow> memory \<Rightarrow> unit outcome" where
  "DeleteRule oid m =
     (case rules m oid of
        None \<Rightarrow> (m, Inl (ErrNotFound ''rule'' oid))
      | Some _ \<Rightarrow> (m\<lparr>rules := (rules m)(oid := None)\<rparr>, Inr ()))"

definition SetRuleEnabled :: "string \<Rightarrow> bool \<Rightarrow> memory \<Rightarrow> unit outcome" where
  "SetRuleEnabled oid enabled m =
     (case rules m oid of
        None \<Rightarrow> (m, Inl (ErrNotFound ''rule'' oid))
      | Some r \<Rightarrow> (m\<lparr>rules := (rules m)(oid \<mapsto> r\<lparr>r_enabled := enabled\<rparr>)\<rparr>, Inr ()))"

section \<open>Schedules\<close>

definition CreateSchedule :: "string \<Rightarrow> go_time \<Rightarrow> schedule \<Rightarrow> memory \<Rightarrow> schedule outcome" where
  "CreateSchedule uuid now s m =
     (let s = s\<lparr>sc_id := or_default (sc_id s) uuid,
                sc_created_at := or_default_time (sc_created_at s) now\<rparr>
      in (m\<lparr>schedules := (schedules m)(sc_id s \<mapsto> s)\<rparr>, Inr s))"

definition GetSchedule :: "string \<Rightarrow> memory \<Rightarrow> schedule result" where
  "GetSchedule oid m = get_or ''schedule'' (schedules m) oid"

definition ListSchedules :: "string list \<Rightarrow> memory \<Rightarrow> schedule list" where
  "ListSchedules ks m = sort_key sc_id (vals ks (schedules m))"

definition UpdateSchedule :: "schedule \<Rightarrow> memory \<Rightarrow> unit outcome" where
  "UpdateSchedule s m =
     (case schedules m (sc_id s) of
        None \<Rightarrow> (m, Inl (ErrNotFound ''schedule'' (sc_id s)))
      | Some _ \<Rightarrow> (m\<lparr>schedules := (schedules m)(sc_id s \<mapsto> s)\<rparr>, Inr ()))"

definition DeleteSchedule :: "string \<Rightarrow> memory \<Rightarrow> unit outcome" where
  "DeleteSchedule oid m = (m\<lparr>schedules := (schedules m)(oid := None)\<rparr>, Inr ())"

section \<open>Baselines and inventories\<close>

definition GetBaseline :: "string \<Rightarrow> memory \<Rightarrow> baseline result" where
  "GetBaseline hostID m = get_or ''baseline'' (baselines m) hostID"

definition SaveBaseline :: "go_time \<Rightarrow> baseline \<Rightarrow> memory \<Rightarrow> baseline outcome" where
  "SaveBaseline now b m =
     (let b = b\<lparr>b_created_at := or_default_time (b_created_at b) now\<rparr>
      in (m\<lparr>baselines := (baselines m)(b_host_id b \<mapsto> b)\<rparr>, Inr b))"

definition DeleteBaseline :: "string \<Rightarrow> memory \<Rightarrow> unit outcome" where
  "DeleteBaseline hostID m = (m\<lparr>baselines := (baselines m)(hostID := None)\<rparr>, Inr ())"

definition ListBaselines :: "string list \<Rightarrow> memory \<Rightarrow> baseline list" where
  "ListBaselines ks m = vals ks (baselines m)"

definition SaveInventory :: "go_time \<Rightarrow> inventory \<Rightarrow> memory \<Rightarrow> unit outcome" where
  "SaveInventory now inve m =
     (let c = inve\<lparr>i_updated_at := now\<rparr>
      in (m\<lparr>inventories := (inventories m)(i_host_id inve \<mapsto> c)\<rparr>, Inr ()))"

definition ListInventories :: "string list \<Rightarrow> memory \<Rightarrow> inventory list" where
  "ListInventories ks m = vals ks (inventories m)"

section \<open>Collections\<close>

definition CreateCollection :: "string \<Rightarrow> go_time \<Rightarrow> collection \<Rightarrow> memory \<Rightarrow> collection outcome" where
  "CreateCollection uuid now c m =
     (let c = c\<lparr>co_id := or_default (co_id c) uuid,
                co_created_at := or_default_time (co_created_at c) now\<rparr>;
          m = m\<lparr>colls := (colls m)(co_id c \<mapsto> c)\<rparr>;
          m = (case collMem m (co_id c) of
                 None \<Rightarrow> m\<lparr>collMem := (collMem m)(co_id c \<mapsto> Map.empty)\<rparr>
               | Some _ \<Rightarrow> m)
      in (m, Inr c))"

definition GetCollection :: "string \<Rightarrow> memory \<Rightarrow> collection result" where
  "GetCollection oid m = get_or ''collection'' (colls m) oid"

definition ListCollections :: "string list \<Rightarrow> memory \<Rightarrow> collection list" where
  "ListCollections ks m = sort_key co_id (vals ks (colls m))"

definition UpdateCollection :: "collection \<Rightarrow> memory \<Rightarrow> unit outcome" where
  "UpdateCollection c m =
     (case colls m (co_id c) of
        None \<Rightarrow> (m, Inl (ErrNotFound ''collection'' (co_id c)))
      | Some _ \<Rightarrow> (m\<lparr>colls := (colls m)(co_id c \<mapsto> c)\<rparr>, Inr ()))"

definition DeleteCollection :: "string \<Rightarrow> memory \<Rightarrow> unit outcome" where
  "DeleteCollection oid m =
     (m\<lparr>colls := (colls m)(oid := None), collMem := (collMem m)(oid := None)\<rparr>, Inr ())"

definition AddCollectionMember :: "string \<Rightarrow> string \<Rightarrow> memory \<Rightarrow> unit outcome" where
  "AddCollectionMember collectionID hostID m =
     (case colls m collectionID of
        None \<Rightarrow> (m, Inl (ErrNotFound ''collection'' collectionID))
      | Some _ \<Rightarrow>
          let mem = (case collMem m collectionID of None \<Rightarrow> Map.empty | Some s \<Rightarrow> s)
          in (m\<lparr>collMem := (collMem m)(collectionID \<mapsto> mem(hostID \<mapsto> True))\<rparr>, Inr ()))"

definition RemoveCollectionMember :: "string \<Rightarrow> string \<Rightarrow> memory \<Rightarrow> unit outcome" where
  "RemoveCollectionMember collectionID hostID m =
     (case collMem m collectionID of
        None \<Rightarrow> (m, Inr ())
      | Some mem \<Rightarrow> (m\<lparr>collMem := (collMem m)(collectionID \<mapsto> mem(hostID := None))\<rparr>, Inr ()))"

text \<open>
  The order argument \<open>ks\<close> is that of the map the branch taken ranges over: the hosts for a
  dynamic collection, the member set for a static one.
\<close>

definition CollectionHosts :: "string list \<Rightarrow> string \<Rightarrow> memory \<Rightarrow> host list result" where
  "CollectionHosts ks oid m =
     (case colls m oid of
        None \<Rightarrow> Inl (ErrNotFound ''collection'' oid)
      | Some c \<Rightarrow>
          Inr (sort_key h_id
            (if co_dynamic c
             then filter (\<lambda>h. tagsMatch (h_tags h) (co_match_tags c)) (vals ks (hosts m))
             else (case collMem m oid of
                     None \<Rightarrow> []
                   | Some mem \<Rightarrow> vals (map fst (entries ks mem)) (hosts m)))))"

section \<open>Scans\<close>

definition CreateScan :: "string \<Rightarrow> scan \<Rightarrow> memory \<Rightarrow> scan outcome" where
  "CreateScan uuid s m =
     (let s = s\<lparr>s_id := or_default (s_id s) uuid\<rparr>
      in (m\<lparr>scans := (scans m)(s_id s \<mapsto> s)\<rparr>, Inr s))"

definition UpdateScan :: "scan \<Rightarrow> memory \<Rightarrow> unit outcome" where
  "UpdateScan s m =
     (case scans m (s_id s) of
        None \<Rightarrow> (m, Inl (ErrNotFound ''scan'' (s_id s)))
      | Some _ \<Rightarrow> (m\<lparr>scans := (scans m)(s_id s \<mapsto> s)\<rparr>, Inr ()))"

definition GetScan :: "string \<Rightarrow> memory \<Rightarrow> scan result" where
  "GetScan oid m = get_or ''scan'' (scans m) oid"

definition ListScansByHost :: "string list \<Rightarrow> string \<Rightarrow> memory \<Rightarrow> scan list" where
  "ListScansByHost ks hostID m =
     sort_key (\<lambda>s. - s_started_at s) (filter (\<lambda>s. s_host_id s = hostID) (vals ks (scans m)))"

text \<open>A host as the API creates it, for the witnesses.\<close>

definition demo_host :: host where
  "demo_host = \<lparr>h_id = [], h_hostname = ''web'', h_primary_ip = ''10.0.0.1'', h_ssh_port = 22,
     h_credential_id = [], h_ssh_host_key = [], h_os_name = [], h_os_version = [], h_kernel = [],
     h_arch = [], h_mode = ''agentless'', h_status = StatusPending, h_tags = [], h_last_seen = None,
     h_created_at = 0\<rparr>"

end
