(* ===== verification/Tables.thy ===== *)
theory Tables
  imports Memory
begin

text \<open>
  The plain tables of the store. \<open>keyed_table\<close> is the contract their callers use (create
  under a fresh id, look up, delete, list in order), interpreted on the hosts, credentials,
  schedules and collections; \<open>tables_step\<close> is any call on these tables, with the facts that
  it leaves the other components of the state alone and keeps keys equal to ids.
\<close>

section \<open>The contract of a keyed table\<close>

locale keyed_table =
  fixes table :: "memory \<Rightarrow> string \<rightharpoonup> 'r"
    and key :: "'r \<Rightarrow> string"
    and rank :: "'r \<Rightarrow> 'o :: linorder"
    and create :: "string \<Rightarrow> go_time \<Rightarrow> 'r \<Rightarrow> memory \<Rightarrow> 'r outcome"
    and lookup :: "string \<Rightarrow> memory \<Rightarrow> 'r result"
    and remove :: "string \<Rightarrow> memory \<Rightarrow> unit outcome"
    and listing :: "string list \<Rightarrow> memory \<Rightarrow> 'r list"
  assumes create_ok: "key r = [] \<Longrightarrow> \<exists>m' r'. create uuid now r m = (m', Inr r') \<and> key r' = uuid \<and>
      table m' = (table m)(uuid \<mapsto> r')"
    and lookup_ok: "lookup i m = Inr r \<longleftrightarrow> table m i = Some r"
    and remove_table: "table (fst (remove i m)) = (table m)(i := None)"
    and listing_eq: "listing ks m = sort_key rank (vals ks (table m))"
begin

lemma create_lookup:
  assumes "key r = []" and "create uuid now r m = (m', res)"
  shows "\<exists>r'. res = Inr r' \<and> key r' = uuid \<and> lookup uuid m' = Inr r' \<and>
    (\<forall>i r. i \<noteq> uuid \<longrightarrow> lookup i m' = Inr r \<longleftrightarrow> lookup i m = Inr r)"
  using create_ok [OF assms(1), of uuid now m] assms(2) by (auto simp: lookup_ok)

lemma remove_lookup:
  "lookup i (fst (remove j m)) = Inr r \<longleftrightarrow> i \<noteq> j \<and> lookup i m = Inr r"
  by (simp add: lookup_ok remove_table)

lemma create_remove:
  assumes "key r = []" and "table m uuid = None"
  shows "table (fst (remove uuid (fst (create uuid now r m)))) = table m"
proof -
  obtain m' r' where "create uuid now r m = (m', Inr r')" "table m' = (table m)(uuid \<mapsto> r')"
    using create_ok [OF assms(1), of uuid now m] by blast
  with assms(2) show ?thesis by (simp add: remove_table fun_upd_idem)
qed

text \<open>A listing holds every row once, in order, whatever order the map is met in.\<close>

lemma listing_complete:
  assumes "iterates ks (table m)"
  shows "set (listing ks m) = ran (table m)" and "sorted (map rank (listing ks m))"
    and "length (listing ks m) = card (dom (table m))"
proof -
  show "set (listing ks m) = ran (table m)" by (simp add: listing_eq iterates_set_vals [OF assms])
  show "sorted (map rank (listing ks m))" by (simp add: listing_eq)
  show "length (listing ks m) = card (dom (table m))"
    using length_filter_vals [OF assms, of "\<lambda>_. True"] by (simp add: listing_eq dom_def)
qed

end

interpretation host_table: keyed_table hosts h_id h_created_at CreateHost GetHost DeleteHost ListHosts
  by unfold_locales
    (auto simp: CreateHost_def GetHost_def DeleteHost_def ListHosts_def Let_def fun_upd_idem split: option.split)

interpretation credential_table: keyed_table creds cr_id cr_created_at CreateCredential GetCredential
  DeleteCredential ListCredentials
  by unfold_locales
    (auto simp: CreateCredential_def GetCredential_def DeleteCredential_def ListCredentials_def Let_def
      fun_upd_idem split: option.split)

interpretation schedule_table: keyed_table schedules sc_id sc_id CreateSchedule GetSchedule
  DeleteSchedule ListSchedules
  by unfold_locales
    (auto simp: CreateSchedule_def GetSchedule_def DeleteSchedule_def ListSchedules_def Let_def)

interpretation collection_table: keyed_table colls co_id co_id CreateCollection GetCollection
  DeleteCollection ListCollections
  by unfold_locales
    (auto simp: CreateCollection_def GetCollection_def DeleteCollection_def ListCollections_def Let_def
      split: option.split)

section \<open>Steps of the plain tables\<close>

text \<open>The handlers create rows without an id and update under the id they read.\<close>

inductive tables_step :: "memory \<Rightarrow> memory \<Rightarrow> bool" where
  step_CreateHost: "h_id h = [] \<Longrightarrow> tables_step m (fst (CreateHost uuid now h m))"
| step_UpdateHost: "tables_step m (fst (UpdateHost h m))"
| step_SetHostOnline: "tables_step m (fst (SetHostOnline i t a b c d m))"
| step_SetHostUnreachable: "tables_step m (fst (SetHostUnreachable i m))"
| step_SetHostSSHHostKey: "tables_step m (fst (SetHostSSHHostKey i key m))"
| step_DeleteHost: "tables_step m (fst (DeleteHost i m))"
| step_CreateCredential: "cr_id c = [] \<Longrightarrow> tables_step m (fst (CreateCredential uuid now c m))"
| step_DeleteCredential: "tables_step m (fst (DeleteCredential i m))"
| step_UpsertRule: "tables_step m (fst (UpsertRule r m))"
| step_DeleteRule: "tables_step m (fst (DeleteRule i m))"
| step_SetRuleEnabled: "tables_step m (fst (SetRuleEnabled i en m))"
| step_CreateSchedule: "sc_id s = [] \<Longrightarrow> tables_step m (fst (CreateSchedule uuid now s m))"
| step_UpdateSchedule: "tables_step m (fst (UpdateSchedule s m))"
| step_DeleteSchedule: "tables_step m (fst (DeleteSchedule i m))"
| step_SaveBaseline: "tables_step m (fst (SaveBaseline now b m))"
| step_DeleteBaseline: "tables_step m (fst (DeleteBaseline i m))"
| step_SaveInventory: "tables_step m (fst (SaveInventory now inve m))"
| step_CreateCollection: "co_id c = [] \<Longrightarrow> tables_step m (fst (CreateCollection uuid now c m))"
| step_UpdateCollection: "tables_step m (fst (UpdateCollection c m))"
| step_DeleteCollection: "tables_step m (fst (DeleteCollection i m))"
| step_AddCollectionMember: "tables_step m (fst (AddCollectionMember i h m))"
| step_RemoveCollectionMember: "tables_step m (fst (RemoveCollectionMember i h m))"
| step_CreateScan: "s_id sc = [] \<Longrightarrow> tables_step m (fst (CreateScan uuid sc m))"
| step_UpdateScan: "tables_step m (fst (UpdateScan sc m))"

lemmas table_calls =
  CreateHost_def UpdateHost_def SetHostOnline_def SetHostUnreachable_def SetHostSSHHostKey_def
  DeleteHost_def CreateCredential_def DeleteCredential_def UpsertRule_def DeleteRule_def
  SetRuleEnabled_def CreateSchedule_def UpdateSchedule_def DeleteSchedule_def SaveBaseline_def
  DeleteBaseline_def SaveInventory_def CreateCollection_def UpdateCollection_def
  DeleteCollection_def AddCollectionMember_def RemoveCollectionMember_def CreateScan_def UpdateScan_def

text \<open>What such a call leaves alone.\<close>

lemma tables_step_frame:
  "tables_step m m' \<Longrightarrow> scanJobs m' = scanJobs m \<and> obs m' = obs m \<and> dedup m' = dedup m \<and>
     exports m' = exports m \<and> deliveries m' = deliveries m \<and> responses m' = responses m \<and>
     users m' = users m \<and> sessions m' = sessions m \<and> sensorTok m' = sensorTok m \<and>
     audit m' = audit m \<and> archive m' = archive m \<and>
     AllowSelfApproval m' = AllowSelfApproval m \<and> ReopenAfter m' = ReopenAfter m"
  by (erule tables_step.cases) (simp_all add: table_calls Let_def split: option.split)

text \<open>Every row of the plain tables is stored under its own id (its host for a baseline or an
  inventory), and the members of a collection exist exactly while the collection does.\<close>

definition tables_inv :: "memory \<Rightarrow> bool" where
  "tables_inv m \<longleftrightarrow>
     (\<forall>k h. hosts m k = Some h \<longrightarrow> h_id h = k) \<and> (\<forall>k c. creds m k = Some c \<longrightarrow> cr_id c = k) \<and>
     (\<forall>k r. rules m k = Some r \<longrightarrow> r_id r = k) \<and> (\<forall>k s. schedules m k = Some s \<longrightarrow> sc_id s = k) \<and>
     (\<forall>k b. baselines m k = Some b \<longrightarrow> b_host_id b = k) \<and>
     (\<forall>k i. inventories m k = Some i \<longrightarrow> i_host_id i = k) \<and>
     (\<forall>k c. colls m k = Some c \<longrightarrow> co_id c = k) \<and> dom (collMem m) = dom (colls m) \<and>
     (\<forall>k s. scans m k = Some s \<longrightarrow> s_id s = k)"

lemma tables_inv_New: "tables_inv NewMemory"
  by (simp add: tables_inv_def NewMemory_def)

lemma tables_inv_host:
  "tables_inv m \<Longrightarrow> h_id h = k \<Longrightarrow> tables_inv (m\<lparr>hosts := (hosts m)(k \<mapsto> h)\<rparr>)"
  by (simp add: tables_inv_def)

lemma tables_inv_SetHostOnline:
  assumes "tables_inv m"
  shows "tables_inv (fst (SetHostOnline i t a b c d m))"
proof (cases "hosts m i")
  case None
  with assms show ?thesis by (simp add: SetHostOnline_def)
next
  case (Some h)
  with assms have "h_id h = i" by (simp add: tables_inv_def)
  with Some assms show ?thesis
    by (simp add: SetHostOnline_def Let_def tables_inv_host if_distrib [of h_id] cong: if_cong)
qed

lemma tables_inv_collections:
  assumes "tables_inv m"
  shows "co_id c = [] \<Longrightarrow> tables_inv (fst (CreateCollection uuid now c m))"
    "tables_inv (fst (UpdateCollection c m))" "tables_inv (fst (DeleteCollection i m))"
    "tables_inv (fst (AddCollectionMember i h m))" "tables_inv (fst (RemoveCollectionMember i h m))"
proof -
  have "dom (collMem m) = dom (colls m)" using assms by (simp add: tables_inv_def)
  then have dom: "collMem m i = None \<longleftrightarrow> colls m i = None" for i by (metis domIff)
  show "co_id c = [] \<Longrightarrow> tables_inv (fst (CreateCollection uuid now c m))"
    using assms by (auto simp: tables_inv_def CreateCollection_def Let_def split: option.split)
  show "tables_inv (fst (UpdateCollection c m))"
    using assms by (auto simp: tables_inv_def UpdateCollection_def split: option.split)
  show "tables_inv (fst (DeleteCollection i m))"
    using assms by (auto simp: tables_inv_def DeleteCollection_def)
  show "tables_inv (fst (AddCollectionMember i h m))"
    using assms by (auto simp: tables_inv_def AddCollectionMember_def Let_def split: option.split)
  show "tables_inv (fst (RemoveCollectionMember i h m))"
    using assms dom [of i] by (auto simp: tables_inv_def RemoveCollectionMember_def split: option.split)
qed

lemma tables_step_inv: "tables_step m m' \<Longrightarrow> tables_inv m \<Longrightarrow> tables_inv m'"
  by (induction rule: tables_step.induct)
    (simp_all add: tables_inv_collections tables_inv_SetHostOnline,
     simp_all add: tables_inv_def table_calls Let_def split: option.split)

end
