(* ===== verification/Lease.thy ===== *)
theory Lease
  imports Memory
begin

text \<open>
  The contract the three work queues of the store share (scan jobs, export deliveries,
  response actions): a worker claims a row under a lease, may renew it, and finishes it; a
  row whose lease has run out may be claimed by another worker. The queues are the
  operations of the locale \<open>leased_table\<close>; its lemmas are what the workers rely on, proved
  once for the three of them.

  \<open>lease_run\<close> is a history of queue calls by any number of workers, one atomic call after
  the other.
\<close>

section \<open>Histories of queue calls\<close>

datatype 'f lease_op =
    LeaseClaim "string list" string go_time duration
  | LeaseRenew go_time string string go_time
  | LeaseFinish 'f string string

fun lease_step ::
  "(string list \<Rightarrow> string \<Rightarrow> go_time \<Rightarrow> duration \<Rightarrow> memory \<Rightarrow> 'j outcome) \<Rightarrow>
   (go_time \<Rightarrow> string \<Rightarrow> string \<Rightarrow> go_time \<Rightarrow> memory \<Rightarrow> unit outcome) \<Rightarrow>
   ('f \<Rightarrow> string \<Rightarrow> string \<Rightarrow> memory \<Rightarrow> unit outcome) \<Rightarrow>
   'f lease_op \<Rightarrow> memory \<Rightarrow> memory" where
  "lease_step claim renew finish (LeaseClaim ks w now l) m = fst (claim ks w now l m)"
| "lease_step claim renew finish (LeaseRenew now k w t) m = fst (renew now k w t m)"
| "lease_step claim renew finish (LeaseFinish f k w) m = fst (finish f k w m)"

fun lease_run ::
  "(string list \<Rightarrow> string \<Rightarrow> go_time \<Rightarrow> duration \<Rightarrow> memory \<Rightarrow> 'j outcome) \<Rightarrow>
   (go_time \<Rightarrow> string \<Rightarrow> string \<Rightarrow> go_time \<Rightarrow> memory \<Rightarrow> unit outcome) \<Rightarrow>
   ('f \<Rightarrow> string \<Rightarrow> string \<Rightarrow> memory \<Rightarrow> unit outcome) \<Rightarrow>
   'f lease_op list \<Rightarrow> memory \<Rightarrow> memory" where
  "lease_run claim renew finish [] m = m"
| "lease_run claim renew finish (c # cs) m =
     lease_run claim renew finish cs (lease_step claim renew finish c m)"

text \<open>
  \<open>leaves_alone k w until\<close>: the call is not one of worker \<open>w\<close>'s own calls on row \<open>k\<close>, and a
  claim happens before the instant \<open>until\<close>.
\<close>

fun leaves_alone :: "string \<Rightarrow> string \<Rightarrow> go_time \<Rightarrow> 'f lease_op \<Rightarrow> bool" where
  "leaves_alone k w t (LeaseClaim ks w' now l) \<longleftrightarrow> now < t"
| "leaves_alone k w t (LeaseRenew now k' w' t') \<longleftrightarrow> \<not> (k' = k \<and> w' = w)"
| "leaves_alone k w t (LeaseFinish f k' w') \<longleftrightarrow> \<not> (k' = k \<and> w' = w)"

section \<open>The contract\<close>

locale leased_table =
  fixes table :: "memory \<Rightarrow> string \<rightharpoonup> 'j"
    and running :: "'j \<Rightarrow> bool"
    and holder :: "'j \<Rightarrow> string"
    and until :: "'j \<Rightarrow> go_time option"
    and waiting :: "memory \<Rightarrow> go_time \<Rightarrow> 'j \<Rightarrow> bool"
    and claim :: "string list \<Rightarrow> string \<Rightarrow> go_time \<Rightarrow> duration \<Rightarrow> memory \<Rightarrow> 'j outcome"
    and renew :: "go_time \<Rightarrow> string \<Rightarrow> string \<Rightarrow> go_time \<Rightarrow> memory \<Rightarrow> unit outcome"
    and finish :: "'f \<Rightarrow> string \<Rightarrow> string \<Rightarrow> memory \<Rightarrow> unit outcome"
  assumes claim_ok: "claim ks w now l m = (m', Inr j) \<Longrightarrow>
      \<exists>k j0. k \<in> set ks \<and> table m k = Some j0 \<and>
        (waiting m now j0 \<or> running j0 \<and> (\<exists>t. until j0 = Some t \<and> t \<le> now)) \<and>
        table m' = (table m)(k \<mapsto> j) \<and> running j \<and> holder j = w \<and> until j = Some (now + l)"
    and claim_err: "claim ks w now l m = (m', Inl e) \<Longrightarrow> m' = m"
    and waiting_not_running: "waiting m now j \<Longrightarrow> \<not> running j"
    and renew_ok: "renew now k w t m = (m', Inr ()) \<Longrightarrow>
      \<exists>j j'. table m k = Some j \<and> running j \<and> holder j = w \<and>
        table m' = (table m)(k \<mapsto> j') \<and> running j' \<and> holder j' = w \<and> until j' = Some t"
    and renew_err: "renew now k w t m = (m', Inl e) \<Longrightarrow> m' = m"
    and finish_ok: "finish f k w m = (m', Inr ()) \<Longrightarrow>
      \<exists>j j'. table m k = Some j \<and> running j \<and> holder j = w \<and>
        table m' = (table m)(k \<mapsto> j') \<and> \<not> running j'"
    and finish_err: "finish f k w m = (m', Inl e) \<Longrightarrow> m' = m"
    and finish_owned: "table m k = Some j \<Longrightarrow> running j \<Longrightarrow> holder j = w \<Longrightarrow>
      \<exists>m'. finish f k w m = (m', Inr ())"
begin

text \<open>A row under a live lease is not claimed: the claim takes another row or fails.\<close>

lemma claim_respects_lease:
  assumes "table m k = Some j" and "running j" and "until j = Some t" and "now < t"
  shows "table (fst (claim ks w now l m)) k = Some j"
proof (cases "claim ks w now l m")
  case (Pair m' r)
  show ?thesis
  proof (cases r)
    case (Inl e)
    with Pair assms(1) show ?thesis by (auto dest: claim_err)
  next
    case (Inr j')
    with Pair have "claim ks w now l m = (m', Inr j')" by simp
    from claim_ok [OF this] obtain k' j0 where k': "table m k' = Some j0"
      "waiting m now j0 \<or> running j0 \<and> (\<exists>t. until j0 = Some t \<and> t \<le> now)"
      "table m' = (table m)(k' \<mapsto> j')" by blast
    have "k' \<noteq> k" using k'(1,2) assms by (auto dest: waiting_not_running)
    with k' Pair assms(1) show ?thesis by simp
  qed
qed

lemma renew_other:
  assumes "table m k = Some j" and "\<not> (k' = k \<and> w' = holder j)"
  shows "table (fst (renew now k' w' t m)) k = Some j"
proof (cases "renew now k' w' t m")
  case (Pair m' r)
  show ?thesis
  proof (cases r)
    case (Inl e)
    with Pair assms(1) show ?thesis by (auto dest: renew_err)
  next
    case (Inr u)
    with Pair renew_ok [of now k' w' t m m'] assms show ?thesis by auto
  qed
qed

lemma finish_other:
  assumes "table m k = Some j" and "\<not> (k' = k \<and> w' = holder j)"
  shows "table (fst (finish f k' w' m)) k = Some j"
proof (cases "finish f k' w' m")
  case (Pair m' r)
  show ?thesis
  proof (cases r)
    case (Inl e)
    with Pair assms(1) show ?thesis by (auto dest: finish_err)
  next
    case (Inr u)
    with Pair finish_ok [of f k' w' m m'] assms show ?thesis by auto
  qed
qed

text \<open>While its lease lasts, nothing the other workers do touches the holder's row.\<close>

lemma lease_exclusive:
  assumes "table m k = Some j" and "running j" and "until j = Some t"
    and "list_all (leaves_alone k (holder j) t) cs"
  shows "table (lease_run claim renew finish cs m) k = Some j"
  using assms
proof (induction cs arbitrary: m)
  case Nil
  then show ?case by simp
next
  case (Cons c cs)
  have "table (lease_step claim renew finish c m) k = Some j"
  proof (cases c)
    case (LeaseClaim ks w' now l)
    with Cons.prems show ?thesis by (simp add: claim_respects_lease)
  next
    case (LeaseRenew now k' w' t')
    with Cons.prems show ?thesis by (simp add: renew_other)
  next
    case (LeaseFinish f k' w')
    with Cons.prems show ?thesis by (simp add: finish_other)
  qed
  with Cons show ?case by simp
qed

text \<open>So the holder's own finish, made after any such history, is accepted.\<close>

lemma holder_finishes:
  assumes "table m k = Some j" and "running j" and "until j = Some t"
    and "list_all (leaves_alone k (holder j) t) cs"
  shows "\<exists>m'. finish f k (holder j) (lease_run claim renew finish cs m) = (m', Inr ())"
  using lease_exclusive [OF assms] assms(2) finish_owned by blast

text \<open>Once another worker has claimed the row, the former holder's calls are refused.\<close>

lemma claim_dispossesses:
  assumes "claim ks w now l m = (m', Inr j)" and "w' \<noteq> w"
  shows "\<exists>k. table m' k = Some j \<and> (\<exists>e. finish f k w' m' = (m', Inl e)) \<and>
    (\<exists>e. renew now' k w' t m' = (m', Inl e))"
proof -
  from claim_ok [OF assms(1)] obtain k where k': "table m' = (table m)(k \<mapsto> j)"
    and kj: "running j" "holder j = w" by blast
  then have k: "table m' k = Some j" "running j" "holder j = w" by simp_all
  have "\<exists>e. finish f k w' m' = (m', Inl e)"
  proof (cases "finish f k w' m'")
    case (Pair m'' r)
    with k assms(2) show ?thesis
      by (cases r) (auto dest: finish_err dest!: finish_ok [of f k w' m' m''])
  qed
  moreover have "\<exists>e. renew now' k w' t m' = (m', Inl e)"
  proof (cases "renew now' k w' t m'")
    case (Pair m'' r)
    with k assms(2) show ?thesis
      by (cases r) (auto dest: renew_err dest!: renew_ok [of now' k w' t m' m''])
  qed
  ultimately show ?thesis using k(1) by blast
qed

text \<open>A finished row is not finished twice.\<close>

lemma finish_once:
  assumes "finish f k w m = (m', Inr ())"
  shows "\<exists>e. finish f' k w' m' = (m', Inl e)"
proof (cases "finish f' k w' m'")
  case (Pair m'' r)
  with finish_ok [OF assms] show ?thesis
    by (cases r) (auto dest: finish_err dest!: finish_ok [of f' k w' m' m''])
qed

end

end
