(* ===== verification/ScanJobs.thy ===== *)
theory ScanJobs
  imports Lease
begin

text \<open>
  The durable scan jobs of the in-memory store: \<open>EnqueueScanJob\<close>, \<open>ClaimScanJob\<close>,
  \<open>RenewScanJobLease\<close>, \<open>CompleteScanJob\<close>, \<open>FailScanJob\<close> and the two readers, the invariant
  of the table (one active job to a host, a lease exactly on the running jobs) and the
  interpretation of the lease contract.
\<close>

section \<open>Operations\<close>

definition job_active :: "scan_job \<Rightarrow> bool" where
  "job_active j \<longleftrightarrow> sj_status j = ScanJobQueued \<or> sj_status j = ScanJobRunning"

text \<open>The row a new job becomes: the defaults the method fills in.\<close>

definition job_defaults :: "string \<Rightarrow> go_time \<Rightarrow> scan_job \<Rightarrow> scan_job" where
  "job_defaults uuid now job = job\<lparr>
     sj_id := or_default (sj_id job) uuid,
     sj_status := or_default (sj_status job) ScanJobQueued,
     sj_max_attempts := (if sj_max_attempts job \<le> 0 then 3 else sj_max_attempts job),
     sj_next_attempt_at := or_default_time (sj_next_attempt_at job) now,
     sj_created_at := or_default_time (sj_created_at job) now,
     sj_updated_at := now\<rparr>"

definition EnqueueScanJob ::
  "string list \<Rightarrow> string \<Rightarrow> go_time \<Rightarrow> scan_job \<Rightarrow> memory \<Rightarrow> scan_job outcome" where
  "EnqueueScanJob ks uuid now job m =
     (case hosts m (sj_host_id job) of
        None \<Rightarrow> (m, Inl (ErrNotFound ''host'' (sj_host_id job)))
      | Some _ \<Rightarrow>
          (case find (\<lambda>ex. sj_host_id ex = sj_host_id job \<and> job_active ex) (vals ks (scanJobs m)) of
             Some existing \<Rightarrow> (m, Inr existing)
           | None \<Rightarrow>
               let job = job_defaults uuid now job
               in (m\<lparr>scanJobs := (scanJobs m)(sj_id job \<mapsto> job)\<rparr>, Inr job)))"

definition GetScanJob :: "string \<Rightarrow> memory \<Rightarrow> scan_job result" where
  "GetScanJob oid m = get_or ''scan job'' (scanJobs m) oid"

definition ListScanJobs :: "string list \<Rightarrow> string \<Rightarrow> int \<Rightarrow> memory \<Rightarrow> scan_job list" where
  "ListScanJobs ks hostID limit m =
     limited limit (sort_key (\<lambda>j. - sj_created_at j)
       (filter (\<lambda>j. hostID = [] \<or> sj_host_id j = hostID) (vals ks (scanJobs m))))"

definition job_waiting :: "go_time \<Rightarrow> scan_job \<Rightarrow> bool" where
  "job_waiting now j \<longleftrightarrow> sj_status j = ScanJobQueued \<and> \<not> sj_next_attempt_at j > now"

definition job_expired :: "go_time \<Rightarrow> scan_job \<Rightarrow> bool" where
  "job_expired now j \<longleftrightarrow> sj_status j = ScanJobRunning \<and>
     (case sj_lease_until j of None \<Rightarrow> False | Some t \<Rightarrow> \<not> t > now)"

definition ClaimScanJob ::
  "string list \<Rightarrow> string \<Rightarrow> go_time \<Rightarrow> duration \<Rightarrow> memory \<Rightarrow> scan_job outcome" where
  "ClaimScanJob ks workerID now lease m =
     (case sort_key (\<lambda>e. sj_created_at (snd e))
             (filter (\<lambda>e. job_waiting now (snd e) \<or> job_expired now (snd e))
               (entries ks (scanJobs m))) of
        [] \<Rightarrow> (m, Inl (ErrNotFound ''scan job'' ''claimable''))
      | (k, j) # _ \<Rightarrow>
          let j = j\<lparr>sj_status := ScanJobRunning, sj_worker_id := workerID,
                    sj_lease_until := Some (now + lease),
                    sj_attempts := sj_attempts j + 1, sj_updated_at := now\<rparr>
          in (m\<lparr>scanJobs := (scanJobs m)(k \<mapsto> j)\<rparr>, Inr j))"

text \<open>The guard of the three calls a worker makes on a job it holds.\<close>

definition owned_job :: "string \<Rightarrow> string \<Rightarrow> memory \<Rightarrow> scan_job option" where
  "owned_job oid workerID m =
     (case scanJobs m oid of
        None \<Rightarrow> None
      | Some j \<Rightarrow> if sj_status j \<noteq> ScanJobRunning \<or> sj_worker_id j \<noteq> workerID then None else Some j)"

definition RenewScanJobLease ::
  "go_time \<Rightarrow> string \<Rightarrow> string \<Rightarrow> go_time \<Rightarrow> memory \<Rightarrow> unit outcome" where
  "RenewScanJobLease now oid workerID t m =
     (case owned_job oid workerID m of
        None \<Rightarrow> (m, Inl (ErrNotFound ''owned scan job'' oid))
      | Some j \<Rightarrow>
          (m\<lparr>scanJobs := (scanJobs m)(oid \<mapsto> j\<lparr>sj_lease_until := Some t, sj_updated_at := now\<rparr>)\<rparr>,
           Inr ()))"

definition CompleteScanJob ::
  "go_time \<Rightarrow> string \<Rightarrow> string \<Rightarrow> string \<Rightarrow> memory \<Rightarrow> unit outcome" where
  "CompleteScanJob now oid workerID scanID m =
     (case owned_job oid workerID m of
        None \<Rightarrow> (m, Inl (ErrNotFound ''owned scan job'' oid))
      | Some j \<Rightarrow>
          (m\<lparr>scanJobs := (scanJobs m)(oid \<mapsto>
             j\<lparr>sj_status := ScanJobSucceeded, sj_scan_id := scanID, sj_error := [],
               sj_worker_id := [], sj_lease_until := None, sj_updated_at := now\<rparr>)\<rparr>, Inr ()))"

definition FailScanJob ::
  "go_time \<Rightarrow> string \<Rightarrow> string \<Rightarrow> string \<Rightarrow> go_time \<Rightarrow> bool \<Rightarrow> memory \<Rightarrow> unit outcome" where
  "FailScanJob now oid workerID message retryAt terminal m =
     (case owned_job oid workerID m of
        None \<Rightarrow> (m, Inl (ErrNotFound ''owned scan job'' oid))
      | Some j \<Rightarrow>
          let j = (if terminal then j\<lparr>sj_status := ScanJobFailed\<rparr>
                   else j\<lparr>sj_status := ScanJobQueued, sj_next_attempt_at := retryAt\<rparr>);
              j = j\<lparr>sj_error := message, sj_worker_id := [], sj_lease_until := None,
                    sj_updated_at := now\<rparr>
          in (m\<lparr>scanJobs := (scanJobs m)(oid \<mapsto> j)\<rparr>, Inr ()))"

section \<open>The calls, branch by branch\<close>

lemma owned_job_Some:
  "owned_job k w m = Some j \<longleftrightarrow>
   scanJobs m k = Some j \<and> sj_status j = ScanJobRunning \<and> sj_worker_id j = w"
  by (auto simp: owned_job_def split: option.splits if_splits)

definition claimable_jobs :: "string list \<Rightarrow> go_time \<Rightarrow> memory \<Rightarrow> (string \<times> scan_job) list" where
  "claimable_jobs ks now m = sort_key (\<lambda>e. sj_created_at (snd e))
     (filter (\<lambda>e. job_waiting now (snd e) \<or> job_expired now (snd e)) (entries ks (scanJobs m)))"

definition claimed_job :: "string \<Rightarrow> go_time \<Rightarrow> duration \<Rightarrow> scan_job \<Rightarrow> scan_job" where
  "claimed_job w now l j = j\<lparr>sj_status := ScanJobRunning, sj_worker_id := w,
     sj_lease_until := Some (now + l), sj_attempts := sj_attempts j + 1, sj_updated_at := now\<rparr>"

lemma claimed_job_simps [simp]:
  "sj_id (claimed_job w now l j) = sj_id j" "sj_host_id (claimed_job w now l j) = sj_host_id j"
  "sj_status (claimed_job w now l j) = ScanJobRunning" "sj_worker_id (claimed_job w now l j) = w"
  "sj_lease_until (claimed_job w now l j) = Some (now + l)"
  "sj_attempts (claimed_job w now l j) = sj_attempts j + 1"
  "sj_created_at (claimed_job w now l j) = sj_created_at j"
  "sj_max_attempts (claimed_job w now l j) = sj_max_attempts j"
  by (simp_all add: claimed_job_def)

lemma in_claimable_jobs:
  "(k, j) \<in> set (claimable_jobs ks now m) \<longleftrightarrow>
   k \<in> set ks \<and> scanJobs m k = Some j \<and> (job_waiting now j \<or> job_expired now j)"
  by (auto simp: claimable_jobs_def in_entries_iff)

lemma ClaimScanJob_eq:
  "ClaimScanJob ks w now l m =
     (case claimable_jobs ks now m of
        [] \<Rightarrow> (m, Inl (ErrNotFound ''scan job'' ''claimable''))
      | e # _ \<Rightarrow> (m\<lparr>scanJobs := (scanJobs m)(fst e \<mapsto> claimed_job w now l (snd e))\<rparr>,
                 Inr (claimed_job w now l (snd e))))"
  by (simp add: ClaimScanJob_def claimable_jobs_def claimed_job_def Let_def
      split: list.split prod.split)

lemma Claim_err: "ClaimScanJob ks w now l m = (m', Inl e) \<Longrightarrow> m' = m"
  by (cases "claimable_jobs ks now m") (simp_all add: ClaimScanJob_eq)

lemma Claim_ok:
  assumes "ClaimScanJob ks w now l m = (m', Inr j)"
  shows "\<exists>k j0. k \<in> set ks \<and> scanJobs m k = Some j0 \<and> (job_waiting now j0 \<or> job_expired now j0) \<and>
    (\<forall>k' \<in> set ks. \<forall>j'. scanJobs m k' = Some j' \<longrightarrow> job_waiting now j' \<or> job_expired now j' \<longrightarrow>
       sj_created_at j0 \<le> sj_created_at j') \<and>
    m' = m\<lparr>scanJobs := (scanJobs m)(k \<mapsto> j)\<rparr> \<and> j = claimed_job w now l j0"
proof -
  obtain e rest where s: "claimable_jobs ks now m = e # rest"
    using assms by (cases "claimable_jobs ks now m") (simp_all add: ClaimScanJob_eq)
  obtain k j0 where e: "e = (k, j0)" by (cases e)
  have 1: "k \<in> set ks \<and> scanJobs m k = Some j0 \<and> (job_waiting now j0 \<or> job_expired now j0)"
    using in_claimable_jobs [of k j0 ks now m] s e by simp
  have 2: "sj_created_at j0 \<le> sj_created_at j'"
    if "k' \<in> set ks" "scanJobs m k' = Some j'" "job_waiting now j' \<or> job_expired now j'" for k' j'
    using sort_key_first(2) [OF s [unfolded claimable_jobs_def], of "(k', j')"] that e
    by (auto simp: in_entries_iff)
  from assms s e have "m' = m\<lparr>scanJobs := (scanJobs m)(k \<mapsto> j)\<rparr> \<and> j = claimed_job w now l j0"
    by (auto simp: ClaimScanJob_eq)
  with 1 2 show ?thesis by blast
qed

text \<open>A claim misses only when no job of the table is waiting or expired.\<close>

lemma Claim_none:
  assumes "ClaimScanJob ks w now l m = (m', Inl e)" and "k \<in> set ks" and "scanJobs m k = Some j"
  shows "\<not> job_waiting now j \<and> \<not> job_expired now j"
proof -
  have "claimable_jobs ks now m = []"
    using assms(1) by (cases "claimable_jobs ks now m") (simp_all add: ClaimScanJob_eq)
  then show ?thesis using in_claimable_jobs [of k j ks now m] assms(2,3) by simp
qed

lemma job_defaults_simps [simp]:
  "sj_id (job_defaults uuid now job) = or_default (sj_id job) uuid"
  "sj_host_id (job_defaults uuid now job) = sj_host_id job"
  "sj_status (job_defaults uuid now job) = or_default (sj_status job) ScanJobQueued"
  "sj_lease_until (job_defaults uuid now job) = sj_lease_until job"
  "sj_attempts (job_defaults uuid now job) = sj_attempts job"
  "sj_worker_id (job_defaults uuid now job) = sj_worker_id job"
  "0 < sj_max_attempts (job_defaults uuid now job)"
  by (simp_all add: job_defaults_def)

lemma Enqueue_cases:
  assumes "EnqueueScanJob ks uuid now job m = (m', r)"
  obtains (no_host) "hosts m (sj_host_id job) = None" "m' = m"
      "r = Inl (ErrNotFound ''host'' (sj_host_id job))"
    | (existing) k j where "k \<in> set ks" "scanJobs m k = Some j" "sj_host_id j = sj_host_id job"
      "job_active j" "m' = m" "r = Inr j"
    | (fresh)
      "\<And>k j'. k \<in> set ks \<Longrightarrow> scanJobs m k = Some j' \<Longrightarrow> sj_host_id j' = sj_host_id job \<Longrightarrow> \<not> job_active j'"
      "r = Inr (job_defaults uuid now job)"
      "m' = m\<lparr>scanJobs := (scanJobs m)(or_default (sj_id job) uuid \<mapsto> job_defaults uuid now job)\<rparr>"
proof (cases "hosts m (sj_host_id job)")
  case None
  with assms show ?thesis by (intro no_host) (auto simp: EnqueueScanJob_def)
next
  case (Some h)
  let ?P = "\<lambda>ex. sj_host_id ex = sj_host_id job \<and> job_active ex"
  show ?thesis
  proof (cases "find ?P (vals ks (scanJobs m))")
    case None
    then have "\<And>k j'. k \<in> set ks \<Longrightarrow> scanJobs m k = Some j' \<Longrightarrow> sj_host_id j' = sj_host_id job \<Longrightarrow> \<not> job_active j'"
      by (auto simp: find_None_iff set_vals)
    moreover have "m' = m\<lparr>scanJobs := (scanJobs m)(or_default (sj_id job) uuid \<mapsto> job_defaults uuid now job)\<rparr>"
      "r = Inr (job_defaults uuid now job)"
      using assms Some None by (auto simp: EnqueueScanJob_def Let_def job_defaults_simps)
    ultimately show ?thesis by (intro fresh)
  next
    case (Some ex)
    then have "ex \<in> set (vals ks (scanJobs m))" "?P ex"
      by (auto simp: find_Some_iff dest: nth_mem)
    then obtain k where "k \<in> set ks" "scanJobs m k = Some ex" "?P ex"
      by (auto simp: set_vals)
    with assms Some \<open>hosts m _ = Some h\<close> show ?thesis
      by (intro existing [of k ex]) (auto simp: EnqueueScanJob_def)
  qed
qed

section \<open>The lease contract\<close>

text \<open>The two ways a worker ends its work on a job.\<close>

datatype job_finish = JobComplete go_time string | JobFail go_time string go_time bool

fun finish_job :: "job_finish \<Rightarrow> string \<Rightarrow> string \<Rightarrow> memory \<Rightarrow> unit outcome" where
  "finish_job (JobComplete now scanID) k w m = CompleteScanJob now k w scanID m"
| "finish_job (JobFail now msg retryAt terminal) k w m = FailScanJob now k w msg retryAt terminal m"

abbreviation job_lease_run :: "job_finish lease_op list \<Rightarrow> memory \<Rightarrow> memory" where
  "job_lease_run \<equiv> lease_run ClaimScanJob RenewScanJobLease finish_job"

lemma finish_job_ok:
  "finish_job f k w m = (m', Inr ()) \<Longrightarrow>
   \<exists>j j'. owned_job k w m = Some j \<and> m' = m\<lparr>scanJobs := (scanJobs m)(k \<mapsto> j')\<rparr> \<and>
     sj_status j' \<in> {ScanJobSucceeded, ScanJobFailed, ScanJobQueued} \<and> sj_lease_until j' = None \<and>
     sj_id j' = sj_id j \<and> sj_host_id j' = sj_host_id j \<and> sj_attempts j' = sj_attempts j \<and>
     sj_max_attempts j' = sj_max_attempts j \<and> sj_worker_id j' = []"
  by (cases f) (auto simp: CompleteScanJob_def FailScanJob_def Let_def split: option.splits if_splits)

lemma finish_job_err: "finish_job f k w m = (m', Inl e) \<Longrightarrow> m' = m"
  by (cases f) (auto simp: CompleteScanJob_def FailScanJob_def Let_def split: option.splits if_splits)

lemma finish_job_owned: "owned_job k w m = Some j \<Longrightarrow> \<exists>m'. finish_job f k w m = (m', Inr ())"
  by (cases f) (auto simp: CompleteScanJob_def FailScanJob_def Let_def)

interpretation job_lease: leased_table scanJobs "\<lambda>j. sj_status j = ScanJobRunning" sj_worker_id
  sj_lease_until "\<lambda>m. job_waiting" ClaimScanJob RenewScanJobLease finish_job
proof (unfold_locales, goal_cases)
  case (1 ks w now l m m' j)
  from Claim_ok [OF 1] show ?case
    by (fastforce simp: job_expired_def split: option.splits)
next
  case 2 then show ?case by (rule Claim_err)
next
  case 3 then show ?case by (simp add: job_waiting_def)
next
  case 4 then show ?case
    by (auto simp: RenewScanJobLease_def owned_job_Some split: option.splits)
next
  case 5 then show ?case by (auto simp: RenewScanJobLease_def split: option.splits)
next
  case (6 f k w m m')
  then obtain j j' where "owned_job k w m = Some j" "m' = m\<lparr>scanJobs := (scanJobs m)(k \<mapsto> j')\<rparr>"
    "sj_status j' \<noteq> ScanJobRunning" using finish_job_ok [of f k w m m'] by auto
  then show ?case by (intro exI [of _ j] exI [of _ j']) (simp add: owned_job_Some)
next
  case 7 then show ?case by (rule finish_job_err)
next
  case 8 then show ?case by (auto intro: finish_job_owned simp: owned_job_Some)
qed

section \<open>The invariant of the table\<close>

definition job_row_ok :: "string \<Rightarrow> scan_job \<Rightarrow> bool" where
  "job_row_ok k j \<longleftrightarrow> sj_id j = k \<and>
     sj_status j \<in> {ScanJobQueued, ScanJobRunning, ScanJobSucceeded, ScanJobFailed} \<and>
     (sj_status j = ScanJobRunning \<longleftrightarrow> sj_lease_until j \<noteq> None) \<and>
     0 \<le> sj_attempts j \<and> 0 < sj_max_attempts j"

definition jobs_inv :: "memory \<Rightarrow> bool" where
  "jobs_inv m \<longleftrightarrow> (\<forall>k j. scanJobs m k = Some j \<longrightarrow> job_row_ok k j) \<and>
     (\<forall>k1 k2 j1 j2. scanJobs m k1 = Some j1 \<longrightarrow> scanJobs m k2 = Some j2 \<longrightarrow>
        job_active j1 \<longrightarrow> job_active j2 \<longrightarrow> sj_host_id j1 = sj_host_id j2 \<longrightarrow> k1 = k2)"

text \<open>One step of the table, by any caller. \<open>Enqueue\<close> in \<open>queue.go\<close> is the only producer of jobs:
  it leaves the id, the attempts and the lease unset and asks for the status queued; a uuid
  the library returns is not the key of an earlier job.\<close>

inductive jobs_step :: "memory \<Rightarrow> memory \<Rightarrow> bool" where
  jobs_enqueue: "iterates ks (scanJobs m) \<Longrightarrow> scanJobs m uuid = None \<Longrightarrow> sj_id job = [] \<Longrightarrow>
     sj_status job = ScanJobQueued \<Longrightarrow> sj_lease_until job = None \<Longrightarrow> sj_attempts job = 0 \<Longrightarrow>
     jobs_step m (fst (EnqueueScanJob ks uuid now job m))"
| jobs_claim: "iterates ks (scanJobs m) \<Longrightarrow> jobs_step m (fst (ClaimScanJob ks w now l m))"
| jobs_renew: "jobs_step m (fst (RenewScanJobLease now k w t m))"
| jobs_finish: "jobs_step m (fst (finish_job f k w m))"

lemma jobs_inv_upd:
  assumes inve: "jobs_inv m" and old: "scanJobs m k = Some j0" and row: "job_row_ok k j"
    and host: "sj_host_id j = sj_host_id j0" and act: "job_active j \<Longrightarrow> job_active j0"
  shows "jobs_inv (m\<lparr>scanJobs := (scanJobs m)(k \<mapsto> j)\<rparr>)"
  unfolding jobs_inv_def
proof (intro conjI allI impI)
  fix k' j' assume "scanJobs (m\<lparr>scanJobs := (scanJobs m)(k \<mapsto> j)\<rparr>) k' = Some j'"
  with inve row show "job_row_ok k' j'" by (auto simp: jobs_inv_def split: if_splits)
next
  fix k1 k2 j1 j2
  assume a: "scanJobs (m\<lparr>scanJobs := (scanJobs m)(k \<mapsto> j)\<rparr>) k1 = Some j1"
    "scanJobs (m\<lparr>scanJobs := (scanJobs m)(k \<mapsto> j)\<rparr>) k2 = Some j2"
    "job_active j1" "job_active j2" "sj_host_id j1 = sj_host_id j2"
  have u: "k1 = k2" if "scanJobs m k1 = Some i1" "scanJobs m k2 = Some i2" "job_active i1"
    "job_active i2" "sj_host_id i1 = sj_host_id i2" for i1 i2 k1 k2
    using inve that unfolding jobs_inv_def by blast
  consider "k1 = k" "k2 = k" | "k1 = k" "k2 \<noteq> k" | "k1 \<noteq> k" "k2 = k" | "k1 \<noteq> k" "k2 \<noteq> k" by blast
  then show "k1 = k2"
  proof cases
    case 1 then show ?thesis by simp
  next
    case 2
    with a have "scanJobs m k2 = Some j2" "j1 = j" by simp_all
    with u [OF old this(1)] a act host 2 show ?thesis by simp
  next
    case 3
    with a have "scanJobs m k1 = Some j1" "j2 = j" by simp_all
    with u [OF this(1) old] a act host 3 show ?thesis by simp
  next
    case 4
    with a u show ?thesis by simp
  qed
qed

lemma jobs_inv_insert:
  assumes inve: "jobs_inv m" and row: "job_row_ok k j"
    and none: "\<And>k' j'. scanJobs m k' = Some j' \<Longrightarrow> sj_host_id j' = sj_host_id j \<Longrightarrow> \<not> job_active j'"
  shows "jobs_inv (m\<lparr>scanJobs := (scanJobs m)(k \<mapsto> j)\<rparr>)"
  using inve row none unfolding jobs_inv_def by (simp split: if_splits) metis

lemma jobs_inv_row: "jobs_inv m \<Longrightarrow> scanJobs m k = Some j \<Longrightarrow> job_row_ok k j"
  by (simp add: jobs_inv_def)

lemma jobs_inv_enqueue:
  assumes inve: "jobs_inv m" and ks: "iterates ks (scanJobs m)"
    and job: "sj_id job = []" "sj_status job = ScanJobQueued" "sj_lease_until job = None"
      "sj_attempts job = 0"
  shows "jobs_inv (fst (EnqueueScanJob ks uuid now job m))"
proof (cases "EnqueueScanJob ks uuid now job m")
  case (Pair m' r)
  then show ?thesis
  proof (cases rule: Enqueue_cases)
    case fresh
    have "jobs_inv (m\<lparr>scanJobs := (scanJobs m)(uuid \<mapsto> job_defaults uuid now job)\<rparr>)"
    proof (rule jobs_inv_insert [OF inve])
      show "job_row_ok uuid (job_defaults uuid now job)"
        using job by (simp add: job_row_ok_def)
    next
      fix k' j' assume k': "scanJobs m k' = Some j'" "sj_host_id j' = sj_host_id (job_defaults uuid now job)"
      then have "k' \<in> set ks" using ks by (auto simp: iterates_def)
      with fresh(1) k' show "\<not> job_active j'" by simp
    qed
    with fresh job Pair show ?thesis by simp
  qed (use inve Pair in simp_all)
qed

lemma jobs_inv_claim:
  assumes inve: "jobs_inv m"
  shows "jobs_inv (fst (ClaimScanJob ks w now l m))"
proof (cases "ClaimScanJob ks w now l m")
  case (Pair m' r)
  show ?thesis
  proof (cases r)
    case (Inl e)
    with Pair inve show ?thesis by (auto dest: Claim_err)
  next
    case (Inr j)
    with Pair Claim_ok [of ks w now l m m' j] obtain k j0 where k: "scanJobs m k = Some j0"
      "job_waiting now j0 \<or> job_expired now j0" "m' = m\<lparr>scanJobs := (scanJobs m)(k \<mapsto> j)\<rparr>"
      "j = claimed_job w now l j0" by blast
    have "jobs_inv m'" unfolding k(3)
    proof (rule jobs_inv_upd [OF inve k(1)])
      show "job_row_ok k j" using jobs_inv_row [OF inve k(1)] k(4) by (simp add: job_row_ok_def)
    next
      show "job_active j0"
        using k(2) by (auto simp: job_active_def job_waiting_def job_expired_def)
    qed (simp add: k(4))
    with Pair show ?thesis by simp
  qed
qed

lemma jobs_inv_renew:
  assumes inve: "jobs_inv m"
  shows "jobs_inv (fst (RenewScanJobLease now k w t m))"
proof (cases "owned_job k w m")
  case None
  with inve show ?thesis by (simp add: RenewScanJobLease_def)
next
  case (Some j)
  then have j: "scanJobs m k = Some j" "sj_status j = ScanJobRunning" by (auto simp: owned_job_Some)
  have "jobs_inv (m\<lparr>scanJobs := (scanJobs m)(k \<mapsto> j\<lparr>sj_lease_until := Some t, sj_updated_at := now\<rparr>)\<rparr>)"
    by (rule jobs_inv_upd [OF inve j(1)])
      (use jobs_inv_row [OF inve j(1)] j(2) in \<open>simp_all add: job_row_ok_def job_active_def\<close>)
  with Some show ?thesis by (simp add: RenewScanJobLease_def)
qed

lemma jobs_inv_finish:
  assumes inve: "jobs_inv m"
  shows "jobs_inv (fst (finish_job f k w m))"
proof (cases "finish_job f k w m")
  case (Pair m' r)
  show ?thesis
  proof (cases r)
    case (Inl e)
    with Pair inve show ?thesis by (auto dest: finish_job_err)
  next
    case (Inr u)
    with Pair have "finish_job f k w m = (m', Inr ())" by simp
    from finish_job_ok [OF this] obtain j j' where j: "scanJobs m k = Some j"
      "sj_status j = ScanJobRunning" "m' = m\<lparr>scanJobs := (scanJobs m)(k \<mapsto> j')\<rparr>"
      and j': "sj_status j' \<in> {ScanJobSucceeded, ScanJobFailed, ScanJobQueued}"
      "sj_lease_until j' = None" "sj_id j' = sj_id j" "sj_host_id j' = sj_host_id j"
      "sj_attempts j' = sj_attempts j" "sj_max_attempts j' = sj_max_attempts j"
      by (auto simp: owned_job_Some)
    have "jobs_inv m'" unfolding j(3)
    proof (rule jobs_inv_upd [OF inve j(1)])
      show "job_row_ok k j'"
        using jobs_inv_row [OF inve j(1)] j' by (auto simp: job_row_ok_def)
    qed (use j j' in \<open>simp_all add: job_active_def\<close>)
    with Pair show ?thesis by simp
  qed
qed

lemma jobs_step_inv: "jobs_step m m' \<Longrightarrow> jobs_inv m \<Longrightarrow> jobs_inv m'"
  by (induction rule: jobs_step.induct)
    (auto intro: jobs_inv_enqueue jobs_inv_claim jobs_inv_renew jobs_inv_finish)

lemma jobs_inv_New: "jobs_inv NewMemory"
  by (simp add: jobs_inv_def NewMemory_def)

end
