(* ===== verification/Observations.thy ===== *)
theory Observations
  imports Lease
begin

text \<open>
  Findings: \<open>UpsertObservation\<close> with its deduplication index, its reopening of closed
  findings and the export deliveries it queues, the triage calls, the filtered and paged
  listing, and the invariant that ties the index to the table.
\<close>

section \<open>The export outbox a finding fills\<close>

definition new_delivery :: "string \<Rightarrow> string \<Rightarrow> string \<Rightarrow> go_time \<Rightarrow> export_delivery" where
  "new_delivery uuid targetID observationID now = \<lparr>
     d_id = uuid, d_target_id = targetID, d_observation_id = observationID,
     d_status = DeliveryQueued, d_attempts = 0, d_max_attempts = 10, d_worker_id = [],
     d_lease_until = None, d_available_at = now, d_last_error = [], d_created_at = now,
     d_updated_at = now, d_delivered_at = None \<rparr>"

text \<open>\<open>uuids n\<close> is the \<open>n\<close>-th value \<open>uuid.NewString\<close> returns in the call.\<close>

fun enqueue_targets ::
  "(nat \<Rightarrow> string) \<Rightarrow> nat \<Rightarrow> string \<Rightarrow> go_time \<Rightarrow> export_target list \<Rightarrow>
   (string \<rightharpoonup> export_delivery) \<Rightarrow> (string \<rightharpoonup> export_delivery)" where
  "enqueue_targets uuids n observationID now [] ds = ds"
| "enqueue_targets uuids n observationID now (target # ts) ds =
     (if \<not> et_enabled target then enqueue_targets uuids n observationID now ts ds
      else let d = new_delivery (uuids n) (et_id target) observationID now
           in enqueue_targets uuids (Suc n) observationID now ts (ds(d_id d \<mapsto> d)))"

definition enqueueExportsLocked ::
  "string list \<Rightarrow> (nat \<Rightarrow> string) \<Rightarrow> string \<Rightarrow> go_time \<Rightarrow> memory \<Rightarrow> memory" where
  "enqueueExportsLocked ks uuids observationID now m =
     m\<lparr>deliveries := enqueue_targets uuids 0 observationID now (vals ks (exports m)) (deliveries m)\<rparr>"

section \<open>Was the finding absent from the scan before this one?\<close>

definition compared_scan :: "string \<Rightarrow> string \<Rightarrow> scan \<Rightarrow> bool" where
  "compared_scan hostID currentScan s \<longleftrightarrow>
     \<not> (s_host_id s \<noteq> hostID \<or> s_id s = currentScan \<or>
        (s_status s \<noteq> ScanOK \<and> s_status s \<noteq> ScanPartial))"

fun latest_start :: "string \<Rightarrow> string \<Rightarrow> scan list \<Rightarrow> go_time \<Rightarrow> go_time" where
  "latest_start hostID currentScan [] prev = prev"
| "latest_start hostID currentScan (s # ss) prev =
     (if \<not> compared_scan hostID currentScan s then latest_start hostID currentScan ss prev
      else latest_start hostID currentScan ss (if s_started_at s > prev then s_started_at s else prev))"

definition absentFromPreviousScanLocked ::
  "string list \<Rightarrow> go_time \<Rightarrow> string \<Rightarrow> string \<Rightarrow> memory \<Rightarrow> bool" where
  "absentFromPreviousScanLocked ks lastSeen hostID currentScan m =
     (let prev = latest_start hostID currentScan (vals ks (scans m)) 0
      in \<not> IsZero prev \<and> lastSeen < prev)"

lemma latest_start_max:
  "t < latest_start h c ss prev \<longleftrightarrow>
     t < prev \<or> (\<exists>s \<in> set ss. compared_scan h c s \<and> t < s_started_at s)"
  by (induction h c ss prev rule: latest_start.induct) auto

text \<open>Times in the tables are after Go's zero time; the answer is then the plain question
  whether some completed other scan of the host started after the finding was last seen.\<close>

lemma absent_iff:
  assumes "iterates ks (scans m)" and "0 \<le> lastSeen"
  shows "absentFromPreviousScanLocked ks lastSeen hostID cur m \<longleftrightarrow>
    (\<exists>k s. scans m k = Some s \<and> compared_scan hostID cur s \<and> lastSeen < s_started_at s)"
proof -
  have "absentFromPreviousScanLocked ks lastSeen hostID cur m \<longleftrightarrow>
      lastSeen < latest_start hostID cur (vals ks (scans m)) 0"
    using assms(2) by (auto simp: absentFromPreviousScanLocked_def Let_def)
  also have "\<dots> \<longleftrightarrow> (\<exists>s \<in> set (vals ks (scans m)). compared_scan hostID cur s \<and> lastSeen < s_started_at s)"
    using assms(2) by (simp add: latest_start_max)
  also have "\<dots> \<longleftrightarrow> (\<exists>k s. scans m k = Some s \<and> compared_scan hostID cur s \<and> lastSeen < s_started_at s)"
    using iterates_vals [OF assms(1)] by (force simp: ran_def)
  finally show ?thesis .
qed

section \<open>Upsert\<close>

text \<open>What a re-detection writes into the row it finds, and the row of a new finding.\<close>

definition refreshed :: "bool \<Rightarrow> go_time \<Rightarrow> observation \<Rightarrow> observation \<Rightarrow> observation" where
  "refreshed reopen now ob ex =
     (let ex = (if reopen then ex\<lparr>o_status := ObsOpen\<rparr> else ex)
      in ex\<lparr>o_last_seen := now, o_count := o_count ex + 1, o_score := o_score ob,
            o_severity := o_severity ob, o_evidence := o_evidence ob, o_scan_id := o_scan_id ob\<rparr>)"

definition inserted :: "string \<Rightarrow> go_time \<Rightarrow> observation \<Rightarrow> observation" where
  "inserted uuid now ob = ob\<lparr>
     o_id := or_default (o_id ob) uuid,
     o_first_seen := or_default_time (o_first_seen ob) now,
     o_last_seen := now, o_count := 1,
     o_status := or_default (o_status ob) ObsOpen\<rparr>"

definition dedup_lookup :: "memory \<Rightarrow> string \<Rightarrow> string \<Rightarrow> string option" where
  "dedup_lookup m hostID key = (case dedup m hostID of None \<Rightarrow> None | Some byKey \<Rightarrow> byKey key)"

definition UpsertObservation ::
  "string list \<Rightarrow> string list \<Rightarrow> string \<Rightarrow> (nat \<Rightarrow> string) \<Rightarrow> go_time \<Rightarrow> observation \<Rightarrow> memory \<Rightarrow>
   observation outcome" where
  "UpsertObservation scanKs exportKs uuid uuids now ob m =
     (let ob = ob\<lparr>o_verdict := or_default (o_verdict ob) ''unknown''\<rparr> in
      case dedup_lookup m (o_host_id ob) (o_dedup_key ob) of
        Some oid \<Rightarrow>
          (case obs m oid of
             None \<Rightarrow> (m, Inl NilPointerPanic)
           | Some ex \<Rightarrow>
               let reopen = reopens (o_status ex) (o_last_seen ex) now (ReopenAfter m) \<and>
                     absentFromPreviousScanLocked scanKs (o_last_seen ex) (o_host_id ob) (o_scan_id ob) m;
                   ex = refreshed reopen now ob ex;
                   m = m\<lparr>obs := (obs m)(oid \<mapsto> ex)\<rparr>
               in (enqueueExportsLocked exportKs uuids (o_id ex) now m, Inr ex))
      | None \<Rightarrow>
          let ob = inserted uuid now ob;
              m = m\<lparr>obs := (obs m)(o_id ob \<mapsto> ob)\<rparr>;
              byKey = (case dedup m (o_host_id ob) of None \<Rightarrow> Map.empty | Some b \<Rightarrow> b);
              m = m\<lparr>dedup := (dedup m)(o_host_id ob \<mapsto> byKey(o_dedup_key ob \<mapsto> o_id ob))\<rparr>
          in (enqueueExportsLocked exportKs uuids (o_id ob) now m, Inr ob))"

section \<open>Reading and triage\<close>

definition GetObservation :: "string \<Rightarrow> memory \<Rightarrow> observation result" where
  "GetObservation oid m = get_or ''observation'' (obs m) oid"

definition SetObservationStatus :: "string \<Rightarrow> string \<Rightarrow> memory \<Rightarrow> unit outcome" where
  "SetObservationStatus oid status m =
     (case obs m oid of
        None \<Rightarrow> (m, Inl (ErrNotFound ''observation'' oid))
      | Some ob \<Rightarrow> (m\<lparr>obs := (obs m)(oid \<mapsto> ob\<lparr>o_status := status\<rparr>)\<rparr>, Inr ()))"

definition SetObservationVerdict :: "string \<Rightarrow> string \<Rightarrow> memory \<Rightarrow> unit outcome" where
  "SetObservationVerdict oid verdict m =
     (if verdict \<noteq> ''unknown'' \<and> verdict \<noteq> ''true_positive'' \<and> verdict \<noteq> ''false_positive''
      then (m, Inl ErrInvalidVerdict)
      else case obs m oid of
        None \<Rightarrow> (m, Inl (ErrNotFound ''observation'' oid))
      | Some ob \<Rightarrow> (m\<lparr>obs := (obs m)(oid \<mapsto> ob\<lparr>o_verdict := verdict\<rparr>)\<rparr>, Inr ()))"

definition ApplyObservationAction :: "string \<Rightarrow> string \<Rightarrow> memory \<Rightarrow> unit outcome" where
  "ApplyObservationAction oid action m =
     (case ObservationDisposition action of
        Inl e \<Rightarrow> (m, Inl e)
      | Inr (status, verdict) \<Rightarrow>
          (case obs m oid of
             None \<Rightarrow> (m, Inl (ErrNotFound ''observation'' oid))
           | Some ob \<Rightarrow>
               if action = ''resolve'' \<and> o_verdict ob \<noteq> ''true_positive''
               then (m, Inl ErrDisposition)
               else
                 let ob = ob\<lparr>o_status := status\<rparr>;
                     ob = (if verdict \<noteq> [] then ob\<lparr>o_verdict := verdict\<rparr> else ob)
                 in (m\<lparr>obs := (obs m)(oid \<mapsto> ob)\<rparr>, Inr ())))"

definition matchesQuery :: "observation \<Rightarrow> string \<Rightarrow> bool" where
  "matchesQuery ob q =
     (let q = ToLower q in
      if Contains (ToLower (o_title ob)) q \<or> Contains (ToLower (o_rule_id ob)) q then True
      else list_ex (\<lambda>(k, v). case v of AnyString s \<Rightarrow> Contains (ToLower s) q | _ \<Rightarrow> False)
             (o_evidence ob))"

text \<open>The keyset cursor: only rows strictly after \<open>(BeforeTime, BeforeID)\<close> in the listing's order.\<close>

definition before_cursor :: "observation_filter \<Rightarrow> observation \<Rightarrow> bool" where
  "before_cursor f ob \<longleftrightarrow> IsZero (f_before_time f) \<or>
     \<not> (o_last_seen ob > f_before_time f \<or>
        (o_last_seen ob = f_before_time f \<and> o_id ob \<ge> f_before_id f))"

definition obs_matches :: "observation_filter \<Rightarrow> observation \<Rightarrow> bool" where
  "obs_matches f ob \<longleftrightarrow>
     (f_host_id f \<noteq> [] \<longrightarrow> o_host_id ob = f_host_id f) \<and>
     (f_severity f \<noteq> [] \<longrightarrow> o_severity ob = f_severity f) \<and>
     (f_verdict f \<noteq> [] \<longrightarrow> o_verdict ob = f_verdict f) \<and>
     (f_status f \<noteq> [] \<longrightarrow> o_status ob = f_status f) \<and>
     (f_source f \<noteq> [] \<longrightarrow> o_source ob = f_source f) \<and>
     (f_rule_id f \<noteq> [] \<longrightarrow> o_rule_id ob = f_rule_id f) \<and>
     (f_query f \<noteq> [] \<longrightarrow> matchesQuery ob (f_query f))"

definition obs_selected :: "observation_filter \<Rightarrow> observation \<Rightarrow> bool" where
  "obs_selected f ob \<longleftrightarrow> obs_matches f ob \<and> before_cursor f ob"

definition obs_key :: "observation \<Rightarrow> go_time \<times> string" where
  "obs_key ob = (o_last_seen ob, o_id ob)"

text \<open>Newest first, the larger id first among equals: the reverse of the order of \<open>obs_key\<close>.\<close>

definition ListObservations :: "string list \<Rightarrow> observation_filter \<Rightarrow> memory \<Rightarrow> observation list" where
  "ListObservations ks f m =
     limited (f_limit f) (rev (sort_key obs_key (filter (obs_selected f) (vals ks (obs m)))))"

section \<open>Facts of the calls\<close>

lemma refreshed_simps [simp]:
  "o_id (refreshed b now ob ex) = o_id ex" "o_host_id (refreshed b now ob ex) = o_host_id ex"
  "o_dedup_key (refreshed b now ob ex) = o_dedup_key ex"
  "o_status (refreshed b now ob ex) = (if b then ObsOpen else o_status ex)"
  "o_verdict (refreshed b now ob ex) = o_verdict ex"
  "o_first_seen (refreshed b now ob ex) = o_first_seen ex"
  "o_last_seen (refreshed b now ob ex) = now" "o_count (refreshed b now ob ex) = o_count ex + 1"
  "o_score (refreshed b now ob ex) = o_score ob" "o_scan_id (refreshed b now ob ex) = o_scan_id ob"
  by (simp_all add: refreshed_def Let_def)

lemma inserted_simps [simp]:
  "o_id (inserted uuid now ob) = or_default (o_id ob) uuid"
  "o_host_id (inserted uuid now ob) = o_host_id ob"
  "o_dedup_key (inserted uuid now ob) = o_dedup_key ob"
  "o_status (inserted uuid now ob) = or_default (o_status ob) ObsOpen"
  "o_verdict (inserted uuid now ob) = o_verdict ob"
  "o_last_seen (inserted uuid now ob) = now" "o_count (inserted uuid now ob) = 1"
  by (simp_all add: inserted_def)

lemma enqueueExportsLocked_simps [simp]:
  "obs (enqueueExportsLocked ks uuids i now m) = obs m"
  "dedup (enqueueExportsLocked ks uuids i now m) = dedup m"
  "scans (enqueueExportsLocked ks uuids i now m) = scans m"
  "hosts (enqueueExportsLocked ks uuids i now m) = hosts m"
  "exports (enqueueExportsLocked ks uuids i now m) = exports m"
  "scanJobs (enqueueExportsLocked ks uuids i now m) = scanJobs m"
  "responses (enqueueExportsLocked ks uuids i now m) = responses m"
  "AllowSelfApproval (enqueueExportsLocked ks uuids i now m) = AllowSelfApproval m"
  by (simp_all add: enqueueExportsLocked_def)

lemma dedup_lookup_enqueue [simp]:
  "dedup_lookup (enqueueExportsLocked ks uuids i now m) = dedup_lookup m"
  by (simp add: dedup_lookup_def fun_eq_iff)

lemma dedup_lookup_obs [simp]: "dedup_lookup (m\<lparr>obs := x\<rparr>) = dedup_lookup m"
  by (simp add: dedup_lookup_def fun_eq_iff)

lemma dedup_lookup_upd:
  "dedup_lookup (m\<lparr>dedup := (dedup m)(h \<mapsto>
     (case dedup m h of None \<Rightarrow> Map.empty | Some b \<Rightarrow> b)(key \<mapsto> i))\<rparr>) h' key' =
   (if h' = h \<and> key' = key then Some i else dedup_lookup m h' key')"
  by (auto simp: dedup_lookup_def split: option.splits)

text \<open>The two ways an upsert goes when the index is consistent.\<close>

lemma Upsert_known:
  assumes "dedup_lookup m (o_host_id ob) (o_dedup_key ob) = Some oid" and "obs m oid = Some ex"
  shows "UpsertObservation sk ek uuid uuids now ob m =
    (let reopen = reopens (o_status ex) (o_last_seen ex) now (ReopenAfter m) \<and>
           absentFromPreviousScanLocked sk (o_last_seen ex) (o_host_id ob) (o_scan_id ob) m;
         ex' = refreshed reopen now ob ex
     in (enqueueExportsLocked ek uuids (o_id ex) now (m\<lparr>obs := (obs m)(oid \<mapsto> ex')\<rparr>), Inr ex'))"
  using assms by (simp add: UpsertObservation_def Let_def refreshed_def)

lemma Upsert_new:
  assumes "dedup_lookup m (o_host_id ob) (o_dedup_key ob) = None"
  shows "UpsertObservation sk ek uuid uuids now ob m =
    (let ob' = inserted uuid now (ob\<lparr>o_verdict := or_default (o_verdict ob) ''unknown''\<rparr>)
     in (enqueueExportsLocked ek uuids (o_id ob') now
          (m\<lparr>obs := (obs m)(o_id ob' \<mapsto> ob'),
             dedup := (dedup m)(o_host_id ob \<mapsto>
               (case dedup m (o_host_id ob) of None \<Rightarrow> Map.empty | Some b \<Rightarrow> b)
                 (o_dedup_key ob \<mapsto> o_id ob'))\<rparr>), Inr ob'))"
  using assms by (simp add: UpsertObservation_def Let_def)

section \<open>The invariant: table and index agree\<close>

definition obs_inv :: "memory \<Rightarrow> bool" where
  "obs_inv m \<longleftrightarrow>
     (\<forall>i ob. obs m i = Some ob \<longrightarrow>
        o_id ob = i \<and> dedup_lookup m (o_host_id ob) (o_dedup_key ob) = Some i) \<and>
     (\<forall>h key i. dedup_lookup m h key = Some i \<longrightarrow>
        (\<exists>ob. obs m i = Some ob \<and> o_host_id ob = h \<and> o_dedup_key ob = key))"

lemma obs_inv_row:
  "obs_inv m \<Longrightarrow> obs m i = Some ob \<Longrightarrow>
   o_id ob = i \<and> dedup_lookup m (o_host_id ob) (o_dedup_key ob) = Some i"
  by (simp add: obs_inv_def)

lemma obs_inv_index:
  "obs_inv m \<Longrightarrow> dedup_lookup m h key = Some i \<Longrightarrow>
   \<exists>ob. obs m i = Some ob \<and> o_host_id ob = h \<and> o_dedup_key ob = key"
  by (simp add: obs_inv_def)

lemma obs_inv_upd:
  assumes "obs_inv m" and "obs m i = Some ob0"
    and "o_id ob = o_id ob0" "o_host_id ob = o_host_id ob0" "o_dedup_key ob = o_dedup_key ob0"
  shows "obs_inv (m\<lparr>obs := (obs m)(i \<mapsto> ob)\<rparr>)"
  unfolding obs_inv_def
proof (intro conjI allI impI)
  fix j ob' assume "obs (m\<lparr>obs := (obs m)(i \<mapsto> ob)\<rparr>) j = Some ob'"
  then show "o_id ob' = j"
    "dedup_lookup (m\<lparr>obs := (obs m)(i \<mapsto> ob)\<rparr>) (o_host_id ob') (o_dedup_key ob') = Some j"
    using assms obs_inv_row [OF assms(1)] by (auto split: if_splits)
next
  fix h key j assume "dedup_lookup (m\<lparr>obs := (obs m)(i \<mapsto> ob)\<rparr>) h key = Some j"
  then obtain ob' where "obs m j = Some ob'" "o_host_id ob' = h" "o_dedup_key ob' = key"
    using obs_inv_index [OF assms(1), of h key j] by auto
  then show "\<exists>ob'. obs (m\<lparr>obs := (obs m)(i \<mapsto> ob)\<rparr>) j = Some ob' \<and> o_host_id ob' = h \<and> o_dedup_key ob' = key"
    using assms by auto
qed

lemma obs_inv_insert:
  assumes inve: "obs_inv m" and fresh: "obs m i = None" and ob: "o_id ob = i"
    and new: "dedup_lookup m (o_host_id ob) (o_dedup_key ob) = None"
  shows "obs_inv (m\<lparr>obs := (obs m)(i \<mapsto> ob), dedup := (dedup m)(o_host_id ob \<mapsto>
     (case dedup m (o_host_id ob) of None \<Rightarrow> Map.empty | Some b \<Rightarrow> b)(o_dedup_key ob \<mapsto> i))\<rparr>)"
    (is "obs_inv ?m")
proof -
  have d: "dedup_lookup ?m h key =
      (if h = o_host_id ob \<and> key = o_dedup_key ob then Some i else dedup_lookup m h key)" for h key
    using dedup_lookup_upd [of "m\<lparr>obs := (obs m)(i \<mapsto> ob)\<rparr>" "o_host_id ob" "o_dedup_key ob" i h key]
    by simp
  have o: "obs ?m j = (if j = i then Some ob else obs m j)" for j by simp
  show ?thesis
    unfolding obs_inv_def d o
    using ob fresh new obs_inv_row [OF inve] obs_inv_index [OF inve]
    by (auto split: if_splits) (metis option.distinct(1))+
qed

lemma obs_inv_New: "obs_inv NewMemory"
  by (simp add: obs_inv_def NewMemory_def dedup_lookup_def)

lemma obs_inv_enqueue [simp]: "obs_inv (enqueueExportsLocked ks uuids i now m) = obs_inv m"
  by (simp add: obs_inv_def)

section \<open>Steps of the table\<close>

text \<open>
  Every caller of \<open>UpsertObservation\<close> (the scan runner, the drift and reuse engines, the
  ingest handler) leaves the id unset; a fresh uuid is not the key of a row.
\<close>

inductive obs_step :: "memory \<Rightarrow> memory \<Rightarrow> bool" where
  obs_upsert: "o_id ob = [] \<Longrightarrow> uuid \<noteq> [] \<Longrightarrow> obs m uuid = None \<Longrightarrow>
     obs_step m (fst (UpsertObservation sk ek uuid uuids now ob m))"
| obs_status: "obs_step m (fst (SetObservationStatus i status m))"
| obs_verdict: "obs_step m (fst (SetObservationVerdict i verdict m))"
| obs_action: "obs_step m (fst (ApplyObservationAction i action m))"

lemma obs_inv_upsert:
  assumes inve: "obs_inv m" and oid: "o_id ob = []" and fresh: "obs m uuid = None"
  shows "obs_inv (fst (UpsertObservation sk ek uuid uuids now ob m))"
proof (cases "dedup_lookup m (o_host_id ob) (o_dedup_key ob)")
  case None
  let ?ob = "inserted uuid now (ob\<lparr>o_verdict := or_default (o_verdict ob) ''unknown''\<rparr>)"
  have "obs_inv (m\<lparr>obs := (obs m)(uuid \<mapsto> ?ob), dedup := (dedup m)(o_host_id ?ob \<mapsto>
     (case dedup m (o_host_id ?ob) of None \<Rightarrow> Map.empty | Some b \<Rightarrow> b)(o_dedup_key ?ob \<mapsto> uuid))\<rparr>)"
    by (rule obs_inv_insert [OF inve fresh]) (use oid None in simp_all)
  with None oid show ?thesis by (simp add: Upsert_new Let_def)
next
  case (Some i)
  then obtain ex where ex: "obs m i = Some ex" using obs_inv_index [OF inve] by blast
  show ?thesis
    unfolding Upsert_known [OF Some ex] Let_def fst_conv obs_inv_enqueue
    by (rule obs_inv_upd [OF inve ex]) simp_all
qed

lemma obs_inv_triage:
  assumes "obs_inv m"
  shows "obs_inv (fst (SetObservationStatus i status m))"
    "obs_inv (fst (SetObservationVerdict i verdict m))"
    "obs_inv (fst (ApplyObservationAction i action m))"
  using assms
  by (auto simp: SetObservationStatus_def SetObservationVerdict_def ApplyObservationAction_def Let_def
      split: option.split sum.split prod.split intro: obs_inv_upd)

lemma obs_step_inv: "obs_step m m' \<Longrightarrow> obs_inv m \<Longrightarrow> obs_inv m'"
  by (induction rule: obs_step.induct) (simp_all add: obs_inv_upsert obs_inv_triage)

section \<open>The outbox\<close>

lemma new_delivery_id [simp]: "d_id (new_delivery u t i now) = u"
  by (simp add: new_delivery_def)

lemma enqueue_targets_old:
  "(\<And>j. n \<le> j \<Longrightarrow> uuids j \<noteq> k) \<Longrightarrow> enqueue_targets uuids n i now ts ds k = ds k"
  by (induction uuids n i now ts ds rule: enqueue_targets.induct)
    (auto simp: Let_def)

lemma enqueue_targets_new:
  assumes "inj uuids" and "n \<le> j"
  shows "enqueue_targets uuids n i now ts ds (uuids j) =
    (let es = filter et_enabled ts in
     if j < n + length es then Some (new_delivery (uuids j) (et_id (es ! (j - n))) i now)
     else ds (uuids j))"
  using assms
proof (induction uuids n i now ts ds rule: enqueue_targets.induct)
  case (1 uuids n i now ds)
  then show ?case by simp
next
  case (2 uuids n i now t ts ds)
  show ?case
  proof (cases "et_enabled t")
    case False
    with 2 show ?thesis by simp
  next
    case True
    let ?d = "new_delivery (uuids n) (et_id t) i now"
    show ?thesis
    proof (cases "j = n")
      case True
      have "enqueue_targets uuids (Suc n) i now ts (ds(uuids n \<mapsto> ?d)) (uuids n) = Some ?d"
        using \<open>inj uuids\<close> by (subst enqueue_targets_old) (auto dest: injD)
      with True \<open>et_enabled t\<close> show ?thesis by (simp add: Let_def)
    next
      case False
      with 2 True have "Suc n \<le> j" by simp
      with 2(2) [OF _ refl] True \<open>inj uuids\<close> have
        "enqueue_targets uuids (Suc n) i now ts (ds(uuids n \<mapsto> ?d)) (uuids j) =
          (let es = filter et_enabled ts in
           if j < Suc n + length es then Some (new_delivery (uuids j) (et_id (es ! (j - Suc n))) i now)
           else (ds(uuids n \<mapsto> ?d)) (uuids j))"
        by (simp add: Let_def fun_upd_def)
      moreover have "uuids j \<noteq> uuids n" using False \<open>inj uuids\<close> by (auto dest: injD)
      moreover have "(t # filter et_enabled ts) ! (j - n) = filter et_enabled ts ! (j - Suc n)"
        using \<open>Suc n \<le> j\<close> by (simp add: nth_Cons')
      ultimately show ?thesis using True by (simp add: Let_def)
    qed
  qed
qed

section \<open>Paging\<close>

lemma filter_desc_cursor:
  fixes f :: "'a \<Rightarrow> 'b :: linorder"
  assumes "sorted_wrt (\<lambda>a b. f b < f a) xs" and "0 < i" and "i \<le> length xs"
  shows "filter (\<lambda>x. f x < f (xs ! (i - 1))) xs = drop i xs"
  using assms
proof (induction xs arbitrary: i)
  case Nil
  then show ?case by simp
next
  case (Cons x xs)
  show ?case
  proof (cases "i = 1")
    case True
    with Cons.prems(1) have "filter (\<lambda>y. f y < f x) xs = xs" by (simp add: filter_id_conv)
    with True show ?thesis by simp
  next
    case False
    with Cons.prems have i: "0 < i - 1" "i - 1 \<le> length xs" by auto
    with Cons.prems have nth: "(x # xs) ! (i - 1) = xs ! (i - 1 - 1)" by (simp add: nth_Cons')
    have "xs ! (i - 1 - 1) \<in> set xs" using i by (intro nth_mem) simp
    then have "\<not> f x < f (xs ! (i - 1 - 1))" using Cons.prems(1) by (auto dest: less_imp_not_less)
    with Cons.IH [of "i - 1"] Cons.prems(1) i nth show ?thesis
      by (cases i) simp_all
  qed
qed

lemma rev_sort_key_desc:
  assumes "inj_on f (set xs)" and "distinct xs"
  shows "sorted_wrt (\<lambda>a b. f b < f a) (rev (sort_key f xs))"
proof -
  have "sorted (map f (sort_key f xs))" "distinct (map f (sort_key f xs))"
    using assms by (simp_all add: distinct_map)
  then have "sorted_wrt (<) (map f (sort_key f xs))" by (simp add: strict_sorted_iff)
  then show ?thesis by (simp add: sorted_wrt_map sorted_wrt_rev)
qed

lemma filter_rev_sort_key: "filter P (rev (sort_key f xs)) = rev (sort_key f (filter P xs))"
  by (simp add: rev_filter [symmetric] filter_sort)

section \<open>Properties\<close>

text \<open>
  C12. Re-detection. When the finding an upsert reports is already in the table, the call
  never panics, keeps the row's identity, verdict and first sighting, counts the sighting,
  and reopens the row exactly when it was closed (false positive or resolved), reopening is
  on, it had not been seen for at least the window, and some completed scan of the host
  other than the current one started after the last sighting; otherwise the status stays.
\<close>

theorem upsert_redetection:
  assumes "obs_inv m" and "iterates sk (scans m)"
    and "obs m i = Some ex" and "o_host_id ob = o_host_id ex" and "o_dedup_key ob = o_dedup_key ex"
    and "0 \<le> o_last_seen ex" and "ReopenAfter m < 2 ^ 63"
  shows "\<exists>m' ex'. UpsertObservation sk ek uuid uuids now ob m = (m', Inr ex') \<and>
    obs m' = (obs m)(i \<mapsto> ex') \<and> dedup m' = dedup m \<and>
    o_id ex' = i \<and> o_host_id ex' = o_host_id ex \<and> o_dedup_key ex' = o_dedup_key ex \<and>
    o_verdict ex' = o_verdict ex \<and> o_first_seen ex' = o_first_seen ex \<and>
    o_last_seen ex' = now \<and> o_count ex' = o_count ex + 1 \<and> o_score ex' = o_score ob \<and>
    o_status ex' =
      (if o_status ex \<in> {ObsFalsePositive, ObsResolved} \<and> 0 < ReopenAfter m \<and>
          ReopenAfter m \<le> now - o_last_seen ex \<and>
          (\<exists>k s. scans m k = Some s \<and> compared_scan (o_host_id ex) (o_scan_id ob) s \<and>
             o_last_seen ex < s_started_at s)
       then ObsOpen else o_status ex)"
proof -
  have row: "o_id ex = i" "dedup_lookup m (o_host_id ob) (o_dedup_key ob) = Some i"
    using obs_inv_row [OF assms(1,3)] assms(4,5) by simp_all
  have r: "reopens (o_status ex) (o_last_seen ex) now (ReopenAfter m) \<longleftrightarrow>
      o_status ex \<in> {ObsFalsePositive, ObsResolved} \<and> 0 < ReopenAfter m \<and>
      ReopenAfter m \<le> now - o_last_seen ex"
    using assms(7) by (auto simp: reopens_def time_Sub_ge_iff)
  show ?thesis
    unfolding Upsert_known [OF row(2) assms(3)] Let_def
    using row(1) by (simp add: r absent_iff [OF assms(2,6)] assms(4))
qed

definition demo_obs :: observation where
  "demo_obs = \<lparr>o_id = ''o1'', o_host_id = ''h1'', o_scan_id = ''s1'', o_source = ''agentless_probe'',
     o_rule_id = ''r1'', o_category = ''persistence'', o_title = ''T'', o_severity = ''high'', o_score = 50,
     o_mitre = [], o_evidence = [], o_dedup_key = ''k1'', o_status = ObsResolved,
     o_verdict = ''true_positive'', o_first_seen = 5, o_last_seen = 10, o_count = 1\<rparr>"

definition demo_scan :: scan where
  "demo_scan = \<lparr>s_id = ''s2'', s_host_id = ''h1'', s_trigger = ''api'', s_status = ScanOK,
     s_probe_version = [], s_started_at = 20, s_finished_at = None, s_duration_ms = 1, s_error = [],
     s_risk_score = 0\<rparr>"

definition demo_memory :: memory where
  "demo_memory = NewMemory\<lparr>obs := [''o1'' \<mapsto> demo_obs], dedup := [''h1'' \<mapsto> [''k1'' \<mapsto> ''o1'']],
     scans := [''s2'' \<mapsto> demo_scan]\<rparr>"

lemma demo_obs_inv: "obs_inv demo_memory"
  by (auto simp: obs_inv_def demo_memory_def demo_obs_def dedup_lookup_def
      split: if_splits option.splits)

theorem upsert_redetection_witness:
  "\<exists>m' ex'. UpsertObservation [''s2''] [] ''u'' (\<lambda>n. ''d'') (30 * Hour) (demo_obs\<lparr>o_scan_id := ''s3''\<rparr>)
     demo_memory = (m', Inr ex') \<and> o_status ex' = ObsOpen"
proof -
  have "iterates [''s2''] (scans demo_memory)" by (simp add: demo_memory_def iterates_def)
  from upsert_redetection [OF demo_obs_inv this, of "''o1''" demo_obs "demo_obs\<lparr>o_scan_id := ''s3''\<rparr>"
      "[]" "''u''" "\<lambda>n. ''d''" "30 * Hour"]
  obtain m' ex' where r: "UpsertObservation [''s2''] [] ''u'' (\<lambda>n. ''d'') (30 * Hour)
      (demo_obs\<lparr>o_scan_id := ''s3''\<rparr>) demo_memory = (m', Inr ex')"
    and st: "o_status ex' = (if o_status demo_obs \<in> {ObsFalsePositive, ObsResolved} \<and>
        0 < ReopenAfter demo_memory \<and> ReopenAfter demo_memory \<le> 30 * Hour - o_last_seen demo_obs \<and>
        (\<exists>k s. scans demo_memory k = Some s \<and> compared_scan (o_host_id demo_obs) ''s3'' s \<and>
           o_last_seen demo_obs < s_started_at s)
       then ObsOpen else o_status demo_obs)"
    by (auto simp: demo_memory_def demo_obs_def NewMemory_def DefaultReopenAfter_def)
  have "\<exists>k s. scans demo_memory k = Some s \<and> compared_scan (o_host_id demo_obs) ''s3'' s \<and>
      o_last_seen demo_obs < s_started_at s"
    by (intro exI [of _ "''s2''"] exI [of _ demo_scan])
      (simp add: demo_memory_def demo_scan_def demo_obs_def compared_scan_def)
  with st have "o_status ex' = ObsOpen"
    by (simp add: demo_memory_def demo_obs_def NewMemory_def DefaultReopenAfter_def)
  with r show ?thesis by blast
qed

text \<open>
  The outbox. An upsert that succeeds adds, with distinct unused uuids, exactly one queued
  delivery of the finding for every enabled export target and touches no other delivery: a
  disabled target gets none, a new finding and a re-detection are exported alike.
\<close>

theorem upsert_outbox:
  assumes "UpsertObservation sk ek uuid uuids now ob m = (m', Inr ob')"
    and "inj uuids" and "\<And>n. deliveries m (uuids n) = None"
  shows "(\<forall>n. deliveries m' (uuids n) =
       (if n < length (filter et_enabled (vals ek (exports m)))
        then Some (new_delivery (uuids n)
          (et_id (filter et_enabled (vals ek (exports m)) ! n)) (o_id ob') now)
        else None)) \<and>
    (\<forall>k. k \<notin> range uuids \<longrightarrow> deliveries m' k = deliveries m k)"
proof -
  have "\<exists>m0. m' = enqueueExportsLocked ek uuids (o_id ob') now m0 \<and>
      exports m0 = exports m \<and> deliveries m0 = deliveries m"
    using assms(1) by (auto simp: UpsertObservation_def Let_def split: option.splits)
  then have m': "deliveries m' =
      enqueue_targets uuids 0 (o_id ob') now (vals ek (exports m)) (deliveries m)"
    by (auto simp: enqueueExportsLocked_def)
  show ?thesis
    using enqueue_targets_new [OF assms(2), of 0] assms(3)
    by (auto simp: m' Let_def intro: enqueue_targets_old)
qed

definition demo_target :: "string \<Rightarrow> bool \<Rightarrow> export_target" where
  "demo_target i en = \<lparr>et_id = i, et_name = i, et_type = ''webhook'', et_config = [],
     et_secret_enc = [], et_enabled = en, et_created_at = 1, et_updated_at = 1\<rparr>"

theorem upsert_outbox_witness:
  "\<exists>m' :: memory. deliveries m' ''xx'' = Some (new_delivery ''xx'' ''t2'' ''u'' 7) \<and> deliveries m' ''xxx'' = None"
proof -
  let ?m = "NewMemory\<lparr>exports := [''t1'' \<mapsto> demo_target ''t1'' False, ''t2'' \<mapsto> demo_target ''t2'' True]\<rparr>"
  let ?uuids = "\<lambda>n. replicate (n + 2) (CHR ''x'')"
  obtain m' ob' where u: "UpsertObservation [] [''t1'', ''t2''] ''u'' ?uuids 7 (demo_obs\<lparr>o_id := []\<rparr>) ?m
      = (m', Inr ob')" and ob': "o_id ob' = ''u''"
    by (simp add: Upsert_new dedup_lookup_def NewMemory_def Let_def)
  have i: "inj ?uuids" by (auto simp: inj_def)
  have d: "deliveries ?m (?uuids n) = None" for n by (simp add: NewMemory_def)
  have "filter et_enabled (vals [''t1'', ''t2''] (exports ?m)) = [demo_target ''t2'' True]"
    by (simp add: demo_target_def)
  with upsert_outbox [OF u i d] ob' have "\<forall>n. deliveries m' (?uuids n) =
      (if n < 1 then Some (new_delivery (?uuids n) (et_id ([demo_target ''t2'' True] ! n)) ''u'' 7) else None)"
    by simp
  from this [rule_format, of 0] this [rule_format, of 1]
  have "deliveries m' ''xx'' = Some (new_delivery ''xx'' ''t2'' ''u'' 7)" "deliveries m' ''xxx'' = None"
    by (simp_all add: demo_target_def numeral_eq_Suc)
  then show ?thesis by blast
qed

text \<open>
  Keyset paging is complete. Let \<open>L\<close> be the whole listing for a filter with no cursor.
  For any row of \<open>L\<close>, asking for \<open>n\<close> rows with the cursor put on it returns exactly the
  next \<open>n\<close> rows of \<open>L\<close>: following the last row of each page visits every row once, in
  order, also among rows with equal times and in whatever order the map is met.
\<close>

theorem observation_paging_complete:
  assumes "obs_inv m" and "iterates ks (obs m)" and "iterates ks' (obs m)"
    and "f_before_time f = 0" and "f_limit f = 0"
    and "0 < i" and "i \<le> length (ListObservations ks f m)"
    and "o_last_seen (ListObservations ks f m ! (i - 1)) \<noteq> 0" and "0 < n"
  shows "ListObservations ks' (f\<lparr>f_limit := n,
      f_before_time := o_last_seen (ListObservations ks f m ! (i - 1)),
      f_before_id := o_id (ListObservations ks f m ! (i - 1))\<rparr>) m =
    take (nat n) (drop i (ListObservations ks f m))"
proof -
  define L where "L = ListObservations ks f m"
  define c where "c = L ! (i - 1)"
  let ?f = "f\<lparr>f_limit := n, f_before_time := o_last_seen c, f_before_id := o_id c\<rparr>"
  have uniq: "k = k'" if "obs m k = Some ob" "obs m k' = Some ob" for k k' ob
    using that obs_inv_row [OF assms(1)] by metis
  have inj: "inj_on obs_key (ran (obs m))"
  proof (rule inj_onI)
    fix x y assume "x \<in> ran (obs m)" "y \<in> ran (obs m)" and eq: "obs_key x = obs_key y"
    then obtain k k' where k: "obs m k = Some x" "obs m k' = Some y" by (auto simp: ran_def)
    with eq obs_inv_row [OF assms(1)] have "k = k'" by (simp add: obs_key_def)
    with k show "x = y" by simp
  qed
  have dist: "distinct (vals ks (obs m))" "distinct (vals ks' (obs m))"
    using assms(2,3) uniq by (auto simp: iterates_def intro!: distinct_vals)
  have eq: "sort_key obs_key (filter P (vals ks' (obs m))) = sort_key obs_key (filter P (vals ks (obs m)))" for P
  proof (rule sort_key_order_free)
    show "inj_on obs_key (set (filter P (vals ks' (obs m))))"
      using inj by (rule inj_on_subset) (simp add: iterates_set_vals [OF assms(3)])
    show "set (filter P (vals ks' (obs m))) = set (filter P (vals ks (obs m)))"
      by (simp add: iterates_set_vals [OF assms(3)] iterates_set_vals [OF assms(2)])
  qed (use dist in simp_all)
  have sel: "obs_selected ?f = (\<lambda>ob. obs_key ob < obs_key c \<and> obs_selected f ob)"
  proof
    fix ob
    have "obs_matches ?f ob = obs_matches f ob" by (simp add: obs_matches_def)
    moreover have "before_cursor ?f ob \<longleftrightarrow> obs_key ob < obs_key c"
      using assms(8) by (auto simp: before_cursor_def obs_key_def L_def c_def)
    moreover have "before_cursor f ob" using assms(4) by (simp add: before_cursor_def)
    ultimately show "obs_selected ?f ob = (obs_key ob < obs_key c \<and> obs_selected f ob)"
      by (auto simp: obs_selected_def)
  qed
  have L: "L = rev (sort_key obs_key (filter (obs_selected f) (vals ks (obs m))))"
    by (simp add: L_def ListObservations_def limited_def assms(5))
  have desc: "sorted_wrt (\<lambda>a b. obs_key b < obs_key a) L"
    unfolding L by (rule rev_sort_key_desc) (use inj dist assms(2) in \<open>auto simp: iterates_set_vals intro: inj_on_subset\<close>)
  have "ListObservations ks' ?f m =
      limited n (rev (sort_key obs_key (filter (\<lambda>ob. obs_key ob < obs_key c) (filter (obs_selected f) (vals ks (obs m))))))"
    by (simp add: ListObservations_def sel eq conj_commute)
  also have "\<dots> = limited n (filter (\<lambda>ob. obs_key ob < obs_key c) L)"
    by (simp only: L filter_rev_sort_key)
  also have "\<dots> = limited n (drop i L)"
    unfolding c_def by (subst filter_desc_cursor [OF desc]) (use assms(6,7) in \<open>simp_all add: L_def\<close>)
  also have "\<dots> = take (nat n) (drop i L)"
    using assms(9) by (auto simp: limited_def)
  finally show ?thesis by (simp add: L_def c_def)
qed

definition demo_page :: memory where
  "demo_page = NewMemory\<lparr>obs := [''o1'' \<mapsto> demo_obs, ''o2'' \<mapsto> demo_obs\<lparr>o_id := ''o2'', o_dedup_key := ''k2''\<rparr>],
     dedup := [''h1'' \<mapsto> [''k1'' \<mapsto> ''o1'', ''k2'' \<mapsto> ''o2'']]\<rparr>"

definition no_filter :: observation_filter where
  "no_filter = \<lparr>f_verdict = [], f_host_id = [], f_severity = [], f_status = [], f_source = [],
     f_rule_id = [], f_query = [], f_limit = 0, f_before_time = 0, f_before_id = []\<rparr>"

theorem observation_paging_complete_witness:
  "map o_id (ListObservations [''o1'', ''o2''] (no_filter\<lparr>f_limit := 1, f_before_time := 10, f_before_id := ''o2''\<rparr>)
     demo_page) = [''o1'']"
proof -
  let ?L = "ListObservations [''o2'', ''o1''] no_filter demo_page"
  have i: "iterates [''o1'', ''o2''] (obs demo_page)" "iterates [''o2'', ''o1''] (obs demo_page)"
    by (auto simp: demo_page_def iterates_def)
  have inve: "obs_inv demo_page"
    by (auto simp: obs_inv_def demo_page_def demo_obs_def dedup_lookup_def split: if_splits option.splits)
  have L: "?L = [demo_obs\<lparr>o_id := ''o2'', o_dedup_key := ''k2''\<rparr>, demo_obs]"
    by (simp add: ListObservations_def demo_page_def no_filter_def limited_def obs_selected_def
        obs_matches_def before_cursor_def obs_key_def demo_obs_def)
  have "ListObservations [''o1'', ''o2''] (no_filter\<lparr>f_limit := 1, f_before_time := o_last_seen (?L ! (1 - 1)),
      f_before_id := o_id (?L ! (1 - 1))\<rparr>) demo_page = take (nat 1) (drop 1 ?L)"
    by (rule observation_paging_complete [OF inve i(2) i(1)])
      (simp_all only: L, simp_all add: no_filter_def demo_obs_def)
  then show ?thesis by (simp add: L) (simp add: demo_obs_def)
qed

end
