(* ===== verification/Exports.thy ===== *)
theory Exports
  imports Observations
begin

text \<open>
  Export targets and their deliveries in the in-memory store: the outbox the export workers
  drain. A delivery is claimed only while its target is enabled, deleting a target deletes
  its deliveries, and the calls of the workers satisfy the lease contract.
\<close>

section \<open>Targets\<close>

definition CreateExportTarget ::
  "string \<Rightarrow> go_time \<Rightarrow> export_target \<Rightarrow> memory \<Rightarrow> export_target outcome" where
  "CreateExportTarget uuid now t m =
     (let t = t\<lparr>et_id := or_default (et_id t) uuid,
                et_created_at := or_default_time (et_created_at t) now,
                et_updated_at := now\<rparr>
      in (m\<lparr>exports := (exports m)(et_id t \<mapsto> t)\<rparr>, Inr t))"

definition GetExportTarget :: "string \<Rightarrow> memory \<Rightarrow> export_target result" where
  "GetExportTarget oid m = get_or ''export target'' (exports m) oid"

definition ListExportTargets :: "string list \<Rightarrow> memory \<Rightarrow> export_target list" where
  "ListExportTargets ks m = sort_key et_name (vals ks (exports m))"

definition UpdateExportTarget :: "go_time \<Rightarrow> export_target \<Rightarrow> memory \<Rightarrow> unit outcome" where
  "UpdateExportTarget now t m =
     (case exports m (et_id t) of
        None \<Rightarrow> (m, Inl (ErrNotFound ''export target'' (et_id t)))
      | Some _ \<Rightarrow>
          (m\<lparr>exports := (exports m)(et_id t \<mapsto> t\<lparr>et_updated_at := now\<rparr>)\<rparr>, Inr ()))"

text \<open>The loop deletes each delivery of the target: what is left is the rest of the map.\<close>

definition DeleteExportTarget :: "string \<Rightarrow> memory \<Rightarrow> unit outcome" where
  "DeleteExportTarget oid m =
     (case exports m oid of
        None \<Rightarrow> (m, Inl (ErrNotFound ''export target'' oid))
      | Some _ \<Rightarrow>
          (m\<lparr>exports := (exports m)(oid := None),
             deliveries := (\<lambda>k. case deliveries m k of
                 None \<Rightarrow> None
               | Some d \<Rightarrow> if d_target_id d = oid then None else Some d)\<rparr>, Inr ()))"

section \<open>Deliveries\<close>

definition delivery_waiting :: "go_time \<Rightarrow> export_delivery \<Rightarrow> bool" where
  "delivery_waiting now d \<longleftrightarrow> d_status d = DeliveryQueued \<and> \<not> d_available_at d > now"

definition delivery_expired :: "go_time \<Rightarrow> export_delivery \<Rightarrow> bool" where
  "delivery_expired now d \<longleftrightarrow> d_status d = DeliveryDelivering \<and>
     (case d_lease_until d of None \<Rightarrow> False | Some t \<Rightarrow> \<not> t > now)"

definition target_enabled :: "memory \<Rightarrow> export_delivery \<Rightarrow> bool" where
  "target_enabled m d \<longleftrightarrow> (case exports m (d_target_id d) of None \<Rightarrow> False | Some t \<Rightarrow> et_enabled t)"

definition claimable_deliveries ::
  "string list \<Rightarrow> go_time \<Rightarrow> memory \<Rightarrow> (string \<times> export_delivery) list" where
  "claimable_deliveries ks now m = sort_key (\<lambda>e. d_created_at (snd e))
     (filter (\<lambda>e. target_enabled m (snd e) \<and>
                  (delivery_waiting now (snd e) \<or> delivery_expired now (snd e)))
       (entries ks (deliveries m)))"

definition claimed_delivery :: "string \<Rightarrow> go_time \<Rightarrow> duration \<Rightarrow> export_delivery \<Rightarrow> export_delivery" where
  "claimed_delivery workerID now lease d = d\<lparr>d_status := DeliveryDelivering, d_worker_id := workerID,
     d_lease_until := Some (now + lease), d_attempts := d_attempts d + 1, d_updated_at := now\<rparr>"

definition ClaimExportDelivery ::
  "string list \<Rightarrow> string \<Rightarrow> go_time \<Rightarrow> duration \<Rightarrow> memory \<Rightarrow> export_delivery outcome" where
  "ClaimExportDelivery ks workerID now lease m =
     (case claimable_deliveries ks now m of
        [] \<Rightarrow> (m, Inl (ErrNotFound ''export delivery'' ''claimable''))
      | e # _ \<Rightarrow>
          let d = claimed_delivery workerID now lease (snd e)
          in (m\<lparr>deliveries := (deliveries m)(fst e \<mapsto> d)\<rparr>, Inr d))"

definition owned_delivery :: "string \<Rightarrow> string \<Rightarrow> memory \<Rightarrow> export_delivery option" where
  "owned_delivery oid workerID m =
     (case deliveries m oid of
        None \<Rightarrow> None
      | Some d \<Rightarrow>
          if d_status d \<noteq> DeliveryDelivering \<or> d_worker_id d \<noteq> workerID then None else Some d)"

definition RenewExportDeliveryLease ::
  "go_time \<Rightarrow> string \<Rightarrow> string \<Rightarrow> go_time \<Rightarrow> memory \<Rightarrow> unit outcome" where
  "RenewExportDeliveryLease now oid workerID t m =
     (case owned_delivery oid workerID m of
        None \<Rightarrow> (m, Inl (ErrNotFound ''owned export delivery'' oid))
      | Some d \<Rightarrow>
          (m\<lparr>deliveries := (deliveries m)(oid \<mapsto> d\<lparr>d_lease_until := Some t, d_updated_at := now\<rparr>)\<rparr>,
           Inr ()))"

definition CompleteExportDelivery :: "go_time \<Rightarrow> string \<Rightarrow> string \<Rightarrow> memory \<Rightarrow> unit outcome" where
  "CompleteExportDelivery now oid workerID m =
     (case owned_delivery oid workerID m of
        None \<Rightarrow> (m, Inl (ErrNotFound ''owned export delivery'' oid))
      | Some d \<Rightarrow>
          (m\<lparr>deliveries := (deliveries m)(oid \<mapsto>
             d\<lparr>d_status := DeliverySent, d_worker_id := [], d_lease_until := None, d_last_error := [],
               d_delivered_at := Some now, d_updated_at := now\<rparr>)\<rparr>, Inr ()))"

definition FailExportDelivery ::
  "go_time \<Rightarrow> string \<Rightarrow> string \<Rightarrow> string \<Rightarrow> go_time \<Rightarrow> bool \<Rightarrow> memory \<Rightarrow> unit outcome" where
  "FailExportDelivery now oid workerID message retryAt terminal m =
     (case owned_delivery oid workerID m of
        None \<Rightarrow> (m, Inl (ErrNotFound ''owned export delivery'' oid))
      | Some d \<Rightarrow>
          let d = d\<lparr>d_status := DeliveryQueued\<rparr>;
              d = (if terminal then d\<lparr>d_status := DeliveryDead\<rparr> else d);
              d = d\<lparr>d_last_error := message, d_available_at := retryAt, d_worker_id := [],
                    d_lease_until := None, d_updated_at := now\<rparr>
          in (m\<lparr>deliveries := (deliveries m)(oid \<mapsto> d)\<rparr>, Inr ()))"

definition ListDeadExportDeliveries :: "string list \<Rightarrow> int \<Rightarrow> memory \<Rightarrow> export_delivery list" where
  "ListDeadExportDeliveries ks limit m =
     limited limit (sort_key (\<lambda>d. - d_updated_at d)
       (filter (\<lambda>d. d_status d = DeliveryDead) (vals ks (deliveries m))))"

text \<open>The method reads the clock twice.\<close>

definition RetryExportDelivery :: "go_time \<Rightarrow> go_time \<Rightarrow> string \<Rightarrow> memory \<Rightarrow> unit outcome" where
  "RetryExportDelivery now1 now2 oid m =
     (case deliveries m oid of
        None \<Rightarrow> (m, Inl (ErrNotFound ''dead export delivery'' oid))
      | Some d \<Rightarrow>
          if d_status d \<noteq> DeliveryDead then (m, Inl (ErrNotFound ''dead export delivery'' oid))
          else (m\<lparr>deliveries := (deliveries m)(oid \<mapsto>
                 d\<lparr>d_status := DeliveryQueued, d_attempts := 0, d_last_error := [],
                   d_available_at := now1, d_updated_at := now2\<rparr>)\<rparr>, Inr ()))"

section \<open>The lease contract\<close>

lemma claimed_delivery_simps [simp]:
  "d_id (claimed_delivery w now l d) = d_id d" "d_status (claimed_delivery w now l d) = DeliveryDelivering"
  "d_worker_id (claimed_delivery w now l d) = w"
  "d_lease_until (claimed_delivery w now l d) = Some (now + l)"
  "d_attempts (claimed_delivery w now l d) = d_attempts d + 1"
  "d_target_id (claimed_delivery w now l d) = d_target_id d"
  by (simp_all add: claimed_delivery_def)

lemma in_claimable_deliveries:
  "(k, d) \<in> set (claimable_deliveries ks now m) \<longleftrightarrow>
   k \<in> set ks \<and> deliveries m k = Some d \<and> target_enabled m d \<and>
   (delivery_waiting now d \<or> delivery_expired now d)"
  by (auto simp: claimable_deliveries_def in_entries_iff)

lemma owned_delivery_Some:
  "owned_delivery k w m = Some d \<longleftrightarrow>
   deliveries m k = Some d \<and> d_status d = DeliveryDelivering \<and> d_worker_id d = w"
  by (auto simp: owned_delivery_def split: option.splits if_splits)

lemma ClaimDelivery_err: "ClaimExportDelivery ks w now l m = (m', Inl e) \<Longrightarrow> m' = m"
  by (cases "claimable_deliveries ks now m") (simp_all add: ClaimExportDelivery_def Let_def)

lemma ClaimDelivery_ok:
  assumes "ClaimExportDelivery ks w now l m = (m', Inr d)"
  shows "\<exists>k d0. k \<in> set ks \<and> deliveries m k = Some d0 \<and> target_enabled m d0 \<and>
    (delivery_waiting now d0 \<or> delivery_expired now d0) \<and>
    m' = m\<lparr>deliveries := (deliveries m)(k \<mapsto> d)\<rparr> \<and> d = claimed_delivery w now l d0"
proof -
  obtain e rest where s: "claimable_deliveries ks now m = e # rest"
    using assms by (cases "claimable_deliveries ks now m") (simp_all add: ClaimExportDelivery_def Let_def)
  obtain k d0 where e: "e = (k, d0)" by (cases e)
  have 1: "k \<in> set ks \<and> deliveries m k = Some d0 \<and> target_enabled m d0 \<and>
      (delivery_waiting now d0 \<or> delivery_expired now d0)"
    using in_claimable_deliveries [of k d0 ks now m] s e by simp
  from assms s e have "m' = m\<lparr>deliveries := (deliveries m)(k \<mapsto> d)\<rparr> \<and> d = claimed_delivery w now l d0"
    by (auto simp: ClaimExportDelivery_def Let_def)
  with 1 show ?thesis by blast
qed

datatype delivery_finish = DeliveryComplete go_time | DeliveryFail go_time string go_time bool

fun finish_delivery :: "delivery_finish \<Rightarrow> string \<Rightarrow> string \<Rightarrow> memory \<Rightarrow> unit outcome" where
  "finish_delivery (DeliveryComplete now) k w m = CompleteExportDelivery now k w m"
| "finish_delivery (DeliveryFail now msg retryAt terminal) k w m =
     FailExportDelivery now k w msg retryAt terminal m"

lemma finish_delivery_ok:
  "finish_delivery f k w m = (m', Inr ()) \<Longrightarrow>
   \<exists>d d'. owned_delivery k w m = Some d \<and> m' = m\<lparr>deliveries := (deliveries m)(k \<mapsto> d')\<rparr> \<and>
     d_status d' \<in> {DeliverySent, DeliveryDead, DeliveryQueued} \<and> d_lease_until d' = None \<and>
     d_id d' = d_id d \<and> d_target_id d' = d_target_id d \<and> d_attempts d' = d_attempts d \<and>
     d_worker_id d' = []"
  by (cases f) (auto simp: CompleteExportDelivery_def FailExportDelivery_def Let_def
      split: option.splits if_splits)

lemma finish_delivery_err: "finish_delivery f k w m = (m', Inl e) \<Longrightarrow> m' = m"
  by (cases f) (auto simp: CompleteExportDelivery_def FailExportDelivery_def Let_def
      split: option.splits if_splits)

lemma finish_delivery_owned:
  "owned_delivery k w m = Some d \<Longrightarrow> \<exists>m'. finish_delivery f k w m = (m', Inr ())"
  by (cases f) (auto simp: CompleteExportDelivery_def FailExportDelivery_def Let_def)

interpretation delivery_lease: leased_table deliveries "\<lambda>d. d_status d = DeliveryDelivering" d_worker_id
  d_lease_until "\<lambda>m. delivery_waiting" ClaimExportDelivery RenewExportDeliveryLease finish_delivery
proof (unfold_locales, goal_cases)
  case (1 ks w now l m m' d)
  from ClaimDelivery_ok [OF 1] show ?case
    by (fastforce simp: delivery_expired_def split: option.splits)
next
  case 2 then show ?case by (rule ClaimDelivery_err)
next
  case 3 then show ?case by (simp add: delivery_waiting_def)
next
  case 4 then show ?case
    by (auto simp: RenewExportDeliveryLease_def owned_delivery_Some split: option.splits)
next
  case 5 then show ?case by (auto simp: RenewExportDeliveryLease_def split: option.splits)
next
  case (6 f k w m m')
  then obtain d d' where "owned_delivery k w m = Some d" "m' = m\<lparr>deliveries := (deliveries m)(k \<mapsto> d')\<rparr>"
    "d_status d' \<noteq> DeliveryDelivering" using finish_delivery_ok [of f k w m m'] by auto
  then show ?case by (intro exI [of _ d] exI [of _ d']) (simp add: owned_delivery_Some)
next
  case 7 then show ?case by (rule finish_delivery_err)
next
  case 8 then show ?case by (auto intro: finish_delivery_owned simp: owned_delivery_Some)
qed

section \<open>The invariant of the outbox\<close>

definition delivery_row_ok :: "string \<Rightarrow> export_delivery \<Rightarrow> bool" where
  "delivery_row_ok k d \<longleftrightarrow> d_id d = k \<and>
     d_status d \<in> {DeliveryQueued, DeliveryDelivering, DeliverySent, DeliveryDead} \<and>
     (d_status d = DeliveryDelivering \<longleftrightarrow> d_lease_until d \<noteq> None) \<and> 0 \<le> d_attempts d"

text \<open>Keys are ids, every row is well formed and no delivery outlives its target.\<close>

definition outbox_inv :: "memory \<Rightarrow> bool" where
  "outbox_inv m \<longleftrightarrow> (\<forall>k t. exports m k = Some t \<longrightarrow> et_id t = k) \<and>
     (\<forall>k d. deliveries m k = Some d \<longrightarrow> delivery_row_ok k d \<and> exports m (d_target_id d) \<noteq> None)"

lemma outbox_row:
  "outbox_inv m \<Longrightarrow> deliveries m k = Some d \<Longrightarrow> delivery_row_ok k d \<and> exports m (d_target_id d) \<noteq> None"
  by (simp add: outbox_inv_def)

lemma outbox_inv_cong:
  "exports m' = exports m \<Longrightarrow> deliveries m' = deliveries m \<Longrightarrow> outbox_inv m' = outbox_inv m"
  by (simp add: outbox_inv_def)

inductive export_step :: "memory \<Rightarrow> memory \<Rightarrow> bool" where
  export_create: "et_id t = [] \<Longrightarrow> export_step m (fst (CreateExportTarget uuid now t m))"
| export_update: "export_step m (fst (UpdateExportTarget now t m))"
| export_delete: "export_step m (fst (DeleteExportTarget i m))"
| export_claim: "export_step m (fst (ClaimExportDelivery ks w now l m))"
| export_renew: "export_step m (fst (RenewExportDeliveryLease now k w t m))"
| export_finish: "export_step m (fst (finish_delivery f k w m))"
| export_retry: "export_step m (fst (RetryExportDelivery now1 now2 k m))"

lemma outbox_inv_upd:
  assumes "outbox_inv m" and "deliveries m k = Some d0"
    and "delivery_row_ok k d" and "d_target_id d = d_target_id d0"
  shows "outbox_inv (m\<lparr>deliveries := (deliveries m)(k \<mapsto> d)\<rparr>)"
  using assms(1,3,4) outbox_row [OF assms(1,2)] by (simp add: outbox_inv_def)

lemma outbox_inv_target:
  assumes "outbox_inv m" and "et_id t = k"
  shows "outbox_inv (m\<lparr>exports := (exports m)(k \<mapsto> t)\<rparr>)"
  using assms by (simp add: outbox_inv_def)

lemma outbox_inv_update: "outbox_inv m \<Longrightarrow> outbox_inv (fst (UpdateExportTarget now t m))"
  by (cases "exports m (et_id t)") (simp_all add: UpdateExportTarget_def outbox_inv_target)

lemma outbox_inv_delete:
  assumes "outbox_inv m"
  shows "outbox_inv (fst (DeleteExportTarget i m))"
proof (cases "exports m i")
  case None
  with assms show ?thesis by (simp add: DeleteExportTarget_def)
next
  case (Some t)
  have "delivery_row_ok k d \<and> exports m (d_target_id d) \<noteq> None \<and> d_target_id d \<noteq> i"
    if "deliveries (fst (DeleteExportTarget i m)) k = Some d" for k d
    using that Some outbox_row [OF assms, of k d]
    by (auto simp: DeleteExportTarget_def split: option.splits if_splits)
  moreover have "exports (fst (DeleteExportTarget i m)) = (exports m)(i := None)"
    using Some by (simp add: DeleteExportTarget_def)
  ultimately show ?thesis using assms by (simp add: outbox_inv_def)
qed

lemma outbox_inv_claim:
  assumes "outbox_inv m"
  shows "outbox_inv (fst (ClaimExportDelivery ks w now l m))"
proof (cases "ClaimExportDelivery ks w now l m")
  case (Pair m' r)
  show ?thesis
  proof (cases r)
    case (Inl e)
    with Pair assms show ?thesis by (auto dest: ClaimDelivery_err)
  next
    case (Inr d)
    with Pair have "ClaimExportDelivery ks w now l m = (m', Inr d)" by simp
    from ClaimDelivery_ok [OF this] obtain k d0 where k: "deliveries m k = Some d0"
      "m' = m\<lparr>deliveries := (deliveries m)(k \<mapsto> d)\<rparr>" "d = claimed_delivery w now l d0" by blast
    have "outbox_inv m'" unfolding k(2)
      by (rule outbox_inv_upd [OF assms k(1)])
        (use outbox_row [OF assms k(1)] in \<open>simp_all add: k(3) delivery_row_ok_def\<close>)
    with Pair show ?thesis by simp
  qed
qed

lemma outbox_inv_renew:
  assumes "outbox_inv m"
  shows "outbox_inv (fst (RenewExportDeliveryLease now k w t m))"
proof (cases "owned_delivery k w m")
  case None
  with assms show ?thesis by (simp add: RenewExportDeliveryLease_def)
next
  case (Some d)
  then have d: "deliveries m k = Some d" "d_status d = DeliveryDelivering"
    by (simp_all add: owned_delivery_Some)
  have "outbox_inv (m\<lparr>deliveries := (deliveries m)(k \<mapsto> d\<lparr>d_lease_until := Some t, d_updated_at := now\<rparr>)\<rparr>)"
    by (rule outbox_inv_upd [OF assms d(1)])
      (use outbox_row [OF assms d(1)] d(2) in \<open>simp_all add: delivery_row_ok_def\<close>)
  with Some show ?thesis by (simp add: RenewExportDeliveryLease_def)
qed

lemma outbox_inv_finish:
  assumes "outbox_inv m"
  shows "outbox_inv (fst (finish_delivery f k w m))"
proof (cases "finish_delivery f k w m")
  case (Pair m' r)
  show ?thesis
  proof (cases r)
    case (Inl e)
    with Pair assms show ?thesis by (auto dest: finish_delivery_err)
  next
    case (Inr u)
    with Pair have "finish_delivery f k w m = (m', Inr ())" by simp
    from finish_delivery_ok [OF this] obtain d d' where o: "owned_delivery k w m = Some d"
      and m': "m' = m\<lparr>deliveries := (deliveries m)(k \<mapsto> d')\<rparr>"
      and d': "d_status d' \<in> {DeliverySent, DeliveryDead, DeliveryQueued}" "d_lease_until d' = None"
        "d_id d' = d_id d" "d_target_id d' = d_target_id d" "d_attempts d' = d_attempts d"
      by blast
    from o have d: "deliveries m k = Some d" by (simp add: owned_delivery_Some)
    have "delivery_row_ok k d'"
      using outbox_row [OF assms d] d' by (auto simp: delivery_row_ok_def)
    from outbox_inv_upd [OF assms d this d'(4)] m' Pair show ?thesis by simp
  qed
qed

lemma outbox_inv_retry:
  assumes "outbox_inv m"
  shows "outbox_inv (fst (RetryExportDelivery now1 now2 k m))"
proof (cases "deliveries m k")
  case None
  with assms show ?thesis by (simp add: RetryExportDelivery_def)
next
  case (Some d)
  show ?thesis
  proof (cases "d_status d = DeliveryDead")
    case False
    with Some assms show ?thesis by (simp add: RetryExportDelivery_def)
  next
    case True
    have "outbox_inv (m\<lparr>deliveries := (deliveries m)(k \<mapsto>
        d\<lparr>d_status := DeliveryQueued, d_attempts := 0, d_last_error := [],
          d_available_at := now1, d_updated_at := now2\<rparr>)\<rparr>)"
      by (rule outbox_inv_upd [OF assms Some])
        (use outbox_row [OF assms Some] True in \<open>simp_all add: delivery_row_ok_def\<close>)
    with Some True show ?thesis by (simp add: RetryExportDelivery_def)
  qed
qed

lemma export_step_inv: "export_step m m' \<Longrightarrow> outbox_inv m \<Longrightarrow> outbox_inv m'"
  by (induction rule: export_step.induct)
    (simp_all add: CreateExportTarget_def Let_def outbox_inv_target outbox_inv_update
      outbox_inv_delete outbox_inv_claim outbox_inv_renew outbox_inv_finish outbox_inv_retry)

text \<open>An upsert queues its deliveries for targets of the table, so it keeps the invariant too.\<close>

lemma new_delivery_row_ok: "delivery_row_ok u (new_delivery u t i now)"
  by (simp add: delivery_row_ok_def new_delivery_def)

lemma new_delivery_target [simp]: "d_target_id (new_delivery u t i now) = t"
  by (simp add: new_delivery_def)

lemma enqueue_targets_row:
  "enqueue_targets uuids n i now ts ds k = Some d \<Longrightarrow>
   ds k = Some d \<or> (delivery_row_ok k d \<and> (\<exists>t \<in> set ts. d_target_id d = et_id t))"
proof (induction uuids n i now ts ds rule: enqueue_targets.induct)
  case (2 uuids n i now t ts ds)
  show ?case
  proof (cases "et_enabled t")
    case True
    let ?d = "new_delivery (uuids n) (et_id t) i now"
    from 2 True have "(ds(uuids n \<mapsto> ?d)) k = Some d \<or>
        (delivery_row_ok k d \<and> (\<exists>t \<in> set ts. d_target_id d = et_id t))"
      by (auto simp: Let_def fun_upd_def)
    then show ?thesis
      using new_delivery_row_ok [of "uuids n" "et_id t" i now] by (auto split: if_splits)
  next
    case False
    with 2 show ?thesis by auto
  qed
qed simp

lemma outbox_inv_enqueue:
  assumes "outbox_inv m"
  shows "outbox_inv (enqueueExportsLocked ks uuids i now m)"
proof -
  have "delivery_row_ok k d \<and> exports m (d_target_id d) \<noteq> None"
    if "enqueue_targets uuids 0 i now (vals ks (exports m)) (deliveries m) k = Some d" for k d
    using enqueue_targets_row [OF that]
  proof
    assume "deliveries m k = Some d"
    then show ?thesis by (rule outbox_row [OF assms])
  next
    assume a: "delivery_row_ok k d \<and> (\<exists>t \<in> set (vals ks (exports m)). d_target_id d = et_id t)"
    then obtain t k' where "exports m k' = Some t" "d_target_id d = et_id t" by (auto simp: set_vals)
    with a assms show ?thesis by (auto simp: outbox_inv_def)
  qed
  with assms show ?thesis by (simp add: outbox_inv_def enqueueExportsLocked_def)
qed

lemma outbox_inv_upsert:
  assumes "outbox_inv m"
  shows "outbox_inv (fst (UpsertObservation sk ek uuid uuids now ob m))"
proof (cases "dedup_lookup m (o_host_id ob) (o_dedup_key ob)")
  case None
  then show ?thesis
    unfolding Upsert_new [OF None] Let_def fst_conv
    by (intro outbox_inv_enqueue) (simp add: outbox_inv_cong [OF _ _] assms cong: outbox_inv_cong)
next
  case (Some i)
  show ?thesis
  proof (cases "obs m i")
    case None
    with Some assms show ?thesis by (simp add: UpsertObservation_def Let_def)
  next
    case ex: (Some ex)
    show ?thesis
      unfolding Upsert_known [OF Some ex] Let_def fst_conv
      by (intro outbox_inv_enqueue) (simp add: assms cong: outbox_inv_cong)
  qed
qed

lemma outbox_inv_New: "outbox_inv NewMemory"
  by (simp add: outbox_inv_def NewMemory_def)

end
