(* ===== verification/Responses.thy ===== *)
theory Responses
  imports Lease
begin

text \<open>
  Response actions: the containment operations an administrator requests, a second one
  approves, and a worker runs under a lease. The store is the one place that enforces
  two-person control, so the state machine is modelled whole: create, approve, reject,
  claim, renew, complete, fail.
\<close>

section \<open>Operations\<close>

definition CreateResponseAction ::
  "string \<Rightarrow> go_time \<Rightarrow> response_action \<Rightarrow> memory \<Rightarrow> response_action outcome" where
  "CreateResponseAction uuid now action m =
     (case hosts m (ra_host_id action) of
        None \<Rightarrow> (m, Inl (ErrNotFound ''host'' (ra_host_id action)))
      | Some _ \<Rightarrow>
          let action = action\<lparr>
                ra_id := or_default (ra_id action) uuid,
                ra_status := or_default (ra_status action) ResponsePending,
                ra_created_at := or_default_time (ra_created_at action) now,
                ra_updated_at := now\<rparr>
          in (m\<lparr>responses := (responses m)(ra_id action \<mapsto> action)\<rparr>, Inr action))"

definition GetResponseAction :: "string \<Rightarrow> memory \<Rightarrow> response_action result" where
  "GetResponseAction oid m = get_or ''response action'' (responses m) oid"

definition ListResponseActions :: "string list \<Rightarrow> string \<Rightarrow> int \<Rightarrow> memory \<Rightarrow> response_action list" where
  "ListResponseActions ks hostID limit m =
     (let limit = (if limit \<le> 0 \<or> limit > 500 then 100 else limit)
      in limited limit (sort_key (\<lambda>a. - ra_created_at a)
           (filter (\<lambda>a. hostID = [] \<or> ra_host_id a = hostID) (vals ks (responses m)))))"

definition pending_action :: "string \<Rightarrow> memory \<Rightarrow> response_action option" where
  "pending_action oid m =
     (case responses m oid of
        None \<Rightarrow> None
      | Some a \<Rightarrow> if ra_status a \<noteq> ResponsePending then None else Some a)"

definition ApproveResponseAction :: "go_time \<Rightarrow> string \<Rightarrow> string \<Rightarrow> memory \<Rightarrow> unit outcome" where
  "ApproveResponseAction now oid approver m =
     (case pending_action oid m of
        None \<Rightarrow> (m, Inl (ErrNotFound ''pending response action'' oid))
      | Some a \<Rightarrow>
          if ra_requested_by a = approver \<and> \<not> AllowSelfApproval m
          then (m, Inl (ErrSelfApproval oid approver))
          else (m\<lparr>responses := (responses m)(oid \<mapsto>
                  a\<lparr>ra_status := ResponseApproved, ra_approved_by := approver,
                    ra_approved_at := Some now, ra_updated_at := now\<rparr>)\<rparr>, Inr ()))"

definition RejectResponseAction ::
  "go_time \<Rightarrow> string \<Rightarrow> string \<Rightarrow> string \<Rightarrow> memory \<Rightarrow> unit outcome" where
  "RejectResponseAction now oid rejector reason m =
     (case pending_action oid m of
        None \<Rightarrow> (m, Inl (ErrNotFound ''pending response action'' oid))
      | Some a \<Rightarrow>
          (m\<lparr>responses := (responses m)(oid \<mapsto>
             a\<lparr>ra_status := ResponseRejected, ra_rejected_by := rejector, ra_reject_reason := reason,
               ra_rejected_at := Some now, ra_finished_at := Some now, ra_updated_at := now\<rparr>)\<rparr>, Inr ()))"

definition action_ready :: "response_action \<Rightarrow> bool" where
  "action_ready a \<longleftrightarrow> ra_status a = ResponseApproved"

definition action_expired :: "go_time \<Rightarrow> response_action \<Rightarrow> bool" where
  "action_expired now a \<longleftrightarrow> ra_status a = ResponseRunning \<and>
     (case ra_lease_until a of None \<Rightarrow> False | Some t \<Rightarrow> \<not> t > now)"

definition claimable_actions ::
  "string list \<Rightarrow> go_time \<Rightarrow> memory \<Rightarrow> (string \<times> response_action) list" where
  "claimable_actions ks now m = sort_key (\<lambda>e. ra_created_at (snd e))
     (filter (\<lambda>e. action_ready (snd e) \<or> action_expired now (snd e)) (entries ks (responses m)))"

definition claimed_action :: "string \<Rightarrow> go_time \<Rightarrow> duration \<Rightarrow> response_action \<Rightarrow> response_action" where
  "claimed_action workerID now lease a =
     (let a = a\<lparr>ra_status := ResponseRunning, ra_worker_id := workerID,
                ra_lease_until := Some (now + lease), ra_updated_at := now\<rparr>
      in (case ra_started_at a of None \<Rightarrow> a\<lparr>ra_started_at := Some now\<rparr> | Some _ \<Rightarrow> a))"

definition ClaimResponseAction ::
  "string list \<Rightarrow> string \<Rightarrow> go_time \<Rightarrow> duration \<Rightarrow> memory \<Rightarrow> response_action outcome" where
  "ClaimResponseAction ks workerID now lease m =
     (case claimable_actions ks now m of
        [] \<Rightarrow> (m, Inl (ErrNotFound ''response action'' ''claimable''))
      | e # _ \<Rightarrow>
          let a = claimed_action workerID now lease (snd e)
          in (m\<lparr>responses := (responses m)(fst e \<mapsto> a)\<rparr>, Inr a))"

definition owned_action :: "string \<Rightarrow> string \<Rightarrow> memory \<Rightarrow> response_action option" where
  "owned_action oid workerID m =
     (case responses m oid of
        None \<Rightarrow> None
      | Some a \<Rightarrow>
          if ra_status a \<noteq> ResponseRunning \<or> ra_worker_id a \<noteq> workerID then None else Some a)"

definition RenewResponseActionLease ::
  "go_time \<Rightarrow> string \<Rightarrow> string \<Rightarrow> go_time \<Rightarrow> memory \<Rightarrow> unit outcome" where
  "RenewResponseActionLease now oid workerID t m =
     (case owned_action oid workerID m of
        None \<Rightarrow> (m, Inl (ErrNotFound ''owned response action'' oid))
      | Some a \<Rightarrow>
          (m\<lparr>responses := (responses m)(oid \<mapsto> a\<lparr>ra_lease_until := Some t, ra_updated_at := now\<rparr>)\<rparr>,
           Inr ()))"

definition CompleteResponseAction :: "go_time \<Rightarrow> string \<Rightarrow> string \<Rightarrow> string \<Rightarrow> memory \<Rightarrow> unit outcome" where
  "CompleteResponseAction now oid workerID output m =
     (case owned_action oid workerID m of
        None \<Rightarrow> (m, Inl (ErrNotFound ''owned response action'' oid))
      | Some a \<Rightarrow>
          (m\<lparr>responses := (responses m)(oid \<mapsto>
             a\<lparr>ra_status := ResponseSucceeded, ra_output := output, ra_error := [], ra_worker_id := [],
               ra_lease_until := None, ra_finished_at := Some now, ra_updated_at := now\<rparr>)\<rparr>, Inr ()))"

definition FailResponseAction :: "go_time \<Rightarrow> string \<Rightarrow> string \<Rightarrow> string \<Rightarrow> memory \<Rightarrow> unit outcome" where
  "FailResponseAction now oid workerID message m =
     (case owned_action oid workerID m of
        None \<Rightarrow> (m, Inl (ErrNotFound ''owned response action'' oid))
      | Some a \<Rightarrow>
          (m\<lparr>responses := (responses m)(oid \<mapsto>
             a\<lparr>ra_status := ResponseFailed, ra_error := message, ra_worker_id := [],
               ra_lease_until := None, ra_finished_at := Some now, ra_updated_at := now\<rparr>)\<rparr>, Inr ()))"

section \<open>Facts of the calls\<close>

lemma claimed_action_simps [simp]:
  "ra_id (claimed_action w now l a) = ra_id a" "ra_status (claimed_action w now l a) = ResponseRunning"
  "ra_worker_id (claimed_action w now l a) = w"
  "ra_lease_until (claimed_action w now l a) = Some (now + l)"
  "ra_requested_by (claimed_action w now l a) = ra_requested_by a"
  "ra_approved_by (claimed_action w now l a) = ra_approved_by a"
  "ra_approved_at (claimed_action w now l a) = ra_approved_at a"
  "ra_started_at (claimed_action w now l a) \<noteq> None"
  "ra_playbook (claimed_action w now l a) = ra_playbook a"
  "ra_params (claimed_action w now l a) = ra_params a"
  "ra_host_id (claimed_action w now l a) = ra_host_id a"
  "ra_dry_run (claimed_action w now l a) = ra_dry_run a"
  "ra_created_at (claimed_action w now l a) = ra_created_at a"
  by (simp_all add: claimed_action_def Let_def split: option.split)

lemma pending_action_Some:
  "pending_action k m = Some a \<longleftrightarrow> responses m k = Some a \<and> ra_status a = ResponsePending"
  by (auto simp: pending_action_def split: option.splits if_splits)

lemma owned_action_Some:
  "owned_action k w m = Some a \<longleftrightarrow>
   responses m k = Some a \<and> ra_status a = ResponseRunning \<and> ra_worker_id a = w"
  by (auto simp: owned_action_def split: option.splits if_splits)

lemma in_claimable_actions:
  "(k, a) \<in> set (claimable_actions ks now m) \<longleftrightarrow>
   k \<in> set ks \<and> responses m k = Some a \<and> (action_ready a \<or> action_expired now a)"
  by (auto simp: claimable_actions_def in_entries_iff)

lemma ClaimAction_err: "ClaimResponseAction ks w now l m = (m', Inl e) \<Longrightarrow> m' = m"
  by (cases "claimable_actions ks now m") (simp_all add: ClaimResponseAction_def Let_def)

lemma ClaimAction_ok:
  assumes "ClaimResponseAction ks w now l m = (m', Inr a)"
  shows "\<exists>k a0. k \<in> set ks \<and> responses m k = Some a0 \<and> (action_ready a0 \<or> action_expired now a0) \<and>
    m' = m\<lparr>responses := (responses m)(k \<mapsto> a)\<rparr> \<and> a = claimed_action w now l a0"
proof -
  obtain e rest where s: "claimable_actions ks now m = e # rest"
    using assms by (cases "claimable_actions ks now m") (simp_all add: ClaimResponseAction_def Let_def)
  obtain k a0 where e: "e = (k, a0)" by (cases e)
  have 1: "k \<in> set ks \<and> responses m k = Some a0 \<and> (action_ready a0 \<or> action_expired now a0)"
    using in_claimable_actions [of k a0 ks now m] s e by simp
  from assms s e have "m' = m\<lparr>responses := (responses m)(k \<mapsto> a)\<rparr> \<and> a = claimed_action w now l a0"
    by (auto simp: ClaimResponseAction_def Let_def)
  with 1 show ?thesis by blast
qed

datatype action_finish = ActionComplete go_time string | ActionFail go_time string

fun finish_action :: "action_finish \<Rightarrow> string \<Rightarrow> string \<Rightarrow> memory \<Rightarrow> unit outcome" where
  "finish_action (ActionComplete now output) k w m = CompleteResponseAction now k w output m"
| "finish_action (ActionFail now msg) k w m = FailResponseAction now k w msg m"

text \<open>What an administrator approved: the host, the playbook, its parameters and the dry-run flag.\<close>

definition same_request :: "response_action \<Rightarrow> response_action \<Rightarrow> bool" where
  "same_request a b \<longleftrightarrow> ra_host_id b = ra_host_id a \<and> ra_playbook b = ra_playbook a \<and>
     ra_params b = ra_params a \<and> ra_dry_run b = ra_dry_run a \<and>
     ra_requested_by b = ra_requested_by a \<and> ra_created_at b = ra_created_at a"

lemma finish_action_ok:
  "finish_action f k w m = (m', Inr ()) \<Longrightarrow>
   \<exists>a a'. owned_action k w m = Some a \<and> m' = m\<lparr>responses := (responses m)(k \<mapsto> a')\<rparr> \<and>
     ra_status a' \<in> {ResponseSucceeded, ResponseFailed} \<and> ra_lease_until a' = None \<and>
     ra_finished_at a' \<noteq> None \<and> ra_started_at a' = ra_started_at a \<and>
     ra_id a' = ra_id a \<and> ra_requested_by a' = ra_requested_by a \<and>
     ra_approved_by a' = ra_approved_by a \<and> ra_approved_at a' = ra_approved_at a \<and>
     same_request a a'"
  by (cases f) (auto simp: CompleteResponseAction_def FailResponseAction_def same_request_def
      split: option.splits)

lemma finish_action_err: "finish_action f k w m = (m', Inl e) \<Longrightarrow> m' = m"
  by (cases f) (auto simp: CompleteResponseAction_def FailResponseAction_def split: option.splits)

lemma finish_action_owned: "owned_action k w m = Some a \<Longrightarrow> \<exists>m'. finish_action f k w m = (m', Inr ())"
  by (cases f) (auto simp: CompleteResponseAction_def FailResponseAction_def)

interpretation action_lease: leased_table responses "\<lambda>a. ra_status a = ResponseRunning" ra_worker_id
  ra_lease_until "\<lambda>m now. action_ready" ClaimResponseAction RenewResponseActionLease finish_action
proof (unfold_locales, goal_cases)
  case (1 ks w now l m m' a)
  from ClaimAction_ok [OF 1] show ?case
    by (fastforce simp: action_expired_def split: option.splits)
next
  case 2 then show ?case by (rule ClaimAction_err)
next
  case 3 then show ?case by (simp add: action_ready_def)
next
  case 4 then show ?case
    by (auto simp: RenewResponseActionLease_def owned_action_Some split: option.splits)
next
  case 5 then show ?case by (auto simp: RenewResponseActionLease_def split: option.splits)
next
  case (6 f k w m m')
  then obtain a a' where "owned_action k w m = Some a" "m' = m\<lparr>responses := (responses m)(k \<mapsto> a')\<rparr>"
    "ra_status a' \<noteq> ResponseRunning" using finish_action_ok [of f k w m m'] by auto
  then show ?case by (intro exI [of _ a] exI [of _ a']) (simp add: owned_action_Some)
next
  case 7 then show ?case by (rule finish_action_err)
next
  case 8 then show ?case by (auto intro: finish_action_owned simp: owned_action_Some)
qed

section \<open>The invariant of the table\<close>

definition action_executed :: "response_action \<Rightarrow> bool" where
  "action_executed a \<longleftrightarrow>
     ra_status a \<in> {ResponseApproved, ResponseRunning, ResponseSucceeded, ResponseFailed}"

definition action_terminal :: "response_action \<Rightarrow> bool" where
  "action_terminal a \<longleftrightarrow> ra_status a \<in> {ResponseRejected, ResponseSucceeded, ResponseFailed}"

definition action_row_ok :: "bool \<Rightarrow> string \<Rightarrow> response_action \<Rightarrow> bool" where
  "action_row_ok self k a \<longleftrightarrow> ra_id a = k \<and>
     ra_status a \<in> {ResponsePending, ResponseApproved, ResponseRejected, ResponseRunning,
       ResponseSucceeded, ResponseFailed} \<and>
     (action_executed a \<longrightarrow> ra_approved_at a \<noteq> None \<and> (self \<or> ra_approved_by a \<noteq> ra_requested_by a)) \<and>
     (ra_status a \<in> {ResponsePending, ResponseApproved, ResponseRejected} \<longrightarrow> ra_started_at a = None) \<and>
     (ra_status a \<in> {ResponseRunning, ResponseSucceeded, ResponseFailed} \<longrightarrow> ra_started_at a \<noteq> None) \<and>
     (ra_status a = ResponseRunning \<longleftrightarrow> ra_lease_until a \<noteq> None) \<and>
     (action_terminal a \<longrightarrow> ra_finished_at a \<noteq> None)"

definition resp_inv :: "memory \<Rightarrow> bool" where
  "resp_inv m \<longleftrightarrow> (\<forall>k a. responses m k = Some a \<longrightarrow> action_row_ok (AllowSelfApproval m) k a)"

text \<open>
  Steps of the table. \<open>createResponse\<close> in the API is the only producer: it sets the host, the
  playbook and its parameters, the dry-run flag and the requester, and the status pending.
\<close>

definition requested_action ::
  "string \<Rightarrow> string \<Rightarrow> string_map \<Rightarrow> bool \<Rightarrow> string \<Rightarrow> response_action" where
  "requested_action hostID playbook params dryRun requester = \<lparr>
     ra_id = [], ra_host_id = hostID, ra_playbook = playbook, ra_params = params, ra_dry_run = dryRun,
     ra_status = ResponsePending, ra_requested_by = requester, ra_approved_by = [], ra_rejected_by = [],
     ra_reject_reason = [], ra_worker_id = [], ra_lease_until = None, ra_output = [], ra_error = [],
     ra_created_at = 0, ra_approved_at = None, ra_rejected_at = None, ra_started_at = None,
     ra_finished_at = None, ra_updated_at = 0 \<rparr>"

inductive resp_step :: "memory \<Rightarrow> memory \<Rightarrow> bool" where
  resp_create: "responses m uuid = None \<Longrightarrow>
     resp_step m (fst (CreateResponseAction uuid now (requested_action h p ps dry who) m))"
| resp_approve: "resp_step m (fst (ApproveResponseAction now k approver m))"
| resp_reject: "resp_step m (fst (RejectResponseAction now k rejector reason m))"
| resp_claim: "resp_step m (fst (ClaimResponseAction ks w now l m))"
| resp_renew: "resp_step m (fst (RenewResponseActionLease now k w t m))"
| resp_finish: "resp_step m (fst (finish_action f k w m))"

text \<open>Each step leaves the table alone or writes one row, in one of these ways.\<close>

inductive row_step :: "bool \<Rightarrow> string \<Rightarrow> response_action option \<Rightarrow> response_action \<Rightarrow> bool" where
  row_new: "ra_id a = k \<Longrightarrow> ra_status a = ResponsePending \<Longrightarrow> ra_started_at a = None \<Longrightarrow>
     ra_lease_until a = None \<Longrightarrow> row_step self k None a"
| row_approve: "ra_status a = ResponsePending \<Longrightarrow> self \<or> who \<noteq> ra_requested_by a \<Longrightarrow>
     row_step self k (Some a) (a\<lparr>ra_status := ResponseApproved, ra_approved_by := who,
       ra_approved_at := Some now, ra_updated_at := now\<rparr>)"
| row_reject: "ra_status a = ResponsePending \<Longrightarrow>
     row_step self k (Some a) (a\<lparr>ra_status := ResponseRejected, ra_rejected_by := who,
       ra_reject_reason := reason, ra_rejected_at := Some now, ra_finished_at := Some now,
       ra_updated_at := now\<rparr>)"
| row_claim: "action_ready a \<or> action_expired now a \<Longrightarrow>
     row_step self k (Some a) (claimed_action w now l a)"
| row_renew: "ra_status a = ResponseRunning \<Longrightarrow>
     row_step self k (Some a) (a\<lparr>ra_lease_until := Some t, ra_updated_at := now\<rparr>)"
| row_finish: "ra_status a = ResponseRunning \<Longrightarrow> ra_status a' \<in> {ResponseSucceeded, ResponseFailed} \<Longrightarrow>
     ra_lease_until a' = None \<Longrightarrow> ra_finished_at a' \<noteq> None \<Longrightarrow> ra_started_at a' = ra_started_at a \<Longrightarrow>
     ra_id a' = ra_id a \<Longrightarrow> ra_requested_by a' = ra_requested_by a \<Longrightarrow>
     ra_approved_by a' = ra_approved_by a \<Longrightarrow> ra_approved_at a' = ra_approved_at a \<Longrightarrow>
     same_request a a' \<Longrightarrow> row_step self k (Some a) a'"

inductive_cases row_step_NoneE: "row_step self k None a"
inductive_cases row_step_SomeE: "row_step self k (Some a) a'"

text \<open>The effect of one call, as a write of one row or none.\<close>

definition one_row :: "memory \<Rightarrow> memory \<Rightarrow> bool" where
  "one_row m m' \<longleftrightarrow> m' = m \<or> (\<exists>k a. m' = m\<lparr>responses := (responses m)(k \<mapsto> a)\<rparr> \<and>
     row_step (AllowSelfApproval m) k (responses m k) a)"

lemma one_row_same: "one_row m m"
  by (simp add: one_row_def)

lemma one_rowI:
  "row_step (AllowSelfApproval m) k (responses m k) a \<Longrightarrow>
   one_row m (m\<lparr>responses := (responses m)(k \<mapsto> a)\<rparr>)"
  unfolding one_row_def by blast

lemma one_row_create:
  assumes "responses m uuid = None"
  shows "one_row m (fst (CreateResponseAction uuid now (requested_action h p ps dry who) m))"
proof (cases "hosts m h")
  case None
  then show ?thesis by (simp add: CreateResponseAction_def requested_action_def one_row_same)
next
  case (Some x)
  let ?a = "(requested_action h p ps dry who)\<lparr>ra_id := uuid, ra_created_at := now, ra_updated_at := now\<rparr>"
  have "fst (CreateResponseAction uuid now (requested_action h p ps dry who) m) =
      m\<lparr>responses := (responses m)(uuid \<mapsto> ?a)\<rparr>"
    using Some by (simp add: CreateResponseAction_def requested_action_def Let_def)
  moreover have "row_step (AllowSelfApproval m) uuid (responses m uuid) ?a"
    unfolding assms by (rule row_new) (simp_all add: requested_action_def)
  ultimately show ?thesis by (simp add: one_rowI)
qed

lemma one_row_approve: "one_row m (fst (ApproveResponseAction now k approver m))"
proof (cases "pending_action k m")
  case None
  then show ?thesis by (simp add: ApproveResponseAction_def one_row_same)
next
  case (Some a)
  then have a: "responses m k = Some a" "ra_status a = ResponsePending"
    by (simp_all add: pending_action_Some)
  show ?thesis
  proof (cases "ra_requested_by a = approver \<and> \<not> AllowSelfApproval m")
    case True
    with Some show ?thesis by (simp add: ApproveResponseAction_def one_row_same)
  next
    case False
    then have "AllowSelfApproval m \<or> approver \<noteq> ra_requested_by a" by auto
    from row_approve [OF a(2) this, of k now] a(1)
    have "one_row m (m\<lparr>responses := (responses m)(k \<mapsto>
        a\<lparr>ra_status := ResponseApproved, ra_approved_by := approver,
          ra_approved_at := Some now, ra_updated_at := now\<rparr>)\<rparr>)"
      by (intro one_rowI) simp
    with Some False show ?thesis by (auto simp: ApproveResponseAction_def)
  qed
qed

lemma one_row_reject: "one_row m (fst (RejectResponseAction now k rejector reason m))"
proof (cases "pending_action k m")
  case None
  then show ?thesis by (simp add: RejectResponseAction_def one_row_same)
next
  case (Some a)
  then have a: "responses m k = Some a" "ra_status a = ResponsePending"
    by (simp_all add: pending_action_Some)
  from one_rowI [of m k, unfolded a(1), OF row_reject [OF a(2)]]
  show ?thesis by (simp add: RejectResponseAction_def Some)
qed

lemma one_row_claim: "one_row m (fst (ClaimResponseAction ks w now l m))"
proof (cases "ClaimResponseAction ks w now l m")
  case (Pair m' r)
  show ?thesis
  proof (cases r)
    case (Inl e)
    with Pair show ?thesis by (auto dest: ClaimAction_err intro: one_row_same)
  next
    case (Inr a)
    with Pair have "ClaimResponseAction ks w now l m = (m', Inr a)" by simp
    from ClaimAction_ok [OF this] obtain k a0 where k: "responses m k = Some a0"
      "action_ready a0 \<or> action_expired now a0"
      "m' = m\<lparr>responses := (responses m)(k \<mapsto> a)\<rparr>" "a = claimed_action w now l a0" by blast
    have "row_step (AllowSelfApproval m) k (responses m k) a"
      unfolding k(1,4) by (rule row_claim [OF k(2)])
    with k(3) Pair show ?thesis by (simp add: one_rowI)
  qed
qed

lemma one_row_renew: "one_row m (fst (RenewResponseActionLease now k w t m))"
proof (cases "owned_action k w m")
  case None
  then show ?thesis by (simp add: RenewResponseActionLease_def one_row_same)
next
  case (Some a)
  then have a: "responses m k = Some a" "ra_status a = ResponseRunning"
    by (simp_all add: owned_action_Some)
  from one_rowI [of m k, unfolded a(1), OF row_renew [OF a(2)]]
  show ?thesis by (simp add: RenewResponseActionLease_def Some)
qed

lemma one_row_finish: "one_row m (fst (finish_action f k w m))"
proof (cases "finish_action f k w m")
  case (Pair m' r)
  show ?thesis
  proof (cases r)
    case (Inl e)
    with Pair show ?thesis by (auto dest: finish_action_err intro: one_row_same)
  next
    case (Inr u)
    with Pair have "finish_action f k w m = (m', Inr ())" by simp
    from finish_action_ok [OF this] obtain a a' where o: "owned_action k w m = Some a"
      and m': "m' = m\<lparr>responses := (responses m)(k \<mapsto> a')\<rparr>"
      and a': "ra_status a' \<in> {ResponseSucceeded, ResponseFailed}" "ra_lease_until a' = None"
        "ra_finished_at a' \<noteq> None" "ra_started_at a' = ra_started_at a" "ra_id a' = ra_id a"
        "ra_requested_by a' = ra_requested_by a" "ra_approved_by a' = ra_approved_by a"
        "ra_approved_at a' = ra_approved_at a" "same_request a a'"
      by blast
    from o have a: "responses m k = Some a" "ra_status a = ResponseRunning"
      by (simp_all add: owned_action_Some)
    have "row_step (AllowSelfApproval m) k (responses m k) a'"
      unfolding a(1) by (rule row_finish [OF a(2) a'])
    with m' Pair show ?thesis by (simp add: one_rowI)
  qed
qed

lemma resp_step_row: "resp_step m m' \<Longrightarrow> one_row m m'"
  by (erule resp_step.cases)
    (simp_all add: one_row_create one_row_approve one_row_reject one_row_claim one_row_renew
      one_row_finish)

lemma row_ok_pending:
  "action_row_ok self k a \<Longrightarrow> ra_status a = ResponsePending \<Longrightarrow>
   ra_id a = k \<and> ra_started_at a = None \<and> ra_lease_until a = None"
  by (simp add: action_row_ok_def)

lemma row_ok_claimed:
  "action_row_ok self k a \<Longrightarrow> action_ready a \<or> action_expired now a \<Longrightarrow>
   ra_id a = k \<and> ra_approved_at a \<noteq> None \<and> (self \<or> ra_approved_by a \<noteq> ra_requested_by a)"
  by (auto simp: action_row_ok_def action_ready_def action_expired_def action_executed_def)

lemma row_ok_running:
  "action_row_ok self k a \<Longrightarrow> ra_status a = ResponseRunning \<Longrightarrow>
   ra_id a = k \<and> ra_approved_at a \<noteq> None \<and> ra_started_at a \<noteq> None \<and>
   (self \<or> ra_approved_by a \<noteq> ra_requested_by a)"
  by (simp add: action_row_ok_def action_executed_def)

lemma row_step_ok:
  assumes "row_step self k old a" and ok: "\<And>a0. old = Some a0 \<Longrightarrow> action_row_ok self k a0"
  shows "action_row_ok self k a"
  using assms(1)
proof cases
  case row_new
  then show ?thesis by (simp add: action_row_ok_def action_executed_def action_terminal_def)
next
  case (row_approve a0 who now)
  with row_ok_pending [OF ok [OF row_approve(1)]]
  show ?thesis by (auto simp: action_row_ok_def action_executed_def action_terminal_def)
next
  case (row_reject a0 who reason now)
  with row_ok_pending [OF ok [OF row_reject(1)]]
  show ?thesis by (simp add: action_row_ok_def action_executed_def action_terminal_def)
next
  case (row_claim a0 now w l)
  with row_ok_claimed [OF ok [OF row_claim(1)] row_claim(3)]
  show ?thesis by (simp add: action_row_ok_def action_executed_def action_terminal_def)
next
  case (row_renew a0 t now)
  with row_ok_running [OF ok [OF row_renew(1)]]
  show ?thesis by (simp add: action_row_ok_def action_executed_def action_terminal_def)
next
  case (row_finish a0)
  have "ra_status a = ResponseSucceeded \<or> ra_status a = ResponseFailed" using row_finish(3) by simp
  with row_finish row_ok_running [OF ok [OF row_finish(1)] row_finish(2)]
  show ?thesis by (elim disjE) (simp_all add: action_row_ok_def action_executed_def action_terminal_def)
qed

lemma one_row_inv:
  assumes "one_row m m'" and "resp_inv m"
  shows "resp_inv m'"
proof (cases "m' = m")
  case True
  with assms(2) show ?thesis by simp
next
  case False
  with assms(1) obtain k a where m': "m' = m\<lparr>responses := (responses m)(k \<mapsto> a)\<rparr>"
    and st: "row_step (AllowSelfApproval m) k (responses m k) a" by (auto simp: one_row_def)
  have "action_row_ok (AllowSelfApproval m) k a"
    using row_step_ok [OF st] assms(2) by (simp add: resp_inv_def)
  with assms(2) show ?thesis by (simp add: m' resp_inv_def)
qed

lemma resp_step_inv: "resp_step m m' \<Longrightarrow> resp_inv m \<Longrightarrow> resp_inv m'"
  by (rule one_row_inv [OF resp_step_row])

text \<open>A decided action is final, and the requester and the recorded approval never change.\<close>

lemma row_step_terminal: "row_step self k (Some a) a' \<Longrightarrow> \<not> action_terminal a"
  by (erule row_step_SomeE) (auto simp: action_terminal_def action_ready_def action_expired_def)

lemma row_step_request: "row_step self k (Some a) a' \<Longrightarrow> same_request a a'"
  by (erule row_step_SomeE) (simp_all add: same_request_def)

lemma row_step_approved:
  "row_step self k (Some a) a' \<Longrightarrow> action_executed a \<Longrightarrow>
   action_executed a' \<and> ra_approved_by a' = ra_approved_by a"
  by (erule row_step_SomeE) (auto simp: action_executed_def)

lemma resp_inv_New: "resp_inv (NewMemory\<lparr>AllowSelfApproval := b, ReopenAfter := w\<rparr>)"
  by (simp add: resp_inv_def NewMemory_def)

end
