(* ===== verification/Accounts.thy ===== *)
theory Accounts
  imports Memory
begin

text \<open>
  Console users and their sessions, the per-host sensor tokens and the audit log of the
  in-memory store. The invariant of the user table (keys are ids, usernames are unique)
  makes \<open>GetUserByName\<close>, which takes the first match of a map range, deterministic; the
  session and token facts are what the authentication layer builds on.
\<close>

section \<open>Users\<close>

definition CreateUser :: "string list \<Rightarrow> string \<Rightarrow> go_time \<Rightarrow> user \<Rightarrow> memory \<Rightarrow> user outcome" where
  "CreateUser ks uuid now u m =
     (let u = u\<lparr>u_id := or_default (u_id u) uuid,
                u_created_at := or_default_time (u_created_at u) now\<rparr>
      in if list_ex (\<lambda>e. u_username e = u_username u) (vals ks (users m))
         then (m, Inl (ErrNotFound ''user (duplicate username)'' (u_username u)))
         else (m\<lparr>users := (users m)(u_id u \<mapsto> u)\<rparr>, Inr u))"

definition GetUser :: "string \<Rightarrow> memory \<Rightarrow> user result" where
  "GetUser oid m = get_or ''user'' (users m) oid"

definition GetUserByName :: "string list \<Rightarrow> string \<Rightarrow> memory \<Rightarrow> user result" where
  "GetUserByName ks username m =
     (case find (\<lambda>u. u_username u = username) (vals ks (users m)) of
        None \<Rightarrow> Inl (ErrNotFound ''user'' username)
      | Some u \<Rightarrow> Inr u)"

definition ListUsers :: "string list \<Rightarrow> memory \<Rightarrow> user list" where
  "ListUsers ks m = sort_key u_username (vals ks (users m))"

definition UpdateUser :: "user \<Rightarrow> memory \<Rightarrow> unit outcome" where
  "UpdateUser u m =
     (case users m (u_id u) of
        None \<Rightarrow> (m, Inl (ErrNotFound ''user'' (u_id u)))
      | Some _ \<Rightarrow> (m\<lparr>users := (users m)(u_id u \<mapsto> u)\<rparr>, Inr ()))"

definition DeleteUser :: "string \<Rightarrow> memory \<Rightarrow> unit outcome" where
  "DeleteUser oid m =
     (m\<lparr>users := (users m)(oid := None),
        sessions := (\<lambda>tok. case sessions m tok of
            None \<Rightarrow> None
          | Some s \<Rightarrow> if ss_user_id s = oid then None else Some s)\<rparr>, Inr ())"

definition CountUsers :: "string list \<Rightarrow> memory \<Rightarrow> int" where
  "CountUsers ks m = int (length (vals ks (users m)))"

section \<open>Sessions\<close>

definition CreateSession :: "session \<Rightarrow> memory \<Rightarrow> unit outcome" where
  "CreateSession s m = (m\<lparr>sessions := (sessions m)(ss_token_hash s \<mapsto> s)\<rparr>, Inr ())"

definition SessionUser :: "go_time \<Rightarrow> string \<Rightarrow> memory \<Rightarrow> user result" where
  "SessionUser now tokenHash m =
     (case sessions m tokenHash of
        None \<Rightarrow> Inl (ErrNotFound ''session'' [])
      | Some s \<Rightarrow>
          if now > ss_expires_at s then Inl (ErrNotFound ''session'' [])
          else (case users m (ss_user_id s) of
                  Some u \<Rightarrow> Inr u
                | None \<Rightarrow> Inl (ErrNotFound ''session user'' [])))"

definition DeleteSession :: "string \<Rightarrow> memory \<Rightarrow> unit outcome" where
  "DeleteSession tokenHash m = (m\<lparr>sessions := (sessions m)(tokenHash := None)\<rparr>, Inr ())"

definition DeleteExpiredSessions :: "string list \<Rightarrow> go_time \<Rightarrow> memory \<Rightarrow> int outcome" where
  "DeleteExpiredSessions ks now m =
     (m\<lparr>sessions := (\<lambda>tok. case sessions m tok of
            None \<Rightarrow> None
          | Some s \<Rightarrow> if now > ss_expires_at s then None else Some s)\<rparr>,
      Inr (int (length (filter (\<lambda>s. now > ss_expires_at s) (vals ks (sessions m))))))"

section \<open>Sensor tokens\<close>

definition CreateSensorToken :: "string \<Rightarrow> go_time \<Rightarrow> sensor_token \<Rightarrow> memory \<Rightarrow> sensor_token outcome" where
  "CreateSensorToken uuid now t m =
     (case hosts m (t_host_id t) of
        None \<Rightarrow> (m, Inl (ErrNotFound ''host'' (t_host_id t)))
      | Some _ \<Rightarrow>
          let t = t\<lparr>t_id := or_default (t_id t) uuid,
                    t_created_at := or_default_time (t_created_at t) now\<rparr>
          in (m\<lparr>sensorTok := (sensorTok m)(t_token_hash t \<mapsto> t)\<rparr>, Inr t))"

definition SensorTokenValid :: "go_time \<Rightarrow> string \<Rightarrow> string \<Rightarrow> memory \<Rightarrow> bool" where
  "SensorTokenValid now hostID tokenHash m =
     (case sensorTok m tokenHash of
        None \<Rightarrow> False
      | Some t \<Rightarrow>
          if t_host_id t \<noteq> hostID \<or> t_revoked_at t \<noteq> None then False
          else (case t_expires_at t of None \<Rightarrow> True | Some e \<Rightarrow> now < e))"

definition ListSensorTokens :: "string list \<Rightarrow> string \<Rightarrow> memory \<Rightarrow> sensor_token list" where
  "ListSensorTokens ks hostID m =
     sort_key (\<lambda>t. - t_created_at t) (filter (\<lambda>t. t_host_id t = hostID) (vals ks (sensorTok m)))"

definition revoked :: "go_time \<Rightarrow> sensor_token \<Rightarrow> sensor_token" where
  "revoked now t = (case t_revoked_at t of None \<Rightarrow> t\<lparr>t_revoked_at := Some now\<rparr> | Some _ \<Rightarrow> t)"

definition RevokeSensorToken ::
  "string list \<Rightarrow> go_time \<Rightarrow> string \<Rightarrow> string \<Rightarrow> memory \<Rightarrow> unit outcome" where
  "RevokeSensorToken ks now hostID tokenID m =
     (case find (\<lambda>(k, t). t_id t = tokenID \<and> t_host_id t = hostID) (entries ks (sensorTok m)) of
        None \<Rightarrow> (m, Inl (ErrNotFound ''sensor token'' tokenID))
      | Some (k, t) \<Rightarrow> (m\<lparr>sensorTok := (sensorTok m)(k \<mapsto> revoked now t)\<rparr>, Inr ()))"

definition RevokeOtherSensorTokens :: "go_time \<Rightarrow> string \<Rightarrow> string \<Rightarrow> memory \<Rightarrow> unit outcome" where
  "RevokeOtherSensorTokens now hostID keepTokenID m =
     (m\<lparr>sensorTok := (\<lambda>k. case sensorTok m k of
          None \<Rightarrow> None
        | Some t \<Rightarrow> Some (if t_host_id t = hostID \<and> t_id t \<noteq> keepTokenID then revoked now t else t))\<rparr>,
      Inr ())"

definition RevokeSensorTokens :: "go_time \<Rightarrow> string \<Rightarrow> memory \<Rightarrow> unit outcome" where
  "RevokeSensorTokens now hostID m =
     (m\<lparr>sensorTok := (\<lambda>k. case sensorTok m k of
          None \<Rightarrow> None
        | Some t \<Rightarrow> Some (if t_host_id t = hostID then revoked now t else t))\<rparr>, Inr ())"

section \<open>Audit log\<close>

definition AppendAudit :: "string \<Rightarrow> go_time \<Rightarrow> audit_event \<Rightarrow> memory \<Rightarrow> unit outcome" where
  "AppendAudit uuid now e m =
     (let e = e\<lparr>a_id := or_default (a_id e) uuid, a_time := or_default_time (a_time e) now\<rparr>;
          log = audit m @ [e];
          log = (if length log > 5000 then drop (length log - 5000) log else log)
      in (m\<lparr>audit := log\<rparr>, Inr ()))"

definition ListAuditPage :: "audit_filter \<Rightarrow> memory \<Rightarrow> audit_event list" where
  "ListAuditPage f m =
     (let n = int (length (audit m));
          limit = (if af_limit f \<le> 0 \<or> af_limit f > n then n else af_limit f)
      in take (nat limit) (filter (\<lambda>e. \<not> (\<not> IsZero (af_before_time f) \<and>
             (a_time e > af_before_time f \<or> (a_time e = af_before_time f \<and> a_id e \<ge> af_before_id f))))
           (rev (audit m))))"

definition ListAudit :: "int \<Rightarrow> memory \<Rightarrow> audit_event list" where
  "ListAudit limit m =
     ListAuditPage \<lparr>af_limit = limit, af_before_time = 0, af_before_id = []\<rparr> m"

section \<open>The user table\<close>

definition users_inv :: "memory \<Rightarrow> bool" where
  "users_inv m \<longleftrightarrow> (\<forall>k u. users m k = Some u \<longrightarrow> u_id u = k) \<and>
     (\<forall>k1 k2 u1 u2. users m k1 = Some u1 \<longrightarrow> users m k2 = Some u2 \<longrightarrow>
        u_username u1 = u_username u2 \<longrightarrow> k1 = k2)"

lemma users_inv_New: "users_inv NewMemory"
  by (simp add: users_inv_def NewMemory_def)

lemma users_inv_create:
  assumes "users_inv m" and "iterates ks (users m)"
  shows "users_inv (fst (CreateUser ks uuid now u m))"
proof (cases "list_ex (\<lambda>e. u_username e = u_username u) (vals ks (users m))")
  case True
  with assms(1) show ?thesis by (simp add: CreateUser_def Let_def)
next
  case False
  then have "u_username e \<noteq> u_username u" if "users m k = Some e" for k e
    using that assms(2) by (auto simp: list_ex_iff iterates_set_vals ran_def)
  moreover from this have "u_username u \<noteq> u_username e" if "users m k = Some e" for k e
    using that by metis
  moreover note False assms(1)
  ultimately show ?thesis
    by (auto simp: CreateUser_def Let_def users_inv_def)
qed

text \<open>An update keeps the invariant when it keeps the username, as every handler does.\<close>

lemma users_inv_update:
  assumes "users_inv m" and "\<And>u0. users m (u_id u) = Some u0 \<Longrightarrow> u_username u = u_username u0"
  shows "users_inv (fst (UpdateUser u m))"
proof (cases "users m (u_id u)")
  case None
  with assms(1) show ?thesis by (simp add: UpdateUser_def)
next
  case (Some u0)
  with assms(2) have "u_username u = u_username u0" by simp
  with Some assms(1) show ?thesis unfolding users_inv_def UpdateUser_def by auto
qed

lemma users_inv_delete: "users_inv m \<Longrightarrow> users_inv (fst (DeleteUser i m))"
  by (auto simp: users_inv_def DeleteUser_def)

lemma GetUserByName_iff:
  assumes "users_inv m" and "iterates ks (users m)"
  shows "GetUserByName ks name m = Inr u \<longleftrightarrow> (\<exists>k. users m k = Some u \<and> u_username u = name)"
proof
  assume "GetUserByName ks name m = Inr u"
  then have "find (\<lambda>u. u_username u = name) (vals ks (users m)) = Some u"
    by (auto simp: GetUserByName_def split: option.splits)
  then have "u \<in> set (vals ks (users m))" "u_username u = name"
    by (auto simp: find_Some_iff)
  then show "\<exists>k. users m k = Some u \<and> u_username u = name"
    using assms(2) by (auto simp: iterates_set_vals ran_def)
next
  assume "\<exists>k. users m k = Some u \<and> u_username u = name"
  then obtain k where k: "users m k = Some u" "u_username u = name" by blast
  then have "u \<in> set (vals ks (users m))" using assms(2) by (auto simp: iterates_set_vals ran_def)
  with k(2) obtain u' where f: "find (\<lambda>u. u_username u = name) (vals ks (users m)) = Some u'"
    by (cases "find (\<lambda>u. u_username u = name) (vals ks (users m))") (auto simp: find_None_iff)
  then have "u' \<in> set (vals ks (users m))" "u_username u' = name" by (auto simp: find_Some_iff)
  then obtain k' where "users m k' = Some u'" using assms(2) by (auto simp: iterates_set_vals ran_def)
  with k \<open>u_username u' = name\<close> assms(1) have "k' = k" unfolding users_inv_def by blast
  with k \<open>users m k' = Some u'\<close> f show "GetUserByName ks name m = Inr u" by (simp add: GetUserByName_def)
qed

section \<open>Sessions and tokens\<close>

lemma SessionUser_iff:
  "SessionUser now h m = Inr u \<longleftrightarrow>
   (\<exists>s. sessions m h = Some s \<and> now \<le> ss_expires_at s \<and> users m (ss_user_id s) = Some u)"
  by (auto simp: SessionUser_def split: option.splits if_splits)

lemma revoked_not_None [simp]: "t_revoked_at (revoked now t) \<noteq> None"
  "t_host_id (revoked now t) = t_host_id t" "t_id (revoked now t) = t_id t"
  by (auto simp: revoked_def split: option.splits)

lemma SensorTokenValid_iff:
  "SensorTokenValid now hostID h m \<longleftrightarrow>
   (\<exists>t. sensorTok m h = Some t \<and> t_host_id t = hostID \<and> t_revoked_at t = None \<and>
      (\<forall>e. t_expires_at t = Some e \<longrightarrow> now < e))"
  by (auto simp: SensorTokenValid_def split: option.splits)

lemma length_AppendAudit:
  "length (audit m) \<le> 5000 \<Longrightarrow> length (audit (fst (AppendAudit uuid now e m))) \<le> 5000"
  by (simp add: AppendAudit_def Let_def)

section \<open>Steps of the accounts\<close>

text \<open>
  The handlers never rename a user: \<open>patchUser\<close>, \<open>changeOwnPassword\<close>, the MFA handlers and
  the first-login reset write back the row they read with another role, flag or secret.
\<close>

inductive accounts_step :: "memory \<Rightarrow> memory \<Rightarrow> bool" where
  step_CreateUser: "iterates ks (users m) \<Longrightarrow> accounts_step m (fst (CreateUser ks uuid now u m))"
| step_UpdateUser: "(\<And>u0. users m (u_id u) = Some u0 \<Longrightarrow> u_username u = u_username u0) \<Longrightarrow>
     accounts_step m (fst (UpdateUser u m))"
| step_DeleteUser: "accounts_step m (fst (DeleteUser i m))"
| step_CreateSession: "accounts_step m (fst (CreateSession s m))"
| step_DeleteSession: "accounts_step m (fst (DeleteSession h m))"
| step_DeleteExpiredSessions: "accounts_step m (fst (DeleteExpiredSessions ks now m))"
| step_CreateSensorToken: "sensorTok m (t_token_hash t) = None \<Longrightarrow>
     accounts_step m (fst (CreateSensorToken uuid now t m))"
| step_RevokeSensorToken: "iterates ks (sensorTok m) \<Longrightarrow>
     accounts_step m (fst (RevokeSensorToken ks now h i m))"
| step_RevokeOtherSensorTokens: "accounts_step m (fst (RevokeOtherSensorTokens now h i m))"
| step_RevokeSensorTokens: "accounts_step m (fst (RevokeSensorTokens now h m))"
| step_AppendAudit: "accounts_step m (fst (AppendAudit uuid now e m))"

lemmas account_calls =
  CreateUser_def UpdateUser_def DeleteUser_def CreateSession_def DeleteSession_def
  DeleteExpiredSessions_def CreateSensorToken_def RevokeSensorToken_def
  RevokeOtherSensorTokens_def RevokeSensorTokens_def AppendAudit_def

lemma accounts_step_frame:
  "accounts_step m m' \<Longrightarrow> scanJobs m' = scanJobs m \<and> obs m' = obs m \<and> dedup m' = dedup m \<and>
     exports m' = exports m \<and> deliveries m' = deliveries m \<and> responses m' = responses m \<and>
     hosts m' = hosts m \<and> creds m' = creds m \<and> rules m' = rules m \<and> schedules m' = schedules m \<and>
     baselines m' = baselines m \<and> inventories m' = inventories m \<and> colls m' = colls m \<and>
     collMem m' = collMem m \<and> scans m' = scans m \<and>
     AllowSelfApproval m' = AllowSelfApproval m \<and> ReopenAfter m' = ReopenAfter m"
  by (erule accounts_step.cases) (simp_all add: account_calls Let_def split: option.split prod.split)

definition accounts_inv :: "memory \<Rightarrow> bool" where
  "accounts_inv m \<longleftrightarrow> users_inv m \<and> length (audit m) \<le> 5000 \<and>
     (\<forall>h s. sessions m h = Some s \<longrightarrow> ss_token_hash s = h) \<and>
     (\<forall>h t. sensorTok m h = Some t \<longrightarrow> t_token_hash t = h)"

lemma users_inv_cong: "users m' = users m \<Longrightarrow> users_inv m' = users_inv m"
  by (simp add: users_inv_def)

lemma revoked_token_hash [simp]: "t_token_hash (revoked now t) = t_token_hash t"
  by (simp add: revoked_def split: option.split)

definition session_rows :: "memory \<Rightarrow> bool" where
  "session_rows m \<longleftrightarrow> (\<forall>h s. sessions m h = Some s \<longrightarrow> ss_token_hash s = h)"

definition token_rows :: "memory \<Rightarrow> bool" where
  "token_rows m \<longleftrightarrow> (\<forall>h t. sensorTok m h = Some t \<longrightarrow> t_token_hash t = h)"

lemma accounts_inv_parts:
  "accounts_inv m \<longleftrightarrow> users_inv m \<and> length (audit m) \<le> 5000 \<and> session_rows m \<and> token_rows m"
  by (simp add: accounts_inv_def session_rows_def token_rows_def)

lemma RevokeSensorToken_cases:
  "fst (RevokeSensorToken ks now hostID i m) = m \<or>
   (\<exists>k t. k \<in> set ks \<and> sensorTok m k = Some t \<and> t_id t = i \<and> t_host_id t = hostID \<and>
      fst (RevokeSensorToken ks now hostID i m) = m\<lparr>sensorTok := (sensorTok m)(k \<mapsto> revoked now t)\<rparr>)"
proof (cases "find (\<lambda>(k, t). t_id t = i \<and> t_host_id t = hostID) (entries ks (sensorTok m))")
  case None
  then show ?thesis by (simp add: RevokeSensorToken_def)
next
  case (Some e)
  obtain k t where e: "e = (k, t)" by (cases e)
  from Some have "e \<in> set (entries ks (sensorTok m))" "t_id t = i \<and> t_host_id t = hostID"
    unfolding find_Some_iff e by (metis nth_mem, auto)
  then show ?thesis
    using Some by (auto simp: RevokeSensorToken_def e in_entries_iff)
qed

lemma RevokeSensorToken_frame [simp]:
  "users (fst (RevokeSensorToken ks now h i m)) = users m"
  "sessions (fst (RevokeSensorToken ks now h i m)) = sessions m"
  "audit (fst (RevokeSensorToken ks now h i m)) = audit m"
  by (simp_all add: RevokeSensorToken_def split: option.split prod.split)

lemma accounts_step_users: "accounts_step m m' \<Longrightarrow> users_inv m \<Longrightarrow> users_inv m'"
  by (induction rule: accounts_step.induct)
    (simp_all add: users_inv_create users_inv_update users_inv_delete cong: users_inv_cong,
     simp_all add: CreateSession_def DeleteSession_def DeleteExpiredSessions_def CreateSensorToken_def
       RevokeOtherSensorTokens_def RevokeSensorTokens_def AppendAudit_def Let_def users_inv_def
       split: option.split)

lemma accounts_step_sessions: "accounts_step m m' \<Longrightarrow> session_rows m \<Longrightarrow> session_rows m'"
  by (induction rule: accounts_step.induct)
    (simp_all add: session_rows_def account_calls Let_def split: option.split prod.split)

lemma accounts_step_tokens: "accounts_step m m' \<Longrightarrow> token_rows m \<Longrightarrow> token_rows m'"
proof (induction rule: accounts_step.induct)
  case (step_RevokeSensorToken ks m now h i)
  then show ?case using RevokeSensorToken_cases [of ks now h i m] by (auto simp: token_rows_def split: if_splits)
qed (simp_all add: token_rows_def account_calls Let_def split: option.split)

lemma accounts_step_audit:
  "accounts_step m m' \<Longrightarrow> length (audit m) \<le> 5000 \<Longrightarrow> length (audit m') \<le> 5000"
  by (induction rule: accounts_step.induct)
    (simp_all add: length_AppendAudit, simp_all add: account_calls Let_def split: option.split prod.split)

text \<open>A revoked token stays in the table and stays revoked.\<close>

lemma revoked_revoked: "t_revoked_at t \<noteq> None \<Longrightarrow> revoked now t = t"
  by (auto simp: revoked_def)

lemma accounts_step_revoked:
  assumes "accounts_step m m'" and "sensorTok m h = Some t" and "t_revoked_at t \<noteq> None"
  shows "sensorTok m' h = Some t"
  using assms
proof (induction rule: accounts_step.induct)
  case (step_RevokeSensorToken ks m now h' i)
  then show ?case
    using RevokeSensorToken_cases [of ks now h' i m] by (auto simp: revoked_revoked)
next
  case (step_CreateSensorToken m t' uuid now)
  then show ?case by (auto simp: CreateSensorToken_def Let_def split: option.split)
qed (simp_all add: CreateUser_def UpdateUser_def DeleteUser_def CreateSession_def DeleteSession_def
      DeleteExpiredSessions_def RevokeOtherSensorTokens_def RevokeSensorTokens_def AppendAudit_def
      Let_def revoked_revoked split: option.split)

lemma accounts_step_inv: "accounts_step m m' \<Longrightarrow> accounts_inv m \<Longrightarrow> accounts_inv m'"
  unfolding accounts_inv_parts
  by (metis accounts_step_users accounts_step_sessions accounts_step_tokens accounts_step_audit)

lemma accounts_inv_New: "accounts_inv NewMemory"
  by (simp add: accounts_inv_def users_inv_New) (simp add: NewMemory_def)

end
