(* ===== verification/Retention.thy ===== *)
theory Retention
  imports Observations
begin

text \<open>
  \<open>ApplyRetention\<close> and the archive: old closed findings, old scans and old audit events move
  from their tables to the archive, and old archive records are dropped. The loops over the
  two maps take the order they meet; \<open>uuids n\<close> is the \<open>n\<close>-th identifier the call draws.
\<close>

section \<open>Operations\<close>

definition archiveLocked ::
  "string \<Rightarrow> string \<Rightarrow> string \<Rightarrow> archived_value \<Rightarrow> go_time \<Rightarrow> memory \<Rightarrow> memory" where
  "archiveLocked uuid kind originalID value now m =
     m\<lparr>archive := archive m @ [\<lparr>ar_id = uuid, ar_kind = kind, ar_original_id = originalID,
        ar_archived_at = now, ar_payload = value\<rparr>]\<rparr>"

definition obs_retired :: "go_time \<Rightarrow> observation \<Rightarrow> bool" where
  "obs_retired cutoff ob \<longleftrightarrow>
     (o_status ob = ObsResolved \<or> o_status ob = ObsFalsePositive) \<and> o_last_seen ob < cutoff"

definition retire_observation :: "string \<Rightarrow> go_time \<Rightarrow> string \<Rightarrow> observation \<Rightarrow> memory \<Rightarrow> memory" where
  "retire_observation uuid now k ob m =
     (let m = archiveLocked uuid ''observation'' k (ArchObservation ob) now m;
          m = m\<lparr>obs := (obs m)(k := None)\<rparr>
      in (case dedup m (o_host_id ob) of
            None \<Rightarrow> m
          | Some byKey \<Rightarrow>
              m\<lparr>dedup := (dedup m)(o_host_id ob \<mapsto> byKey(o_dedup_key ob := None))\<rparr>))"

text \<open>The counter is the number of records archived so far, which is also the next uuid's index.\<close>

fun retain_observations ::
  "(nat \<Rightarrow> string) \<Rightarrow> go_time \<Rightarrow> go_time \<Rightarrow> string list \<Rightarrow> nat \<Rightarrow> memory \<Rightarrow> nat \<times> memory" where
  "retain_observations uuids now cutoff [] n m = (n, m)"
| "retain_observations uuids now cutoff (k # ks) n m =
     (case obs m k of
        None \<Rightarrow> retain_observations uuids now cutoff ks n m
      | Some ob \<Rightarrow>
          if obs_retired cutoff ob
          then retain_observations uuids now cutoff ks (Suc n) (retire_observation (uuids n) now k ob m)
          else retain_observations uuids now cutoff ks n m)"

fun retain_scans ::
  "(nat \<Rightarrow> string) \<Rightarrow> go_time \<Rightarrow> go_time \<Rightarrow> string list \<Rightarrow> nat \<Rightarrow> memory \<Rightarrow> nat \<times> memory" where
  "retain_scans uuids now cutoff [] n m = (n, m)"
| "retain_scans uuids now cutoff (k # ks) n m =
     (case scans m k of
        None \<Rightarrow> retain_scans uuids now cutoff ks n m
      | Some s \<Rightarrow>
          if s_started_at s < cutoff
          then let m = archiveLocked (uuids n) ''scan'' k (ArchScan s) now m
               in retain_scans uuids now cutoff ks (Suc n) (m\<lparr>scans := (scans m)(k := None)\<rparr>)
          else retain_scans uuids now cutoff ks n m)"

fun retain_audit ::
  "(nat \<Rightarrow> string) \<Rightarrow> go_time \<Rightarrow> go_time \<Rightarrow> audit_event list \<Rightarrow> audit_event list \<Rightarrow> nat \<Rightarrow> memory \<Rightarrow>
   nat \<times> memory" where
  "retain_audit uuids now cutoff [] kept n m = (n, m\<lparr>audit := kept\<rparr>)"
| "retain_audit uuids now cutoff (e # es) kept n m =
     (if a_time e < cutoff
      then retain_audit uuids now cutoff es kept (Suc n)
             (archiveLocked (uuids n) ''audit'' (a_id e) (ArchAudit e) now m)
      else retain_audit uuids now cutoff es (kept @ [e]) n m)"

definition ApplyRetention ::
  "string list \<Rightarrow> string list \<Rightarrow> (nat \<Rightarrow> string) \<Rightarrow> go_time \<Rightarrow> retention_policy \<Rightarrow> memory \<Rightarrow>
   memory \<times> retention_result" where
  "ApplyRetention obsKs scanKs uuids now policy m =
     (let (n1, m) = (if rp_observation_age policy > 0
            then retain_observations uuids now (now - rp_observation_age policy) obsKs 0 m else (0, m));
          (n2, m) = (if rp_scan_age policy > 0
            then retain_scans uuids now (now - rp_scan_age policy) scanKs n1 m else (n1, m));
          (n3, m) = (if rp_audit_age policy > 0
            then retain_audit uuids now (now - rp_audit_age policy) (audit m) [] n2 m else (n2, m));
          (n4, m) = (if rp_archive_age policy > 0
            then (let cutoff = now - rp_archive_age policy
                  in (length (filter (\<lambda>r. ar_archived_at r < cutoff) (archive m)),
                      m\<lparr>archive := filter (\<lambda>r. \<not> ar_archived_at r < cutoff) (archive m)\<rparr>))
            else (0, m))
      in (m, \<lparr>rr_observations = int n1, rr_scans = int (n2 - n1), rr_audit = int (n3 - n2),
              rr_archive = int n4\<rparr>))"

definition ListArchive :: "string \<Rightarrow> int \<Rightarrow> memory \<Rightarrow> archived_record list" where
  "ListArchive kind limit m =
     (let limit = (if limit \<le> 0 \<or> limit > 500 then 100 else limit)
      in take (nat limit) (filter (\<lambda>r. \<not> (kind \<noteq> [] \<and> ar_kind r \<noteq> kind)) (rev (archive m))))"

section \<open>What each loop does\<close>

lemma archiveLocked_simps [simp]:
  "obs (archiveLocked u kd i v now m) = obs m" "dedup (archiveLocked u kd i v now m) = dedup m"
  "scans (archiveLocked u kd i v now m) = scans m" "audit (archiveLocked u kd i v now m) = audit m"
  "dedup_lookup (archiveLocked u kd i v now m) = dedup_lookup m"
  "map ar_payload (archive (archiveLocked u kd i v now m)) = map ar_payload (archive m) @ [v]"
  "map ar_archived_at (archive (archiveLocked u kd i v now m)) = map ar_archived_at (archive m) @ [now]"
  by (simp_all add: archiveLocked_def dedup_lookup_def fun_eq_iff)

lemma retire_observation_simps [simp]:
  "obs (retire_observation u now k ob m) = (obs m)(k := None)"
  "scans (retire_observation u now k ob m) = scans m" "audit (retire_observation u now k ob m) = audit m"
  "map ar_payload (archive (retire_observation u now k ob m)) = map ar_payload (archive m) @ [ArchObservation ob]"
  "map ar_archived_at (archive (retire_observation u now k ob m)) = map ar_archived_at (archive m) @ [now]"
  by (simp_all add: retire_observation_def Let_def archiveLocked_def split: option.split)

lemma dedup_lookup_retire [simp]:
  "dedup_lookup (retire_observation u now k ob m) h key =
   (if h = o_host_id ob \<and> key = o_dedup_key ob then None else dedup_lookup m h key)"
  by (auto simp: retire_observation_def Let_def dedup_lookup_def archiveLocked_def split: option.split)

lemma obs_inv_retire:
  assumes "obs_inv m" and "obs m k = Some ob"
  shows "obs_inv (retire_observation u now k ob m)"
  unfolding obs_inv_def
proof (intro conjI allI impI)
  fix i ob' assume "obs (retire_observation u now k ob m) i = Some ob'"
  then have i: "obs m i = Some ob'" "i \<noteq> k" by (auto split: if_splits)
  note row = obs_inv_row [OF assms(1) i(1)] obs_inv_row [OF assms(1,2)]
  have "\<not> (o_host_id ob' = o_host_id ob \<and> o_dedup_key ob' = o_dedup_key ob)"
  proof
    assume "o_host_id ob' = o_host_id ob \<and> o_dedup_key ob' = o_dedup_key ob"
    with row have "Some i = Some k" by simp
    with i(2) show False by simp
  qed
  with row show "o_id ob' = i"
    "dedup_lookup (retire_observation u now k ob m) (o_host_id ob') (o_dedup_key ob') = Some i"
    by auto
next
  fix h key i assume "dedup_lookup (retire_observation u now k ob m) h key = Some i"
  then have l: "dedup_lookup m h key = Some i" "\<not> (h = o_host_id ob \<and> key = o_dedup_key ob)"
    by (auto split: if_splits)
  from obs_inv_index [OF assms(1) l(1)] obtain ob' where "obs m i = Some ob'" "o_host_id ob' = h"
    "o_dedup_key ob' = key" by blast
  with l(2) assms(2) show "\<exists>ob'. obs (retire_observation u now k ob m) i = Some ob' \<and>
      o_host_id ob' = h \<and> o_dedup_key ob' = key" by auto
qed


lemma retain_observations_obs:
  "distinct ks \<Longrightarrow> obs (snd (retain_observations uuids now cutoff ks n m)) =
   (\<lambda>k. case obs m k of None \<Rightarrow> None
      | Some ob \<Rightarrow> if k \<in> set ks \<and> obs_retired cutoff ob then None else Some ob)"
  by (induction uuids now cutoff ks n m rule: retain_observations.induct)
    (auto simp: fun_eq_iff split: option.split)

lemma retain_observations_count:
  "distinct ks \<Longrightarrow> fst (retain_observations uuids now cutoff ks n m) =
   n + length (filter (obs_retired cutoff) (vals ks (obs m)))"
  by (induction uuids now cutoff ks n m rule: retain_observations.induct)
    (simp_all split: option.split)

lemma retain_observations_archive:
  "distinct ks \<Longrightarrow> \<exists>new. archive (snd (retain_observations uuids now cutoff ks n m)) = archive m @ new \<and>
     map ar_payload new = map ArchObservation (filter (obs_retired cutoff) (vals ks (obs m))) \<and>
     (\<forall>r \<in> set new. ar_archived_at r = now)"
proof (induction ks arbitrary: n m)
  case Nil
  then show ?case by simp
next
  case (Cons k ks)
  show ?case
  proof (cases "obs m k")
    case None
    with Cons show ?thesis by simp
  next
    case (Some ob)
    show ?thesis
    proof (cases "obs_retired cutoff ob")
      case False
      with Some Cons show ?thesis by simp
    next
      case True
      let ?m = "retire_observation (uuids n) now k ob m"
      from Cons obtain new where new:
        "archive (snd (retain_observations uuids now cutoff ks (Suc n) ?m)) = archive ?m @ new"
        "map ar_payload new = map ArchObservation (filter (obs_retired cutoff) (vals ks (obs m)))"
        "\<forall>r \<in> set new. ar_archived_at r = now" by fastforce
      have "archive ?m = archive m @ [\<lparr>ar_id = uuids n, ar_kind = ''observation'', ar_original_id = k,
          ar_archived_at = now, ar_payload = ArchObservation ob\<rparr>]"
        by (simp add: retire_observation_def Let_def archiveLocked_def split: option.split)
      with new Some True show ?thesis by simp
    qed
  qed
qed

lemma retain_observations_frame [simp]:
  "scans (snd (retain_observations uuids now cutoff ks n m)) = scans m"
  "audit (snd (retain_observations uuids now cutoff ks n m)) = audit m"
  by (induction uuids now cutoff ks n m rule: retain_observations.induct) (simp_all split: option.split)

lemma retain_observations_inv:
  "obs_inv m \<Longrightarrow> obs_inv (snd (retain_observations uuids now cutoff ks n m))"
  by (induction uuids now cutoff ks n m rule: retain_observations.induct)
    (auto split: option.split intro: obs_inv_retire)

lemma retain_scans_scans:
  "distinct ks \<Longrightarrow> scans (snd (retain_scans uuids now cutoff ks n m)) =
   (\<lambda>k. case scans m k of None \<Rightarrow> None
      | Some s \<Rightarrow> if k \<in> set ks \<and> s_started_at s < cutoff then None else Some s)"
  by (induction uuids now cutoff ks n m rule: retain_scans.induct)
    (auto simp: fun_eq_iff Let_def split: option.split)

lemma retain_scans_count:
  "distinct ks \<Longrightarrow> fst (retain_scans uuids now cutoff ks n m) =
   n + length (filter (\<lambda>s. s_started_at s < cutoff) (vals ks (scans m)))"
  by (induction uuids now cutoff ks n m rule: retain_scans.induct)
    (simp_all add: Let_def split: option.split)

lemma retain_scans_archive:
  "distinct ks \<Longrightarrow> \<exists>new. archive (snd (retain_scans uuids now cutoff ks n m)) = archive m @ new \<and>
     map ar_payload new = map ArchScan (filter (\<lambda>s. s_started_at s < cutoff) (vals ks (scans m))) \<and>
     (\<forall>r \<in> set new. ar_archived_at r = now)"
proof (induction ks arbitrary: n m)
  case Nil
  then show ?case by simp
next
  case (Cons k ks)
  show ?case
  proof (cases "scans m k")
    case None
    with Cons show ?thesis by simp
  next
    case (Some s)
    show ?thesis
    proof (cases "s_started_at s < cutoff")
      case False
      with Some Cons show ?thesis by simp
    next
      case True
      let ?m = "archiveLocked (uuids n) ''scan'' k (ArchScan s) now m\<lparr>scans := (scans m)(k := None)\<rparr>"
      from Cons obtain new where new:
        "archive (snd (retain_scans uuids now cutoff ks (Suc n) ?m)) = archive ?m @ new"
        "map ar_payload new = map ArchScan (filter (\<lambda>s. s_started_at s < cutoff) (vals ks (scans m)))"
        "\<forall>r \<in> set new. ar_archived_at r = now" by fastforce
      with Some True show ?thesis by (simp add: archiveLocked_def)
    qed
  qed
qed

lemma retain_scans_frame [simp]:
  "obs (snd (retain_scans uuids now cutoff ks n m)) = obs m"
  "dedup (snd (retain_scans uuids now cutoff ks n m)) = dedup m"
  "audit (snd (retain_scans uuids now cutoff ks n m)) = audit m"
  by (induction uuids now cutoff ks n m rule: retain_scans.induct) (simp_all add: Let_def split: option.split)

lemma retain_audit_audit:
  "audit (snd (retain_audit uuids now cutoff es kept n m)) =
   kept @ filter (\<lambda>e. \<not> a_time e < cutoff) es"
  by (induction uuids now cutoff es kept n m rule: retain_audit.induct) simp_all

lemma retain_audit_count:
  "fst (retain_audit uuids now cutoff es kept n m) = n + length (filter (\<lambda>e. a_time e < cutoff) es)"
  by (induction uuids now cutoff es kept n m rule: retain_audit.induct) simp_all

lemma retain_audit_archive:
  "\<exists>new. archive (snd (retain_audit uuids now cutoff es kept n m)) = archive m @ new \<and>
     map ar_payload new = map ArchAudit (filter (\<lambda>e. a_time e < cutoff) es) \<and>
     (\<forall>r \<in> set new. ar_archived_at r = now)"
proof (induction es arbitrary: kept n m)
  case Nil
  then show ?case by simp
next
  case (Cons e es)
  show ?case
  proof (cases "a_time e < cutoff")
    case False
    with Cons show ?thesis by simp
  next
    case True
    let ?m = "archiveLocked (uuids n) ''audit'' (a_id e) (ArchAudit e) now m"
    from Cons obtain new where
      "archive (snd (retain_audit uuids now cutoff es kept (Suc n) ?m)) = archive ?m @ new"
      "map ar_payload new = map ArchAudit (filter (\<lambda>e. a_time e < cutoff) es)"
      "\<forall>r \<in> set new. ar_archived_at r = now" by blast
    with True show ?thesis by (simp add: archiveLocked_def)
  qed
qed

lemma retain_audit_frame [simp]:
  "obs (snd (retain_audit uuids now cutoff es kept n m)) = obs m"
  "dedup (snd (retain_audit uuids now cutoff es kept n m)) = dedup m"
  "scans (snd (retain_audit uuids now cutoff es kept n m)) = scans m"
  by (induction uuids now cutoff es kept n m rule: retain_audit.induct) simp_all

section \<open>The stages of the call\<close>

lemma stage_observations:
  assumes "iterates ks (obs m)" and "obs_inv m"
    and "(if age > 0 then retain_observations uuids now (now - age) ks 0 m else (0, m)) = (n1, m1)"
  shows "obs m1 = (\<lambda>k. case obs m k of None \<Rightarrow> None
      | Some ob \<Rightarrow> if age > 0 \<and> obs_retired (now - age) ob then None else Some ob)"
    and "n1 = card {k. \<exists>ob. obs m k = Some ob \<and> age > 0 \<and> obs_retired (now - age) ob}"
    and "\<exists>new. archive m1 = archive m @ new \<and> (\<forall>r \<in> set new. ar_archived_at r = now) \<and>
      ar_payload ` set new = {ArchObservation ob |k ob. obs m k = Some ob \<and> age > 0 \<and> obs_retired (now - age) ob}"
    and "scans m1 = scans m" and "audit m1 = audit m" and "obs_inv m1"
proof -
  have d: "distinct ks" "set ks = dom (obs m)" using assms(1) by (auto simp: iterates_def)
  have r: "n1 = fst (retain_observations uuids now (now - age) ks 0 m)"
    "m1 = snd (retain_observations uuids now (now - age) ks 0 m)" if "age > 0"
    using assms(3) that by auto
  have z: "n1 = 0" "m1 = m" if "\<not> age > 0" using assms(3) that by auto
  show "obs m1 = (\<lambda>k. case obs m k of None \<Rightarrow> None
      | Some ob \<Rightarrow> if age > 0 \<and> obs_retired (now - age) ob then None else Some ob)"
    using r z retain_observations_obs [OF d(1), of uuids now "now - age" 0 m] d(2)
    by (cases "age > 0") (auto simp: fun_eq_iff split: option.split)
  show "n1 = card {k. \<exists>ob. obs m k = Some ob \<and> age > 0 \<and> obs_retired (now - age) ob}"
    using r z by (cases "age > 0")
      (simp_all add: retain_observations_count [OF d(1)] length_filter_vals [OF assms(1)])
  show "\<exists>new. archive m1 = archive m @ new \<and> (\<forall>r \<in> set new. ar_archived_at r = now) \<and>
      ar_payload ` set new = {ArchObservation ob |k ob. obs m k = Some ob \<and> age > 0 \<and> obs_retired (now - age) ob}"
  proof (cases "age > 0")
    case True
    obtain new where new: "archive m1 = archive m @ new" "\<forall>r \<in> set new. ar_archived_at r = now"
      "map ar_payload new = map ArchObservation (filter (obs_retired (now - age)) (vals ks (obs m)))"
      using retain_observations_archive [OF d(1), of uuids now "now - age" 0 m] r [OF True] by auto
    then have "set (map ar_payload new) =
        {ArchObservation ob |k ob. obs m k = Some ob \<and> age > 0 \<and> obs_retired (now - age) ob}"
      using True by (auto simp: iterates_set_vals [OF assms(1)] ran_def)
    then show ?thesis using new(1,2) unfolding set_map by blast
  qed (use z in auto)
  show "scans m1 = scans m" "audit m1 = audit m" "obs_inv m1"
    using r z assms(2) by (cases "age > 0"; simp add: retain_observations_inv)+
qed

lemma stage_scans:
  assumes "iterates ks (scans m)"
    and "(if age > 0 then retain_scans uuids now (now - age) ks n m else (n, m)) = (n2, m2)"
  shows "scans m2 = (\<lambda>k. case scans m k of None \<Rightarrow> None
      | Some s \<Rightarrow> if age > 0 \<and> s_started_at s < now - age then None else Some s)"
    and "n2 = n + card {k. \<exists>s. scans m k = Some s \<and> age > 0 \<and> s_started_at s < now - age}"
    and "\<exists>new. archive m2 = archive m @ new \<and> (\<forall>r \<in> set new. ar_archived_at r = now) \<and>
      ar_payload ` set new = {ArchScan s |k s. scans m k = Some s \<and> age > 0 \<and> s_started_at s < now - age}"
    and "obs m2 = obs m" and "dedup m2 = dedup m" and "audit m2 = audit m"
proof -
  have d: "distinct ks" "set ks = dom (scans m)" using assms(1) by (auto simp: iterates_def)
  have r: "n2 = fst (retain_scans uuids now (now - age) ks n m)"
    "m2 = snd (retain_scans uuids now (now - age) ks n m)" if "age > 0"
    using assms(2) that by auto
  have z: "n2 = n" "m2 = m" if "\<not> age > 0" using assms(2) that by auto
  show "scans m2 = (\<lambda>k. case scans m k of None \<Rightarrow> None
      | Some s \<Rightarrow> if age > 0 \<and> s_started_at s < now - age then None else Some s)"
    using r z retain_scans_scans [OF d(1), of uuids now "now - age" n m] d(2)
    by (cases "age > 0") (auto simp: fun_eq_iff split: option.split)
  show "n2 = n + card {k. \<exists>s. scans m k = Some s \<and> age > 0 \<and> s_started_at s < now - age}"
    using r z by (cases "age > 0")
      (simp_all add: retain_scans_count [OF d(1)] length_filter_vals [OF assms(1)])
  show "\<exists>new. archive m2 = archive m @ new \<and> (\<forall>r \<in> set new. ar_archived_at r = now) \<and>
      ar_payload ` set new = {ArchScan s |k s. scans m k = Some s \<and> age > 0 \<and> s_started_at s < now - age}"
  proof (cases "age > 0")
    case True
    obtain new where new: "archive m2 = archive m @ new" "\<forall>r \<in> set new. ar_archived_at r = now"
      "map ar_payload new = map ArchScan (filter (\<lambda>s. s_started_at s < now - age) (vals ks (scans m)))"
      using retain_scans_archive [OF d(1), of uuids now "now - age" n m] r [OF True] by auto
    then have "set (map ar_payload new) =
        {ArchScan s |k s. scans m k = Some s \<and> age > 0 \<and> s_started_at s < now - age}"
      using True by (auto simp: iterates_set_vals [OF assms(1)] ran_def)
    then show ?thesis using new(1,2) unfolding set_map by blast
  qed (use z in auto)
  show "obs m2 = obs m" "dedup m2 = dedup m" "audit m2 = audit m"
    using r z by (cases "age > 0"; simp)+
qed

lemma stage_audit:
  assumes "(if age > 0 then retain_audit uuids now (now - age) (audit m) [] n m else (n, m)) = (n3, m3)"
  shows "audit m3 = filter (\<lambda>e. \<not> (age > 0 \<and> a_time e < now - age)) (audit m)"
    and "n3 = n + length (filter (\<lambda>e. age > 0 \<and> a_time e < now - age) (audit m))"
    and "\<exists>new. archive m3 = archive m @ new \<and> (\<forall>r \<in> set new. ar_archived_at r = now) \<and>
      ar_payload ` set new = {ArchAudit e |e. e \<in> set (audit m) \<and> age > 0 \<and> a_time e < now - age}"
    and "obs m3 = obs m" and "dedup m3 = dedup m" and "scans m3 = scans m"
proof -
  have r: "n3 = fst (retain_audit uuids now (now - age) (audit m) [] n m)"
    "m3 = snd (retain_audit uuids now (now - age) (audit m) [] n m)" if "age > 0"
    using assms that by auto
  have z: "n3 = n" "m3 = m" if "\<not> age > 0" using assms that by auto
  show "audit m3 = filter (\<lambda>e. \<not> (age > 0 \<and> a_time e < now - age)) (audit m)"
    "n3 = n + length (filter (\<lambda>e. age > 0 \<and> a_time e < now - age) (audit m))"
    using r z by (cases "age > 0"; simp add: retain_audit_audit retain_audit_count)+
  show "\<exists>new. archive m3 = archive m @ new \<and> (\<forall>r \<in> set new. ar_archived_at r = now) \<and>
      ar_payload ` set new = {ArchAudit e |e. e \<in> set (audit m) \<and> age > 0 \<and> a_time e < now - age}"
  proof (cases "age > 0")
    case True
    obtain new where new: "archive m3 = archive m @ new" "\<forall>r \<in> set new. ar_archived_at r = now"
      "map ar_payload new = map ArchAudit (filter (\<lambda>e. a_time e < now - age) (audit m))"
      using retain_audit_archive [of uuids now "now - age" "audit m" "[]" n m] r [OF True] by auto
    then have "set (map ar_payload new) =
        {ArchAudit e |e. e \<in> set (audit m) \<and> age > 0 \<and> a_time e < now - age}"
      using True by auto
    then show ?thesis using new(1,2) unfolding set_map by blast
  qed (use z in auto)
  show "obs m3 = obs m" "dedup m3 = dedup m" "scans m3 = scans m"
    using r z by (cases "age > 0"; simp)+
qed

section \<open>The call, stage by stage\<close>

lemma retention_run:
  assumes "ApplyRetention obsKs scanKs uuids now p m = (m', r)"
  obtains n1 m1 n2 m2 n3 m3 where
    "(if rp_observation_age p > 0
      then retain_observations uuids now (now - rp_observation_age p) obsKs 0 m else (0, m)) = (n1, m1)"
    "(if rp_scan_age p > 0
      then retain_scans uuids now (now - rp_scan_age p) scanKs n1 m1 else (n1, m1)) = (n2, m2)"
    "(if rp_audit_age p > 0
      then retain_audit uuids now (now - rp_audit_age p) (audit m2) [] n2 m2 else (n2, m2)) = (n3, m3)"
    "m' = m3\<lparr>archive := archive m'\<rparr>"
    "rr_observations r = int n1" "rr_scans r = int (n2 - n1)" "rr_audit r = int (n3 - n2)"
    "\<forall>x \<in> set (archive m3). ar_archived_at x = now \<longrightarrow> x \<in> set (archive m')"
proof -
  obtain n1 m1 where s1: "(if rp_observation_age p > 0
      then retain_observations uuids now (now - rp_observation_age p) obsKs 0 m else (0, m)) = (n1, m1)"
    by (metis surj_pair)
  obtain n2 m2 where s2: "(if rp_scan_age p > 0
      then retain_scans uuids now (now - rp_scan_age p) scanKs n1 m1 else (n1, m1)) = (n2, m2)"
    by (metis surj_pair)
  obtain n3 m3 where s3: "(if rp_audit_age p > 0
      then retain_audit uuids now (now - rp_audit_age p) (audit m2) [] n2 m2 else (n2, m2)) = (n3, m3)"
    by (metis surj_pair)
  show ?thesis
    using assms by (intro that [OF s1 s2 s3])
      (auto simp: ApplyRetention_def Let_def s1 s2 s3 split: if_splits prod.splits)
qed

text \<open>What is left in the three tables.\<close>

lemma retention_tables:
  assumes "iterates obsKs (obs m)" and "iterates scanKs (scans m)" and "obs_inv m"
    and "ApplyRetention obsKs scanKs uuids now p m = (m', r)"
  shows "obs m' = (\<lambda>k. case obs m k of None \<Rightarrow> None | Some ob \<Rightarrow>
      if rp_observation_age p > 0 \<and> obs_retired (now - rp_observation_age p) ob then None else Some ob)"
    and "scans m' = (\<lambda>k. case scans m k of None \<Rightarrow> None | Some s \<Rightarrow>
      if rp_scan_age p > 0 \<and> s_started_at s < now - rp_scan_age p then None else Some s)"
    and "audit m' = filter (\<lambda>e. \<not> (rp_audit_age p > 0 \<and> a_time e < now - rp_audit_age p)) (audit m)"
    and "obs_inv m'"
proof -
  from assms(4) obtain n1 m1 n2 m2 n3 m3 where
    s1: "(if rp_observation_age p > 0
      then retain_observations uuids now (now - rp_observation_age p) obsKs 0 m else (0, m)) = (n1, m1)" and
    s2: "(if rp_scan_age p > 0
      then retain_scans uuids now (now - rp_scan_age p) scanKs n1 m1 else (n1, m1)) = (n2, m2)" and
    s3: "(if rp_audit_age p > 0
      then retain_audit uuids now (now - rp_audit_age p) (audit m2) [] n2 m2 else (n2, m2)) = (n3, m3)" and
    m': "m' = m3\<lparr>archive := archive m'\<rparr>" by (rule retention_run)
  note o = stage_observations [OF assms(1,3) s1]
  note c = stage_scans [OF assms(2) [folded o(4)] s2]
  note a = stage_audit [OF s3]
  have fin: "obs m' = obs m3" "scans m' = scans m3" "audit m' = audit m3" "dedup m' = dedup m3"
    by (subst m', simp)+
  show "obs m' = (\<lambda>k. case obs m k of None \<Rightarrow> None | Some ob \<Rightarrow>
      if rp_observation_age p > 0 \<and> obs_retired (now - rp_observation_age p) ob then None else Some ob)"
    using fin(1) a(4) c(4) o(1) by simp
  show "scans m' = (\<lambda>k. case scans m k of None \<Rightarrow> None | Some s \<Rightarrow>
      if rp_scan_age p > 0 \<and> s_started_at s < now - rp_scan_age p then None else Some s)"
    using fin(2) a(6) c(1) o(4) by simp
  show "audit m' = filter (\<lambda>e. \<not> (rp_audit_age p > 0 \<and> a_time e < now - rp_audit_age p)) (audit m)"
    using fin(3) a(1) c(6) o(5) by simp
  have "obs m' = obs m1" "dedup m' = dedup m1" using fin(1,4) a(4,5) c(4,5) by simp_all
  then show "obs_inv m'" using o(6) by (simp add: obs_inv_def dedup_lookup_def)
qed

text \<open>What the archive holds afterwards: every value that left a table.\<close>

lemma retention_archive:
  assumes "iterates obsKs (obs m)" and "iterates scanKs (scans m)" and "obs_inv m"
    and "ApplyRetention obsKs scanKs uuids now p m = (m', r)"
  shows "obs m k = Some ob \<Longrightarrow> obs m' k = None \<Longrightarrow> ArchObservation ob \<in> ar_payload ` set (archive m')"
    and "scans m k = Some s \<Longrightarrow> scans m' k = None \<Longrightarrow> ArchScan s \<in> ar_payload ` set (archive m')"
    and "e \<in> set (audit m) - set (audit m') \<Longrightarrow> ArchAudit e \<in> ar_payload ` set (archive m')"
proof -
  let ?oa = "rp_observation_age p" and ?sa = "rp_scan_age p" and ?aa = "rp_audit_age p"
  from assms(4) obtain n1 m1 n2 m2 n3 m3 where
    s1: "(if ?oa > 0 then retain_observations uuids now (now - ?oa) obsKs 0 m else (0, m)) = (n1, m1)" and
    s2: "(if ?sa > 0 then retain_scans uuids now (now - ?sa) scanKs n1 m1 else (n1, m1)) = (n2, m2)" and
    s3: "(if ?aa > 0 then retain_audit uuids now (now - ?aa) (audit m2) [] n2 m2 else (n2, m2)) = (n3, m3)" and
    arch: "\<forall>x \<in> set (archive m3). ar_archived_at x = now \<longrightarrow> x \<in> set (archive m')"
    by (rule retention_run) blast
  note o = stage_observations [OF assms(1,3) s1]
  note c = stage_scans [OF assms(2) [folded o(4)] s2]
  note a = stage_audit [OF s3]
  obtain a1 where a1: "archive m1 = archive m @ a1" "\<forall>x \<in> set a1. ar_archived_at x = now"
    "ar_payload ` set a1 = {ArchObservation ob |k ob. obs m k = Some ob \<and> ?oa > 0 \<and> obs_retired (now - ?oa) ob}"
    using o(3) by blast
  obtain a2 where a2: "archive m2 = archive m1 @ a2" "\<forall>x \<in> set a2. ar_archived_at x = now"
    "ar_payload ` set a2 = {ArchScan s |k s. scans m k = Some s \<and> ?sa > 0 \<and> s_started_at s < now - ?sa}"
    using c(3) unfolding o(4) by blast
  obtain a3 where a3: "archive m3 = archive m2 @ a3" "\<forall>x \<in> set a3. ar_archived_at x = now"
    "ar_payload ` set a3 = {ArchAudit e |e. e \<in> set (audit m) \<and> ?aa > 0 \<and> a_time e < now - ?aa}"
    using a(3) unfolding c(6) o(5) by blast
  have kept: "v \<in> ar_payload ` set (archive m')" if "v \<in> ar_payload ` (set a1 \<union> set a2 \<union> set a3)" for v
    using that a1(1,2) a2(1,2) a3(1,2) arch by auto
  note t = retention_tables [OF assms]
  show "ArchObservation ob \<in> ar_payload ` set (archive m')" if "obs m k = Some ob" "obs m' k = None"
    by (rule kept) (use that t(1) a1(3) in \<open>auto simp: image_Un split: if_splits\<close>)
  show "ArchScan s \<in> ar_payload ` set (archive m')" if "scans m k = Some s" "scans m' k = None"
    by (rule kept) (use that t(2) a2(3) in \<open>auto simp: image_Un split: if_splits\<close>)
  show "ArchAudit e \<in> ar_payload ` set (archive m')" if "e \<in> set (audit m) - set (audit m')"
    by (rule kept) (use that t(3) a3(3) in \<open>auto simp: image_Un\<close>)
qed

text \<open>The counts the call returns.\<close>

lemma retention_counts:
  assumes "iterates obsKs (obs m)" and "iterates scanKs (scans m)" and "obs_inv m"
    and "ApplyRetention obsKs scanKs uuids now p m = (m', r)"
  shows "rr_observations r = int (card {k. obs m k \<noteq> None \<and> obs m' k = None})"
    and "rr_scans r = int (card {k. scans m k \<noteq> None \<and> scans m' k = None})"
    and "rr_audit r = int (length (audit m) - length (audit m'))"
proof -
  let ?oa = "rp_observation_age p" and ?sa = "rp_scan_age p" and ?aa = "rp_audit_age p"
  from assms(4) obtain n1 m1 n2 m2 n3 m3 where
    s1: "(if ?oa > 0 then retain_observations uuids now (now - ?oa) obsKs 0 m else (0, m)) = (n1, m1)" and
    s2: "(if ?sa > 0 then retain_scans uuids now (now - ?sa) scanKs n1 m1 else (n1, m1)) = (n2, m2)" and
    s3: "(if ?aa > 0 then retain_audit uuids now (now - ?aa) (audit m2) [] n2 m2 else (n2, m2)) = (n3, m3)" and
    cnt: "rr_observations r = int n1" "rr_scans r = int (n2 - n1)" "rr_audit r = int (n3 - n2)"
    by (rule retention_run) blast
  note o = stage_observations [OF assms(1,3) s1]
  note c = stage_scans [OF assms(2) [folded o(4)] s2]
  note a = stage_audit [OF s3]
  note t = retention_tables [OF assms]
  have "{k. obs m k \<noteq> None \<and> obs m' k = None} =
      {k. \<exists>ob. obs m k = Some ob \<and> ?oa > 0 \<and> obs_retired (now - ?oa) ob}"
    using t(1) by (auto split: if_splits)
  then show "rr_observations r = int (card {k. obs m k \<noteq> None \<and> obs m' k = None})"
    using cnt(1) o(2) by simp
  have "{k. scans m k \<noteq> None \<and> scans m' k = None} =
      {k. \<exists>s. scans m k = Some s \<and> ?sa > 0 \<and> s_started_at s < now - ?sa}"
    using t(2) by (auto split: if_splits)
  then show "rr_scans r = int (card {k. scans m k \<noteq> None \<and> scans m' k = None})"
    using cnt(2) c(2) o(4) by simp
  have "length (filter (\<lambda>e. ?aa > 0 \<and> a_time e < now - ?aa) (audit m)) + length (audit m') = length (audit m)"
    unfolding t(3) by (rule sum_length_filter_compl)
  then show "rr_audit r = int (length (audit m) - length (audit m'))"
    using cnt(3) a(2) c(6) o(5) by simp
qed

text \<open>The rest of the state is left alone.\<close>

definition retention_rest :: "memory \<Rightarrow> memory" where
  "retention_rest m = m\<lparr>obs := Map.empty, dedup := Map.empty, scans := Map.empty, audit := [], archive := []\<rparr>"

lemma retention_rest_simps [simp]:
  "retention_rest (m\<lparr>archive := x\<rparr>) = retention_rest m" "retention_rest (m\<lparr>audit := l\<rparr>) = retention_rest m"
  "retention_rest (m\<lparr>scans := sc\<rparr>) = retention_rest m"
  "retention_rest (archiveLocked u kd i v now m) = retention_rest m"
  "retention_rest (retire_observation u now k ob m) = retention_rest m"
  by (simp_all add: retention_rest_def archiveLocked_def retire_observation_def Let_def split: option.split)

lemma retention_rest_observations [simp]:
  "retention_rest (snd (retain_observations uuids now cutoff ks n m)) = retention_rest m"
  by (induction uuids now cutoff ks n m rule: retain_observations.induct) (simp_all split: option.split)

lemma retention_rest_scans [simp]:
  "retention_rest (snd (retain_scans uuids now cutoff ks n m)) = retention_rest m"
  by (induction uuids now cutoff ks n m rule: retain_scans.induct) (simp_all add: Let_def split: option.split)

lemma retention_rest_audit [simp]:
  "retention_rest (snd (retain_audit uuids now cutoff es kept n m)) = retention_rest m"
  by (induction uuids now cutoff es kept n m rule: retain_audit.induct) simp_all

lemma retention_rest_call:
  assumes "ApplyRetention obsKs scanKs uuids now p m = (m', r)"
  shows "retention_rest m' = retention_rest m"
  using assms
proof (rule retention_run, goal_cases)
  case (1 n1 m1 n2 m2 n3 m3)
  from 1(4) have "retention_rest m' = retention_rest m3" by (metis retention_rest_simps(1))
  also have "\<dots> = retention_rest m2" using 1(3) retention_rest_audit by (metis prod.inject prod.collapse)
  also have "\<dots> = retention_rest m1" using 1(2) retention_rest_scans by (metis prod.inject prod.collapse)
  also have "\<dots> = retention_rest m" using 1(1) retention_rest_observations by (metis prod.inject prod.collapse)
  finally show ?case .
qed

section \<open>Properties\<close>

text \<open>
  C31. Retention is exact and loses nothing. For every order the maps are met in, the call
  removes precisely the closed findings last seen before their cutoff, the scans started
  before theirs and the audit events older than theirs (an age of zero or less removes
  nothing), counts them, keeps the rest untouched and the index consistent, and whatever it
  removed is in the archive afterwards, also when the same call prunes old archive records.
\<close>

theorem retention_exact:
  assumes "iterates obsKs (obs m)" and "iterates scanKs (scans m)" and "obs_inv m"
    and "ApplyRetention obsKs scanKs uuids now p m = (m', r)"
  shows "obs m' = (\<lambda>k. case obs m k of None \<Rightarrow> None | Some ob \<Rightarrow>
      if rp_observation_age p > 0 \<and> obs_retired (now - rp_observation_age p) ob then None else Some ob) \<and>
    scans m' = (\<lambda>k. case scans m k of None \<Rightarrow> None | Some s \<Rightarrow>
      if rp_scan_age p > 0 \<and> s_started_at s < now - rp_scan_age p then None else Some s) \<and>
    audit m' = filter (\<lambda>e. \<not> (rp_audit_age p > 0 \<and> a_time e < now - rp_audit_age p)) (audit m) \<and>
    (\<forall>k ob. obs m k = Some ob \<longrightarrow> obs m' k = None \<longrightarrow> ArchObservation ob \<in> ar_payload ` set (archive m')) \<and>
    (\<forall>k s. scans m k = Some s \<longrightarrow> scans m' k = None \<longrightarrow> ArchScan s \<in> ar_payload ` set (archive m')) \<and>
    (\<forall>e \<in> set (audit m) - set (audit m'). ArchAudit e \<in> ar_payload ` set (archive m')) \<and>
    rr_observations r = int (card {k. obs m k \<noteq> None \<and> obs m' k = None}) \<and>
    rr_scans r = int (card {k. scans m k \<noteq> None \<and> scans m' k = None}) \<and>
    rr_audit r = int (length (audit m) - length (audit m')) \<and> obs_inv m'"
  using retention_tables [OF assms] retention_archive [OF assms] retention_counts [OF assms] by simp

theorem retention_exact_witness:
  "let p = \<lparr>rp_observation_age = 5, rp_scan_age = 5, rp_audit_age = 5, rp_archive_age = 5\<rparr>;
       (m', r) = ApplyRetention [''o1''] [''s2''] (\<lambda>n. ''x'') 100 p demo_memory
   in obs m' ''o1'' = None \<and> obs_inv m' \<and> ArchObservation demo_obs \<in> ar_payload ` set (archive m')"
proof -
  let ?p = "\<lparr>rp_observation_age = 5, rp_scan_age = 5, rp_audit_age = 5, rp_archive_age = 5\<rparr>"
  obtain m' r where r: "ApplyRetention [''o1''] [''s2''] (\<lambda>n. ''x'') 100 ?p demo_memory = (m', r)"
    by (metis surj_pair)
  have k: "iterates [''o1''] (obs demo_memory)" "iterates [''s2''] (scans demo_memory)"
    by (simp_all add: demo_memory_def iterates_def)
  note e = retention_exact [OF k demo_obs_inv r]
  have o: "obs demo_memory ''o1'' = Some demo_obs" by (simp add: demo_memory_def)
  have "obs m' ''o1'' = None"
    using e o by (simp add: obs_retired_def demo_obs_def)
  with e o r show ?thesis by (simp add: Let_def)
qed

end
