(* ===== verification/StoreMachine.thy ===== *)
theory StoreMachine
  imports Tables ScanJobs Exports Responses Accounts Retention
begin

text \<open>
  The store as a whole: a step is any call of any component, a reachable state is one a
  history of such calls leads to from the empty store, and the invariants of the components
  hold together in every reachable state. The properties below are what the API, the workers
  and the schedulers can rely on whatever they call and in whatever order.
\<close>

section \<open>Steps and reachable states\<close>

inductive store_step :: "memory \<Rightarrow> memory \<Rightarrow> bool" where
  by_tables: "tables_step m m' \<Longrightarrow> store_step m m'"
| by_jobs: "jobs_step m m' \<Longrightarrow> store_step m m'"
| by_observations: "obs_step m m' \<Longrightarrow> store_step m m'"
| by_exports: "export_step m m' \<Longrightarrow> store_step m m'"
| by_responses: "resp_step m m' \<Longrightarrow> store_step m m'"
| by_accounts: "accounts_step m m' \<Longrightarrow> store_step m m'"
| by_retention: "iterates obsKs (obs m) \<Longrightarrow> iterates scanKs (scans m) \<Longrightarrow>
     store_step m (fst (ApplyRetention obsKs scanKs uuids now p m))"

text \<open>\<open>main\<close> sets the two policy fields right after \<open>NewMemory\<close>; nothing changes them later.\<close>

definition initial_store :: "bool \<Rightarrow> duration \<Rightarrow> memory" where
  "initial_store selfApproval window =
     NewMemory\<lparr>AllowSelfApproval := selfApproval, ReopenAfter := window\<rparr>"

inductive reachable :: "bool \<Rightarrow> duration \<Rightarrow> memory \<Rightarrow> bool" where
  reachable_init: "reachable b w (initial_store b w)"
| reachable_step: "reachable b w m \<Longrightarrow> store_step m m' \<Longrightarrow> reachable b w m'"

definition store_inv :: "memory \<Rightarrow> bool" where
  "store_inv m \<longleftrightarrow> tables_inv m \<and> jobs_inv m \<and> obs_inv m \<and> outbox_inv m \<and> resp_inv m \<and> accounts_inv m"

section \<open>Frames\<close>

text \<open>What each component's calls leave alone, part by part of the state.\<close>

definition same_tables :: "memory \<Rightarrow> memory \<Rightarrow> bool" where
  "same_tables m m' \<longleftrightarrow> hosts m' = hosts m \<and> creds m' = creds m \<and> rules m' = rules m \<and>
     schedules m' = schedules m \<and> baselines m' = baselines m \<and> inventories m' = inventories m \<and>
     colls m' = colls m \<and> collMem m' = collMem m \<and> scans m' = scans m"

definition same_findings :: "memory \<Rightarrow> memory \<Rightarrow> bool" where
  "same_findings m m' \<longleftrightarrow> obs m' = obs m \<and> dedup m' = dedup m"

definition same_outbox :: "memory \<Rightarrow> memory \<Rightarrow> bool" where
  "same_outbox m m' \<longleftrightarrow> exports m' = exports m \<and> deliveries m' = deliveries m"

definition same_accounts :: "memory \<Rightarrow> memory \<Rightarrow> bool" where
  "same_accounts m m' \<longleftrightarrow> users m' = users m \<and> sessions m' = sessions m \<and>
     sensorTok m' = sensorTok m \<and> audit m' = audit m"

definition same_policy :: "memory \<Rightarrow> memory \<Rightarrow> bool" where
  "same_policy m m' \<longleftrightarrow> AllowSelfApproval m' = AllowSelfApproval m \<and> ReopenAfter m' = ReopenAfter m"

lemmas same_defs = same_tables_def same_findings_def same_outbox_def same_accounts_def same_policy_def

lemma tables_step_same:
  "tables_step m m' \<Longrightarrow> scanJobs m' = scanJobs m \<and> responses m' = responses m \<and>
   same_findings m m' \<and> same_outbox m m' \<and> same_accounts m m' \<and> same_policy m m'"
  using tables_step_frame [of m m'] by (simp add: same_defs)

lemma accounts_step_same:
  "accounts_step m m' \<Longrightarrow> scanJobs m' = scanJobs m \<and> responses m' = responses m \<and>
   same_tables m m' \<and> same_findings m m' \<and> same_outbox m m' \<and> same_policy m m'"
  using accounts_step_frame [of m m'] by (simp add: same_defs)

lemma finish_job_same:
  "responses (fst (finish_job f k w m)) = responses m \<and> same_tables m (fst (finish_job f k w m)) \<and>
   same_findings m (fst (finish_job f k w m)) \<and> same_outbox m (fst (finish_job f k w m)) \<and>
   same_accounts m (fst (finish_job f k w m)) \<and> same_policy m (fst (finish_job f k w m))"
  by (cases f) (simp_all add: CompleteScanJob_def FailScanJob_def Let_def same_defs split: option.split)

lemma jobs_step_same:
  "jobs_step m m' \<Longrightarrow> responses m' = responses m \<and> same_tables m m' \<and> same_findings m m' \<and>
   same_outbox m m' \<and> same_accounts m m' \<and> same_policy m m'"
proof (induction rule: jobs_step.induct)
  case jobs_finish
  show ?case by (rule finish_job_same)
qed (simp_all add: EnqueueScanJob_def ClaimScanJob_eq RenewScanJobLease_def Let_def same_defs
      split: option.split list.split)

lemma resp_step_same:
  "resp_step m m' \<Longrightarrow> scanJobs m' = scanJobs m \<and> same_tables m m' \<and> same_findings m m' \<and>
   same_outbox m m' \<and> same_accounts m m' \<and> same_policy m m'"
  using resp_step_row [of m m'] by (auto simp: one_row_def same_defs)

lemma finish_delivery_same:
  "responses (fst (finish_delivery f k w m)) = responses m \<and>
   scanJobs (fst (finish_delivery f k w m)) = scanJobs m \<and> same_tables m (fst (finish_delivery f k w m)) \<and>
   same_findings m (fst (finish_delivery f k w m)) \<and>
   same_accounts m (fst (finish_delivery f k w m)) \<and> same_policy m (fst (finish_delivery f k w m))"
  by (cases f) (simp_all add: CompleteExportDelivery_def FailExportDelivery_def Let_def same_defs
      split: option.split)

lemma export_step_same:
  "export_step m m' \<Longrightarrow> responses m' = responses m \<and> scanJobs m' = scanJobs m \<and> same_tables m m' \<and>
   same_findings m m' \<and> same_accounts m m' \<and> same_policy m m'"
proof (induction rule: export_step.induct)
  case export_finish
  show ?case by (rule finish_delivery_same)
qed (simp_all add: CreateExportTarget_def UpdateExportTarget_def DeleteExportTarget_def
      ClaimExportDelivery_def RenewExportDeliveryLease_def RetryExportDelivery_def Let_def same_defs
      split: option.split list.split)

lemma obs_step_same:
  "obs_step m m' \<Longrightarrow> responses m' = responses m \<and> scanJobs m' = scanJobs m \<and> same_tables m m' \<and>
   exports m' = exports m \<and> same_accounts m m' \<and> same_policy m m'"
  by (induction rule: obs_step.induct)
    (simp_all add: UpsertObservation_def SetObservationStatus_def SetObservationVerdict_def
      ApplyObservationAction_def enqueueExportsLocked_def Let_def same_defs
      split: option.split sum.split prod.split)

lemma obs_step_outbox: "obs_step m m' \<Longrightarrow> outbox_inv m \<Longrightarrow> outbox_inv m'"
proof (induction rule: obs_step.induct)
  case obs_upsert
  then show ?case by (simp add: outbox_inv_upsert)
qed (simp_all add: SetObservationStatus_def SetObservationVerdict_def ApplyObservationAction_def
      Let_def outbox_inv_def split: option.split sum.split prod.split)

lemma retention_same:
  assumes "ApplyRetention obsKs scanKs uuids now p m = (m', r)"
  shows "responses m' = responses m \<and> scanJobs m' = scanJobs m \<and> same_outbox m m' \<and>
    same_policy m m' \<and> hosts m' = hosts m \<and> creds m' = creds m \<and> rules m' = rules m \<and>
    schedules m' = schedules m \<and> baselines m' = baselines m \<and> inventories m' = inventories m \<and>
    colls m' = colls m \<and> collMem m' = collMem m \<and> users m' = users m \<and>
    sessions m' = sessions m \<and> sensorTok m' = sensorTok m"
  using retention_rest_call [OF assms] unfolding retention_rest_def same_defs
  by (cases m, cases m') simp

section \<open>The invariant\<close>

lemma keep_inv:
  "same_findings m m' \<Longrightarrow> obs_inv m \<Longrightarrow> obs_inv m'"
  "same_outbox m m' \<Longrightarrow> outbox_inv m \<Longrightarrow> outbox_inv m'"
  "same_accounts m m' \<Longrightarrow> accounts_inv m \<Longrightarrow> accounts_inv m'"
  "same_tables m m' \<Longrightarrow> tables_inv m \<Longrightarrow> tables_inv m'"
  "scanJobs m' = scanJobs m \<Longrightarrow> jobs_inv m \<Longrightarrow> jobs_inv m'"
  "responses m' = responses m \<and> same_policy m m' \<Longrightarrow> resp_inv m \<Longrightarrow> resp_inv m'"
  by (simp_all add: same_defs obs_inv_def dedup_lookup_def outbox_inv_def accounts_inv_def users_inv_def
      tables_inv_def jobs_inv_def resp_inv_def)

lemma retention_inv:
  assumes "iterates obsKs (obs m)" and "iterates scanKs (scans m)" and "store_inv m"
  shows "store_inv (fst (ApplyRetention obsKs scanKs uuids now p m))"
proof (cases "ApplyRetention obsKs scanKs uuids now p m")
  case (Pair m' r)
  have oi: "obs_inv m" using assms(3) by (simp add: store_inv_def)
  note t = retention_tables [OF assms(1,2) oi Pair] and f = retention_same [OF Pair]
  have "tables_inv m'"
    using assms(3) f t(2) by (auto simp: store_inv_def tables_inv_def split: option.splits if_splits)
  moreover have "length (audit m') \<le> length (audit m)" unfolding t(3) by simp
  then have "accounts_inv m'"
    using assms(3) f by (auto simp: store_inv_def accounts_inv_def users_inv_def)
  ultimately show ?thesis
    using assms(3) f t(4) keep_inv(2,5,6) [where m = m and m' = m'] unfolding store_inv_def Pair fst_conv by blast
qed

lemma store_step_inv: "store_step m m' \<Longrightarrow> store_inv m \<Longrightarrow> store_inv m'"
proof (induction rule: store_step.induct)
  case (by_tables m m')
  note s = tables_step_same [OF by_tables(1)] tables_step_inv [OF by_tables(1)]
  from s by_tables(2) keep_inv [where m = m and m' = m'] show ?case unfolding store_inv_def by blast
next
  case (by_jobs m m')
  note s = jobs_step_same [OF by_jobs(1)] jobs_step_inv [OF by_jobs(1)]
  from s by_jobs(2) keep_inv [where m = m and m' = m'] show ?case unfolding store_inv_def by blast
next
  case (by_observations m m')
  note s = obs_step_same [OF by_observations(1)] obs_step_inv [OF by_observations(1)] obs_step_outbox [OF by_observations(1)]
  from s by_observations(2) keep_inv [where m = m and m' = m'] show ?case unfolding store_inv_def by blast
next
  case (by_exports m m')
  note s = export_step_same [OF by_exports(1)] export_step_inv [OF by_exports(1)]
  from s by_exports(2) keep_inv [where m = m and m' = m'] show ?case unfolding store_inv_def by blast
next
  case (by_responses m m')
  note s = resp_step_same [OF by_responses(1)] resp_step_inv [OF by_responses(1)]
  from s by_responses(2) keep_inv [where m = m and m' = m'] show ?case unfolding store_inv_def by blast
next
  case (by_accounts m m')
  note s = accounts_step_same [OF by_accounts(1)] accounts_step_inv [OF by_accounts(1)]
  from s by_accounts(2) keep_inv [where m = m and m' = m'] show ?case unfolding store_inv_def by blast
next
  case by_retention
  then show ?case by (simp add: retention_inv)
qed

lemma store_step_policy: "store_step m m' \<Longrightarrow> same_policy m m'"
  by (induction rule: store_step.induct)
    (simp_all add: tables_step_same jobs_step_same obs_step_same export_step_same resp_step_same
      accounts_step_same retention_same [OF surjective_pairing])

lemma initial_inv: "store_inv (initial_store b w)"
  using tables_inv_New jobs_inv_New obs_inv_New outbox_inv_New accounts_inv_New
  by (simp add: store_inv_def initial_store_def resp_inv_New tables_inv_def jobs_inv_def obs_inv_def
      dedup_lookup_def outbox_inv_def accounts_inv_def users_inv_def)

lemma reachable_inv: "reachable b w m \<Longrightarrow> store_inv m"
  by (induction rule: reachable.induct) (auto intro: initial_inv store_step_inv)

lemma reachable_policy: "reachable b w m \<Longrightarrow> AllowSelfApproval m = b \<and> ReopenAfter m = w"
proof (induction rule: reachable.induct)
  case (reachable_init b w)
  show ?case by (simp add: initial_store_def)
next
  case (reachable_step b w m m')
  with store_step_policy [of m m'] show ?case by (simp add: same_defs)
qed

section \<open>Histories\<close>

text \<open>A later state of the store, any number of calls later.\<close>

abbreviation store_later :: "memory \<Rightarrow> memory \<Rightarrow> bool" where
  "store_later \<equiv> store_step\<^sup>*\<^sup>*"

lemma one_row_other: "one_row m m' \<Longrightarrow> responses m k = Some a \<Longrightarrow>
   responses m' k = Some a \<or> (\<exists>a'. responses m' k = Some a' \<and> row_step (AllowSelfApproval m) k (Some a) a')"
  by (auto simp: one_row_def)

lemma store_step_response:
  assumes "store_step m m'" and "responses m k = Some a"
  shows "responses m' k = Some a \<or>
    (\<exists>a'. responses m' k = Some a' \<and> row_step (AllowSelfApproval m) k (Some a) a')"
  using assms
proof (induction rule: store_step.induct)
  case (by_responses m m')
  then show ?case using one_row_other [OF resp_step_row] by blast
qed (simp_all add: tables_step_same jobs_step_same obs_step_same export_step_same accounts_step_same
      retention_same [OF surjective_pairing])

definition follows :: "response_action \<Rightarrow> response_action \<Rightarrow> bool" where
  "follows a a' \<longleftrightarrow> same_request a a' \<and> (action_terminal a \<longrightarrow> a' = a) \<and>
     (action_executed a \<longrightarrow> action_executed a' \<and> ra_approved_by a' = ra_approved_by a)"

lemma follows_refl: "follows a a"
  by (simp add: follows_def same_request_def)

lemma follows_step:
  assumes "follows a b" and "row_step self k (Some b) c"
  shows "follows a c"
proof -
  have "\<not> action_terminal b" using assms(2) by (rule row_step_terminal)
  moreover have "same_request b c" using assms(2) by (rule row_step_request)
  ultimately show ?thesis
    using assms(1) row_step_approved [OF assms(2)]
    by (auto simp: follows_def same_request_def)
qed

lemma store_step_revoked:
  assumes "store_step m m'" and "sensorTok m h = Some t" and "t_revoked_at t \<noteq> None"
  shows "sensorTok m' h = Some t"
  using assms
proof (induction rule: store_step.induct)
  case (by_accounts m m')
  then show ?case using accounts_step_revoked by blast
next
  case by_retention
  then show ?case using retention_same [OF surjective_pairing] by simp
next
  case (by_tables m m')
  then show ?case using tables_step_same [of m m'] by (simp add: same_accounts_def)
next
  case (by_jobs m m')
  then show ?case using jobs_step_same [of m m'] by (simp add: same_accounts_def)
next
  case (by_observations m m')
  then show ?case using obs_step_same [of m m'] by (simp add: same_accounts_def)
next
  case (by_exports m m')
  then show ?case using export_step_same [of m m'] by (simp add: same_accounts_def)
next
  case (by_responses m m')
  then show ?case using resp_step_same [of m m'] by (simp add: same_accounts_def)
qed

section \<open>A small history, for the witnesses\<close>

definition demo_job :: scan_job where
  "demo_job = \<lparr>sj_id = [], sj_host_id = ''h1'', sj_trigger = ''api'', sj_status = ScanJobQueued,
     sj_attempts = 0, sj_max_attempts = 0, sj_worker_id = [], sj_lease_until = None,
     sj_next_attempt_at = 0, sj_scan_id = [], sj_error = [], sj_created_at = 0, sj_updated_at = 0\<rparr>"

definition demo_s1 :: memory where
  "demo_s1 = fst (CreateHost ''h1'' 1 demo_host (initial_store False 0))"

definition demo_s2 :: memory where
  "demo_s2 = fst (CreateResponseAction ''a1'' 2 (requested_action ''h1'' ''kill'' [(''pid'', ''42'')] False ''alice'') demo_s1)"

definition demo_s3 :: memory where
  "demo_s3 = fst (ApproveResponseAction 3 ''a1'' ''bob'' demo_s2)"

definition demo_s4 :: memory where
  "demo_s4 = fst (EnqueueScanJob [] ''j1'' 4 demo_job demo_s3)"

lemmas demo_defs = demo_s1_def demo_s2_def demo_s3_def demo_s4_def demo_host_def demo_job_def
  initial_store_def NewMemory_def CreateHost_def CreateResponseAction_def requested_action_def
  ApproveResponseAction_def pending_action_def EnqueueScanJob_def job_defaults_def or_default_def or_default_time_def Let_def

lemma demo_reachable:
  "reachable False 0 demo_s1" "reachable False 0 demo_s2" "reachable False 0 demo_s3" "reachable False 0 demo_s4"
proof -
  show 1: "reachable False 0 demo_s1" unfolding demo_s1_def
    by (rule reachable_step [OF reachable_init by_tables [OF step_CreateHost]]) (simp add: demo_host_def)
  have "responses demo_s1 ''a1'' = None" by (simp add: demo_defs)
  then show 2: "reachable False 0 demo_s2" unfolding demo_s2_def
    by (rule reachable_step [OF 1 by_responses [OF resp_create]])
  show 3: "reachable False 0 demo_s3" unfolding demo_s3_def
    by (rule reachable_step [OF 2 by_responses [OF resp_approve]])
  have "iterates [] (scanJobs demo_s3)" "scanJobs demo_s3 ''j1'' = None" by (simp_all add: demo_defs)
  then show "reachable False 0 demo_s4" unfolding demo_s4_def
    by (rule reachable_step [OF 3 by_jobs [OF jobs_enqueue]]) (simp_all add: demo_job_def)
qed

lemma demo_action: "\<exists>a. responses demo_s3 ''a1'' = Some a \<and> ra_status a = ResponseApproved \<and>
    ra_approved_by a = ''bob'' \<and> ra_requested_by a = ''alice'' \<and> action_executed a"
  by (simp add: demo_defs action_executed_def)

section \<open>Properties\<close>

text \<open>
  C2. Two-person control. With self-approval off, in every state any history of store calls
  reaches, a response action that is approved, running or has run carries an approval by a
  user other than the one who requested it.
\<close>

theorem two_person_control:
  assumes "reachable False w m" and "responses m k = Some a" and "action_executed a"
  shows "ra_approved_at a \<noteq> None \<and> ra_approved_by a \<noteq> ra_requested_by a"
  using reachable_inv [OF assms(1)] reachable_policy [OF assms(1)] assms(2,3)
  by (simp add: store_inv_def resp_inv_def action_row_ok_def)

theorem two_person_control_witness:
  "\<exists>a. responses demo_s3 ''a1'' = Some a \<and> action_executed a \<and> ra_approved_by a \<noteq> ra_requested_by a"
  using two_person_control [OF demo_reachable(3)] demo_action by blast

text \<open>
  C18. What was approved is what runs. However the store is used afterwards, a response action
  is never lost, its host, playbook, parameters, dry-run flag and requester never change, a
  recorded approval stays, and an action that was rejected, succeeded or failed never changes
  again.
\<close>

theorem response_history:
  assumes "store_later m m'" and "responses m k = Some a"
  shows "\<exists>a'. responses m' k = Some a' \<and> same_request a a' \<and> (action_terminal a \<longrightarrow> a' = a) \<and>
    (action_executed a \<longrightarrow> action_executed a' \<and> ra_approved_by a' = ra_approved_by a)"
proof -
  have "\<exists>a'. responses m' k = Some a' \<and> follows a a'"
    using assms(1)
  proof (induction rule: rtranclp_induct)
    case base
    then show ?case using assms(2) follows_refl by blast
  next
    case (step m1 m2)
    then obtain b where b: "responses m1 k = Some b" "follows a b" by blast
    from store_step_response [OF step(2) b(1)] b(2) show ?case using follows_step by blast
  qed
  then show ?thesis by (simp add: follows_def)
qed

theorem response_history_witness:
  "\<exists>a'. responses demo_s4 ''a1'' = Some a' \<and> ra_params a' = [(''pid'', ''42'')] \<and> action_executed a' \<and>
     ra_approved_by a' = ''bob''"
proof -
  have "iterates [] (scanJobs demo_s3)" "scanJobs demo_s3 ''j1'' = None" by (simp_all add: demo_defs)
  then have "store_later demo_s3 demo_s4" unfolding demo_s4_def
    by (intro r_into_rtranclp by_jobs jobs_enqueue) (simp_all add: demo_job_def)
  moreover obtain a where a: "responses demo_s3 ''a1'' = Some a" "ra_approved_by a = ''bob''" "action_executed a"
    using demo_action by blast
  moreover have "ra_params a = [(''pid'', ''42'')]" using a(1) by (auto simp: demo_defs)
  ultimately show ?thesis using response_history [of demo_s3 demo_s4] by (fastforce simp: same_request_def)
qed

text \<open>
  One active scan job to a host. In every reachable state two queued or running jobs for
  the same host are the same job, every job is stored under its id with a status of the four,
  and a job is under a lease exactly while it runs.
\<close>

theorem one_active_job:
  assumes "reachable b w m" and "scanJobs m k1 = Some j1"
  shows "sj_id j1 = k1 \<and> (sj_status j1 = ScanJobRunning \<longleftrightarrow> sj_lease_until j1 \<noteq> None) \<and>
    sj_status j1 \<in> {ScanJobQueued, ScanJobRunning, ScanJobSucceeded, ScanJobFailed} \<and>
    (\<forall>k2 j2. scanJobs m k2 = Some j2 \<and> job_active j1 \<and> job_active j2 \<and>
       sj_host_id j1 = sj_host_id j2 \<longrightarrow> k1 = k2)"
  using reachable_inv [OF assms(1)] assms(2) unfolding store_inv_def jobs_inv_def job_row_ok_def by blast

theorem one_active_job_witness:
  "\<exists>j. scanJobs demo_s4 ''j1'' = Some j \<and> job_active j \<and> sj_id j = ''j1'' \<and> sj_lease_until j = None"
proof -
  obtain j where j: "scanJobs demo_s4 ''j1'' = Some j" "sj_status j = ScanJobQueued"
    by (simp add: demo_defs)
  with one_active_job [OF demo_reachable(4) j(1)] show ?thesis by (auto simp: job_active_def)
qed

text \<open>
  Enqueueing is idempotent. When an enqueue for a host has answered with a job, another
  enqueue for that host, with any other job, at any later time and in whatever order the table
  is met, changes nothing and answers with the same job: a host is never scanned twice at once.
\<close>

theorem enqueue_idempotent:
  assumes "reachable b w m" and "iterates ks (scanJobs m)" and "scanJobs m uuid = None"
    and "sj_id job = []" and "sj_status job = ScanJobQueued"
    and "EnqueueScanJob ks uuid now job m = (m', Inr j)"
    and "iterates ks' (scanJobs m')" and "sj_host_id job' = sj_host_id job"
  shows "EnqueueScanJob ks' uuid' now' job' m' = (m', Inr j)"
proof -
  have ji: "jobs_inv m" using reachable_inv [OF assms(1)] by (simp add: store_inv_def)
  from assms(6) have host: "hosts m' (sj_host_id job') \<noteq> None"
    unfolding assms(8) by (auto simp: EnqueueScanJob_def Let_def split: option.splits)
  have "\<exists>k. scanJobs m' k = Some j \<and> sj_host_id j = sj_host_id job \<and> job_active j \<and>
      (\<forall>k2 j2. scanJobs m' k2 = Some j2 \<and> job_active j2 \<and> sj_host_id j2 = sj_host_id job \<longrightarrow> j2 = j)"
    using assms(6)
  proof (cases rule: Enqueue_cases)
    case (existing k i)
    then show ?thesis using ji unfolding jobs_inv_def by (intro exI [of _ k]) (simp, metis option.inject)
  next
    case fresh
    have act: "job_active j" using fresh(2) assms(5) by (simp add: job_active_def)
    show ?thesis
      by (rule exI [of _ uuid]) (use fresh assms(2,4) act in \<open>auto simp: iterates_def split: if_splits\<close>)
  qed simp
  then obtain k where k: "scanJobs m' k = Some j" "sj_host_id j = sj_host_id job" "job_active j"
    and uniq: "\<And>k2 j2. scanJobs m' k2 = Some j2 \<Longrightarrow> job_active j2 \<Longrightarrow> sj_host_id j2 = sj_host_id job \<Longrightarrow> j2 = j"
    by blast
  show ?thesis
  proof (cases "EnqueueScanJob ks' uuid' now' job' m'")
    case (Pair m2 r)
    from Pair show ?thesis
    proof (cases rule: Enqueue_cases)
      case no_host
      with host show ?thesis by simp
    next
      case (existing k2 j2)
      with uniq [of k2 j2] assms(8) Pair show ?thesis by simp
    next
      case fresh
      have "k \<in> set ks'" using k(1) assms(7) by (auto simp: iterates_def)
      with fresh(1) [OF this k(1)] k assms(8) show ?thesis by simp
    qed
  qed
qed

theorem enqueue_idempotent_witness:
  "\<exists>j. EnqueueScanJob [''j1''] ''j2'' 99 (demo_job\<lparr>sj_trigger := ''scheduled''\<rparr>) demo_s4 = (demo_s4, Inr j) \<and>
     sj_id j = ''j1''"
proof -
  have "iterates [] (scanJobs demo_s3)" "scanJobs demo_s3 ''j1'' = None" by (simp_all add: demo_defs)
  moreover obtain j where "EnqueueScanJob [] ''j1'' 4 demo_job demo_s3 = (demo_s4, Inr j)" "sj_id j = ''j1''"
    by (simp add: demo_s4_def) (simp add: demo_defs)
  moreover have "iterates [''j1''] (scanJobs demo_s4)" by (simp add: demo_defs iterates_def)
  ultimately show ?thesis
    using enqueue_idempotent [OF demo_reachable(3), of "[]" "''j1''" demo_job 4 demo_s4 j "[''j1'']"
        "demo_job\<lparr>sj_trigger := ''scheduled''\<rparr>" "''j2''" 99]
    by (simp add: demo_job_def)
qed

text \<open>
  C7. A scan job under a live lease belongs to its worker. After any history of claims, renewals
  and finishes by other workers, with every claim made before the lease runs out, the job is
  untouched and the worker's own completion or failure is accepted.
\<close>

theorem scan_job_lease_exclusive:
  assumes "scanJobs m k = Some j" and "sj_status j = ScanJobRunning" and "sj_lease_until j = Some t"
    and "list_all (leaves_alone k (sj_worker_id j) t) calls"
  shows "scanJobs (job_lease_run calls m) k = Some j \<and>
    (\<exists>m'. finish_job f k (sj_worker_id j) (job_lease_run calls m) = (m', Inr ()))"
  using job_lease.lease_exclusive [OF assms] job_lease.holder_finishes [OF assms] by simp

definition demo_s5 :: memory where
  "demo_s5 = fst (ClaimScanJob [''j1''] ''w1'' 10 100 demo_s4)"

lemma demo_claimed: "\<exists>j. scanJobs demo_s5 ''j1'' = Some j \<and> sj_status j = ScanJobRunning \<and>
    sj_lease_until j = Some 110 \<and> sj_worker_id j = ''w1''"
  by (simp add: demo_s5_def ClaimScanJob_eq claimable_jobs_def job_waiting_def claimed_job_def)
    (simp add: demo_defs)

theorem scan_job_lease_exclusive_witness:
  "\<exists>m'. CompleteScanJob 120 ''j1'' ''w1'' ''s1''
     (job_lease_run [LeaseClaim [''j1''] ''w2'' 109 50, LeaseFinish (JobFail 109 [] 0 True) ''j1'' ''w2'']
        demo_s5) = (m', Inr ())"
proof -
  obtain j where j: "scanJobs demo_s5 ''j1'' = Some j" "sj_status j = ScanJobRunning"
    "sj_lease_until j = Some 110" "sj_worker_id j = ''w1''" using demo_claimed by blast
  from scan_job_lease_exclusive [OF j(1-3), of "[LeaseClaim [''j1''] ''w2'' 109 50,
      LeaseFinish (JobFail 109 [] 0 True) ''j1'' ''w2'']" "JobComplete 120 ''s1''"]
  show ?thesis by (simp add: j(4))
qed

text \<open>
  Claiming is oldest first and misses nothing. A claim that succeeds takes a queued job
  that is due, or a running one whose lease is over, older or as old as every other such job,
  marks it running under the caller's lease and counts the attempt; one that fails changes
  nothing and there was no such job.
\<close>

theorem claim_oldest_due_job:
  assumes "iterates ks (scanJobs m)" and "ClaimScanJob ks w now l m = (m', r)"
  shows "case r of
      Inl e \<Rightarrow> m' = m \<and> (\<forall>k j. scanJobs m k = Some j \<longrightarrow> \<not> job_waiting now j \<and> \<not> job_expired now j)
    | Inr j \<Rightarrow> \<exists>k j0. scanJobs m k = Some j0 \<and> (job_waiting now j0 \<or> job_expired now j0) \<and>
        (\<forall>k' j'. scanJobs m k' = Some j' \<and> (job_waiting now j' \<or> job_expired now j') \<longrightarrow>
           sj_created_at j0 \<le> sj_created_at j') \<and>
        m' = m\<lparr>scanJobs := (scanJobs m)(k \<mapsto> j)\<rparr> \<and>
        j = j0\<lparr>sj_status := ScanJobRunning, sj_worker_id := w, sj_lease_until := Some (now + l),
               sj_attempts := sj_attempts j0 + 1, sj_updated_at := now\<rparr>"
proof -
  have ks: "k \<in> set ks" if "scanJobs m k = Some j" for k j
    using that assms(1) by (auto simp: iterates_def)
  show ?thesis
  proof (cases r)
    case (Inl e)
    note c = assms(2) [unfolded Inl]
    have "\<forall>k j. scanJobs m k = Some j \<longrightarrow> \<not> job_waiting now j \<and> \<not> job_expired now j"
      using Claim_none [OF c] ks by blast
    with Claim_err [OF c] Inl show ?thesis by simp
  next
    case (Inr j)
    from Claim_ok [OF assms(2) [unfolded Inr]] obtain k j0 where
      "scanJobs m k = Some j0" "job_waiting now j0 \<or> job_expired now j0"
      "\<forall>k' \<in> set ks. \<forall>j'. scanJobs m k' = Some j' \<longrightarrow> job_waiting now j' \<or> job_expired now j' \<longrightarrow>
         sj_created_at j0 \<le> sj_created_at j'"
      "m' = m\<lparr>scanJobs := (scanJobs m)(k \<mapsto> j)\<rparr>" "j = claimed_job w now l j0" by blast
    with Inr ks show ?thesis unfolding claimed_job_def by (simp, blast)
  qed
qed

theorem claim_oldest_due_job_witness:
  "\<exists>m' j j0. ClaimScanJob [''j1''] ''w1'' 10 100 demo_s4 = (m', Inr j) \<and> scanJobs demo_s4 ''j1'' = Some j0 \<and>
     sj_attempts j = sj_attempts j0 + 1"
proof -
  have i: "iterates [''j1''] (scanJobs demo_s4)" by (simp add: demo_defs iterates_def)
  obtain m' j where c: "ClaimScanJob [''j1''] ''w1'' 10 100 demo_s4 = (m', Inr j)"
    by (simp add: ClaimScanJob_eq claimable_jobs_def job_waiting_def claimed_job_def)
      (simp add: demo_defs)
  from claim_oldest_due_job [OF i c] obtain k j0 where k: "scanJobs demo_s4 k = Some j0"
    "j = j0\<lparr>sj_status := ScanJobRunning, sj_worker_id := ''w1'', sj_lease_until := Some (10 + 100),
           sj_attempts := sj_attempts j0 + 1, sj_updated_at := 10\<rparr>" by auto
  have "k = ''j1''" using k(1) by (simp add: demo_defs split: if_splits)
  with c k show ?thesis by (intro exI [of _ m'] exI [of _ j] exI [of _ j0]) simp
qed

text \<open>
  Workers that lost their lease cannot write. Once another worker has claimed an export
  delivery, the former worker's completion, failure and renewal of it are refused and change
  nothing, so a delivery retried elsewhere is not marked sent by the worker that was slow.
\<close>

theorem delivery_lease_lost:
  assumes "reachable b win m" and "ClaimExportDelivery ks w now l m = (m', Inr d)" and "w' \<noteq> w"
  shows "deliveries m' (d_id d) = Some d \<and> (\<exists>e. finish_delivery f (d_id d) w' m' = (m', Inl e)) \<and>
    (\<exists>e. RenewExportDeliveryLease now' (d_id d) w' t m' = (m', Inl e))"
proof -
  obtain k where k: "deliveries m' k = Some d" "\<exists>e. finish_delivery f k w' m' = (m', Inl e)"
    "\<exists>e. RenewExportDeliveryLease now' k w' t m' = (m', Inl e)"
    using delivery_lease.claim_dispossesses [OF assms(2,3)] by blast
  have "store_step m m'" using export_claim [of m ks w now l] assms(2) by (auto intro: by_exports)
  with assms(1) have "store_inv m'" by (blast intro: reachable_inv reachable_step)
  then have "d_id d = k" using k(1) by (simp add: store_inv_def outbox_inv_def delivery_row_ok_def)
  with k show ?thesis by simp
qed

definition demo_x1 :: memory where
  "demo_x1 = fst (CreateExportTarget ''t1'' 1 ((demo_target [] True)\<lparr>et_name := ''siem''\<rparr>) (initial_store False 0))"

definition demo_x2 :: memory where
  "demo_x2 = fst (UpsertObservation [] [''t1''] ''o1'' (\<lambda>n. ''d1'') 5 (demo_obs\<lparr>o_id := []\<rparr>) demo_x1)"

lemma demo_x2_reachable: "reachable False 0 demo_x2"
proof -
  have "reachable False 0 demo_x1" unfolding demo_x1_def
    by (rule reachable_step [OF reachable_init by_exports [OF export_create]]) (simp add: demo_target_def)
  moreover have "obs demo_x1 ''o1'' = None"
    by (simp add: demo_x1_def CreateExportTarget_def initial_store_def NewMemory_def Let_def)
  ultimately show ?thesis unfolding demo_x2_def
    by (intro reachable_step [OF _ by_observations [OF obs_upsert]]) simp_all
qed

lemma demo_x2_rows:
  "deliveries demo_x2 = [''d1'' \<mapsto> new_delivery ''d1'' ''t1'' ''o1'' 5]"
  "exports demo_x2 = [''t1'' \<mapsto> (demo_target ''t1'' True)\<lparr>et_name := ''siem''\<rparr>]"
  by (simp_all add: demo_x2_def demo_x1_def CreateExportTarget_def initial_store_def NewMemory_def Let_def
      Upsert_new dedup_lookup_def enqueueExportsLocked_def demo_target_def or_default_def)

theorem delivery_lease_lost_witness:
  "\<exists>m' d e. ClaimExportDelivery [''d1''] ''w2'' 9 60 demo_x2 = (m', Inr d) \<and>
     CompleteExportDelivery 9 (d_id d) ''w1'' m' = (m', Inl e)"
proof -
  obtain m' d where c: "ClaimExportDelivery [''d1''] ''w2'' 9 60 demo_x2 = (m', Inr d)"
    by (simp add: ClaimExportDelivery_def claimable_deliveries_def target_enabled_def delivery_waiting_def
        demo_x2_rows Let_def) (simp add: new_delivery_def demo_target_def Let_def)
  with delivery_lease_lost [OF demo_x2_reachable c, of "''w1''" "DeliveryComplete 9"] show ?thesis
    by auto
qed

text \<open>
  A response action is finished once: after a completion or failure was accepted, no
  worker's completion or failure of it is, and the action keeps the outcome it has.
\<close>

theorem action_finishes_once:
  assumes "finish_action f k w m = (m', Inr ())"
  shows "\<exists>e. finish_action f' k w' m' = (m', Inl e)"
  using action_lease.finish_once [OF assms] .

theorem action_finishes_once_witness:
  "\<exists>m' e. CompleteResponseAction 9 ''a1'' ''w'' ''ok'' (fst (ClaimResponseAction [''a1''] ''w'' 5 60 demo_s3)) = (m', Inr ()) \<and>
     FailResponseAction 10 ''a1'' ''w'' ''late'' m' = (m', Inl e)"
proof -
  obtain m' where "finish_action (ActionComplete 9 ''ok'') ''a1'' ''w''
      (fst (ClaimResponseAction [''a1''] ''w'' 5 60 demo_s3)) = (m', Inr ())"
    by (simp add: ClaimResponseAction_def claimable_actions_def action_ready_def claimed_action_def
        CompleteResponseAction_def owned_action_def Let_def)
      (simp add: demo_defs)
  with action_finishes_once [OF this, of "ActionFail 10 ''late''" "''w''"] show ?thesis by auto
qed

text \<open>
  Reporting a finding never panics. In every reachable state the dereference in
  \<open>UpsertObservation\<close> of the row its index names is safe: the call answers with a row, that row
  is in the table under its id, and the index leads the finding's host and key to it.
\<close>

theorem upsert_total:
  assumes "reachable b w m" and "o_id ob = []" and "obs m uuid = None"
  shows "\<exists>m' ob'. UpsertObservation sk ek uuid uuids now ob m = (m', Inr ob') \<and>
    obs m' (o_id ob') = Some ob' \<and> o_dedup_key ob' = o_dedup_key ob \<and> o_host_id ob' = o_host_id ob \<and>
    dedup_lookup m' (o_host_id ob) (o_dedup_key ob) = Some (o_id ob')"
proof -
  have inve: "obs_inv m" using reachable_inv [OF assms(1)] by (simp add: store_inv_def)
  have inve': "obs_inv (fst (UpsertObservation sk ek uuid uuids now ob m))"
    by (rule obs_inv_upsert [OF inve assms(2,3)])
  have "\<exists>m' ob'. UpsertObservation sk ek uuid uuids now ob m = (m', Inr ob') \<and>
      obs m' (o_id ob') = Some ob' \<and> o_dedup_key ob' = o_dedup_key ob \<and> o_host_id ob' = o_host_id ob"
  proof (cases "dedup_lookup m (o_host_id ob) (o_dedup_key ob)")
    case None
    show ?thesis unfolding Upsert_new [OF None] Let_def using assms(2) by simp
  next
    case (Some i)
    then obtain ex where ex: "obs m i = Some ex" "o_host_id ex = o_host_id ob" "o_dedup_key ex = o_dedup_key ob"
      using obs_inv_index [OF inve] by blast
    with obs_inv_row [OF inve ex(1)] show ?thesis
      unfolding Upsert_known [OF Some ex(1)] Let_def by simp
  qed
  then obtain m' ob' where u: "UpsertObservation sk ek uuid uuids now ob m = (m', Inr ob')"
    "obs m' (o_id ob') = Some ob'" "o_dedup_key ob' = o_dedup_key ob" "o_host_id ob' = o_host_id ob" by blast
  moreover have "obs_inv m'" using inve' u(1) by simp
  from obs_inv_row [OF this u(2)] u(3,4)
  have "dedup_lookup m' (o_host_id ob) (o_dedup_key ob) = Some (o_id ob')" by simp
  ultimately show ?thesis by blast
qed

theorem upsert_total_witness:
  "\<exists>m' ob'. UpsertObservation [] [''t1''] ''o2'' (\<lambda>n. ''d2'') 9 (demo_obs\<lparr>o_id := [], o_title := ''again''\<rparr>) demo_x2
     = (m', Inr ob') \<and> obs m' (o_id ob') = Some ob'"
proof -
  have "obs demo_x2 ''o2'' = None"
    by (simp add: demo_x2_def demo_x1_def CreateExportTarget_def initial_store_def NewMemory_def Let_def
        Upsert_new dedup_lookup_def)
  from upsert_total [OF demo_x2_reachable _ this, of "demo_obs\<lparr>o_id := [], o_title := ''again''\<rparr>"]
  show ?thesis by (simp, blast)
qed

text \<open>
  Revocation is final. Once a sensor token is revoked, no later history of store calls
  makes it valid again, for any host and at any time.
\<close>

theorem revoked_token_stays_dead:
  assumes "store_later m m'" and "sensorTok m h = Some t" and "t_revoked_at t \<noteq> None"
  shows "\<not> SensorTokenValid now hostID h m'"
proof -
  have "sensorTok m' h = Some t"
    using assms(1)
  proof (induction rule: rtranclp_induct)
    case base
    show ?case by (rule assms(2))
  next
    case (step m1 m2)
    from store_step_revoked [OF step(2,3) assms(3)] show ?case .
  qed
  with assms(3) show ?thesis by (simp add: SensorTokenValid_iff)
qed

definition demo_token :: sensor_token where
  "demo_token = \<lparr>t_id = ''k1'', t_host_id = ''h1'', t_token_hash = ''abc'', t_created_at = 1,
     t_expires_at = None, t_revoked_at = Some 5\<rparr>"

theorem revoked_token_stays_dead_witness:
  "\<not> SensorTokenValid 9 ''h1'' ''abc'' (fst (RevokeSensorTokens 7 ''h1'' (NewMemory\<lparr>sensorTok := [''abc'' \<mapsto> demo_token]\<rparr>)))"
proof -
  have "store_later (NewMemory\<lparr>sensorTok := [''abc'' \<mapsto> demo_token]\<rparr>)
      (fst (RevokeSensorTokens 7 ''h1'' (NewMemory\<lparr>sensorTok := [''abc'' \<mapsto> demo_token]\<rparr>)))"
    by (intro r_into_rtranclp by_accounts step_RevokeSensorTokens)
  moreover have "t_revoked_at demo_token = Some 5" by (simp add: demo_token_def)
  ultimately show ?thesis using revoked_token_stays_dead [of _ _ "''abc''" demo_token] by fastforce
qed

text \<open>
  Rotating and revoking tokens hits exactly the right ones. Keeping one token of a host
  makes every other token of that host invalid, and revoking a host makes all of them invalid;
  neither touches the token kept or any other host's.
\<close>

theorem token_rotation_exact:
  "(SensorTokenValid now' host h (fst (RevokeOtherSensorTokens now hostID keep m)) \<longleftrightarrow>
      SensorTokenValid now' host h m \<and>
      (host = hostID \<longrightarrow> (\<exists>t. sensorTok m h = Some t \<and> t_id t = keep))) \<and>
   (SensorTokenValid now' host h (fst (RevokeSensorTokens now hostID m)) \<longleftrightarrow>
      SensorTokenValid now' host h m \<and> host \<noteq> hostID)"
  by (cases "sensorTok m h")
    (auto simp: SensorTokenValid_def RevokeOtherSensorTokens_def RevokeSensorTokens_def revoked_def
      split: option.splits)

theorem token_rotation_exact_witness:
  "\<not> SensorTokenValid 1 ''h1'' ''abc'' (fst (RevokeSensorTokens 7 ''h1''
     (NewMemory\<lparr>sensorTok := [''abc'' \<mapsto> demo_token\<lparr>t_revoked_at := None\<rparr>]\<rparr>)))"
  using token_rotation_exact [of 1 "''h1''" "''abc''" 7 "''h1''" "''k''"
      "NewMemory\<lparr>sensorTok := [''abc'' \<mapsto> demo_token\<lparr>t_revoked_at := None\<rparr>]\<rparr>"] by simp

text \<open>
  A session ends with its user. A session answers for a user exactly when it is stored, not
  past its expiry, and its user exists; deleting a user ends all their sessions and no others,
  and ending one session, or sweeping the expired ones, ends no session that was alive.
\<close>

theorem sessions_follow_users:
  assumes "reachable b w m"
  shows "(SessionUser now h (fst (DeleteUser i m)) = Inr u \<longleftrightarrow>
      SessionUser now h m = Inr u \<and> u_id u \<noteq> i) \<and>
    (SessionUser now h (fst (DeleteSession h' m)) = Inr u \<longleftrightarrow>
      SessionUser now h m = Inr u \<and> h \<noteq> h') \<and>
    (SessionUser now h (fst (DeleteExpiredSessions ks now m)) = Inr u \<longleftrightarrow>
      SessionUser now h m = Inr u)"
proof -
  have "users m k = Some v \<Longrightarrow> u_id v = k" for k v
    using reachable_inv [OF assms] by (simp add: store_inv_def accounts_inv_def users_inv_def)
  then show ?thesis
    by (auto simp: SessionUser_iff DeleteUser_def DeleteSession_def DeleteExpiredSessions_def
        split: option.splits if_splits)
qed

definition demo_user :: user where
  "demo_user = \<lparr>u_id = ''u1'', u_username = ''alice'', u_password_hash = ''x'', u_role = RoleAdmin,
     u_disabled = False, u_mfa_secret_enc = [], u_mfa_enabled = False, u_must_change_password = False,
     u_created_at = 1\<rparr>"

definition demo_u1 :: memory where
  "demo_u1 = fst (CreateUser [] ''u1'' 1 demo_user (initial_store False 0))"

definition demo_u2 :: memory where
  "demo_u2 = fst (CreateSession \<lparr>ss_token_hash = ''tok'', ss_user_id = ''u1'', ss_expires_at = 50\<rparr> demo_u1)"

lemma demo_u2_reachable: "reachable False 0 demo_u1" "reachable False 0 demo_u2"
proof -
  have "iterates [] (users (initial_store False 0))" by (simp add: initial_store_def NewMemory_def)
  then show 1: "reachable False 0 demo_u1" unfolding demo_u1_def
    by (intro reachable_step [OF reachable_init by_accounts [OF step_CreateUser]])
  show "reachable False 0 demo_u2" unfolding demo_u2_def
    by (rule reachable_step [OF 1 by_accounts [OF step_CreateSession]])
qed

lemma demo_u1_users: "users demo_u1 = [''u1'' \<mapsto> demo_user]"
  by (simp add: demo_u1_def CreateUser_def demo_user_def initial_store_def NewMemory_def Let_def or_default_def)

theorem sessions_follow_users_witness:
  "SessionUser 9 ''tok'' demo_u2 = Inr demo_user \<and>
   SessionUser 9 ''tok'' (fst (DeleteUser ''u1'' demo_u2)) \<noteq> Inr demo_user"
proof -
  have "SessionUser 9 ''tok'' demo_u2 = Inr demo_user"
    by (simp add: SessionUser_iff demo_u2_def CreateSession_def demo_u1_users)
  moreover have "u_id demo_user = ''u1''" by (simp add: demo_user_def)
  ultimately show ?thesis using sessions_follow_users [OF demo_u2_reachable(2)] by blast
qed

text \<open>
  A username is one account. In every reachable state the lookup by name, which takes the
  first match of a map range, answers with the only user of that name, whatever order the map
  is met in, and a second account under a name in use is refused.
\<close>

theorem username_lookup_unique:
  assumes "reachable b w m" and "iterates ks (users m)" and "iterates ks' (users m)"
  shows "GetUserByName ks name m = GetUserByName ks' name m \<and>
    (GetUserByName ks name m = Inr u \<longleftrightarrow> (\<exists>k. users m k = Some u \<and> u_username u = name)) \<and>
    (u_username v = name \<and> GetUserByName ks name m = Inr u \<longrightarrow>
       CreateUser ks' uuid now v m = (m, Inl (ErrNotFound ''user (duplicate username)'' name)))"
proof -
  have inve: "users_inv m" using reachable_inv [OF assms(1)] by (simp add: store_inv_def accounts_inv_def)
  note g = GetUserByName_iff [OF inve assms(2)] and g' = GetUserByName_iff [OF inve assms(3)]
  have err: "GetUserByName l name m = Inl (ErrNotFound ''user'' name)"
    if "\<And>x. GetUserByName l name m \<noteq> Inr x" for l
    using that by (cases "find (\<lambda>u. u_username u = name) (vals l (users m))") (auto simp: GetUserByName_def)
  have "GetUserByName ks name m = GetUserByName ks' name m"
  proof (cases "\<exists>x. GetUserByName ks name m = Inr x")
    case True
    then obtain x where "GetUserByName ks name m = Inr x" by blast
    with g g' show ?thesis by metis
  next
    case False
    with g g' have "\<And>x. GetUserByName ks' name m \<noteq> Inr x" by metis
    with False err show ?thesis by metis
  qed
  moreover have "CreateUser ks' uuid now v m = (m, Inl (ErrNotFound ''user (duplicate username)'' name))"
    if "u_username v = name" "GetUserByName ks name m = Inr u"
  proof -
    from that(2) obtain k where "users m k = Some u" "u_username u = name" using g by blast
    then have "u \<in> set (vals ks' (users m))" by (auto simp: iterates_set_vals [OF assms(3)] ran_def)
    with that(1) \<open>u_username u = name\<close> show ?thesis
      by (auto simp: CreateUser_def Let_def list_ex_iff)
  qed
  ultimately show ?thesis using g by blast
qed

theorem username_lookup_unique_witness:
  "GetUserByName [''u1''] ''alice'' demo_u1 = Inr demo_user"
proof -
  have i: "iterates [''u1''] (users demo_u1)" by (simp add: demo_u1_users iterates_def)
  have "\<exists>k. users demo_u1 k = Some demo_user \<and> u_username demo_user = ''alice''"
    by (simp add: demo_u1_users) (simp add: demo_user_def)
  with username_lookup_unique [OF demo_u2_reachable(1) i i] show ?thesis by blast
qed

text \<open>
  The outbox has no orphans. In every reachable state a delivery is stored under its id, is
  under a lease exactly while a worker delivers it, and belongs to a target of the table; a
  worker is only handed a delivery of an enabled target; and deleting a target leaves no
  delivery of it and all the others.
\<close>

theorem outbox_has_no_orphans:
  assumes "reachable b win m"
  shows "(\<forall>k d. deliveries m k = Some d \<longrightarrow> d_id d = k \<and> exports m (d_target_id d) \<noteq> None \<and>
      (d_status d = DeliveryDelivering \<longleftrightarrow> d_lease_until d \<noteq> None)) \<and>
    (\<forall>m' d. ClaimExportDelivery ks w now l m = (m', Inr d) \<longrightarrow>
      (\<exists>t. exports m' (d_target_id d) = Some t \<and> et_enabled t)) \<and>
    (exports m i \<noteq> None \<longrightarrow> (\<forall>k d. deliveries (fst (DeleteExportTarget i m)) k = Some d \<longleftrightarrow>
      deliveries m k = Some d \<and> d_target_id d \<noteq> i))"
proof (intro conjI allI impI)
  have inve: "outbox_inv m" using reachable_inv [OF assms] by (simp add: store_inv_def)
  fix k d assume "deliveries m k = Some d"
  from outbox_row [OF inve this]
  show "d_id d = k" "exports m (d_target_id d) \<noteq> None" "d_status d = DeliveryDelivering \<longleftrightarrow> d_lease_until d \<noteq> None"
    by (simp_all add: delivery_row_ok_def)
next
  fix m' d assume "ClaimExportDelivery ks w now l m = (m', Inr d)"
  from ClaimDelivery_ok [OF this] obtain k d0 where "target_enabled m d0"
    "m' = m\<lparr>deliveries := (deliveries m)(k \<mapsto> d)\<rparr>" "d = claimed_delivery w now l d0" by blast
  then show "\<exists>t. exports m' (d_target_id d) = Some t \<and> et_enabled t"
    by (auto simp: target_enabled_def split: option.splits)
next
  fix k d assume "exports m i \<noteq> None"
  then show "deliveries (fst (DeleteExportTarget i m)) k = Some d \<longleftrightarrow>
      deliveries m k = Some d \<and> d_target_id d \<noteq> i"
    by (auto simp: DeleteExportTarget_def split: option.splits if_splits)
qed

theorem outbox_has_no_orphans_witness:
  "deliveries demo_x2 ''d1'' \<noteq> None \<and> deliveries (fst (DeleteExportTarget ''t1'' demo_x2)) ''d1'' = None"
proof -
  have e: "exports demo_x2 ''t1'' \<noteq> None" "deliveries demo_x2 ''d1'' = Some (new_delivery ''d1'' ''t1'' ''o1'' 5)"
    by (simp_all add: demo_x2_rows)
  have "deliveries (fst (DeleteExportTarget ''t1'' demo_x2)) ''d1'' \<noteq> Some d" for d
    using outbox_has_no_orphans [OF demo_x2_reachable, of "[]" "[]" 0 0 "''t1''"] e by auto
  with e show ?thesis by (cases "deliveries (fst (DeleteExportTarget ''t1'' demo_x2)) ''d1''") auto
qed

text \<open>
  Triage keeps status and verdict consistent. A triage action that is accepted leaves the
  finding closed as false positive only with that verdict, resolved only as a confirmed true
  positive or as inconclusive, acknowledged or open otherwise, changes nothing else of the row
  and no other row; one that is refused changes nothing.
\<close>

theorem triage_consistent:
  "case ApplyObservationAction i action m of
     (m', Inl e) \<Rightarrow> m' = m
   | (m', Inr _) \<Rightarrow> \<exists>ob ob'. obs m i = Some ob \<and> m' = m\<lparr>obs := (obs m)(i \<mapsto> ob')\<rparr> \<and>
       ob' = ob\<lparr>o_status := o_status ob', o_verdict := o_verdict ob'\<rparr> \<and>
       (o_status ob' = ObsFalsePositive \<longrightarrow> o_verdict ob' = ''false_positive'') \<and>
       (o_status ob' = ObsResolved \<longrightarrow> o_verdict ob' = ''unknown'' \<or>
          (o_verdict ob' = ''true_positive'' \<and> o_verdict ob = ''true_positive'')) \<and>
       o_status ob' \<in> {ObsOpen, ObsAcknowledged, ObsResolved, ObsFalsePositive}"
proof (cases "ObservationDisposition action")
  case (Inl e)
  then show ?thesis by (simp add: ApplyObservationAction_def)
next
  case (Inr sv)
  obtain st v where sv: "sv = (st, v)" by (cases sv)
  show ?thesis
  proof (cases "obs m i")
    case None
    with Inr sv show ?thesis by (simp add: ApplyObservationAction_def)
  next
    case (Some ob)
    show ?thesis
    proof (cases "action = ''resolve'' \<and> o_verdict ob \<noteq> ''true_positive''")
      case True
      with Inr sv Some show ?thesis by (simp add: ApplyObservationAction_def)
    next
      case False
      let ?ob = "ob\<lparr>o_status := st, o_verdict := (if v = [] then o_verdict ob else v)\<rparr>"
      have a: "ApplyObservationAction i action m = (m\<lparr>obs := (obs m)(i \<mapsto> ?ob)\<rparr>, Inr ())"
        using False Inr sv Some by (auto simp: ApplyObservationAction_def Let_def)
      have sv': "st = ObsFalsePositive \<longrightarrow> v = ''false_positive''"
        "st = ObsResolved \<longrightarrow> v = ''unknown'' \<or> (v = [] \<and> o_verdict ob = ''true_positive'')"
        "st \<in> {ObsOpen, ObsAcknowledged, ObsResolved, ObsFalsePositive}"
        using Inr sv False by (auto simp: ObservationDisposition_def split: if_splits)
      show ?thesis unfolding a prod.case sum.case
        by (rule exI [of _ ob], rule exI [of _ ?ob]) (use sv' in \<open>auto simp: Some\<close>)
    qed
  qed
qed

theorem triage_consistent_witness:
  "\<exists>m' ob'. ApplyObservationAction ''o1'' ''resolve'' demo_memory = (m', Inr ()) \<and> obs m' ''o1'' = Some ob' \<and>
     o_verdict ob' = ''true_positive''"
proof -
  have o: "obs demo_memory ''o1'' = Some demo_obs" "o_verdict demo_obs = ''true_positive''"
    by (simp_all add: demo_memory_def demo_obs_def)
  then obtain m' where a: "ApplyObservationAction ''o1'' ''resolve'' demo_memory = (m', Inr ())"
    and st: "obs m' ''o1'' = Some (demo_obs\<lparr>o_status := ObsResolved\<rparr>)"
    by (simp add: ApplyObservationAction_def ObservationDisposition_def Let_def)
  from triage_consistent [where i = "''o1''" and action = "''resolve''" and m = demo_memory]
  obtain ob' where m': "m' = demo_memory\<lparr>obs := (obs demo_memory)(''o1'' \<mapsto> ob')\<rparr>"
    and v: "o_status ob' = ObsResolved \<longrightarrow> o_verdict ob' = ''unknown'' \<or> o_verdict ob' = ''true_positive''"
    unfolding a prod.case sum.case by blast
  have "ob' = demo_obs\<lparr>o_status := ObsResolved\<rparr>" using st m' by simp
  with a m' o v show ?thesis by auto
qed

text \<open>
  Lists are complete. Listing hosts returns each stored host exactly once, oldest first,
  and a host that was just created is found under the id it was given and in the list.
\<close>

theorem host_listing_complete:
  assumes "iterates ks (hosts m)" and "h_id h = []" and "hosts m uuid = None"
  shows "set (ListHosts ks m) = ran (hosts m) \<and> sorted (map h_created_at (ListHosts ks m)) \<and>
    length (ListHosts ks m) = card (dom (hosts m)) \<and>
    (\<exists>h'. CreateHost uuid now h m = (fst (CreateHost uuid now h m), Inr h') \<and> h_id h' = uuid \<and>
       GetHost uuid (fst (CreateHost uuid now h m)) = Inr h' \<and>
       h' \<in> set (ListHosts (uuid # ks) (fst (CreateHost uuid now h m)))) \<and>
    hosts (fst (DeleteHost uuid (fst (CreateHost uuid now h m)))) = hosts m"
proof -
  obtain m' r where c: "CreateHost uuid now h m = (m', r)" by (metis surj_pair)
  from host_table.create_lookup [OF assms(2) c] obtain h' where h': "r = Inr h'" "h_id h' = uuid"
    "GetHost uuid m' = Inr h'" by blast
  have "hosts m' = (hosts m)(uuid \<mapsto> h')"
    using c h'(1) assms(2) by (auto simp: CreateHost_def Let_def)
  then have "iterates (uuid # ks) (hosts m')"
    using iterates_upd [OF assms(1)] assms(1,3) by (auto simp: iterates_def)
  from host_table.listing_complete(1) [OF this] h'(3) have "h' \<in> set (ListHosts (uuid # ks) m')"
    by (auto simp: GetHost_def ran_def)
  with host_table.listing_complete [OF assms(1)] host_table.create_remove [OF assms(2,3), of now] c h'
  show ?thesis by simp
qed

theorem host_listing_complete_witness:
  "\<exists>h'. GetHost ''h1'' (fst (CreateHost ''h1'' 5 demo_host NewMemory)) = Inr h' \<and>
     h' \<in> set (ListHosts [''h1''] (fst (CreateHost ''h1'' 5 demo_host NewMemory)))"
proof -
  have "iterates [] (hosts NewMemory)" "hosts NewMemory ''h1'' = None" "h_id demo_host = []"
    by (simp_all add: NewMemory_def demo_host_def)
  with host_listing_complete [of "[]" NewMemory demo_host "''h1''" 5] show ?thesis by blast
qed

end
