(* ===== verification/AuthPolicy.thy ===== *)
theory AuthPolicy
  imports Accounts "HOL-Library.Word" "HOL-Library.Signed_Division"
begin

text \<open>
  Access control of the console: the role policy of \<open>internal/auth/auth.go\<close>, the TOTP check,
  and \<open>authMiddleware\<close> of \<open>internal/api/auth.go\<close>, the gate every non-public route passes.

  A request is its method, its path, the value of the session cookie if there is one and
  its \<open>Authorization\<close> header. \<open>digest\<close> stands for \<open>auth.TokenDigest\<close> (SHA-256 in hex) and
  \<open>ip\<close> for the address \<open>clientIP\<close> computes. The in-memory store's \<open>SensorTokenValid\<close> never
  returns an error, so the 503 of that branch does not occur in the model.
\<close>

section \<open>Roles\<close>

abbreviation MethodGet :: string where "MethodGet \<equiv> ''GET''"
abbreviation MethodHead :: string where "MethodHead \<equiv> ''HEAD''"
abbreviation MethodPost :: string where "MethodPost \<equiv> ''POST''"

definition adminOnly :: "string \<Rightarrow> bool" where
  "adminOnly path =
     (if HasPrefix path ''/api/v1/responses/'' \<and>
         (HasSuffix path ''/approve'' \<or> HasSuffix path ''/reject'') then True
      else if Contains path ''/sensor-tokens'' then True
      else HasPrefix path ''/api/v1/users'' \<or>
        HasPrefix path ''/api/v1/credentials'' \<or>
        HasPrefix path ''/api/v1/export-targets'' \<or>
        HasPrefix path ''/api/v1/export-dlq'' \<or>
        HasPrefix path ''/api/v1/archive'' \<or>
        HasPrefix path ''/api/v1/retention'' \<or>
        HasPrefix path ''/api/v1/audit'' \<or>
        HasPrefix path ''/ui/users'' \<or>
        HasPrefix path ''/ui/audit'')"

definition selfService :: "string \<Rightarrow> bool" where
  "selfService path \<longleftrightarrow> path \<in> {''/api/v1/me/password'', ''/ui/password'',
     ''/api/v1/me/mfa/setup'', ''/api/v1/me/mfa/confirm'', ''/api/v1/me/mfa''}"

definition Allowed :: "string \<Rightarrow> string \<Rightarrow> string \<Rightarrow> bool" where
  "Allowed role httpMethod path =
     (if selfService path then role = RoleAdmin \<or> role = RoleOperator \<or> role = RoleViewer
      else if role = RoleAdmin then True
      else if role = RoleOperator then \<not> adminOnly path
      else if role = RoleViewer then \<not> adminOnly path \<and> (httpMethod = MethodGet \<or> httpMethod = MethodHead)
      else False)"

definition validRole :: "string \<Rightarrow> bool" where
  "validRole role \<longleftrightarrow> role = RoleAdmin \<or> role = RoleOperator \<or> role = RoleViewer"

definition publicPath :: "string \<Rightarrow> bool" where
  "publicPath p \<longleftrightarrow> p \<in> {''/'', ''/healthz'', ''/readyz'', ''/metrics'', ''/openapi.yaml'',
     ''/api/v1/login'', ''/ui/login'', ''/ui/logo.png'', ''/ui/favicon.png'', ''/favicon.ico''}"

definition passwordChangePath :: "string \<Rightarrow> bool" where
  "passwordChangePath p \<longleftrightarrow> p \<in> {''/api/v1/me/password'', ''/ui/password'', ''/api/v1/me'', ''/api/v1/logout''}"

section \<open>One-time codes\<close>

text \<open>
  The truncation of RFC 4226 on the bytes of the HMAC, as \<open>totpCode\<close> does it: the low four
  bits of the last byte select four bytes, read big-endian without the sign bit.
\<close>

definition hotp_offset :: "8 word list \<Rightarrow> nat" where
  "hotp_offset mac = unat (and (last mac) 0x0f)"

definition be32 :: "8 word list \<Rightarrow> 32 word" where
  "be32 bs = foldl (\<lambda>acc b. or (push_bit 8 acc) (ucast b)) 0 bs"

definition hotp_number :: "8 word list \<Rightarrow> nat" where
  "hotp_number mac =
     (let off = hotp_offset mac
      in unat (and (be32 (take 4 (drop off mac))) 0x7fffffff) mod 1000000)"

definition pad6 :: "nat \<Rightarrow> string" where
  "pad6 n = replicate (6 - length (nat_digits n)) (CHR ''0'') @ nat_digits n"

text \<open>\<open>decode\<close> and \<open>hmac\<close> stand for base32 decoding (after \<open>ToUpper\<close> and \<open>TrimSpace\<close>) and HMAC-SHA1
  of the big-endian counter.\<close>

definition totpCode ::
  "(string \<Rightarrow> 8 word list option) \<Rightarrow> (8 word list \<Rightarrow> int \<Rightarrow> 8 word list) \<Rightarrow> string \<Rightarrow> int \<Rightarrow> string option" where
  "totpCode decode hmac secret counter =
     (case decode secret of
        None \<Rightarrow> None
      | Some key \<Rightarrow> Some (pad6 (hotp_number (hmac key counter))))"

text \<open>\<open>now.Unix()\<close> is the argument \<open>unix\<close>; Go's integer division truncates toward zero.\<close>

definition VerifyTOTP ::
  "(string \<Rightarrow> 8 word list option) \<Rightarrow> (8 word list \<Rightarrow> int \<Rightarrow> 8 word list) \<Rightarrow> string \<Rightarrow> string \<Rightarrow> int \<Rightarrow> bool" where
  "VerifyTOTP decode hmac secret code unix =
     (if length code \<noteq> 6 then False
      else if Atoi code = None then False
      else list_ex (\<lambda>delta. totpCode decode hmac secret ((unix sdiv 30) + delta) = Some code) [-1, 0, 1])"

section \<open>Requests and the gate\<close>

record request =
  rq_method :: string
  rq_path :: string
  rq_cookie :: "string option"
  rq_authorization :: string

definition bearerToken :: "request \<Rightarrow> string" where
  "bearerToken r =
     (if \<not> HasPrefix (rq_authorization r) ''Bearer '' then []
      else TrimSpace (TrimPrefix (rq_authorization r) ''Bearer ''))"

definition userFromRequest ::
  "(string \<Rightarrow> string) \<Rightarrow> go_time \<Rightarrow> request \<Rightarrow> memory \<Rightarrow> user option" where
  "userFromRequest digest now r m =
     (let tok = (case rq_cookie r of None \<Rightarrow> [] | Some v \<Rightarrow> v);
          tok = (if bearerToken r \<noteq> [] then bearerToken r else tok)
      in if tok = [] then None
         else (case SessionUser now (digest tok) m of Inl e \<Rightarrow> None | Inr u \<Rightarrow> Some u))"

definition is_event_path :: "string \<Rightarrow> bool" where
  "is_event_path p \<longleftrightarrow> HasPrefix p ''/api/v1/hosts/'' \<and> HasSuffix p ''/events''"

definition event_host :: "string \<Rightarrow> string" where
  "event_host p = TrimSuffix (TrimPrefix p ''/api/v1/hosts/'') ''/events''"

text \<open>\<open>auditAs\<close>: one event with an explicit actor. The in-memory store never fails an append.\<close>

definition auditAs ::
  "string \<Rightarrow> go_time \<Rightarrow> string \<Rightarrow> string \<Rightarrow> string \<Rightarrow> string \<Rightarrow> string \<Rightarrow> string \<Rightarrow> memory \<Rightarrow> memory" where
  "auditAs uuid now ip actor action target result detail m =
     fst (AppendAudit uuid now \<lparr>a_id = [], a_time = 0, a_actor = actor, a_actor_ip = ip,
       a_action = action, a_target = target, a_result = result, a_detail = detail\<rparr> m)"

text \<open>What the middleware answers: hand the request on, with the user it put into the context,
  redirect, or refuse.\<close>

datatype gate = Serve "user option" | Redirect string | Refuse int string

definition authMiddleware ::
  "(string \<Rightarrow> string) \<Rightarrow> string \<Rightarrow> go_time \<Rightarrow> string \<Rightarrow> request \<Rightarrow> memory \<Rightarrow> memory \<times> gate" where
  "authMiddleware digest uuid now ip r m =
     (let p = rq_path r in
      if publicPath p then (m, Serve None)
      else if rq_method r = MethodPost \<and> is_event_path p \<and> bearerToken r \<noteq> [] \<and>
              SensorTokenValid now (event_host p) (digest (bearerToken r)) m
      then (m, Serve None)
      else
        let isUI = HasPrefix p ''/ui'' in
        case userFromRequest digest now r m of
          None \<Rightarrow> (m, if isUI then Redirect ''/ui/login'' else Refuse 401 ''authentication required'')
        | Some u \<Rightarrow>
            if u_disabled u
            then (m, if isUI then Redirect ''/ui/login'' else Refuse 401 ''authentication required'')
            else if \<not> Allowed (u_role u) (rq_method r) p
            then (auditAs uuid now ip (u_username u) ''access.denied''
                    (rq_method r @ '' '' @ p) ''denied'' (''role='' @ u_role u) m,
                  Refuse 403 (''insufficient role ('' @ u_role u @ '')''))
            else if u_must_change_password u \<and> \<not> passwordChangePath p
            then (m, if isUI then Redirect ''/ui/password''
                     else Refuse 403 ''password change required: POST /api/v1/me/password before using the API'')
            else (m, Serve (Some u)))"

section \<open>Facts of the gate\<close>

lemma event_host_append:
  "event_host (''/api/v1/hosts/'' @ hid @ ''/events'') = hid"
proof -
  have "TrimPrefix (''/api/v1/hosts/'' @ hid @ ''/events'') ''/api/v1/hosts/'' = hid @ ''/events''"
    by (rule TrimPrefix_append)
  then show ?thesis unfolding event_host_def by (simp only: TrimSuffix_append)
qed

lemma userFromRequest_Some:
  assumes "userFromRequest digest now r m = Some u"
  shows "\<exists>tok s. tok \<noteq> [] \<and> (tok = bearerToken r \<or> rq_cookie r = Some tok) \<and>
    sessions m (digest tok) = Some s \<and> now \<le> ss_expires_at s \<and> users m (ss_user_id s) = Some u"
proof -
  let ?tok = "if bearerToken r \<noteq> [] then bearerToken r else (case rq_cookie r of None \<Rightarrow> [] | Some v \<Rightarrow> v)"
  have tok: "?tok \<noteq> []" and u: "SessionUser now (digest ?tok) m = Inr u"
    using assms by (auto simp: userFromRequest_def Let_def split: if_splits sum.splits)
  have "?tok = bearerToken r \<or> rq_cookie r = Some ?tok"
    using tok by (auto split: option.splits if_splits)
  with tok u show ?thesis unfolding SessionUser_iff by blast
qed

lemma Allowed_admin_route:
  "Allowed role mth p \<Longrightarrow> adminOnly p \<Longrightarrow> \<not> selfService p \<Longrightarrow> role = RoleAdmin"
  by (auto simp: Allowed_def split: if_splits)

lemma hotp_offset_bound: "hotp_offset mac < 16"
proof -
  have "and (last mac) 0x0f \<le> (0x0f :: 8 word)" by (rule word_and_le1)
  then have "hotp_offset mac \<le> unat (0x0f :: 8 word)"
    unfolding hotp_offset_def by (simp add: word_le_nat_alt)
  then show ?thesis by simp
qed

lemma nat_digits_length6: "n < 1000000 \<Longrightarrow> length (nat_digits n) \<le> 6"
proof -
  have step: "length (nat_digits k) \<le> Suc b" if "\<And>j. j < 10 ^ b \<Longrightarrow> length (nat_digits j) \<le> b"
    "k < 10 ^ Suc b" "1 \<le> b" for k b
  proof (cases "k < 10")
    case True
    then show ?thesis by (subst nat_digits.simps) simp
  next
    case False
    have "k div 10 < 10 ^ b" using that(2) by (simp add: less_mult_imp_div_less mult.commute)
    with that(1) False show ?thesis by (subst nat_digits.simps) simp
  qed
  have 1: "length (nat_digits k) \<le> 1" if "k < 10 ^ 1" for k
    using that by (subst nat_digits.simps) simp
  have 2: "length (nat_digits k) \<le> Suc 1" if "k < 10 ^ Suc 1" for k by (rule step [OF 1 that]) simp_all
  have 3: "length (nat_digits k) \<le> Suc (Suc 1)" if "k < 10 ^ Suc (Suc 1)" for k
    by (rule step [OF 2 that]) simp_all
  have 4: "length (nat_digits k) \<le> Suc (Suc (Suc 1))" if "k < 10 ^ Suc (Suc (Suc 1))" for k
    by (rule step [OF 3 that]) simp_all
  have 5: "length (nat_digits k) \<le> Suc (Suc (Suc (Suc 1)))" if "k < 10 ^ Suc (Suc (Suc (Suc 1)))" for k
    by (rule step [OF 4 that]) simp_all
  have 6: "length (nat_digits k) \<le> Suc (Suc (Suc (Suc (Suc 1))))"
    if "k < 10 ^ Suc (Suc (Suc (Suc (Suc 1))))" for k
    by (rule step [OF 5 that]) simp_all
  show "n < 1000000 \<Longrightarrow> length (nat_digits n) \<le> 6" using 6 [of n] by simp
qed

lemma pad6_length: "n < 1000000 \<Longrightarrow> length (pad6 n) = 6"
  using nat_digits_length6 [of n] by (simp add: pad6_def)

lemma pad6_digits: "list_all is_digit (pad6 n)"
  using nat_digits_digits [of n] by (auto simp: pad6_def list_all_iff is_digit_def)

lemma digits_value_less:
  "list_all is_digit ds \<Longrightarrow> 0 \<le> acc \<Longrightarrow> digits_value ds acc < (acc + 1) * 10 ^ length ds"
proof (induction ds acc rule: digits_value.induct)
  case (2 c cs acc)
  have c: "0 \<le> int (of_char c) - 48" "int (of_char c) - 48 \<le> 9" using 2(2) by (simp_all add: is_digit_def)
  have "digits_value (c # cs) acc < (10 * acc + (int (of_char c) - 48) + 1) * 10 ^ length cs"
    using 2 c by (simp add: is_digit_def)
  also have "\<dots> \<le> (10 * acc + 10) * 10 ^ length cs" using c by (intro mult_right_mono) simp_all
  finally show ?case by (simp add: algebra_simps)
qed simp

lemma Atoi_digits:
  assumes "list_all is_digit ds" and "ds \<noteq> []" and "length ds \<le> 18"
  shows "Atoi ds = Some (digits_value ds 0)"
proof -
  obtain c cs where ds: "ds = c # cs" using assms(2) by (cases ds) auto
  have c: "c \<noteq> CHR ''-''" "c \<noteq> CHR ''+''" using assms(1) by (auto simp: ds is_digit_def)
  have "digits_value ds 0 < (0 + 1) * 10 ^ length ds" by (rule digits_value_less [OF assms(1)]) simp
  also have "\<dots> \<le> 10 ^ 18"
    using power_increasing [OF assms(3), of "10 :: int"] by (simp del: power_numeral)
  finally have "digits_value ds 0 < 2 ^ 63" by simp
  moreover have "0 \<le> digits_value ds 0" by (rule digits_value_nonneg [OF assms(1)]) simp
  ultimately show ?thesis using assms(1,2) c by (simp add: Atoi_def Let_def ds)
qed

lemma totpCode_shape:
  "totpCode decode hmac secret counter = Some code \<Longrightarrow> length code = 6 \<and> list_all is_digit code"
  by (auto simp: totpCode_def hotp_number_def Let_def pad6_length pad6_digits split: option.splits)

section \<open>Properties\<close>

text \<open>
  C5. The gate is sound. A request the middleware hands on to a handler is on a public path, or
  is a sensor's event post whose bearer credential is a live token of the very host in the URL,
  or belongs to a live session of an enabled user whose role may use the method on the path and
  who is past a forced password change or on the way to it. The middleware changes nothing but
  the audit log, and that only when it refuses a role.
\<close>

theorem gate_is_sound:
  assumes "authMiddleware digest uuid now ip r m = (m', Serve u)"
  shows "m' = m \<and>
   (publicPath (rq_path r) \<or>
    (rq_method r = MethodPost \<and> is_event_path (rq_path r) \<and>
      (\<exists>t. sensorTok m (digest (bearerToken r)) = Some t \<and> t_host_id t = event_host (rq_path r) \<and>
         t_revoked_at t = None \<and> (\<forall>e. t_expires_at t = Some e \<longrightarrow> now < e))) \<or>
    (\<exists>v tok s. u = Some v \<and> tok \<noteq> [] \<and> (tok = bearerToken r \<or> rq_cookie r = Some tok) \<and>
       sessions m (digest tok) = Some s \<and> now \<le> ss_expires_at s \<and> users m (ss_user_id s) = Some v \<and>
       \<not> u_disabled v \<and> Allowed (u_role v) (rq_method r) (rq_path r) \<and>
       (u_must_change_password v \<longrightarrow> passwordChangePath (rq_path r))))"
proof (cases "publicPath (rq_path r)")
  case True
  with assms show ?thesis by (simp add: authMiddleware_def)
next
  case np: False
  show ?thesis
  proof (cases "rq_method r = MethodPost \<and> is_event_path (rq_path r) \<and> bearerToken r \<noteq> [] \<and>
      SensorTokenValid now (event_host (rq_path r)) (digest (bearerToken r)) m")
    case True
    with np assms show ?thesis by (auto simp: authMiddleware_def SensorTokenValid_iff)
  next
    case False
    then obtain v where v: "userFromRequest digest now r m = Some v" "u = Some v" "m' = m" "\<not> u_disabled v"
      "Allowed (u_role v) (rq_method r) (rq_path r)"
      "u_must_change_password v \<longrightarrow> passwordChangePath (rq_path r)"
      using np assms unfolding authMiddleware_def Let_def
      by (simp split: option.splits if_splits)
    with userFromRequest_Some [OF v(1)] show ?thesis by blast
  qed
qed

definition demo_viewer :: user where
  "demo_viewer = \<lparr>u_id = ''u2'', u_username = ''vera'', u_password_hash = ''x'', u_role = RoleViewer,
     u_disabled = False, u_mfa_secret_enc = [], u_mfa_enabled = False, u_must_change_password = False,
     u_created_at = 1\<rparr>"

definition demo_accounts :: memory where
  "demo_accounts = NewMemory\<lparr>users := [''u2'' \<mapsto> demo_viewer],
     sessions := [''#tok'' \<mapsto> \<lparr>ss_token_hash = ''#tok'', ss_user_id = ''u2'', ss_expires_at = 50\<rparr>]\<rparr>"

definition demo_request :: "string \<Rightarrow> string \<Rightarrow> request" where
  "demo_request mth p = \<lparr>rq_method = mth, rq_path = p, rq_cookie = Some ''tok'', rq_authorization = []\<rparr>"

lemma demo_request_user:
  "now \<le> 50 \<Longrightarrow> userFromRequest (\<lambda>t. CHR ''#'' # t) now (demo_request mth p) demo_accounts = Some demo_viewer"
  by (simp add: userFromRequest_def demo_request_def demo_accounts_def SessionUser_def bearerToken_def Let_def)

theorem gate_is_sound_witness:
  "\<exists>v. authMiddleware (\<lambda>t. CHR ''#'' # t) [] 9 [] (demo_request MethodGet ''/api/v1/hosts'') demo_accounts =
     (demo_accounts, Serve (Some v)) \<and> \<not> u_disabled v"
proof -
  let ?r = "demo_request MethodGet ''/api/v1/hosts''"
  have a: "authMiddleware (\<lambda>t. CHR ''#'' # t) [] 9 [] ?r demo_accounts = (demo_accounts, Serve (Some demo_viewer))"
    using demo_request_user [of 9 MethodGet "''/api/v1/hosts''"]
    by (simp add: authMiddleware_def Let_def)
      (simp add: demo_request_def publicPath_def demo_viewer_def Allowed_def selfService_def adminOnly_def)
  have "\<not> publicPath (rq_path ?r)" "rq_method ?r \<noteq> MethodPost"
    by (simp_all add: demo_request_def publicPath_def)
  with gate_is_sound [OF a] a show ?thesis by blast
qed

text \<open>
  Separation of roles. Whatever the method, a route for administrators (users, credentials,
  audit, sensor tokens, export targets, retention, deciding a response) is allowed to the role
  admin only; a viewer may only read, or act on their own account; an unknown role may nothing.
\<close>

theorem role_separation:
  "(Allowed role mth p \<and> adminOnly p \<and> \<not> selfService p \<longrightarrow> role = RoleAdmin) \<and>
   (Allowed RoleViewer mth p \<longrightarrow> mth = MethodGet \<or> mth = MethodHead \<or> selfService p) \<and>
   (\<not> validRole role \<longrightarrow> \<not> Allowed role mth p) \<and>
   (Allowed RoleOperator mth p \<longrightarrow> Allowed RoleAdmin mth p) \<and>
   (Allowed RoleViewer mth p \<longrightarrow> Allowed RoleOperator mth p) \<and>
   adminOnly (''/api/v1/responses/'' @ i @ ''/approve'') \<and> adminOnly (''/api/v1/responses/'' @ i @ ''/reject'') \<and>
   adminOnly (''/api/v1/hosts/'' @ i @ ''/sensor-tokens'')"
proof -
  have "Contains (a @ q @ b) q" for a q b by (auto simp: Contains_iff)
  from this [of "''/api/v1/hosts/'' @ i" "''/sensor-tokens''" "[]"]
  have 1: "adminOnly (''/api/v1/hosts/'' @ i @ ''/sensor-tokens'')"
    unfolding adminOnly_def by (simp only: append_assoc append_Nil2 if_True if_cancel)
  have "HasSuffix (''/api/v1/responses/'' @ i @ q) q" for q
    using HasSuffix_append [of "''/api/v1/responses/'' @ i" q] by (simp only: append_assoc)
  then have "adminOnly (''/api/v1/responses/'' @ i @ ''/approve'')" "adminOnly (''/api/v1/responses/'' @ i @ ''/reject'')"
    unfolding adminOnly_def by (simp_all only: HasPrefix_append simp_thms if_True)
  with 1 show ?thesis
    unfolding Allowed_def validRole_def by auto
qed

theorem role_separation_witness:
  "\<not> Allowed RoleOperator MethodPost ''/api/v1/responses/a1/approve''"
proof -
  have "adminOnly (''/api/v1/responses/'' @ ''a1'' @ ''/approve'')" "\<not> selfService ''/api/v1/responses/a1/approve''"
    using role_separation [of RoleAdmin MethodPost "[]" "''a1''"] by (blast, simp add: selfService_def)
  with role_separation [of RoleOperator MethodPost "''/api/v1/responses/a1/approve''" "[]"] show ?thesis
    by auto
qed

text \<open>
  A viewer cannot log out through the gate. The list of paths an account under a forced
  password change may use holds the logout route, so that it can always walk away, but the role
  check comes first and refuses a viewer's post to it, with a live session and whatever else
  holds: the request gets 403 and the session stays.
\<close>

theorem viewer_logout_refused:
  assumes "userFromRequest digest now r m = Some u" and "u_role u = RoleViewer" and "\<not> u_disabled u"
    and "rq_method r = MethodPost" and "rq_path r = ''/api/v1/logout''"
  shows "passwordChangePath (rq_path r) \<and>
    (\<exists>m' msg. authMiddleware digest uuid now ip r m = (m', Refuse 403 msg) \<and> sessions m' = sessions m)"
proof -
  have "\<not> publicPath (rq_path r)" "\<not> is_event_path (rq_path r)" "passwordChangePath (rq_path r)"
    "\<not> Allowed (u_role u) (rq_method r) (rq_path r)"
    by (simp_all add: assms publicPath_def is_event_path_def passwordChangePath_def Allowed_def selfService_def)
  with assms show ?thesis
    by (simp add: authMiddleware_def Let_def auditAs_def AppendAudit_def)
qed

theorem viewer_logout_refused_witness:
  "\<exists>m' msg. authMiddleware (\<lambda>t. CHR ''#'' # t) [] 9 [] (demo_request MethodPost ''/api/v1/logout'') demo_accounts =
     (m', Refuse 403 msg) \<and> sessions m' = sessions demo_accounts"
  using viewer_logout_refused [OF demo_request_user [of 9 MethodPost "''/api/v1/logout''"], of "[]" "[]"]
  by (simp add: demo_viewer_def demo_request_def)

text \<open>
  One-time codes. A code is accepted exactly when it is the code of the current 30-second
  window or of one next to it; the checks of its length and digits refuse no right code, since
  every code is six digits; and the truncation never reads past the 20 bytes of the HMAC.
\<close>

theorem totp_window_exact:
  "(VerifyTOTP decode hmac secret code unix \<longleftrightarrow>
     (\<exists>delta \<in> {-1, 0, 1}. totpCode decode hmac secret (unix sdiv 30 + delta) = Some code)) \<and>
   (totpCode decode hmac secret counter = Some code' \<longrightarrow> length code' = 6 \<and> list_all is_digit code') \<and>
   (length mac = 20 \<longrightarrow> hotp_offset mac + 4 \<le> length mac)"
proof -
  have ok: "length code = 6 \<and> Atoi code \<noteq> None" if "totpCode decode hmac secret c = Some code" for c
  proof -
    from totpCode_shape [OF that] have "length code = 6" "list_all is_digit code" by simp_all
    moreover from this have "code \<noteq> []" by auto
    ultimately show ?thesis using Atoi_digits [of code] by simp
  qed
  have "VerifyTOTP decode hmac secret code unix \<longleftrightarrow>
     (\<exists>delta \<in> {-1, 0, 1}. totpCode decode hmac secret (unix sdiv 30 + delta) = Some code)"
    using ok by (auto simp: VerifyTOTP_def)
  moreover have "hotp_offset mac + 4 \<le> length mac" if "length mac = 20"
    using hotp_offset_bound [of mac] that by simp
  ultimately show ?thesis using totpCode_shape by blast
qed

theorem totp_window_exact_witness:
  "length (pad6 (hotp_number (replicate 20 7))) = 6 \<and>
   VerifyTOTP (\<lambda>s. Some []) (\<lambda>k c. replicate 20 7) ''S'' (pad6 (hotp_number (replicate 20 7))) 90"
  using totp_window_exact [of "\<lambda>s. Some []" "\<lambda>k c. replicate 20 7" "''S''"
      "pad6 (hotp_number (replicate 20 7))" 90 0 "pad6 (hotp_number (replicate 20 7))" "replicate 20 7"]
  by (auto simp: totpCode_def)

end
