(* ===== verification/LoginLimiter.thy ===== *)
theory LoginLimiter
  imports Prelude
begin

text \<open>
  The per-address lockout of \<open>internal/api/loginlimit.go\<close>, and the bound on password
  guessing it gives. The mutex makes each method atomic. \<open>prune\<close> deletes stale entries
  while it ranges over the map; each entry is judged alone, so the order does not matter.
\<close>

section \<open>State and operations\<close>

record login_attempt =
  la_fails :: int
  la_until :: go_time
  la_last :: go_time

record login_limiter =
  ll_attempts :: "string \<rightharpoonup> login_attempt"
  ll_nextPrune :: go_time

definition loginMaxFails :: int where "loginMaxFails = 5"
definition loginWindow :: duration where "loginWindow = 15 * Minute"
definition loginLockoutBase :: duration where "loginLockoutBase = 30 * Second"
definition loginLockoutMax :: duration where "loginLockoutMax = 15 * Minute"

definition newLoginLimiter :: login_limiter where
  "newLoginLimiter = \<lparr>ll_attempts = Map.empty, ll_nextPrune = 0\<rparr>"

definition stale :: "go_time \<Rightarrow> login_attempt \<Rightarrow> bool" where
  "stale now a \<longleftrightarrow> time_Sub now (la_last a) > loginWindow \<and> now > la_until a"

definition prune :: "go_time \<Rightarrow> login_limiter \<Rightarrow> login_limiter" where
  "prune now l =
     (if now < ll_nextPrune l then l
      else l\<lparr>ll_nextPrune := now + loginWindow,
             ll_attempts := (\<lambda>ip. case ll_attempts l ip of
               None \<Rightarrow> None | Some a \<Rightarrow> if stale now a then None else Some a)\<rparr>)"

definition retryAfter :: "string \<Rightarrow> go_time \<Rightarrow> login_limiter \<Rightarrow> login_limiter \<times> duration" where
  "retryAfter ip now l =
     (let l = prune now l in
      case ll_attempts l ip of
        None \<Rightarrow> (l, 0)
      | Some a \<Rightarrow> if now < la_until a then (l, time_Sub (la_until a) now) else (l, 0))"

text \<open>The lockout after \<open>fails\<close> failures, with the shift on 64 bits.\<close>

definition lockout :: "int \<Rightarrow> duration" where
  "lockout fails =
     (let n = min (fails - loginMaxFails) 20;
          d = wrap64 (loginLockoutBase * 2 ^ nat n)
      in if d \<le> 0 \<or> d > loginLockoutMax then loginLockoutMax else d)"

definition fail_login :: "string \<Rightarrow> go_time \<Rightarrow> login_limiter \<Rightarrow> login_limiter" where
  "fail_login ip now l =
     (let l = prune now l;
          a = (case ll_attempts l ip of
                 None \<Rightarrow> \<lparr>la_fails = 0, la_until = 0, la_last = 0\<rparr> | Some a \<Rightarrow> a);
          a = (if time_Sub now (la_last a) > loginWindow then a\<lparr>la_fails := 0\<rparr> else a);
          a = a\<lparr>la_fails := la_fails a + 1, la_last := now\<rparr>;
          a = (if la_fails a \<ge> loginMaxFails then a\<lparr>la_until := now + lockout (la_fails a)\<rparr> else a)
      in l\<lparr>ll_attempts := (ll_attempts l)(ip \<mapsto> a)\<rparr>)"

definition reset_login :: "string \<Rightarrow> login_limiter \<Rightarrow> login_limiter" where
  "reset_login ip l = l\<lparr>ll_attempts := (ll_attempts l)(ip := None)\<rparr>"

section \<open>Login attempts\<close>

text \<open>
  The calls \<open>login\<close> makes for one attempt: \<open>retryAfter\<close> first, and only when it answers zero the
  credentials are looked at, with \<open>fail\<close> or \<open>reset\<close> for the outcome. The flag tells whether
  the attempt got that far.
\<close>

datatype attempt = BadPassword string go_time go_time | GoodPassword string go_time

text \<open>The instants at which an attempt starts and ends: checking a password takes time.\<close>

fun starts :: "attempt \<Rightarrow> go_time" where
  "starts (BadPassword ip t t') = t"
| "starts (GoodPassword ip t) = t"

fun ends :: "attempt \<Rightarrow> go_time" where
  "ends (BadPassword ip t t') = t'"
| "ends (GoodPassword ip t) = t"

fun attempt_step :: "attempt \<Rightarrow> login_limiter \<Rightarrow> login_limiter \<times> bool" where
  "attempt_step (BadPassword ip t t') l =
     (let (l, wait) = retryAfter ip t l in if wait > 0 then (l, False) else (fail_login ip t' l, True))"
| "attempt_step (GoodPassword ip t) l =
     (let (l, wait) = retryAfter ip t l in if wait > 0 then (l, False) else (reset_login ip l, True))"

fun bad_for :: "string \<Rightarrow> attempt \<Rightarrow> bool" where
  "bad_for ip (BadPassword ip' t t') \<longleftrightarrow> ip' = ip"
| "bad_for ip (GoodPassword ip' t) \<longleftrightarrow> False"

text \<open>The number of wrong passwords tried for an address in a history of attempts.\<close>

fun guesses :: "string \<Rightarrow> attempt list \<Rightarrow> login_limiter \<Rightarrow> nat" where
  "guesses ip [] l = 0"
| "guesses ip (e # es) l =
     (if bad_for ip e \<and> snd (attempt_step e l) then 1 else 0) + guesses ip es (fst (attempt_step e l))"

text \<open>A history in which each attempt starts when the one before has ended.\<close>

fun in_order :: "go_time \<Rightarrow> attempt list \<Rightarrow> bool" where
  "in_order t [] \<longleftrightarrow> True"
| "in_order t (e # es) \<longleftrightarrow> t \<le> starts e \<and> starts e \<le> ends e \<and> in_order (ends e) es"

section \<open>Facts\<close>

lemma lockout_values:
  "lockout 5 = 30 * Second" "lockout 6 = 60 * Second" "lockout 7 = 120 * Second"
  "lockout 8 = 240 * Second" "lockout 9 = 480 * Second" "10 \<le> f \<Longrightarrow> lockout f = 15 * Minute"
proof -
  show "lockout 5 = 30 * Second" "lockout 6 = 60 * Second" "lockout 7 = 120 * Second"
    "lockout 8 = 240 * Second" "lockout 9 = 480 * Second"
    by (simp_all add: lockout_def loginMaxFails_def loginLockoutBase_def loginLockoutMax_def wrap64_def)
  assume f: "10 \<le> f"
  define n where "n = min (f - loginMaxFails) 20"
  have n: "5 \<le> n" "n \<le> 20" using f by (simp_all add: n_def loginMaxFails_def)
  have "(2 :: int) ^ 5 \<le> 2 ^ nat n" "(2 :: int) ^ nat n \<le> 2 ^ 20"
    using n by (intro power_increasing; simp)+
  then have b: "32 \<le> (2 :: int) ^ nat n" "(2 :: int) ^ nat n \<le> 1048576" by simp_all
  then have "wrap64 (loginLockoutBase * 2 ^ nat n) = loginLockoutBase * 2 ^ nat n"
    by (intro wrap64_id) (simp_all add: loginLockoutBase_def)
  with b show "lockout f = 15 * Minute"
    by (simp add: lockout_def Let_def n_def [symmetric] loginLockoutBase_def loginLockoutMax_def)
qed

lemma lockout_pos: "5 \<le> f \<Longrightarrow> 0 < lockout f"
  by (simp add: lockout_def Let_def loginLockoutMax_def)

lemma lockout_mono:
  assumes "5 \<le> f" and "f \<le> g"
  shows "lockout f \<le> lockout g"
proof -
  have "f = 5 \<or> f = 6 \<or> f = 7 \<or> f = 8 \<or> f = 9 \<or> 10 \<le> f" "g = 5 \<or> g = 6 \<or> g = 7 \<or> g = 8 \<or> g = 9 \<or> 10 \<le> g"
    using assms by linarith+
  then show ?thesis using assms(2) by (auto simp: lockout_values)
qed

text \<open>What a failed attempt costs: the lockout it arms, none below the threshold.\<close>

definition cost :: "int \<Rightarrow> duration" where
  "cost f = (if f \<ge> 5 then lockout f else 0)"

lemma cost_mono: "f \<le> g \<Longrightarrow> cost f \<le> cost g"
  by (auto simp: cost_def lockout_mono less_imp_le [OF lockout_pos])

lemma cost_nonneg: "0 \<le> cost f"
  by (simp add: cost_def less_imp_le [OF lockout_pos])

text \<open>What each call does to an address's entry. \<open>entry\<close> at an instant is the entry, unless it is stale.\<close>

lemma prune_kept:
  "ll_attempts l ip = Some a \<Longrightarrow> \<not> stale now a \<Longrightarrow> ll_attempts (prune now l) ip = Some a"
  by (simp add: prune_def)

lemma not_stale: "now - la_last a \<le> loginWindow \<Longrightarrow> \<not> stale now a"
  by (simp add: stale_def time_Sub_less_iff loginWindow_def)

lemma retryAfter_kept:
  assumes "ll_attempts l ip = Some a" and "now - la_last a \<le> loginWindow"
  shows "ll_attempts (fst (retryAfter ip' now l)) ip = Some a"
    and "snd (retryAfter ip now l) = (if now < la_until a then time_Sub (la_until a) now else 0)"
  using prune_kept [OF assms(1) not_stale [OF assms(2)]]
  by (simp_all add: retryAfter_def Let_def split: option.split)

lemma fail_login_kept:
  assumes "ll_attempts l ip = Some a" and "now - la_last a \<le> loginWindow" and "ip' \<noteq> ip"
  shows "ll_attempts (fail_login ip' now l) ip = Some a"
  using prune_kept [OF assms(1) not_stale [OF assms(2)]] assms(3)
  by (simp add: fail_login_def Let_def)

definition after_fail :: "go_time \<Rightarrow> int \<Rightarrow> login_attempt \<Rightarrow> bool" where
  "after_fail now f a \<longleftrightarrow> la_last a = now \<and> la_fails a = f \<and> (f \<ge> 5 \<longrightarrow> la_until a = now + lockout f)"

lemma fail_login_entry:
  assumes "ll_attempts l ip = Some a" and "now - la_last a \<le> loginWindow"
  shows "\<exists>a'. ll_attempts (fail_login ip now l) ip = Some a' \<and> after_fail now (la_fails a + 1) a'"
  using prune_kept [OF assms(1) not_stale [OF assms(2)]] assms(2)
  by (simp add: fail_login_def Let_def after_fail_def loginMaxFails_def time_Sub_less_iff loginWindow_def)

lemma fail_login_any:
  assumes "\<And>a. ll_attempts l ip = Some a \<Longrightarrow> 0 \<le> la_fails a"
  shows "\<exists>a' f. ll_attempts (fail_login ip now l) ip = Some a' \<and> 1 \<le> f \<and> after_fail now f a'"
proof -
  have "0 \<le> la_fails a" if "ll_attempts (prune now l) ip = Some a" for a
    using that assms by (auto simp: prune_def split: if_splits option.splits)
  then show ?thesis
    by (cases "ll_attempts (prune now l) ip") (auto simp: fail_login_def Let_def after_fail_def loginMaxFails_def)
qed

text \<open>While the entry is young, an attempt of another address leaves it alone.\<close>

lemma attempt_other:
  assumes "ll_attempts l ip = Some a" and "starts e - la_last a \<le> loginWindow" "ends e - la_last a \<le> loginWindow"
    and "\<not> bad_for ip e" and "\<And>t. e \<noteq> GoodPassword ip t"
  shows "ll_attempts (fst (attempt_step e l)) ip = Some a"
proof (cases e)
  case (BadPassword ip' t t')
  with assms have t: "t - la_last a \<le> loginWindow" "t' - la_last a \<le> loginWindow" "ip' \<noteq> ip" by simp_all
  note k = retryAfter_kept(1) [OF assms(1) t(1), of ip']
  from k fail_login_kept [OF k t(2,3)] BadPassword show ?thesis
    by (cases "retryAfter ip' t l") simp
next
  case (GoodPassword ip' t)
  with assms have t: "t - la_last a \<le> loginWindow" "ip' \<noteq> ip" by auto
  from retryAfter_kept(1) [OF assms(1) t(1), of ip'] t(2) GoodPassword show ?thesis
    by (cases "retryAfter ip' t l") (simp add: reset_login_def)
qed

text \<open>
  From a state right after a failure counted \<open>f\<close> at \<open>t\<close>: the guesses of the rest of the history
  must fit, with the lockouts they arm, between \<open>t\<close> and the deadline.
\<close>

lemma guesses_cost:
  assumes "ll_attempts l ip = Some a" and "after_fail t f a" and "1 \<le> f"
    and "in_order t0 es" and "t \<le> t0" and "t \<le> D" and "D - t \<le> loginWindow"
    and "\<forall>e \<in> set es. ends e \<le> D" and "\<forall>e \<in> set es. \<forall>s. e \<noteq> GoodPassword ip s"
  shows "t + (\<Sum>i < guesses ip es l. cost (f + int i)) \<le> D"
  using assms
proof (induction es arbitrary: l a t f t0)
  case Nil
  then show ?case by simp
next
  case (Cons e es)
  have o: "t0 \<le> starts e" "starts e \<le> ends e" "in_order (ends e) es" "ends e \<le> D" using Cons.prems(4,8) by simp_all
  have last: "la_last a = t" using Cons.prems(2) by (simp add: after_fail_def)
  have w: "starts e - la_last a \<le> loginWindow" "ends e - la_last a \<le> loginWindow"
    using o Cons.prems(5,7) last by linarith+
  show ?case
  proof (cases "bad_for ip e")
    case False
    have k: "ll_attempts (fst (attempt_step e l)) ip = Some a"
      by (rule attempt_other [OF Cons.prems(1) w False]) (use Cons.prems(9) in auto)
    have "t + (\<Sum>i < guesses ip es (fst (attempt_step e l)). cost (f + int i)) \<le> D"
      by (rule Cons.IH [OF k Cons.prems(2,3) o(3)]) (use o Cons.prems in auto)
    with False show ?thesis by simp
  next
    case True
    then obtain s s' where e: "e = BadPassword ip s s'" by (cases e) auto
    let ?l1 = "fst (retryAfter ip s l)"
    have k: "ll_attempts ?l1 ip = Some a" using retryAfter_kept(1) [OF Cons.prems(1)] w e by simp
    have wait: "snd (retryAfter ip s l) = (if s < la_until a then time_Sub (la_until a) s else 0)"
      using retryAfter_kept(2) [OF Cons.prems(1)] w e by simp
    show ?thesis
    proof (cases "s < la_until a")
      case True
      then have "0 < snd (retryAfter ip s l)" using wait by (simp add: time_Sub_def)
      then have st: "attempt_step e l = (?l1, False)" by (simp add: e case_prod_beta Let_def)
      have "t + (\<Sum>i < guesses ip es ?l1. cost (f + int i)) \<le> D"
        by (rule Cons.IH [OF k Cons.prems(2,3) o(3)]) (use o Cons.prems in auto)
      with st show ?thesis by simp
    next
      case False
      let ?l2 = "fail_login ip s' ?l1"
      have st: "attempt_step e l = (?l2, True)" using wait False by (simp add: e case_prod_beta Let_def)
      have f: "la_fails a = f" using Cons.prems(2) by (simp add: after_fail_def)
      obtain a' where a': "ll_attempts ?l2 ip = Some a'" "after_fail s' (f + 1) a'"
        using fail_login_entry [OF k, of s'] w e f by auto
      have c: "t + cost f \<le> s'"
        using False Cons.prems(2,5) o(1,2) e by (auto simp: after_fail_def cost_def)
      have "s' + (\<Sum>i < guesses ip es ?l2. cost (f + 1 + int i)) \<le> D"
        by (rule Cons.IH [OF a' _ o(3)]) (use o e c cost_nonneg [of f] Cons.prems in auto)
      moreover have "(\<Sum>i < Suc n. cost (f + int i)) = cost f + (\<Sum>i < n. cost (f + 1 + int i))" for n
        by (subst sum.lessThan_Suc_shift) (simp add: algebra_simps)
      ultimately show ?thesis using st c True by simp
    qed
  qed
qed

definition counts_ok :: "login_limiter \<Rightarrow> bool" where
  "counts_ok l \<longleftrightarrow> (\<forall>ip a. ll_attempts l ip = Some a \<longrightarrow> 0 \<le> la_fails a)"

lemma counts_ok_prune: "counts_ok l \<Longrightarrow> counts_ok (prune now l)"
  unfolding counts_ok_def prune_def by (auto split: option.splits if_splits)

lemma counts_ok_retry: "counts_ok l \<Longrightarrow> counts_ok (fst (retryAfter ip now l))"
  using counts_ok_prune [of l now] by (simp add: retryAfter_def Let_def split: option.split)

lemma counts_ok_fail: "counts_ok l \<Longrightarrow> counts_ok (fail_login ip now l)"
  using counts_ok_prune [of l now]
  by (auto simp: fail_login_def Let_def counts_ok_def split: option.splits if_splits)

lemma counts_ok_step: "counts_ok l \<Longrightarrow> counts_ok (fst (attempt_step e l))"
proof (cases e)
  case (BadPassword ip t t')
  assume "counts_ok l"
  then show ?thesis using counts_ok_retry [of l ip t] BadPassword
    by (cases "retryAfter ip t l") (simp add: counts_ok_fail)
next
  case (GoodPassword ip t)
  assume "counts_ok l"
  then show ?thesis using counts_ok_retry [of l ip t] GoodPassword
    by (cases "retryAfter ip t l") (simp add: reset_login_def counts_ok_def)
qed

fun limiter_run :: "attempt list \<Rightarrow> login_limiter \<Rightarrow> login_limiter" where
  "limiter_run [] l = l"
| "limiter_run (e # es) l = limiter_run es (fst (attempt_step e l))"

lemma counts_ok_run: "counts_ok l \<Longrightarrow> counts_ok (limiter_run es l)"
  by (induction es l rule: limiter_run.induct) (simp_all add: counts_ok_step)

lemma nine_guesses_cost:
  assumes "1 \<le> f" and "9 \<le> c"
  shows "930 * Second \<le> (\<Sum>i < c. cost (f + int i))"
proof -
  have "930 * Second = (\<Sum>i < 9. cost (1 + int i))"
    by (simp add: cost_def lockout_values numeral_eq_Suc)
  also have "\<dots> \<le> (\<Sum>i < 9. cost (f + int i))"
    using assms(1) by (intro sum_mono cost_mono) simp
  also have "\<dots> \<le> (\<Sum>i < c. cost (f + int i))"
    using assms(2) by (intro sum_mono2) (auto simp: cost_nonneg)
  finally show ?thesis .
qed

lemma guesses_le_nine:
  assumes "counts_ok l" and "in_order t0 es" and "D - loginWindow \<le> t0"
    and "\<forall>e \<in> set es. ends e \<le> D" and "\<forall>e \<in> set es. \<forall>s. e \<noteq> GoodPassword ip s"
  shows "guesses ip es l \<le> 9"
  using assms
proof (induction es arbitrary: l t0)
  case Nil
  then show ?case by simp
next
  case (Cons e es)
  have o: "t0 \<le> starts e" "starts e \<le> ends e" "in_order (ends e) es" "ends e \<le> D" using Cons.prems(2,4) by simp_all
  let ?l = "fst (attempt_step e l)"
  show ?case
  proof (cases "bad_for ip e \<and> snd (attempt_step e l)")
    case False
    have "guesses ip es ?l \<le> 9"
      by (rule Cons.IH [OF counts_ok_step [OF Cons.prems(1)] o(3)]) (use o Cons.prems in auto)
    with False show ?thesis by auto
  next
    case True
    then obtain s s' where e: "e = BadPassword ip s s'" by (cases e) auto
    let ?l1 = "fst (retryAfter ip s l)"
    have l: "?l = fail_login ip s' ?l1"
      using True by (cases "retryAfter ip s l") (simp add: e split: if_splits)
    have "counts_ok ?l1" by (rule counts_ok_retry [OF Cons.prems(1)])
    then obtain a f where a: "ll_attempts ?l ip = Some a" "1 \<le> f" "after_fail s' f a"
      using fail_login_any [of ?l1 ip s'] unfolding l counts_ok_def by blast
    have "s' + (\<Sum>i < guesses ip es ?l. cost (f + int i)) \<le> D"
      by (rule guesses_cost [OF a(1,3,2) o(3)]) (use o e Cons.prems in auto)
    moreover have "D - s' \<le> 900 * Second" using o e Cons.prems(3) by (simp add: loginWindow_def)
    ultimately have "\<not> 930 * Second \<le> (\<Sum>i < guesses ip es ?l. cost (f + int i))" by simp
    with nine_guesses_cost [OF a(2), of "guesses ip es ?l"] have "guesses ip es ?l \<le> 8" by linarith
    with True show ?thesis by simp
  qed
qed

section \<open>Properties\<close>



fun checks :: "string \<Rightarrow> go_time list \<Rightarrow> login_limiter \<Rightarrow> duration list" where
  "checks ip [] l = []"
| "checks ip (t # ts) l = (case retryAfter ip t l of (l', wait) \<Rightarrow> wait # checks ip ts l')"

lemma checks_zero: "ll_attempts l ip = None \<Longrightarrow> set (checks ip ts l) \<subseteq> {0}"
proof (induction ts arbitrary: l)
  case (Cons t ts)
  have "ll_attempts (prune t l) ip = None" using Cons.prems by (simp add: prune_def)
  with Cons.IH [of "prune t l"] show ?case by (simp add: retryAfter_def Let_def)
qed simp

text \<open>
  The bound is on attempts made one after the other. The check and the count are two calls
  with the password comparison between them, so any number of attempts that pass the check
  before one of them has failed are all let through: for an address without failures every
  check answers zero, however many are made.
\<close>

theorem parallel_checks_pass:
  "checks ip ts newLoginLimiter = replicate (length ts) 0"
proof -
  have "set (checks ip ts newLoginLimiter) \<subseteq> {0}"
    by (rule checks_zero) (simp add: newLoginLimiter_def)
  moreover have "length (checks ip ts l) = length ts" for l
    by (induction ts arbitrary: l) (simp_all split: prod.split)
  ultimately show ?thesis by (metis replicate_eqI singletonD subsetD)
qed

end
