(* ===== verification/AuthApi.thy ===== *)
theory AuthApi
  imports AuthPolicy LoginLimiter
begin

text \<open>
  The account handlers of \<open>internal/api/auth.go\<close>: login and logout, MFA enrolment, the password
  change, user management and sensor tokens.

  A handler is a function of the API's state (the store and the login limiter) that returns
  the new state and its reply. \<open>auth_env\<close> holds what is not this program's code: bcrypt, the
  token digest, base32 and HMAC, and the key pair that seals secrets. \<open>call\<close> holds what one
  request brings: the client's address, the instant it arrives and the instant after the
  password comparison, the random values drawn, and the order the user table is met in. A
  body that does not decode carries the reply \<open>decode\<close> has already written. \<open>u\<close> is the user
  the middleware put into the request's context: a copy of the row as it was then. The text
  of a 500 is the library's own and is written \<open>internal error\<close>.
\<close>

section \<open>Environment, state, replies\<close>

record crypto =
  canOpen :: bool
  openSecret :: "bytes \<Rightarrow> string option"
  sealSecret :: "string \<Rightarrow> bytes option"

record auth_env =
  checkPassword :: "string \<Rightarrow> string \<Rightarrow> bool"
  hashPassword :: "string \<Rightarrow> string option"
  tokenDigest :: "string \<Rightarrow> string"
  base32Decode :: "string \<Rightarrow> 8 word list option"
  hmacSha1 :: "8 word list \<Rightarrow> int \<Rightarrow> 8 word list"
  newTOTPSecret :: "string option"
  apiCrypto :: "crypto option"

record call =
  c_ip :: string
  c_start :: go_time
  c_now :: go_time
  c_audit_id :: string
  c_token :: string
  c_uuid :: string
  c_users :: "string list"

record api_state =
  api_store :: memory
  api_limiter :: "login_limiter option"

type_synonym 'b body = "(int \<times> string) + 'b"

datatype reply =
    Err int string
  | Throttled int
  | MfaRequired
  | Granted string string string
  | NoContent
  | UserReply int user
  | UserList "user list"
  | MfaSecret string
  | TokenList "sensor_token list"
  | TokenReply string string string go_time

text \<open>Seconds since 1970 of an instant counted in nanoseconds from Go's zero time.\<close>

definition unix_seconds :: "go_time \<Rightarrow> int" where
  "unix_seconds t = (t - 62135596800 * Second) div Second"

definition verifyCode :: "auth_env \<Rightarrow> string \<Rightarrow> string \<Rightarrow> go_time \<Rightarrow> bool" where
  "verifyCode env secret code now = VerifyTOTP (base32Decode env) (hmacSha1 env) secret code (unix_seconds now)"

definition audited ::
  "call \<Rightarrow> string \<Rightarrow> string \<Rightarrow> string \<Rightarrow> string \<Rightarrow> string \<Rightarrow> api_state \<Rightarrow> api_state" where
  "audited c actor action target result detail a =
     a\<lparr>api_store := auditAs (c_audit_id c) (c_now c) (c_ip c) actor action target result detail (api_store a)\<rparr>"

definition writeErr :: "store_error \<Rightarrow> reply" where
  "writeErr e = (case e of
       ErrNotFound kind i \<Rightarrow> Err 404 (store_error_text e)
     | ErrSelfApproval i actor \<Rightarrow> Err 409 (store_error_text e)
     | _ \<Rightarrow> Err 500 (store_error_text e))"

section \<open>Login and logout\<close>

record login_body =
  lb_username :: string
  lb_password :: string
  lb_otp :: string

definition sessionTTL :: duration where "sessionTTL = 12 * Hour"

definition limiter_fail :: "call \<Rightarrow> api_state \<Rightarrow> api_state" where
  "limiter_fail c a = a\<lparr>api_limiter := map_option (fail_login (c_ip c) (c_now c)) (api_limiter a)\<rparr>"

definition login_denied :: "call \<Rightarrow> string \<Rightarrow> string \<Rightarrow> api_state \<Rightarrow> api_state" where
  "login_denied c username detail a =
     audited c username ''login'' [] ''denied'' detail (limiter_fail c a)"

definition login_throttle :: "call \<Rightarrow> api_state \<Rightarrow> api_state \<times> duration" where
  "login_throttle c a =
     (case api_limiter a of
        None \<Rightarrow> (a, 0)
      | Some l \<Rightarrow> (case retryAfter (c_ip c) (c_start c) l of (l', wait) \<Rightarrow> (a\<lparr>api_limiter := Some l'\<rparr>, wait)))"

text \<open>The second factor: \<open>Some\<close> reply refuses, with a flag when the limiter counts it.\<close>

definition second_factor :: "auth_env \<Rightarrow> call \<Rightarrow> user \<Rightarrow> string \<Rightarrow> (reply \<times> bool) option" where
  "second_factor env c u otp =
     (if \<not> u_mfa_enabled u then None
      else case apiCrypto env of
        None \<Rightarrow> Some (Err 503 ''MFA key unavailable'', False)
      | Some k \<Rightarrow>
          if \<not> canOpen k then Some (Err 503 ''MFA key unavailable'', False)
          else (case openSecret k (u_mfa_secret_enc u) of
                  None \<Rightarrow> Some (MfaRequired, True)
                | Some secret \<Rightarrow>
                    if verifyCode env secret otp (c_now c) then None else Some (MfaRequired, True)))"

definition login :: "auth_env \<Rightarrow> call \<Rightarrow> login_body body \<Rightarrow> api_state \<Rightarrow> api_state \<times> reply" where
  "login env c body a =
     (let (a, wait) = login_throttle c a in
      if wait > 0
      then (audited c [] ''login'' [] ''throttled'' (''too many failed attempts from '' @ c_ip c) a,
            Throttled (wait div Second + 1))
      else case body of
        Inl (code, msg) \<Rightarrow> (a, Err code msg)
      | Inr b \<Rightarrow>
          (case GetUserByName (c_users c) (lb_username b) (api_store a) of
             Inl e \<Rightarrow> (login_denied c (lb_username b) ''invalid credentials'' a, Err 401 ''invalid credentials'')
           | Inr u \<Rightarrow>
               if u_disabled u \<or> \<not> checkPassword env (u_password_hash u) (lb_password b)
               then (login_denied c (lb_username b) ''invalid credentials'' a, Err 401 ''invalid credentials'')
               else
                 (case second_factor env c u (lb_otp b) of
                    Some (r, counted) \<Rightarrow>
                      ((if counted then login_denied c (lb_username b) ''invalid MFA code'' a else a), r)
                  | None \<Rightarrow>
                      let a = a\<lparr>api_limiter := map_option (reset_login (c_ip c)) (api_limiter a)\<rparr>;
                          s = \<lparr>ss_token_hash = tokenDigest env (c_token c), ss_user_id = u_id u,
                               ss_expires_at = c_now c + sessionTTL\<rparr>;
                          a = a\<lparr>api_store := fst (CreateSession s (api_store a))\<rparr>
                      in (audited c (u_username u) ''login'' [] ''ok'' [] a,
                          Granted (c_token c) (u_username u) (u_role u)))))"

text \<open>Both credentials a request carries are dropped; the audit names the context's user.\<close>

definition logout :: "auth_env \<Rightarrow> call \<Rightarrow> request \<Rightarrow> user option \<Rightarrow> api_state \<Rightarrow> api_state \<times> reply" where
  "logout env c r u a =
     (let m = api_store a;
          m = (case rq_cookie r of None \<Rightarrow> m | Some v \<Rightarrow> fst (DeleteSession (tokenDigest env v) m));
          m = (if bearerToken r \<noteq> [] then fst (DeleteSession (tokenDigest env (bearerToken r)) m) else m);
          a = a\<lparr>api_store := m\<rparr>
      in (audited c (case u of None \<Rightarrow> [] | Some v \<Rightarrow> u_username v) ''logout'' [] ''ok'' [] a, NoContent))"

section \<open>MFA\<close>

record mfa_body =
  mb_password :: string
  mb_code :: string

text \<open>\<open>Store.UpdateUser\<close> and the reply when it fails.\<close>

definition store_user :: "user \<Rightarrow> api_state \<Rightarrow> (api_state + reply)" where
  "store_user u a =
     (case UpdateUser u (api_store a) of
        (m, Inl e) \<Rightarrow> Inr (writeErr e)
      | (m, Inr _) \<Rightarrow> Inl (a\<lparr>api_store := m\<rparr>))"

text \<open>The end of the handlers that write a user back: store the row, then audit and answer.\<close>

definition save_user ::
  "call \<Rightarrow> string \<Rightarrow> string \<Rightarrow> string \<Rightarrow> user \<Rightarrow> reply \<Rightarrow> api_state \<Rightarrow> api_state \<times> reply" where
  "save_user c actor action detail w rep a =
     (case store_user w a of
        Inr r \<Rightarrow> (a, r)
      | Inl a' \<Rightarrow> (audited c actor action (u_username w) ''ok'' detail a', rep))"

definition code_ok :: "auth_env \<Rightarrow> call \<Rightarrow> crypto \<Rightarrow> user \<Rightarrow> string \<Rightarrow> bool" where
  "code_ok env c k u code =
     (case openSecret k (u_mfa_secret_enc u) of
        None \<Rightarrow> False | Some secret \<Rightarrow> verifyCode env secret code (c_now c))"

definition setupMFA :: "auth_env \<Rightarrow> call \<Rightarrow> mfa_body body \<Rightarrow> user option \<Rightarrow> api_state \<Rightarrow> api_state \<times> reply" where
  "setupMFA env c body cu a =
     (case cu of None \<Rightarrow> (a, Err 401 ''not authenticated'') | Some u \<Rightarrow>
      (case apiCrypto env of None \<Rightarrow> (a, Err 503 ''secret encryption unavailable'') | Some k \<Rightarrow>
       (case body of Inl (code, msg) \<Rightarrow> (a, Err code msg) | Inr b \<Rightarrow>
        if \<not> checkPassword env (u_password_hash u) (mb_password b)
        then (a, Err 401 ''password confirmation failed'')
        else if u_mfa_enabled u \<and> \<not> code_ok env c k u (mb_code b)
        then (a, Err 401 ''valid current MFA code required to re-enroll'')
        else (case newTOTPSecret env of None \<Rightarrow> (a, Err 500 ''internal error'') | Some secret \<Rightarrow>
          (case sealSecret k secret of None \<Rightarrow> (a, Err 500 ''internal error'') | Some sealed \<Rightarrow>
            save_user c (u_username u) ''mfa.setup'' ''pending confirmation''
              (u\<lparr>u_mfa_secret_enc := sealed, u_mfa_enabled := False\<rparr>) (MfaSecret secret) a)))))"

definition confirmMFA :: "auth_env \<Rightarrow> call \<Rightarrow> string body \<Rightarrow> user option \<Rightarrow> api_state \<Rightarrow> api_state \<times> reply" where
  "confirmMFA env c body cu a =
     (case cu of None \<Rightarrow> (a, Err 400 ''MFA setup has not been started'') | Some u \<Rightarrow>
      if u_mfa_secret_enc u = [] then (a, Err 400 ''MFA setup has not been started'')
      else (case apiCrypto env of None \<Rightarrow> (a, Err 503 ''MFA key unavailable'') | Some k \<Rightarrow>
        if \<not> canOpen k then (a, Err 503 ''MFA key unavailable'')
        else (case body of Inl (code, msg) \<Rightarrow> (a, Err code msg) | Inr code \<Rightarrow>
          if \<not> code_ok env c k u code then (a, Err 400 ''invalid MFA code'')
          else save_user c (u_username u) ''mfa.enable'' [] (u\<lparr>u_mfa_enabled := True\<rparr>) NoContent a)))"

definition disableMFA :: "auth_env \<Rightarrow> call \<Rightarrow> mfa_body body \<Rightarrow> user option \<Rightarrow> api_state \<Rightarrow> api_state \<times> reply" where
  "disableMFA env c body cu a =
     (case cu of None \<Rightarrow> (a, Err 400 ''MFA is not enabled'') | Some u \<Rightarrow>
      if \<not> u_mfa_enabled u then (a, Err 400 ''MFA is not enabled'')
      else (case apiCrypto env of None \<Rightarrow> (a, Err 503 ''MFA key unavailable'') | Some k \<Rightarrow>
        if \<not> canOpen k then (a, Err 503 ''MFA key unavailable'')
        else (case body of Inl (code, msg) \<Rightarrow> (a, Err code msg) | Inr b \<Rightarrow>
          if \<not> checkPassword env (u_password_hash u) (mb_password b) \<or> \<not> code_ok env c k u (mb_code b)
          then (a, Err 401 ''password and valid MFA code required'')
          else save_user c (u_username u) ''mfa.disable'' []
            (u\<lparr>u_mfa_secret_enc := [], u_mfa_enabled := False\<rparr>) NoContent a)))"

section \<open>Passwords and users\<close>

definition minPasswordLen :: nat where "minPasswordLen = 8"

record password_body =
  pb_current :: string
  pb_new :: string

definition changeOwnPassword ::
  "auth_env \<Rightarrow> call \<Rightarrow> password_body body \<Rightarrow> user option \<Rightarrow> api_state \<Rightarrow> api_state \<times> reply" where
  "changeOwnPassword env c body cu a =
     (case cu of None \<Rightarrow> (a, Err 401 ''authentication required'') | Some u \<Rightarrow>
      (case body of Inl (code, msg) \<Rightarrow> (a, Err code msg) | Inr b \<Rightarrow>
       if \<not> checkPassword env (u_password_hash u) (pb_current b)
       then (audited c (u_username u) ''password.change'' (u_username u) ''denied'' ''current password incorrect'' a,
             Err 401 ''current password incorrect'')
       else if length (pb_new b) < minPasswordLen
       then (a, Err 400 (''new password must be at least '' @ Itoa (int minPasswordLen) @ '' chars''))
       else if pb_new b = pb_current b
       then (a, Err 400 ''new password must differ from the current one'')
       else (case hashPassword env (pb_new b) of None \<Rightarrow> (a, Err 500 ''internal error'') | Some h \<Rightarrow>
         save_user c (u_username u) ''password.change'' []
           (u\<lparr>u_password_hash := h, u_must_change_password := False\<rparr>) NoContent a)))"

definition listUsers :: "call \<Rightarrow> api_state \<Rightarrow> reply" where
  "listUsers c a = UserList (ListUsers (c_users c) (api_store a))"

record user_body =
  ub_username :: string
  ub_password :: string
  ub_role :: string

definition actor_name :: "user option \<Rightarrow> string" where
  "actor_name cu = (case cu of None \<Rightarrow> [] | Some u \<Rightarrow> u_username u)"

definition createUser ::
  "auth_env \<Rightarrow> call \<Rightarrow> user_body body \<Rightarrow> user option \<Rightarrow> api_state \<Rightarrow> api_state \<times> reply" where
  "createUser env c body cu a =
     (case body of Inl (code, msg) \<Rightarrow> (a, Err code msg) | Inr b \<Rightarrow>
      if ub_username b = [] \<or> length (ub_password b) < 8
      then (a, Err 400 ''username required and password must be at least 8 chars'')
      else if \<not> validRole (ub_role b) then (a, Err 400 ''role must be admin, operator or viewer'')
      else (case hashPassword env (ub_password b) of None \<Rightarrow> (a, Err 500 ''internal error'') | Some h \<Rightarrow>
        let u = \<lparr>u_id = [], u_username = ub_username b, u_password_hash = h, u_role = ub_role b,
                 u_disabled = False, u_mfa_secret_enc = [], u_mfa_enabled = False,
                 u_must_change_password = True, u_created_at = 0\<rparr>
        in (case CreateUser (c_users c) (c_uuid c) (c_now c) u (api_store a) of
              (m, Inl e) \<Rightarrow> (a, Err 409 (store_error_text e))
            | (m, Inr u) \<Rightarrow>
                (audited c (actor_name cu) ''user.create'' (u_username u) ''ok'' (''role='' @ u_role u)
                   (a\<lparr>api_store := m\<rparr>), UserReply 201 u))))"

record patch_body =
  xb_role :: "string option"
  xb_disabled :: "bool option"
  xb_password :: "string option"

text \<open>The fields a patch sets, each absent one left alone; a missing value is an error's reply.\<close>

definition patched_role :: "patch_body \<Rightarrow> user \<Rightarrow> user option" where
  "patched_role b u =
     (case xb_role b of
        Some role \<Rightarrow> if \<not> validRole role then None else Some (u\<lparr>u_role := role\<rparr>)
      | None \<Rightarrow> Some u)"

definition patched :: "auth_env \<Rightarrow> patch_body \<Rightarrow> user \<Rightarrow> reply + user" where
  "patched env b u =
     (case patched_role b u of None \<Rightarrow> Inl (Err 400 ''invalid role'') | Some u \<Rightarrow>
      let u = (case xb_disabled b of None \<Rightarrow> u | Some d \<Rightarrow> u\<lparr>u_disabled := d\<rparr>) in
      (case xb_password b of
         None \<Rightarrow> Inr u
       | Some pw \<Rightarrow>
           if length pw < 8 then Inl (Err 400 ''password must be at least 8 chars'')
           else (case hashPassword env pw of
                   None \<Rightarrow> Inl (Err 500 ''internal error'')
                 | Some h \<Rightarrow> Inr (u\<lparr>u_password_hash := h, u_must_change_password := True\<rparr>))))"

definition patch_detail :: "patch_body \<Rightarrow> string" where
  "patch_detail b =
     (let d = (case xb_role b of None \<Rightarrow> [] | Some role \<Rightarrow> ''role='' @ role);
          d = (case xb_disabled b of None \<Rightarrow> d
               | Some x \<Rightarrow> TrimSpace (d @ '' disabled='' @ (if x then ''true'' else ''false'')))
      in (case xb_password b of None \<Rightarrow> d | Some _ \<Rightarrow> TrimSpace (d @ '' password-reset'')))"

definition patchUser ::
  "auth_env \<Rightarrow> call \<Rightarrow> string \<Rightarrow> patch_body body \<Rightarrow> user option \<Rightarrow> api_state \<Rightarrow> api_state \<times> reply" where
  "patchUser env c i body cu a =
     (case GetUser i (api_store a) of Inl e \<Rightarrow> (a, writeErr e) | Inr u \<Rightarrow>
      (case body of Inl (code, msg) \<Rightarrow> (a, Err code msg) | Inr b \<Rightarrow>
       (case patched env b u of Inl r \<Rightarrow> (a, r) | Inr u \<Rightarrow>
        save_user c (actor_name cu) ''user.update'' (patch_detail b) u (UserReply 200 u) a)))"

definition deleteUser :: "call \<Rightarrow> string \<Rightarrow> user option \<Rightarrow> api_state \<Rightarrow> api_state \<times> reply" where
  "deleteUser c i cu a =
     (if (case cu of None \<Rightarrow> False | Some u \<Rightarrow> u_id u = i)
      then (a, Err 400 ''cannot delete your own account'')
      else
        let target = (case GetUser i (api_store a) of Inl e \<Rightarrow> i | Inr u \<Rightarrow> u_username u)
        in (audited c (actor_name cu) ''user.delete'' target ''ok'' []
              (a\<lparr>api_store := fst (DeleteUser i (api_store a))\<rparr>), NoContent))"

section \<open>Sensor tokens\<close>

definition listSensorTokens :: "string list \<Rightarrow> string \<Rightarrow> api_state \<Rightarrow> reply" where
  "listSensorTokens ks hostID a =
     (case GetHost hostID (api_store a) of Inl e \<Rightarrow> writeErr e
      | Inr _ \<Rightarrow> TokenList (ListSensorTokens ks hostID (api_store a)))"

text \<open>
  The body's \<open>ttl\<close>: absent, or what \<open>time.ParseDuration\<close> makes of it (\<open>None\<close> for no duration).
\<close>

definition ttl_accepted :: "duration option \<Rightarrow> bool" where
  "ttl_accepted d = (case d of None \<Rightarrow> False | Some d \<Rightarrow> \<not> (d < Hour \<or> d > 366 * 24 * Hour))"

definition createSensorToken ::
  "auth_env \<Rightarrow> call \<Rightarrow> string \<Rightarrow> (duration option) option body \<Rightarrow> user option \<Rightarrow> api_state \<Rightarrow> api_state \<times> reply" where
  "createSensorToken env c hostID body cu a =
     (case GetHost hostID (api_store a) of Inl e \<Rightarrow> (a, writeErr e) | Inr _ \<Rightarrow>
      (case body of Inl (code, msg) \<Rightarrow> (a, Err code msg) | Inr ttl \<Rightarrow>
       if (case ttl of None \<Rightarrow> False | Some d \<Rightarrow> \<not> ttl_accepted d)
       then (a, Err 400 ''ttl must be between 1h and 8760h'')
       else
         let expires = (case ttl of Some (Some d) \<Rightarrow> c_now c + d | _ \<Rightarrow> c_now c + 90 * 24 * Hour);
             t = \<lparr>t_id = [], t_host_id = hostID, t_token_hash = tokenDigest env (c_token c),
                  t_created_at = 0, t_expires_at = Some expires, t_revoked_at = None\<rparr>
         in (case CreateSensorToken (c_uuid c) (c_now c) t (api_store a) of
               (m, Inl e) \<Rightarrow> (a, writeErr e)
             | (m, Inr t) \<Rightarrow>
                 (audited c (actor_name cu) ''sensor.token.create'' hostID ''ok'' (''token_id='' @ t_id t)
                    (a\<lparr>api_store := m\<rparr>),
                  TokenReply (t_id t) hostID (c_token c) expires))))"

definition revokeSensorToken ::
  "call \<Rightarrow> string list \<Rightarrow> string \<Rightarrow> string \<Rightarrow> user option \<Rightarrow> api_state \<Rightarrow> api_state \<times> reply" where
  "revokeSensorToken c ks hostID tokenID cu a =
     (case RevokeSensorToken ks (c_now c) hostID tokenID (api_store a) of
        (m, Inl e) \<Rightarrow> (a, writeErr e)
      | (m, Inr _) \<Rightarrow>
          (audited c (actor_name cu) ''sensor.token.revoke'' hostID ''ok'' (''token_id='' @ tokenID)
             (a\<lparr>api_store := m\<rparr>), NoContent))"

section \<open>Facts of the handlers\<close>

lemma AppendAudit_frame:
  "users (fst (AppendAudit uuid now e m)) = users m" "sessions (fst (AppendAudit uuid now e m)) = sessions m"
  "sensorTok (fst (AppendAudit uuid now e m)) = sensorTok m" "hosts (fst (AppendAudit uuid now e m)) = hosts m"
  by (simp_all add: AppendAudit_def Let_def)

lemma audited_simps [simp]:
  "users (api_store (audited c actor act tgt res det a)) = users (api_store a)"
  "sessions (api_store (audited c actor act tgt res det a)) = sessions (api_store a)"
  "sensorTok (api_store (audited c actor act tgt res det a)) = sensorTok (api_store a)"
  "hosts (api_store (audited c actor act tgt res det a)) = hosts (api_store a)"
  "api_limiter (audited c actor act tgt res det a) = api_limiter a"
  by (simp_all add: audited_def auditAs_def AppendAudit_frame)

lemma login_denied_simps [simp]:
  "users (api_store (login_denied c n d a)) = users (api_store a)"
  "sessions (api_store (login_denied c n d a)) = sessions (api_store a)"
  by (simp_all add: login_denied_def limiter_fail_def)

lemma login_throttle_store:
  "login_throttle c a = (a', wait) \<Longrightarrow> api_store a' = api_store a"
  by (auto simp: login_throttle_def split: option.splits prod.splits)

lemma second_factor_None:
  "second_factor env c u otp = None \<longleftrightarrow> \<not> u_mfa_enabled u \<or>
     (\<exists>k secret. apiCrypto env = Some k \<and> canOpen k \<and> openSecret k (u_mfa_secret_enc u) = Some secret \<and>
        verifyCode env secret otp (c_now c))"
  by (auto simp: second_factor_def split: option.splits)

lemma second_factor_reply: "second_factor env c u otp = Some (r, b) \<Longrightarrow> (\<exists>msg. r = Err 503 msg) \<or> r = MfaRequired"
  by (auto simp: second_factor_def split: option.splits if_splits)

lemma store_user_ok:
  "store_user u a = Inl a' \<longleftrightarrow> users (api_store a) (u_id u) \<noteq> None \<and>
     a' = a\<lparr>api_store := (api_store a)\<lparr>users := (users (api_store a))(u_id u \<mapsto> u)\<rparr>\<rparr>"
  by (auto simp: store_user_def UpdateUser_def split: option.split)

section \<open>Calls\<close>

datatype account_call =
    DoLogin "login_body body"
  | DoLogout request
  | DoSetupMFA "mfa_body body"
  | DoConfirmMFA "string body"
  | DoDisableMFA "mfa_body body"
  | DoPassword "password_body body"
  | DoCreateUser "user_body body"
  | DoPatchUser string "patch_body body"
  | DoDeleteUser string

fun account_run ::
  "auth_env \<Rightarrow> call \<Rightarrow> account_call \<Rightarrow> user option \<Rightarrow> api_state \<Rightarrow> api_state \<times> reply" where
  "account_run env c (DoLogin b) cu a = login env c b a"
| "account_run env c (DoLogout r) cu a = logout env c r cu a"
| "account_run env c (DoSetupMFA b) cu a = setupMFA env c b cu a"
| "account_run env c (DoConfirmMFA b) cu a = confirmMFA env c b cu a"
| "account_run env c (DoDisableMFA b) cu a = disableMFA env c b cu a"
| "account_run env c (DoPassword b) cu a = changeOwnPassword env c b cu a"
| "account_run env c (DoCreateUser b) cu a = createUser env c b cu a"
| "account_run env c (DoPatchUser i b) cu a = patchUser env c i b cu a"
| "account_run env c (DoDeleteUser i) cu a = deleteUser c i cu a"

lemma login_users: "users (api_store (fst (login env c body a))) = users (api_store a)"
proof -
  obtain a1 wait where t: "login_throttle c a = (a1, wait)" by (metis surj_pair)
  note s = login_throttle_store [OF t]
  show ?thesis
    unfolding login_def t Let_def prod.case
    by (simp add: s CreateSession_def split: sum.split prod.split option.split)
qed

lemma logout_users: "users (api_store (fst (logout env c r cu a))) = users (api_store a)"
  by (simp add: logout_def Let_def DeleteSession_def split: option.split)

definition same_mfa :: "user \<Rightarrow> user \<Rightarrow> bool" where
  "same_mfa u v \<longleftrightarrow> u_mfa_enabled v = u_mfa_enabled u \<and> u_mfa_secret_enc v = u_mfa_secret_enc u"

lemma same_mfa_refl [simp]: "same_mfa u u"
  by (simp add: same_mfa_def)

text \<open>What a handler may do to the row of a user that has MFA on.\<close>

definition mfa_kept :: "user \<Rightarrow> string \<Rightarrow> api_state \<Rightarrow> api_state \<Rightarrow> bool" where
  "mfa_kept v k a a' \<longleftrightarrow> (\<exists>v'. users (api_store a') k = Some v' \<and> same_mfa v v')"

lemma mfa_kept_same: "users (api_store a') = users (api_store a) \<Longrightarrow> users (api_store a) k = Some v \<Longrightarrow> mfa_kept v k a a'"
  by (simp add: mfa_kept_def)

lemma mfa_kept_save:
  assumes "users (api_store a) k = Some v" and "u_id w = k \<Longrightarrow> same_mfa v w"
  shows "mfa_kept v k a (fst (save_user c actor act det w rep a))"
proof (cases "store_user w a")
  case (Inl a')
  then have "users (api_store a') = (users (api_store a))(u_id w \<mapsto> w)" by (auto simp: store_user_ok)
  with assms Inl show ?thesis by (cases "u_id w = k") (simp_all add: mfa_kept_def save_user_def)
next
  case (Inr r)
  with assms(1) show ?thesis by (simp add: mfa_kept_same save_user_def)
qed

lemma mfa_not_kept:
  "\<not> mfa_kept v k a (fst (save_user c actor act det w rep a)) \<Longrightarrow> users (api_store a) k = Some v \<Longrightarrow> u_id w = k"
  using mfa_kept_save by blast

lemma mfa_password:
  assumes "users (api_store a) k = Some v" and "\<And>u. cu = Some u \<Longrightarrow> users (api_store a) (u_id u) = Some u"
  shows "mfa_kept v k a (fst (changeOwnPassword env c body cu a))"
proof -
  have st: "mfa_kept v k a (fst (save_user c x1 x2 x3 (u\<lparr>u_password_hash := h, u_must_change_password := False\<rparr>) rep a))"
    if "cu = Some u" for u h x1 x2 x3 rep
    by (rule mfa_kept_save) (use assms(1) assms(2) [OF that] in \<open>auto simp: same_mfa_def\<close>)
  show ?thesis
    using st assms(1) by (auto simp: changeOwnPassword_def intro: mfa_kept_same
        split: option.split sum.split)
qed

lemma patched_row:
  "patched env b w = Inr w' \<Longrightarrow> u_id w' = u_id w \<and> u_username w' = u_username w \<and> same_mfa w w'"
  by (auto simp: patched_def patched_role_def Let_def same_mfa_def split: option.splits if_splits)

lemma mfa_patch:
  assumes "users (api_store a) k = Some v" and "\<And>i w. users (api_store a) i = Some w \<Longrightarrow> u_id w = i"
  shows "mfa_kept v k a (fst (patchUser env c i body cu a))"
proof -
  have st: "mfa_kept v k a (fst (save_user c x1 x2 x3 w' rep a))"
    if "users (api_store a) i = Some w" "patched env b w = Inr w'" for b w w' x1 x2 x3 rep
    by (rule mfa_kept_save) (use assms(1) assms(2) [OF that(1)] patched_row [OF that(2)] that(1) in auto)
  show ?thesis
    using st assms(1) by (auto simp: patchUser_def GetUser_def get_or_def intro: mfa_kept_same
        split: option.split sum.split)
qed

lemma mfa_confirm:
  assumes "users (api_store a) k = Some v" and "u_mfa_enabled v"
    and "\<And>u. cu = Some u \<Longrightarrow> users (api_store a) (u_id u) = Some u"
  shows "mfa_kept v k a (fst (confirmMFA env c body cu a))"
proof -
  have st: "mfa_kept v k a (fst (save_user c x1 x2 x3 (u\<lparr>u_mfa_enabled := True\<rparr>) rep a))"
    if "cu = Some u" for u x1 x2 x3 rep
    by (rule mfa_kept_save) (use assms(1,2) assms(3) [OF that] in \<open>auto simp: same_mfa_def\<close>)
  show ?thesis
    using st assms(1) by (auto simp: confirmMFA_def intro: mfa_kept_same split: option.split sum.split)
qed

text \<open>Setup and disabling write other MFA fields, on the caller's row only and after the checks.\<close>

lemma mfa_setup:
  assumes "users (api_store a) k = Some v" and "u_mfa_enabled v"
    and "\<And>u. cu = Some u \<Longrightarrow> users (api_store a) (u_id u) = Some u"
    and "\<not> mfa_kept v k a (fst (setupMFA env c body cu a))"
  shows "\<exists>b crypt. body = Inr b \<and> cu = Some v \<and> apiCrypto env = Some crypt \<and>
    checkPassword env (u_password_hash v) (mb_password b) \<and> code_ok env c crypt v (mb_code b)"
proof -
  note same = mfa_kept_same [OF refl assms(1)]
  from assms(4) same obtain u crypt b sealed secret where u: "cu = Some u" "apiCrypto env = Some crypt"
    "body = Inr b" "checkPassword env (u_password_hash u) (mb_password b)"
    "u_mfa_enabled u \<longrightarrow> code_ok env c crypt u (mb_code b)"
    and sv: "\<not> mfa_kept v k a (fst (save_user c (u_username u) ''mfa.setup'' ''pending confirmation''
              (u\<lparr>u_mfa_secret_enc := sealed, u_mfa_enabled := False\<rparr>) (MfaSecret secret) a))"
    by (auto simp: setupMFA_def split: option.splits sum.splits if_splits)
  have "u_id u = k" using mfa_not_kept [OF sv assms(1)] by simp
  then have "u = v" using assms(3) [OF u(1)] assms(1) by simp
  with u assms(2) show ?thesis by blast
qed

lemma mfa_disable:
  assumes "users (api_store a) k = Some v" and "u_mfa_enabled v"
    and "\<And>u. cu = Some u \<Longrightarrow> users (api_store a) (u_id u) = Some u"
    and "\<not> mfa_kept v k a (fst (disableMFA env c body cu a))"
  shows "\<exists>b crypt. body = Inr b \<and> cu = Some v \<and> apiCrypto env = Some crypt \<and>
    checkPassword env (u_password_hash v) (mb_password b) \<and> code_ok env c crypt v (mb_code b)"
proof -
  note same = mfa_kept_same [OF refl assms(1)]
  from assms(4) same obtain u crypt b where u: "cu = Some u" "apiCrypto env = Some crypt"
    "body = Inr b" "checkPassword env (u_password_hash u) (mb_password b)" "code_ok env c crypt u (mb_code b)"
    and sv: "\<not> mfa_kept v k a (fst (save_user c (u_username u) ''mfa.disable'' []
              (u\<lparr>u_mfa_secret_enc := [], u_mfa_enabled := False\<rparr>) NoContent a))"
    by (auto simp: disableMFA_def split: option.splits sum.splits if_splits)
  have "u_id u = k" using mfa_not_kept [OF sv assms(1)] by simp
  then have "u = v" using assms(3) [OF u(1)] assms(1) by simp
  with u show ?thesis by blast
qed

lemma mfa_create:
  assumes "users (api_store a) k = Some v" and "users (api_store a) (c_uuid c) = None" 
  shows "mfa_kept v k a (fst (createUser env c body cu a))"
proof -
  have "k \<noteq> c_uuid c" using assms by auto
  then show ?thesis
    using assms(1) by (auto simp: createUser_def Let_def CreateUser_def mfa_kept_def
        split: sum.split option.split prod.split)
qed

section \<open>Properties\<close>


definition demo_env :: auth_env where
  "demo_env = \<lparr>checkPassword = (\<lambda>h pw. h = CHR ''$'' # pw), hashPassword = (\<lambda>pw. Some (CHR ''$'' # pw)),
     tokenDigest = (\<lambda>t. CHR ''#'' # t), base32Decode = (\<lambda>s. Some []), hmacSha1 = (\<lambda>k n. replicate 20 7),
     newTOTPSecret = Some ''S'', apiCrypto = None\<rparr>"

definition demo_alice :: user where
  "demo_alice = \<lparr>u_id = ''u1'', u_username = ''alice'', u_password_hash = ''$correct-horse'', u_role = RoleAdmin,
     u_disabled = False, u_mfa_secret_enc = [], u_mfa_enabled = False, u_must_change_password = False,
     u_created_at = 1\<rparr>"

definition demo_api :: api_state where
  "demo_api = \<lparr>api_store = NewMemory\<lparr>users := [''u1'' \<mapsto> demo_alice]\<rparr>, api_limiter = Some newLoginLimiter\<rparr>"

definition demo_call :: call where
  "demo_call = \<lparr>c_ip = ''10.0.0.9'', c_start = 100, c_now = 101, c_audit_id = ''e1'', c_token = ''tok'',
     c_uuid = ''u9'', c_users = [''u1'']\<rparr>"

lemma demo_throttle: "snd (login_throttle demo_call demo_api) = 0"
  by (simp add: login_throttle_def demo_api_def retryAfter_def prune_def newLoginLimiter_def Let_def)


text \<open>
  A refused login tells nothing about the account. For an attempt that is not throttled, an
  unknown name, a disabled account and a wrong password get the same reply and leave the same
  trace: one failure counted for the address and one audit event with the same detail.
\<close>

theorem login_refusal_uniform:
  assumes "login_throttle c a = (a1, wait)" and "wait \<le> 0"
    and "\<And>u. GetUserByName (c_users c) (lb_username b) (api_store a) = Inr u \<Longrightarrow>
      u_disabled u \<or> \<not> checkPassword env (u_password_hash u) (lb_password b)"
  shows "login env c (Inr b) a =
    (login_denied c (lb_username b) ''invalid credentials'' a1, Err 401 ''invalid credentials'')"
  using assms(2,3) login_throttle_store [OF assms(1)]
  by (cases "GetUserByName (c_users c) (lb_username b) (api_store a)") (auto simp: login_def assms(1))

theorem login_refusal_uniform_witness:
  "snd (login demo_env demo_call (Inr \<lparr>lb_username = ''mallory'', lb_password = ''guess'', lb_otp = []\<rparr>) demo_api) =
     Err 401 ''invalid credentials'' \<and>
   snd (login demo_env demo_call (Inr \<lparr>lb_username = ''alice'', lb_password = ''guess'', lb_otp = []\<rparr>) demo_api) =
     Err 401 ''invalid credentials''"
proof -
  obtain a1 wait where t: "login_throttle demo_call demo_api = (a1, wait)" by (metis surj_pair)
  have w: "wait \<le> 0" using demo_throttle t by simp
  have u: "GetUserByName (c_users demo_call) n (api_store demo_api) = Inr u \<Longrightarrow> u = demo_alice" for n u
    by (auto simp: demo_api_def demo_call_def GetUserByName_def split: if_splits)
  have bad: "u_disabled u \<or> \<not> checkPassword demo_env (u_password_hash u) ''guess''"
    if "GetUserByName (c_users demo_call) n (api_store demo_api) = Inr u" for n u
    using u [OF that] by (simp add: demo_alice_def demo_env_def)
  have "login demo_env demo_call (Inr \<lparr>lb_username = n, lb_password = ''guess'', lb_otp = []\<rparr>) demo_api =
      (login_denied demo_call n ''invalid credentials'' a1, Err 401 ''invalid credentials'')" for n
    using login_refusal_uniform [OF t w, where b = "\<lparr>lb_username = n, lb_password = ''guess'', lb_otp = []\<rparr>"
        and env = demo_env] bad by simp
  then show ?thesis by simp
qed

text \<open>
  MFA is not taken off by less than MFA. Whatever account call is made by whatever user of
  the table, a user that has MFA on keeps the factor and its secret, unless an administrator
  deletes the account or the user's own setup or disable call proves the password and a current
  code of the secret in place.
\<close>

theorem mfa_needs_current_code:
  assumes "users (api_store a) k = Some v" and "u_mfa_enabled v"
    and "\<And>i w. users (api_store a) i = Some w \<Longrightarrow> u_id w = i"
    and "\<And>u. cu = Some u \<Longrightarrow> users (api_store a) (u_id u) = Some u"
    and "users (api_store a) (c_uuid c) = None"
  shows "(\<exists>v'. users (api_store (fst (account_run env c call cu a))) k = Some v' \<and>
      u_mfa_enabled v' \<and> u_mfa_secret_enc v' = u_mfa_secret_enc v) \<or>
    call = DoDeleteUser k \<or>
    (\<exists>b crypt. (call = DoSetupMFA (Inr b) \<or> call = DoDisableMFA (Inr b)) \<and> cu = Some v \<and>
       apiCrypto env = Some crypt \<and> checkPassword env (u_password_hash v) (mb_password b) \<and>
       code_ok env c crypt v (mb_code b))"
proof -
  have kept: ?thesis if "mfa_kept v k a (fst (account_run env c call cu a))"
    using that assms(2) by (auto simp: mfa_kept_def same_mfa_def)
  show ?thesis
  proof (cases call)
    case (DoLogin b)
    then show ?thesis by (intro kept) (simp add: mfa_kept_same [OF login_users assms(1)])
  next
    case (DoLogout r)
    then show ?thesis by (intro kept) (simp add: mfa_kept_same [OF logout_users assms(1)])
  next
    case (DoSetupMFA b)
    then show ?thesis using kept mfa_setup [OF assms(1,2,4), where env = env and c = c and body = b] by fastforce
  next
    case (DoConfirmMFA b)
    then show ?thesis by (intro kept) (simp add: mfa_confirm [OF assms(1,2,4)])
  next
    case (DoDisableMFA b)
    then show ?thesis using kept mfa_disable [OF assms(1,2,4), where env = env and c = c and body = b] by fastforce
  next
    case (DoPassword b)
    then show ?thesis by (intro kept) (simp add: mfa_password [OF assms(1,4)])
  next
    case (DoCreateUser b)
    then show ?thesis by (intro kept) (simp add: mfa_create [OF assms(1,5)])
  next
    case (DoPatchUser i b)
    then show ?thesis by (intro kept) (simp add: mfa_patch [OF assms(1,3)])
  next
    case (DoDeleteUser i)
    show ?thesis
    proof (cases "i = k")
      case False
      then have "users (api_store (fst (account_run env c call cu a))) k = Some v"
        using assms(1) by (simp add: DoDeleteUser deleteUser_def Let_def DeleteUser_def)
      with assms(2) show ?thesis by blast
    qed (simp add: DoDeleteUser)
  qed
qed

theorem mfa_needs_current_code_witness:
  "let v = demo_alice\<lparr>u_mfa_enabled := True, u_mfa_secret_enc := ''sealed''\<rparr>;
       a = demo_api\<lparr>api_store := NewMemory\<lparr>users := [''u1'' \<mapsto> v]\<rparr>\<rparr>
   in \<exists>v'. users (api_store (fst (account_run demo_env demo_call
        (DoPatchUser ''u1'' (Inr \<lparr>xb_role = None, xb_disabled = Some True, xb_password = None\<rparr>)) None a))) ''u1'' = Some v' \<and>
      u_mfa_enabled v'"
proof -
  let ?v = "demo_alice\<lparr>u_mfa_enabled := True, u_mfa_secret_enc := ''sealed''\<rparr>"
  let ?a = "demo_api\<lparr>api_store := NewMemory\<lparr>users := [''u1'' \<mapsto> ?v]\<rparr>\<rparr>"
  let ?c = "DoPatchUser ''u1'' (Inr \<lparr>xb_role = None, xb_disabled = Some True, xb_password = None\<rparr>)"
  have 1: "users (api_store ?a) ''u1'' = Some ?v" "u_mfa_enabled ?v" "users (api_store ?a) (c_uuid demo_call) = None"
    by (simp_all add: demo_call_def)
  have 2: "u_id w = i" if "users (api_store ?a) i = Some w" for i w
    using that by (auto simp: demo_alice_def split: if_splits)
  have "(None :: user option) = Some u \<Longrightarrow> users (api_store ?a) (u_id u) = Some u" for u by simp
  from mfa_needs_current_code [OF 1(1,2) 2 this 1(3), where env = demo_env and call = ?c] show ?thesis
    unfolding Let_def by auto
qed

text \<open>
  Who knows a password. A password the account holder chose is only set with the current one
  proved, at least eight bytes long and different from it, and ends the forced change; a password
  an administrator sets, for a new account or by a reset, forces a change; and the role an
  account gets is one of the three.
\<close>

theorem password_lifecycle:
  assumes "\<And>i w. users (api_store a) i = Some w \<Longrightarrow> u_id w = i"
  shows "(changeOwnPassword env c (Inr b) (Some u) a = (a', NoContent) \<longrightarrow>
      checkPassword env (u_password_hash u) (pb_current b) \<and> 8 \<le> length (pb_new b) \<and>
      pb_new b \<noteq> pb_current b \<and>
      (\<exists>w. users (api_store a') (u_id u) = Some w \<and> \<not> u_must_change_password w \<and>
         hashPassword env (pb_new b) = Some (u_password_hash w))) \<and>
    (createUser env c (Inr ub) cu a = (a'', UserReply 201 w') \<longrightarrow>
      u_must_change_password w' \<and> validRole (u_role w') \<and> 8 \<le> length (ub_password ub) \<and>
      users (api_store a'') (u_id w') = Some w' \<and> hashPassword env (ub_password ub) = Some (u_password_hash w')) \<and>
    (patchUser env c i (Inr xb) cu a = (a3, UserReply 200 w3) \<and> xb_password xb \<noteq> None \<longrightarrow>
      u_must_change_password w3 \<and> users (api_store a3) i = Some w3)"
proof (intro conjI impI)
  assume ch: "changeOwnPassword env c (Inr b) (Some u) a = (a', NoContent)"
  then show "checkPassword env (u_password_hash u) (pb_current b)" "8 \<le> length (pb_new b)"
    "pb_new b \<noteq> pb_current b"
    by (auto simp: changeOwnPassword_def minPasswordLen_def split: if_splits)
  from ch show "\<exists>w. users (api_store a') (u_id u) = Some w \<and> \<not> u_must_change_password w \<and>
      hashPassword env (pb_new b) = Some (u_password_hash w)"
    by (auto simp: changeOwnPassword_def save_user_def store_user_ok store_user_def UpdateUser_def writeErr_def
        split: if_splits option.splits sum.splits store_error.splits)
next
  assume cr: "createUser env c (Inr ub) cu a = (a'', UserReply 201 w')"
  then show "u_must_change_password w'" "validRole (u_role w')" "8 \<le> length (ub_password ub)"
    "users (api_store a'') (u_id w') = Some w'" "hashPassword env (ub_password ub) = Some (u_password_hash w')"
    by (auto simp: createUser_def CreateUser_def Let_def split: if_splits option.splits)
next
  assume pa: "patchUser env c i (Inr xb) cu a = (a3, UserReply 200 w3) \<and> xb_password xb \<noteq> None"
  then obtain w where w: "users (api_store a) i = Some w" "patched env xb w = Inr w3"
    "users (api_store a3) (u_id w3) = Some w3"
    by (auto simp: patchUser_def GetUser_def get_or_def save_user_def store_user_def UpdateUser_def writeErr_def
        patched_def patched_role_def Let_def split: if_splits option.splits sum.splits store_error.splits)
  from w(2) pa show "u_must_change_password w3"
    by (auto simp: patched_def patched_role_def Let_def split: if_splits option.splits)
  from w patched_row [OF w(2)] assms [OF w(1)] show "users (api_store a3) i = Some w3" by simp
qed

theorem password_lifecycle_witness:
  "\<exists>a'. changeOwnPassword demo_env demo_call (Inr \<lparr>pb_current = ''correct-horse'', pb_new = ''battery-staple''\<rparr>)
     (Some demo_alice) demo_api = (a', NoContent) \<and>
     (\<exists>w. users (api_store a') ''u1'' = Some w \<and> u_password_hash w = ''$battery-staple'')"
proof -
  let ?b = "\<lparr>pb_current = ''correct-horse'', pb_new = ''battery-staple''\<rparr>"
  have "u_id w = i" if "users (api_store demo_api) i = Some w" for i w
    using that by (auto simp: demo_api_def demo_alice_def split: if_splits)
  moreover have "snd (changeOwnPassword demo_env demo_call (Inr ?b) (Some demo_alice) demo_api) = NoContent"
    by (simp add: changeOwnPassword_def minPasswordLen_def save_user_def store_user_def UpdateUser_def demo_env_def)
      (simp add: demo_api_def demo_alice_def)
  then obtain a' where l: "changeOwnPassword demo_env demo_call (Inr ?b) (Some demo_alice) demo_api = (a', NoContent)"
    by (metis prod.collapse)
  ultimately have "\<exists>w. users (api_store a') (u_id demo_alice) = Some w \<and>
      hashPassword demo_env (pb_new ?b) = Some (u_password_hash w)"
    using password_lifecycle by blast
  with l show ?thesis by (auto simp: demo_env_def demo_alice_def)
qed

text \<open>
  A write back of a stale row undoes an administrator. The handlers that change the caller's
  row write back the whole copy the middleware read; when an administrator disables the account
  or changes its role between that read and the write, the password change restores the old
  flag and role, and the administrator's change is lost.
\<close>

theorem stale_write_undoes_disable:
  assumes "users (api_store a) (u_id u) = Some (u\<lparr>u_disabled := True, u_role := role\<rparr>)" and "\<not> u_disabled u"
    and "changeOwnPassword env c (Inr b) (Some u) a = (a', NoContent)"
  shows "\<exists>w. users (api_store a') (u_id u) = Some w \<and> \<not> u_disabled w \<and> u_role w = u_role u"
  using assms
  by (auto simp: changeOwnPassword_def save_user_def store_user_def UpdateUser_def
      split: if_splits option.splits)

theorem stale_write_undoes_disable_witness:
  "\<exists>a' w. changeOwnPassword demo_env demo_call (Inr \<lparr>pb_current = ''correct-horse'', pb_new = ''battery-staple''\<rparr>)
     (Some demo_alice) (demo_api\<lparr>api_store := NewMemory\<lparr>users := [''u1'' \<mapsto> demo_alice\<lparr>u_disabled := True\<rparr>]\<rparr>\<rparr>) =
     (a', NoContent) \<and> users (api_store a') ''u1'' = Some w \<and> \<not> u_disabled w"
proof -
  let ?b = "\<lparr>pb_current = ''correct-horse'', pb_new = ''battery-staple''\<rparr>"
  let ?a = "demo_api\<lparr>api_store := NewMemory\<lparr>users := [''u1'' \<mapsto> demo_alice\<lparr>u_disabled := True\<rparr>]\<rparr>\<rparr>"
  have "snd (changeOwnPassword demo_env demo_call (Inr ?b) (Some demo_alice) ?a) = NoContent"
    by (simp add: changeOwnPassword_def minPasswordLen_def save_user_def store_user_def UpdateUser_def demo_env_def)
      (simp add: demo_alice_def)
  then obtain a' where l: "changeOwnPassword demo_env demo_call (Inr ?b) (Some demo_alice) ?a = (a', NoContent)"
    by (metis prod.collapse)
  have "users (api_store ?a) (u_id demo_alice) = Some (demo_alice\<lparr>u_disabled := True, u_role := RoleAdmin\<rparr>)"
    "\<not> u_disabled demo_alice" by (simp_all add: demo_alice_def)
  from stale_write_undoes_disable [OF this l] l show ?thesis by (auto simp: demo_alice_def)
qed

text \<open>
  Sensor credentials expire. A token is issued for a host that exists, under the digest of
  the value the reply shows once, and expires between one hour and 366 days after its issue
  (8784 hours, where the refusal says 8760).
\<close>

theorem sensor_token_expiry:
  assumes "createSensorToken env c hostID (Inr ttl) cu a = (a', TokenReply tid hid raw expires)"
  shows "hosts (api_store a) hostID \<noteq> None \<and> hid = hostID \<and> c_now c + Hour \<le> expires \<and>
    expires \<le> c_now c + 366 * 24 * Hour \<and>
    (\<exists>t. sensorTok (api_store a') (tokenDigest env raw) = Some t \<and> t_id t = tid \<and> t_host_id t = hostID \<and>
       t_expires_at t = Some expires \<and> t_revoked_at t = None) \<and>
    ttl_accepted (Some (8784 * Hour)) \<and> \<not> ttl_accepted (Some (8784 * Hour + 1))"
proof -
  obtain h where h: "hosts (api_store a) hostID = Some h"
    using assms by (auto simp: createSensorToken_def GetHost_def get_or_def writeErr_def
        split: option.splits store_error.splits)
  have "ttl_accepted (Some (8784 * Hour))" "\<not> ttl_accepted (Some (8784 * Hour + 1))"
    by (simp_all add: ttl_accepted_def)
  moreover have "hid = hostID" "c_now c + Hour \<le> expires" "expires \<le> c_now c + 366 * 24 * Hour"
    "\<exists>t. sensorTok (api_store a') (tokenDigest env raw) = Some t \<and> t_id t = tid \<and> t_host_id t = hostID \<and>
       t_expires_at t = Some expires \<and> t_revoked_at t = None"
    using assms h
    by (auto simp: createSensorToken_def GetHost_def get_or_def CreateSensorToken_def Let_def ttl_accepted_def
        split: option.splits if_splits)
  ultimately show ?thesis using h by blast
qed

theorem sensor_token_expiry_witness:
  "\<exists>a'. createSensorToken demo_env demo_call ''h1'' (Inr None) None
     (demo_api\<lparr>api_store := NewMemory\<lparr>hosts := [''h1'' \<mapsto> demo_host]\<rparr>\<rparr>) =
     (a', TokenReply ''u9'' ''h1'' ''tok'' (101 + 90 * 24 * Hour)) \<and>
     sensorTok (api_store a') ''#tok'' \<noteq> None"
proof -
  let ?a = "demo_api\<lparr>api_store := NewMemory\<lparr>hosts := [''h1'' \<mapsto> demo_host]\<rparr>\<rparr>"
  have "snd (createSensorToken demo_env demo_call ''h1'' (Inr None) None ?a) =
      TokenReply ''u9'' ''h1'' ''tok'' (101 + 90 * 24 * Hour)"
    by (simp add: createSensorToken_def GetHost_def get_or_def CreateSensorToken_def demo_call_def Let_def)
  then obtain a' where l: "createSensorToken demo_env demo_call ''h1'' (Inr None) None ?a =
      (a', TokenReply ''u9'' ''h1'' ''tok'' (101 + 90 * 24 * Hour))" by (metis prod.collapse)
  with sensor_token_expiry [OF l] show ?thesis by (auto simp: demo_env_def)
qed

text \<open>
  Logging out ends the caller's sessions. Both credentials the request carries stop
  answering for a user, and every other session stays; no administrator deletes their own
  account.
\<close>

theorem logout_and_self_deletion:
  "(\<forall>tok. tok = bearerToken r \<and> tok \<noteq> [] \<or> rq_cookie r = Some tok \<longrightarrow>
      sessions (api_store (fst (logout env c r cu a))) (tokenDigest env tok) = None) \<and>
   (\<forall>h. h \<noteq> tokenDigest env (bearerToken r) \<and> (\<forall>v. rq_cookie r = Some v \<longrightarrow> h \<noteq> tokenDigest env v) \<longrightarrow>
      sessions (api_store (fst (logout env c r cu a))) h = sessions (api_store a) h) \<and>
   fst (deleteUser c (u_id u) (Some u) a) = a"
  by (auto simp: logout_def Let_def DeleteSession_def deleteUser_def split: option.splits)

theorem logout_and_self_deletion_witness:
  "sessions (api_store (fst (logout demo_env demo_call (demo_request MethodPost ''/api/v1/logout'') None
     (demo_api\<lparr>api_store := demo_accounts\<rparr>)))) ''#tok'' = None"
  using logout_and_self_deletion [of "demo_request MethodPost ''/api/v1/logout''" demo_env demo_call None
      "demo_api\<lparr>api_store := demo_accounts\<rparr>" demo_alice]
  by (simp add: demo_request_def demo_env_def)

end
