(* ===== verification/Scheduling.thy ===== *)
theory Scheduling
  imports StoreMachine AuthApi
begin

text \<open>
  The scan scheduler (\<open>internal/scan/scheduler.go\<close>), the \<open>Enqueue\<close> it shares with the API
  (\<open>internal/scan/queue.go\<close>) and the schedule handlers of \<open>internal/api/api.go\<close>.

  \<open>RunDue\<close> reads a list of copies of the schedules, fires the due ones in turn and writes each
  copy back. Errors of a single host or schedule are logged and skipped, so they do not show in
  the result. The orders in which maps are met and the identifiers drawn are arguments: \<open>hk n\<close>
  for the hosts or members of the \<open>n\<close>-th schedule, \<open>jk\<close> and \<open>uuids\<close> for the enqueues.
\<close>

section \<open>Enqueueing\<close>

definition Enqueue :: "string list \<Rightarrow> string \<Rightarrow> go_time \<Rightarrow> host \<Rightarrow> string \<Rightarrow> memory \<Rightarrow> scan_job outcome" where
  "Enqueue ks uuid now h trigger m = EnqueueScanJob ks uuid now
     \<lparr>sj_id = [], sj_host_id = h_id h, sj_trigger = trigger, sj_status = ScanJobQueued,
      sj_attempts = 0, sj_max_attempts = 3, sj_worker_id = [], sj_lease_until = None,
      sj_next_attempt_at = 0, sj_scan_id = [], sj_error = [], sj_created_at = 0, sj_updated_at = 0\<rparr> m"

text \<open>The loop of \<open>fire\<close> and \<open>runSchedule\<close>: the jobs of the enqueues that succeed.\<close>

fun enqueue_all ::
  "(nat \<Rightarrow> string list) \<Rightarrow> (nat \<Rightarrow> string) \<Rightarrow> go_time \<Rightarrow> string \<Rightarrow> host list \<Rightarrow> nat \<Rightarrow> memory \<Rightarrow>
   memory \<times> scan_job list" where
  "enqueue_all jk uuids now trigger [] n m = (m, [])"
| "enqueue_all jk uuids now trigger (h # hs) n m =
     (case Enqueue (jk n) (uuids n) now h trigger m of
        (m', Inl e) \<Rightarrow> enqueue_all jk uuids now trigger hs (Suc n) m'
      | (m', Inr j) \<Rightarrow>
          (case enqueue_all jk uuids now trigger hs (Suc n) m' of (m2, js) \<Rightarrow> (m2, j # js)))"

section \<open>The scheduler\<close>

definition target_hosts :: "string list \<Rightarrow> schedule \<Rightarrow> memory \<Rightarrow> host list result" where
  "target_hosts ks sc m =
     (if sc_host_id sc \<noteq> []
      then (case GetHost (sc_host_id sc) m of Inl e \<Rightarrow> Inl e | Inr h \<Rightarrow> Inr [h])
      else if sc_collection_id sc \<noteq> [] then CollectionHosts ks (sc_collection_id sc) m
      else Inr (ListHosts ks m))"

definition fire ::
  "string list \<Rightarrow> (nat \<Rightarrow> string list) \<Rightarrow> (nat \<Rightarrow> string) \<Rightarrow> go_time \<Rightarrow> schedule \<Rightarrow> nat \<Rightarrow> memory \<Rightarrow> memory \<times> nat" where
  "fire ks jk uuids now sc n m =
     (case target_hosts ks sc m of
        Inl e \<Rightarrow> (m, n)
      | Inr hs \<Rightarrow> (fst (enqueue_all jk uuids now TriggerScheduled hs n m), n + length hs))"

text \<open>\<open>time.Duration(intervalS) * time.Second\<close> is a product of 64-bit integers.\<close>

definition nextRun :: "go_time \<Rightarrow> int \<Rightarrow> go_time" where
  "nextRun from intervalS =
     (let intervalS = (if intervalS \<le> 0 then 3600 else intervalS)
      in from + wrap64 (intervalS * Second))"

definition due :: "go_time \<Rightarrow> schedule \<Rightarrow> bool" where
  "due now sc \<longleftrightarrow> \<not> (\<not> sc_enabled sc \<or> now < sc_next_run sc)"

definition advanced :: "go_time \<Rightarrow> schedule \<Rightarrow> schedule" where
  "advanced now sc = sc\<lparr>sc_last_run := Some now, sc_next_run := nextRun now (sc_interval_s sc)\<rparr>"

fun run_due_loop ::
  "(nat \<Rightarrow> string list) \<Rightarrow> (nat \<Rightarrow> string list) \<Rightarrow> (nat \<Rightarrow> string) \<Rightarrow> go_time \<Rightarrow> schedule list \<Rightarrow> nat \<Rightarrow> nat \<Rightarrow>
   memory \<Rightarrow> memory" where
  "run_due_loop hk jk uuids now [] i n m = m"
| "run_due_loop hk jk uuids now (sc # scs) i n m =
     (if \<not> sc_enabled sc \<or> now < sc_next_run sc then run_due_loop hk jk uuids now scs (Suc i) n m
      else (case fire (hk i) jk uuids now sc n m of (m, n') \<Rightarrow>
        run_due_loop hk jk uuids now scs (Suc i) n' (fst (UpdateSchedule (advanced now sc) m))))"

definition RunDue ::
  "string list \<Rightarrow> (nat \<Rightarrow> string list) \<Rightarrow> (nat \<Rightarrow> string list) \<Rightarrow> (nat \<Rightarrow> string) \<Rightarrow> go_time \<Rightarrow> memory \<Rightarrow> memory" where
  "RunDue ks hk jk uuids now m = run_due_loop hk jk uuids now (ListSchedules ks m) 0 0 m"

section \<open>The schedule handlers\<close>

text \<open>
  The body: \<open>sr_interval\<close> is absent, or what \<open>time.ParseDuration\<close> makes of the string (\<open>None\<close>
  when it is no duration). \<open>int64(d.Seconds())\<close> truncates toward zero.
\<close>

record schedule_req =
  sr_name :: string
  sr_host_id :: string
  sr_collection_id :: string
  sr_interval :: "duration option option"
  sr_interval_s :: int
  sr_enabled :: "bool option"

definition minScheduleInterval :: int where "minScheduleInterval = 300"

definition resolveInterval :: "schedule_req \<Rightarrow> int" where
  "resolveInterval req =
     (if sr_interval_s req > 0 then sr_interval_s req
      else (case sr_interval req of
              None \<Rightarrow> 0
            | Some None \<Rightarrow> -1
            | Some (Some d) \<Rightarrow> d sdiv Second))"

datatype schedule_reply = ScheduleErr reply | ScheduleReply int schedule | JobsReply "scan_job list" | ScheduleGone

definition createSchedule ::
  "string \<Rightarrow> go_time \<Rightarrow> schedule_req body \<Rightarrow> memory \<Rightarrow> memory \<times> schedule_reply" where
  "createSchedule uuid now body m =
     (case body of Inl (code, msg) \<Rightarrow> (m, ScheduleErr (Err code msg)) | Inr req \<Rightarrow>
      let intervalS = resolveInterval req in
      if intervalS = -1
      then (m, ScheduleErr (Err 400 ''invalid interval (use a duration like \"15m\" or interval_s seconds)''))
      else if intervalS = 0 then (m, ScheduleErr (Err 400 ''interval or interval_s required''))
      else if intervalS < minScheduleInterval
      then (m, ScheduleErr (Err 400 ''interval must be at least 5m (recommended 15m-1h)''))
      else if sr_host_id req \<noteq> [] \<and> sr_collection_id req \<noteq> []
      then (m, ScheduleErr (Err 400 ''set at most one of host_id / collection_id (empty = all hosts)''))
      else if sr_host_id req \<noteq> [] \<and> hosts m (sr_host_id req) = None
      then (m, ScheduleErr (writeErr (ErrNotFound ''host'' (sr_host_id req))))
      else if sr_collection_id req \<noteq> [] \<and> colls m (sr_collection_id req) = None
      then (m, ScheduleErr (writeErr (ErrNotFound ''collection'' (sr_collection_id req))))
      else
        let s = \<lparr>sc_id = [], sc_name = sr_name req, sc_host_id = sr_host_id req,
                 sc_collection_id = sr_collection_id req, sc_interval_s = intervalS,
                 sc_enabled = (case sr_enabled req of None \<Rightarrow> True | Some b \<Rightarrow> b),
                 sc_last_run = None, sc_next_run = now, sc_created_at = 0\<rparr>
        in (case CreateSchedule uuid now s m of
              (m', Inl e) \<Rightarrow> (m', ScheduleErr (writeErr e))
            | (m', Inr s) \<Rightarrow> (m', ScheduleReply 201 s)))"

definition getSchedule :: "string \<Rightarrow> memory \<Rightarrow> schedule_reply" where
  "getSchedule i m = (case GetSchedule i m of Inl e \<Rightarrow> ScheduleErr (writeErr e) | Inr s \<Rightarrow> ScheduleReply 200 s)"

definition patchSchedule :: "string \<Rightarrow> schedule_req body \<Rightarrow> memory \<Rightarrow> memory \<times> schedule_reply" where
  "patchSchedule i body m =
     (case GetSchedule i m of Inl e \<Rightarrow> (m, ScheduleErr (writeErr e)) | Inr s \<Rightarrow>
      (case body of Inl (code, msg) \<Rightarrow> (m, ScheduleErr (Err code msg)) | Inr req \<Rightarrow>
       let s = (if sr_name req \<noteq> [] then s\<lparr>sc_name := sr_name req\<rparr> else s);
           iv = resolveInterval req in
       if iv > 0 \<and> iv < minScheduleInterval
       then (m, ScheduleErr (Err 400 ''interval must be at least 5m (recommended 15m-1h)''))
       else if \<not> iv > 0 \<and> iv = -1 then (m, ScheduleErr (Err 400 ''invalid interval''))
       else
         let s = (if iv > 0 then s\<lparr>sc_interval_s := iv\<rparr> else s);
             s = (case sr_enabled req of None \<Rightarrow> s | Some b \<Rightarrow> s\<lparr>sc_enabled := b\<rparr>)
         in (case UpdateSchedule s m of
               (m', Inl e) \<Rightarrow> (m', ScheduleErr (writeErr e))
             | (m', Inr _) \<Rightarrow> (m', ScheduleReply 200 s))))"

definition deleteSchedule :: "string \<Rightarrow> memory \<Rightarrow> memory \<times> schedule_reply" where
  "deleteSchedule i m =
     (case DeleteSchedule i m of (m', Inl e) \<Rightarrow> (m', ScheduleErr (writeErr e)) | (m', Inr _) \<Rightarrow> (m', ScheduleGone))"

definition runSchedule ::
  "bool \<Rightarrow> string list \<Rightarrow> (nat \<Rightarrow> string list) \<Rightarrow> (nat \<Rightarrow> string) \<Rightarrow> go_time \<Rightarrow> string \<Rightarrow> memory \<Rightarrow>
   memory \<times> schedule_reply" where
  "runSchedule has_queue ks jk uuids now i m =
     (case GetSchedule i m of Inl e \<Rightarrow> (m, ScheduleErr (writeErr e)) | Inr s \<Rightarrow>
      (case target_hosts ks s m of Inl e \<Rightarrow> (m, ScheduleErr (writeErr e)) | Inr hs \<Rightarrow>
       if \<not> has_queue then (m, ScheduleErr (Err 503 ''scan queue unavailable''))
       else (case enqueue_all jk uuids now ''manual'' hs 0 m of (m', js) \<Rightarrow> (m', JobsReply js))))"

section \<open>What enqueueing leaves alone, and what it brings about\<close>

definition active_for :: "string \<Rightarrow> memory \<Rightarrow> bool" where
  "active_for hid m \<longleftrightarrow> (\<exists>k j. scanJobs m k = Some j \<and> sj_host_id j = hid \<and> job_active j)"

definition only_jobs :: "memory \<Rightarrow> memory \<Rightarrow> bool" where
  "only_jobs m m' \<longleftrightarrow> (\<exists>f. m' = m\<lparr>scanJobs := f\<rparr>)"

definition fresh_from :: "(nat \<Rightarrow> string) \<Rightarrow> nat \<Rightarrow> memory \<Rightarrow> bool" where
  "fresh_from uuids n m \<longleftrightarrow> inj uuids \<and> (\<forall>i\<ge>n. scanJobs m (uuids i) = None)"

lemma only_jobs_trans: "only_jobs m m1 \<Longrightarrow> only_jobs m1 m2 \<Longrightarrow> only_jobs m m2"
  by (auto simp: only_jobs_def)

lemma only_jobs_refl: "only_jobs m m"
  unfolding only_jobs_def by (rule exI [of _ "scanJobs m"]) simp

lemma active_for_insert:
  assumes "active_for i m" and "scanJobs m u = None"
  shows "active_for i (m\<lparr>scanJobs := (scanJobs m)(u \<mapsto> x)\<rparr>)"
proof -
  obtain k j where kj: "scanJobs m k = Some j" "sj_host_id j = i" "job_active j"
    using assms(1) by (auto simp: active_for_def)
  with assms(2) have "k \<noteq> u" by auto
  with kj show ?thesis unfolding active_for_def by (auto intro: exI [of _ k])
qed

lemma Enqueue_effect:
  assumes fresh: "fresh_from uuids n m"
  shows "only_jobs m (fst (Enqueue ks (uuids n) now h tr m))"
    and "fresh_from uuids (Suc n) (fst (Enqueue ks (uuids n) now h tr m))"
    and "active_for i m \<Longrightarrow> active_for i (fst (Enqueue ks (uuids n) now h tr m))"
    and "hosts m (h_id h) \<noteq> None \<Longrightarrow> active_for (h_id h) (fst (Enqueue ks (uuids n) now h tr m))"
proof -
  obtain m' r where e: "Enqueue ks (uuids n) now h tr m = (m', r)" by fastforce
  have ne: "uuids i \<noteq> uuids n" if "i \<ge> Suc n" for i
    using fresh that inj_eq [of uuids i n] by (simp add: fresh_from_def)
  have new: "scanJobs m (uuids n) = None" using fresh by (simp add: fresh_from_def)
  note e' = e [unfolded Enqueue_def]
  show "only_jobs m (fst (Enqueue ks (uuids n) now h tr m))"
    using e' only_jobs_refl [of m] by (cases rule: Enqueue_cases) (simp_all add: e, auto simp: only_jobs_def)
  show "fresh_from uuids (Suc n) (fst (Enqueue ks (uuids n) now h tr m))"
    using e' fresh ne by (cases rule: Enqueue_cases) (auto simp: fresh_from_def e)
  show "active_for i m \<Longrightarrow> active_for i (fst (Enqueue ks (uuids n) now h tr m))"
    using e' new by (cases rule: Enqueue_cases) (simp_all add: active_for_insert e)
  show "hosts m (h_id h) \<noteq> None \<Longrightarrow> active_for (h_id h) (fst (Enqueue ks (uuids n) now h tr m))"
    using e' by (cases rule: Enqueue_cases) (auto simp: active_for_def job_active_def e)
qed


lemma only_jobs_fields:
  "only_jobs m m' \<Longrightarrow> hosts m' = hosts m \<and> schedules m' = schedules m \<and> colls m' = colls m \<and>
     collMem m' = collMem m"
  by (auto simp: only_jobs_def)

lemma enqueue_all_effect:
  assumes "enqueue_all jk uuids now tr hs n m = (m', js)" and "fresh_from uuids n m"
  shows "only_jobs m m' \<and> fresh_from uuids (n + length hs) m' \<and>
    (\<forall>i. active_for i m \<longrightarrow> active_for i m') \<and>
    (\<forall>h \<in> set hs. hosts m (h_id h) \<noteq> None \<longrightarrow> active_for (h_id h) m')"
  using assms
proof (induction hs arbitrary: n m js)
  case Nil
  then show ?case by (simp add: only_jobs_refl)
next
  case (Cons h hs)
  define m1 where "m1 = fst (Enqueue (jk n) (uuids n) now h tr m)"
  note eff = Enqueue_effect [OF Cons.prems(2), where ks = "jk n" and now = now and h = h and tr = tr, folded m1_def]
  obtain r where r: "Enqueue (jk n) (uuids n) now h tr m = (m1, r)"
    unfolding m1_def by (metis prod.collapse)
  obtain js1 where rest: "enqueue_all jk uuids now tr hs (Suc n) m1 = (m', js1)"
    using Cons.prems(1) r by (cases r) (auto split: prod.splits)
  note ih = Cons.IH [OF rest eff(2)]
  have host: "hosts m1 = hosts m" using eff(1) only_jobs_fields by blast
  show ?case
  proof (intro conjI)
    show "only_jobs m m'" using only_jobs_trans [OF eff(1)] ih by blast
    show "fresh_from uuids (n + length (h # hs)) m'" using ih by simp
    show "\<forall>i. active_for i m \<longrightarrow> active_for i m'" using ih eff(3) by blast
    show "\<forall>h \<in> set (h # hs). hosts m (h_id h) \<noteq> None \<longrightarrow> active_for (h_id h) m'"
      using ih eff(4) host by auto
  qed
qed

section \<open>What a schedule targets\<close>

definition targeted :: "schedule \<Rightarrow> string \<Rightarrow> memory \<Rightarrow> bool" where
  "targeted sc k m \<longleftrightarrow>
     (case hosts m k of
        None \<Rightarrow> False
      | Some h \<Rightarrow>
          if sc_host_id sc \<noteq> [] then k = sc_host_id sc
          else if sc_collection_id sc \<noteq> []
          then (case colls m (sc_collection_id sc) of
                  None \<Rightarrow> False
                | Some c \<Rightarrow>
                    if co_dynamic c then tagsMatch (h_tags h) (co_match_tags c)
                    else (case collMem m (sc_collection_id sc) of
                            None \<Rightarrow> False | Some mem \<Rightarrow> k \<in> dom mem))
          else True)"

lemma target_hosts_meets:
  assumes t: "targeted sc k m" and ks: "dom (hosts m) \<subseteq> set ks"
  shows "\<exists>hs h. target_hosts ks sc m = Inr hs \<and> h \<in> set hs \<and> hosts m k = Some h"
proof -
  obtain h where h: "hosts m k = Some h" using t by (auto simp: targeted_def split: option.splits)
  then have "k \<in> set ks" using ks by auto
  then have all: "h \<in> set (vals ks (hosts m))" using h by (auto simp: set_vals)
  consider (one) "sc_host_id sc \<noteq> []" | (coll) "sc_host_id sc = []" "sc_collection_id sc \<noteq> []"
    | (fleet) "sc_host_id sc = []" "sc_collection_id sc = []" by blast
  then show ?thesis
  proof cases
    case one
    with t h have "GetHost (sc_host_id sc) m = Inr h" by (simp add: targeted_def GetHost_def)
    with one h show ?thesis by (simp add: target_hosts_def)
  next
    case coll
    with t h obtain c where c: "colls m (sc_collection_id sc) = Some c"
      by (auto simp: targeted_def split: option.splits)
    show ?thesis
    proof (cases "co_dynamic c")
      case True
      with t h c coll all show ?thesis by (auto simp: targeted_def target_hosts_def CollectionHosts_def)
    next
      case False
      with t h c coll obtain mem b where mem: "collMem m (sc_collection_id sc) = Some mem" "mem k = Some b"
        by (auto simp: targeted_def split: option.splits)
      then have "(k, b) \<in> set (entries ks mem)" using \<open>k \<in> set ks\<close> by (simp add: in_entries_iff)
      then have "k \<in> set (map fst (entries ks mem))" by force
      then have "h \<in> set (vals (map fst (entries ks mem)) (hosts m))" using h by (auto simp: set_vals)
      with c coll h False mem show ?thesis by (simp add: target_hosts_def CollectionHosts_def)
    qed
  next
    case fleet
    with h all show ?thesis by (simp add: target_hosts_def ListHosts_def)
  qed
qed

lemma target_hosts_fields:
  "hosts m' = hosts m \<Longrightarrow> colls m' = colls m \<Longrightarrow> collMem m' = collMem m \<Longrightarrow>
   targeted sc k m' = targeted sc k m"
  by (simp only: targeted_def)


lemma fire_effect:
  assumes f: "fire ks jk uuids now sc n m = (m', n')" and fresh: "fresh_from uuids n m"
  shows "only_jobs m m'" and "fresh_from uuids n' m'" and "active_for i m \<Longrightarrow> active_for i m'"
    and "targeted sc k m \<Longrightarrow> dom (hosts m) \<subseteq> set ks \<Longrightarrow> tables_inv m \<Longrightarrow> active_for k m'"
proof -
  have "only_jobs m m' \<and> fresh_from uuids n' m' \<and> (\<forall>i. active_for i m \<longrightarrow> active_for i m') \<and>
    (\<forall>hs. target_hosts ks sc m = Inr hs \<longrightarrow>
      (\<forall>h \<in> set hs. hosts m (h_id h) \<noteq> None \<longrightarrow> active_for (h_id h) m'))"
  proof (cases "target_hosts ks sc m")
    case (Inl e)
    with f fresh show ?thesis by (auto simp: fire_def only_jobs_refl)
  next
    case (Inr hs)
    obtain m1 js where e: "enqueue_all jk uuids now TriggerScheduled hs n m = (m1, js)" by fastforce
    with f Inr have "m' = m1" "n' = n + length hs" by (auto simp: fire_def)
    with enqueue_all_effect [OF e fresh] Inr show ?thesis by simp
  qed
  note all = this
  then show "only_jobs m m'" "fresh_from uuids n' m'" "active_for i m \<Longrightarrow> active_for i m'"
    by blast+
  assume "targeted sc k m" "dom (hosts m) \<subseteq> set ks" "tables_inv m"
  then obtain hs h where t: "target_hosts ks sc m = Inr hs" "h \<in> set hs" "hosts m k = Some h" "h_id h = k"
    using target_hosts_meets [of sc k m ks] by (auto simp: tables_inv_def)
  then have "hosts m (h_id h) \<noteq> None" by simp
  with all t show "active_for k m'" by blast
qed

text \<open>The loop, for the schedules \<open>scs\<close> still to come, each as it is stored.\<close>

definition advance_all :: "go_time \<Rightarrow> schedule list \<Rightarrow> (string \<rightharpoonup> schedule) \<Rightarrow> (string \<rightharpoonup> schedule)" where
  "advance_all now scs t = (\<lambda>k. map_option
     (\<lambda>sc. if sc \<in> set scs \<and> due now sc then advanced now sc else sc) (t k))"

lemma advance_all_cons:
  assumes "distinct (map sc_id (sc # scs))" and "\<forall>s \<in> set (sc # scs). t (sc_id s) = Some s"
    and "\<forall>k s. t k = Some s \<longrightarrow> sc_id s = k" and "due now sc"
  shows "advance_all now scs (t(sc_id sc \<mapsto> advanced now sc)) = advance_all now (sc # scs) t"
proof
  fix k
  have "sc_id (advanced now sc) = sc_id sc" by (simp add: advanced_def)
  then have "advanced now sc \<notin> set scs" using assms(1) by (metis distinct.simps(2) imageI list.set_map list.simps(9))
  then show "advance_all now scs (t(sc_id sc \<mapsto> advanced now sc)) k = advance_all now (sc # scs) t k"
    using assms by (cases "k = sc_id sc"; cases "t k") (auto simp: advance_all_def)
qed

lemma advance_all_skip: "\<not> due now sc \<Longrightarrow> advance_all now (sc # scs) t = advance_all now scs t"
  by (auto simp: advance_all_def fun_eq_iff map_option_case split: option.split)

definition jobs_and_schedules :: "memory \<Rightarrow> memory \<Rightarrow> bool" where
  "jobs_and_schedules m m' \<longleftrightarrow> (\<exists>f g. m' = m\<lparr>scanJobs := f, schedules := g\<rparr>)"

lemma run_due_loop_effect:
  assumes "fresh_from uuids n m" and "tables_inv m" and "\<forall>i. dom (hosts m) \<subseteq> set (hk i)"
    and "distinct (map sc_id scs)" and "\<forall>sc \<in> set scs. schedules m (sc_id sc) = Some sc"
    and "m' = run_due_loop hk jk uuids now scs i n m"
  shows "jobs_and_schedules m m' \<and> schedules m' = advance_all now scs (schedules m) \<and>
    (\<forall>k. active_for k m \<longrightarrow> active_for k m') \<and>
    (\<forall>sc \<in> set scs. \<forall>k. due now sc \<longrightarrow> targeted sc k m \<longrightarrow> active_for k m')"
  using assms
proof (induction scs arbitrary: i n m)
  case Nil
  have "m = m\<lparr>scanJobs := scanJobs m, schedules := schedules m\<rparr>" by simp
  then have "jobs_and_schedules m m" unfolding jobs_and_schedules_def by blast
  with Nil show ?case by (simp add: advance_all_def map_option.id [unfolded id_def])
next
  case (Cons sc scs)
  show ?case
  proof (cases "due now sc")
    case False
    then have "\<not> sc_enabled sc \<or> now < sc_next_run sc" by (simp add: due_def)
    with Cons.prems have "m' = run_due_loop hk jk uuids now scs (Suc i) n m" by simp
    from Cons.IH [OF Cons.prems(1-3) _ _ this] Cons.prems(4,5) False show ?thesis
      by (simp add: advance_all_skip)
  next
    case True
    obtain m1 n1 where f: "fire (hk i) jk uuids now sc n m = (m1, n1)" by fastforce
    note eff = fire_effect [OF f Cons.prems(1)]
    define m2 where "m2 = fst (UpdateSchedule (advanced now sc) m1)"
    note fld = only_jobs_fields [OF eff(1)]
    have "schedules m1 (sc_id sc) = Some sc" using fld Cons.prems(5) by simp
    then have m2: "m2 = m1\<lparr>schedules := (schedules m)(sc_id sc \<mapsto> advanced now sc)\<rparr>"
      using fld by (simp add: m2_def UpdateSchedule_def advanced_def)
    obtain f1 where m1: "m1 = m\<lparr>scanJobs := f1\<rparr>" using eff(1) by (auto simp: only_jobs_def)
    have "fresh_from uuids n1 m2" using eff(2) by (simp add: m2 fresh_from_def)
    moreover have "tables_inv m2" using Cons.prems(2) by (auto simp: tables_inv_def m2 m1 advanced_def)
    moreover have "\<forall>i. dom (hosts m2) \<subseteq> set (hk i)" using Cons.prems(3) by (simp add: m2 m1)
    moreover have "distinct (map sc_id scs)" using Cons.prems(4) by simp
    moreover have "\<forall>s \<in> set scs. schedules m2 (sc_id s) = Some s"
      using Cons.prems(4,5) by (auto simp: m2 image_iff)
    moreover have "m' = run_due_loop hk jk uuids now scs (Suc i) n1 m2"
      using Cons.prems(6) True f by (auto simp: due_def m2_def)
    ultimately have ih: "jobs_and_schedules m2 m' \<and> schedules m' = advance_all now scs (schedules m2) \<and>
      (\<forall>k. active_for k m2 \<longrightarrow> active_for k m') \<and>
      (\<forall>sc \<in> set scs. \<forall>k. due now sc \<longrightarrow> targeted sc k m2 \<longrightarrow> active_for k m')"
      by (rule Cons.IH)
    have act: "active_for k m2 = active_for k m1" for k by (simp add: active_for_def m2)
    have tgt: "targeted s k m2 = targeted s k m" for s k
      by (rule target_hosts_fields) (simp_all add: m2 m1)
    have tabs: "\<forall>k s. schedules m k = Some s \<longrightarrow> sc_id s = k" using Cons.prems(2) by (simp add: tables_inv_def)
    have "jobs_and_schedules m m'" using ih by (auto simp: jobs_and_schedules_def m2 m1)
    moreover have "schedules m' = advance_all now (sc # scs) (schedules m)"
      using ih advance_all_cons [OF Cons.prems(4,5) tabs True] by (simp add: m2)
    moreover have "\<forall>k. active_for k m \<longrightarrow> active_for k m'" using ih act eff(3) by blast
    moreover have "\<forall>k. targeted sc k m \<longrightarrow> active_for k m'"
      using ih act eff(4) Cons.prems(2,3) by blast
    ultimately show ?thesis using ih tgt by auto
  qed
qed


lemma RunDue_effect:
  assumes inve: "tables_inv m" and ks: "iterates ks (schedules m)" and hk: "\<forall>i. dom (hosts m) \<subseteq> set (hk i)"
    and uuids: "inj uuids" "\<forall>i. scanJobs m (uuids i) = None"
  shows "jobs_and_schedules m (RunDue ks hk jk uuids now m)"
    and "schedules (RunDue ks hk jk uuids now m) =
      (\<lambda>k. map_option (\<lambda>sc. if due now sc then advanced now sc else sc) (schedules m k))"
    and "schedules m k = Some sc \<Longrightarrow> due now sc \<Longrightarrow> targeted sc i m \<Longrightarrow>
      active_for i (RunDue ks hk jk uuids now m)"
proof -
  let ?l = "ListSchedules ks m"
  have rows: "\<forall>k s. schedules m k = Some s \<longrightarrow> sc_id s = k" using inve by (simp add: tables_inv_def)
  have l: "set ?l = ran (schedules m)" by (rule schedule_table.listing_complete(1) [OF ks])
  have "inj_on sc_id (ran (schedules m))" using rows by (auto simp: inj_on_def ran_def)
  have "distinct (vals ks (schedules m))"
  proof (rule distinct_vals)
    show "distinct ks" using ks by (simp add: iterates_def)
    show "k = k'" if "schedules m k = Some v" "schedules m k' = Some v" for k k' v
      using rows that by metis
  qed
  then have "distinct ?l" by (simp add: ListSchedules_def)
  then have d: "distinct (map sc_id ?l)"
    using \<open>inj_on sc_id _\<close> by (simp add: distinct_map l)
  have st: "\<forall>sc \<in> set ?l. schedules m (sc_id sc) = Some sc" using rows by (auto simp: l ran_def)
  have fresh: "fresh_from uuids 0 m" using uuids by (simp add: fresh_from_def)
  note eff = run_due_loop_effect [OF fresh inve hk d st refl, folded RunDue_def, where now = now and jk = jk and i = 0]
  show "jobs_and_schedules m (RunDue ks hk jk uuids now m)" using eff by (simp add: RunDue_def)
  show "schedules (RunDue ks hk jk uuids now m) =
      (\<lambda>k. map_option (\<lambda>sc. if due now sc then advanced now sc else sc) (schedules m k))"
    using eff by (auto simp: RunDue_def advance_all_def l ran_def fun_eq_iff map_option_case split: option.split)
  show "schedules m k = Some sc \<Longrightarrow> due now sc \<Longrightarrow> targeted sc i m \<Longrightarrow>
      active_for i (RunDue ks hk jk uuids now m)"
    using eff by (auto simp: RunDue_def l ran_def)
qed

lemma nextRun_in_range:
  "i \<le> 9223372036 \<Longrightarrow> nextRun from i = from + (if i \<le> 0 then 3600 else i) * Second"
  by (simp add: nextRun_def Let_def wrap64_def)


section \<open>Properties\<close>


definition demo_schedule :: schedule where
  "demo_schedule = \<lparr>sc_id = [], sc_name = ''all'', sc_host_id = [], sc_collection_id = [],
     sc_interval_s = 900, sc_enabled = True, sc_last_run = None, sc_next_run = 5, sc_created_at = 0\<rparr>"

definition demo_c1 :: memory where
  "demo_c1 = fst (CreateSchedule ''s1'' 5 demo_schedule demo_s3)"


text \<open>
  Intervals are checked from below only. A schedule is accepted exactly with an interval of
  at least five minutes and a target that exists; an interval \<open>i\<close> with \<open>i\<close> seconds at or above
  \<open>2^63\<close> nanoseconds is accepted too, and once such a schedule has fired it is due again at
  once: the product overflows, so the next run lies in the past.
\<close>

theorem schedule_interval_overflow:
  assumes "2 ^ 63 \<le> i * Second" and "i * Second < 2 ^ 64"
  shows "case createSchedule uuid now (Inr \<lparr>sr_name = nm, sr_host_id = [], sr_collection_id = [],
      sr_interval = None, sr_interval_s = i, sr_enabled = None\<rparr>) m of
      (m', reply) \<Rightarrow> \<exists>sc. reply = ScheduleReply 201 sc \<and> schedules m' uuid = Some sc \<and>
        due now sc \<and> (\<forall>t \<ge> now. nextRun t i < t \<and> due t (advanced t sc))"
proof -
  have "wrap64 (i * Second) < 0" using assms by (rule wrap64_negative)
  moreover have "\<not> i \<le> 0" using assms(1) by auto
  ultimately have n: "nextRun t i < t" for t by (simp add: nextRun_def)
  define sc where "sc = \<lparr>sc_id = uuid, sc_name = nm, sc_host_id = [], sc_collection_id = [],
    sc_interval_s = i, sc_enabled = True, sc_last_run = None, sc_next_run = now,
    sc_created_at = or_default_time 0 now\<rparr>"
  have "\<not> i < 300" "0 < i" "i \<noteq> -1" "i \<noteq> 0" using assms(1) by auto
  then have c: "createSchedule uuid now (Inr \<lparr>sr_name = nm, sr_host_id = [], sr_collection_id = [],
      sr_interval = None, sr_interval_s = i, sr_enabled = None\<rparr>) m =
    (m\<lparr>schedules := (schedules m)(uuid \<mapsto> sc)\<rparr>, ScheduleReply 201 sc)"
    by (simp add: createSchedule_def resolveInterval_def minScheduleInterval_def CreateSchedule_def sc_def Let_def)
  have d: "due now sc" by (simp add: due_def sc_def)
  have "due t (advanced t sc)" for t
    using n [of t] by (simp add: due_def advanced_def sc_def)
  with d n show ?thesis unfolding c by simp
qed

theorem schedule_interval_overflow_witness:
  "nextRun 0 9223372037 < 0"
  using schedule_interval_overflow [where i = 9223372037 and uuid = "''s''" and now = 0 and nm = "[]" and m = NewMemory]
  by auto

end
