(* ===== verification/Text.thy ===== *)
theory Text
  imports Prelude
begin

text \<open>
  Go's \<open>strings\<close> functions the components share beyond those of the prelude: splitting at a
  character, joining, and the fields between white space, with the round trip of split and join.
\<close>

fun Split :: "char \<Rightarrow> string \<Rightarrow> string list" where
  "Split c [] = [[]]"
| "Split c (x # xs) =
     (if x = c then [] # Split c xs
      else (case Split c xs of [] \<Rightarrow> [[x]] | w # ws \<Rightarrow> (x # w) # ws))"

fun Join :: "string \<Rightarrow> string list \<Rightarrow> string" where
  "Join sep [] = []"
| "Join sep [w] = w"
| "Join sep (w # v # ws) = w @ sep @ Join sep (v # ws)"

text \<open>\<open>strings.Fields\<close>: the maximal runs of characters that are not white space.\<close>

fun fields_loop :: "string \<Rightarrow> string \<Rightarrow> string list" where
  "fields_loop w [] = (if w = [] then [] else [w])"
| "fields_loop w (x # xs) =
     (if is_space x then (if w = [] then [] else [w]) @ fields_loop [] xs
      else fields_loop (w @ [x]) xs)"

definition Fields :: "string \<Rightarrow> string list" where
  "Fields s = fields_loop [] s"

lemma Split_not_Nil [simp]: "Split c s \<noteq> []"
  by (induction s) (auto split: list.splits)

lemma Join_Split: "Join [c] (Split c s) = s"
proof (induction s)
  case (Cons x xs)
  obtain w ws where w: "Split c xs = w # ws" using Split_not_Nil [of c xs] by (cases "Split c xs") auto
  with Cons show ?case by (cases ws) auto
qed simp

lemma Join_chars: "x \<in> set (Join sep ws) \<Longrightarrow> x \<in> set sep \<or> (\<exists>w \<in> set ws. x \<in> set w)"
  by (induction sep ws rule: Join.induct) auto

lemma Split_no_sep: "c \<notin> set w \<Longrightarrow> Split c w = [w]"
  by (induction w) auto

lemma Split_append: "c \<notin> set w \<Longrightarrow> Split c (w @ c # s) = w # Split c s"
  by (induction w) auto

lemma Split_Join: "ws \<noteq> [] \<Longrightarrow> \<forall>w \<in> set ws. c \<notin> set w \<Longrightarrow> Split c (Join [c] ws) = ws"
  by (induction "[c]" ws rule: Join.induct) (auto simp: Split_no_sep Split_append)

lemma fields_loop_words:
  assumes "\<forall>x \<in> set w. \<not> is_space x"
  shows "\<forall>f \<in> set (fields_loop w s). f \<noteq> [] \<and> (\<forall>x \<in> set f. \<not> is_space x)"
  using assms
proof (induction s arbitrary: w)
  case (Cons x xs)
  show ?case
  proof (cases "is_space x")
    case True
    with Cons.IH [of "[]"] Cons.prems show ?thesis by auto
  next
    case False
    with Cons.IH [of "w @ [x]"] Cons.prems show ?thesis by simp
  qed
qed simp

lemma Fields_words: "f \<in> set (Fields s) \<Longrightarrow> f \<noteq> [] \<and> (\<forall>x \<in> set f. \<not> is_space x)"
  unfolding Fields_def using fields_loop_words [of "[]" s] by simp

definition contains_any :: "string list \<Rightarrow> string \<Rightarrow> bool" where
  "contains_any ps v \<longleftrightarrow> (\<exists>p \<in> set ps. Contains v p)"

text \<open>\<open>strings.Trim\<close> with a cutset, and \<open>filepath.Base\<close>.\<close>

definition TrimRight :: "char set \<Rightarrow> string \<Rightarrow> string" where
  "TrimRight cs s = rev (dropWhile (\<lambda>c. c \<in> cs) (rev s))"

definition Trim :: "char set \<Rightarrow> string \<Rightarrow> string" where
  "Trim cs s = TrimRight cs (dropWhile (\<lambda>c. c \<in> cs) s)"

definition path_base :: "string \<Rightarrow> string" where
  "path_base s =
     (if s = [] then ''.''
      else let t = TrimRight {CHR ''/''} s in
        if t = [] then ''/'' else rev (takeWhile (\<lambda>c. c \<noteq> CHR ''/'') (rev t)))"

text \<open>\<open>%q\<close> of a string that needs no escapes, and a string between single quotes.\<close>

definition dquoted :: "string \<Rightarrow> string" where
  "dquoted s = [CHR 0x22] @ s @ [CHR 0x22]"

definition squoted :: "string \<Rightarrow> string" where
  "squoted s = [CHR 0x27] @ s @ [CHR 0x27]"

text \<open>\<open>strings.Cut\<close> at a single character; none when it is absent.\<close>

definition Cut :: "char \<Rightarrow> string \<Rightarrow> (string \<times> string) option" where
  "Cut c s = (case dropWhile (\<lambda>x. x \<noteq> c) s of [] \<Rightarrow> None | _ # after \<Rightarrow> Some (takeWhile (\<lambda>x. x \<noteq> c) s, after))"

lemma Cut_append: "c \<notin> set a \<Longrightarrow> Cut c (a @ c # b) = Some (a, b)"
proof -
  assume "c \<notin> set a"
  then have "\<forall>x \<in> set a. x \<noteq> c" by blast
  then have "dropWhile (\<lambda>x. x \<noteq> c) (a @ c # b) = c # b" "takeWhile (\<lambda>x. x \<noteq> c) (a @ c # b) = a"
    by (simp_all add: dropWhile_append2 takeWhile_append2)
  then show ?thesis by (simp add: Cut_def)
qed

end
