(* ===== verification/RuleSet.thy ===== *)
theory RuleSet
  imports Text
begin

text \<open>
  The detection rules (\<open>internal/rules\<close>): the rule record and its checks, the layers merged
  into one active set (\<open>loader.go\<close>), the bundle sent to the probe, and the engine that runs
  the bundle over a snapshot (\<open>engine.go\<close>).

  YAML decoding and the CEL library are not under \<open>src/\<close>: a document is what the decoder
  makes of it, \<open>celc\<close> compiles an expression to a program (or an error text) and a program
  is a function of the activation. Maps of a rule are association lists in the order the
  range meets them.
\<close>

section \<open>Rules\<close>

record rule =
  ru_id :: string
  ru_title :: string
  ru_category :: string
  ru_severity :: string
  ru_score :: int
  ru_mitre :: "string list"
  ru_enabled :: "bool option"
  ru_foreach :: string
  ru_when :: string
  ru_evidence :: "(string \<times> string) list"
  ru_dedup :: "string list"

record bundle_rule =
  br_id :: string
  br_foreach :: string
  br_when :: string
  br_evidence :: "(string \<times> string) list"
  br_dedup :: "string list"

record rule_bundle =
  rb_schema :: string
  rb_version :: string
  rb_rules :: "bundle_rule list"

definition IsEnabled :: "rule \<Rightarrow> bool" where
  "IsEnabled r \<longleftrightarrow> (case ru_enabled r of None \<Rightarrow> True | Some b \<Rightarrow> b)"

definition ToBundleRule :: "rule \<Rightarrow> bundle_rule" where
  "ToBundleRule r = \<lparr>br_id = ru_id r, br_foreach = ru_foreach r, br_when = ru_when r,
     br_evidence = ru_evidence r, br_dedup = ru_dedup r\<rparr>"

text \<open>The error text, when there is one.\<close>

definition validate :: "rule \<Rightarrow> string option" where
  "validate r =
     (if ru_id r = [] then Some (''missing '' @ squoted ''id'')
      else if ru_when r = [] then Some (''missing '' @ squoted ''when'' @ '' expression'')
      else if ru_severity r \<in> {''info'', ''low'', ''medium'', ''high'', ''critical''} then None
      else if ru_severity r = [] then Some (''missing '' @ squoted ''severity'')
      else Some (''invalid severity '' @ dquoted (ru_severity r)))"

fun ParseRules :: "(string + rule) list \<Rightarrow> string + rule list" where
  "ParseRules [] = Inr []"
| "ParseRules (Inl e # ds) = Inl (''decode rule yaml: '' @ e)"
| "ParseRules (Inr r # ds) =
     (if ru_id r = [] then ParseRules ds
      else (case validate r of
              Some e \<Rightarrow> Inl (''rule '' @ dquoted (ru_id r) @ '': '' @ e)
            | None \<Rightarrow> (case ParseRules ds of Inl e \<Rightarrow> Inl e | Inr rs \<Rightarrow> Inr (r # rs))))"

section \<open>Layers\<close>

text \<open>The loop of \<open>dedupByID\<close> and \<open>Merge\<close>: \<open>out\<close> and the position of each id in it.\<close>

fun merge_loop :: "rule list \<Rightarrow> (string \<rightharpoonup> nat) \<Rightarrow> rule list \<Rightarrow> rule list" where
  "merge_loop out idx [] = out"
| "merge_loop out idx (r # rs) =
     (case idx (ru_id r) of
        Some i \<Rightarrow> merge_loop (out[i := r]) idx rs
      | None \<Rightarrow> merge_loop (out @ [r]) (idx(ru_id r \<mapsto> length out)) rs)"

definition dedupByID :: "rule list \<Rightarrow> rule list" where
  "dedupByID rs = sort_key ru_id (merge_loop [] Map.empty rs)"

definition Merge :: "rule list list \<Rightarrow> rule list" where
  "Merge layers = sort_key ru_id (merge_loop [] Map.empty (concat layers))"

fun Index :: "rule list \<Rightarrow> (string \<rightharpoonup> rule) \<Rightarrow> (string \<rightharpoonup> rule)" where
  "Index [] m = m"
| "Index (r # rs) m = Index rs (m(ru_id r \<mapsto> r))"

definition SchemaRuleBundle :: string where "SchemaRuleBundle = ''bladedr.rulebundle/v1''"

definition BundleFrom :: "string \<Rightarrow> rule list \<Rightarrow> rule_bundle" where
  "BundleFrom version rs = \<lparr>rb_schema = SchemaRuleBundle, rb_version = version,
     rb_rules = map ToBundleRule (filter IsEnabled rs)\<rparr>"

section \<open>The engine\<close>

datatype json = JNull | JBool bool | JNum int | JStr string | JList "json list" | JObj "(string \<times> json) list"

record activation =
  act_item :: json
  act_snapshot :: json

type_synonym cel_program = "activation \<Rightarrow> string + json"

record compiled_rule =
  cp_id :: string
  cp_foreach :: string
  cp_when :: cel_program
  cp_evidence :: "(string \<times> cel_program) list"
  cp_dedup :: "cel_program list"

record 'e finding =
  fi_rule_id :: string
  fi_evidence :: "(string \<times> 'e) list"
  fi_dedup_key :: string
  fi_observed_at :: go_time

fun compile_all :: "(string \<Rightarrow> string + cel_program) \<Rightarrow> string list \<Rightarrow> string + cel_program list" where
  "compile_all celc [] = Inr []"
| "compile_all celc (e # es) =
     (case celc e of Inl er \<Rightarrow> Inl er | Inr p \<Rightarrow>
      (case compile_all celc es of Inl er \<Rightarrow> Inl er | Inr ps \<Rightarrow> Inr (p # ps)))"

definition compile_rule :: "(string \<Rightarrow> string + cel_program) \<Rightarrow> bundle_rule \<Rightarrow> string + compiled_rule" where
  "compile_rule celc r =
     (case celc (br_when r) of Inl e \<Rightarrow> Inl (''rule '' @ dquoted (br_id r) @ '' when: '' @ e) | Inr w \<Rightarrow>
      (case compile_all celc (map snd (br_evidence r)) of
         Inl e \<Rightarrow> Inl (''rule '' @ dquoted (br_id r) @ '' evidence: '' @ e) | Inr ev \<Rightarrow>
       (case compile_all celc (br_dedup r) of
          Inl e \<Rightarrow> Inl (''rule '' @ dquoted (br_id r) @ '' dedup: '' @ e) | Inr ds \<Rightarrow>
        Inr \<lparr>cp_id = br_id r, cp_foreach = br_foreach r, cp_when = w,
             cp_evidence = zip (map fst (br_evidence r)) ev, cp_dedup = ds\<rparr>)))"

fun NewEngineFromBundle :: "(string \<Rightarrow> string + cel_program) \<Rightarrow> bundle_rule list \<Rightarrow> string + compiled_rule list" where
  "NewEngineFromBundle celc [] = Inr []"
| "NewEngineFromBundle celc (r # rs) =
     (case compile_rule celc r of Inl e \<Rightarrow> Inl e | Inr c \<Rightarrow>
      (case NewEngineFromBundle celc rs of Inl e \<Rightarrow> Inl e | Inr cs \<Rightarrow> Inr (c # cs)))"

definition NewEngine :: "(string \<Rightarrow> string + cel_program) \<Rightarrow> rule list \<Rightarrow> string + compiled_rule list" where
  "NewEngine celc rs = NewEngineFromBundle celc (map ToBundleRule (filter IsEnabled rs))"

definition ValidateRule :: "(string \<Rightarrow> string + cel_program) \<Rightarrow> rule \<Rightarrow> string option" where
  "ValidateRule celc r =
     (case validate r of
        Some e \<Rightarrow> Some e
      | None \<Rightarrow> (case NewEngineFromBundle celc [ToBundleRule r] of Inl e \<Rightarrow> Some e | Inr _ \<Rightarrow> None))"

fun lookup_parts :: "json \<Rightarrow> string list \<Rightarrow> json" where
  "lookup_parts cur [] = cur"
| "lookup_parts cur (p # ps) =
     (case cur of
        JObj kvs \<Rightarrow> lookup_parts (case map_of kvs p of None \<Rightarrow> JNull | Some v \<Rightarrow> v) ps
      | _ \<Rightarrow> JNull)"

definition lookupPath :: "json \<Rightarrow> string \<Rightarrow> json" where
  "lookupPath m path = lookup_parts m (Split CHR ''.'' path)"

definition evalBool :: "cel_program \<Rightarrow> activation \<Rightarrow> string + bool" where
  "evalBool p act =
     (case p act of
        Inl e \<Rightarrow> Inl e
      | Inr (JBool b) \<Rightarrow> Inr b
      | Inr _ \<Rightarrow> Inl ''expression did not return bool'')"

definition dedupKey :: "(json \<Rightarrow> string) \<Rightarrow> compiled_rule \<Rightarrow> activation \<Rightarrow> string" where
  "dedupKey sprint r act =
     (if cp_dedup r = [] then cp_id r
      else Join ''|'' (cp_id r # map (\<lambda>p. case p act of Inl e \<Rightarrow> ''?'' | Inr v \<Rightarrow> sprint v) (cp_dedup r)))"

definition evidence_of :: "compiled_rule \<Rightarrow> activation \<Rightarrow> (string \<times> json) list" where
  "evidence_of r act = List.map_filter
     (\<lambda>(k, p). case p act of Inl e \<Rightarrow> None | Inr v \<Rightarrow> Some (k, v)) (cp_evidence r)"

definition rule_items :: "json \<Rightarrow> compiled_rule \<Rightarrow> json list" where
  "rule_items snap r =
     (if cp_foreach r = [] then [JObj []]
      else (case lookupPath snap (cp_foreach r) of JList xs \<Rightarrow> xs | _ \<Rightarrow> []))"

fun eval_items ::
  "(json \<Rightarrow> string) \<Rightarrow> go_time \<Rightarrow> json \<Rightarrow> compiled_rule \<Rightarrow> json list \<Rightarrow> string + json finding list" where
  "eval_items sprint now snap r [] = Inr []"
| "eval_items sprint now snap r (it # its) =
     (let act = \<lparr>act_item = it, act_snapshot = snap\<rparr> in
      case evalBool (cp_when r) act of
        Inl e \<Rightarrow> Inl (''rule '' @ dquoted (cp_id r) @ '' when eval: '' @ e)
      | Inr matched \<Rightarrow>
          (case eval_items sprint now snap r its of
             Inl e \<Rightarrow> Inl e
           | Inr fs \<Rightarrow>
               Inr (if \<not> matched then fs
                    else \<lparr>fi_rule_id = cp_id r, fi_evidence = evidence_of r act,
                          fi_dedup_key = dedupKey sprint r act, fi_observed_at = now\<rparr> # fs)))"

fun Evaluate ::
  "(json \<Rightarrow> string) \<Rightarrow> go_time \<Rightarrow> json \<Rightarrow> compiled_rule list \<Rightarrow> string + json finding list" where
  "Evaluate sprint now snap [] = Inr []"
| "Evaluate sprint now snap (r # rs) =
     (case eval_items sprint now snap r (rule_items snap r) of
        Inl e \<Rightarrow> Inl e
      | Inr fs \<Rightarrow> (case Evaluate sprint now snap rs of Inl e \<Rightarrow> Inl e | Inr gs \<Rightarrow> Inr (fs @ gs)))"


section \<open>What merging computes\<close>

text \<open>\<open>idx\<close> gives the position in \<open>out\<close> of each id, and only of those.\<close>

definition positions :: "rule list \<Rightarrow> (string \<rightharpoonup> nat) \<Rightarrow> bool" where
  "positions out idx \<longleftrightarrow> distinct (map ru_id out) \<and>
     (\<forall>k i. idx k = Some i \<longleftrightarrow> i < length out \<and> ru_id (out ! i) = k)"

lemma Index_override: "Index rs m = m ++ Index rs Map.empty"
proof (induction rs arbitrary: m)
  case (Cons r rs)
  have "Index (r # rs) m = Index rs (m(ru_id r \<mapsto> r))" by simp
  also have "\<dots> = m(ru_id r \<mapsto> r) ++ Index rs Map.empty" by (rule Cons.IH)
  also have "\<dots> = m ++ (Map.empty(ru_id r \<mapsto> r) ++ Index rs Map.empty)"
    by (auto simp: map_add_def fun_eq_iff split: option.split)
  also have "Map.empty(ru_id r \<mapsto> r) ++ Index rs Map.empty = Index (r # rs) Map.empty"
    unfolding Index.simps by (rule Cons.IH [symmetric])
  finally show ?case .
qed simp

lemma Index_append: "Index (xs @ ys) m = Index ys (Index xs m)"
  by (induction xs arbitrary: m) simp_all

lemma Index_distinct:
  "distinct (map ru_id rs) \<Longrightarrow> Index rs Map.empty k = Some r \<longleftrightarrow> r \<in> set rs \<and> ru_id r = k"
proof (induction rs arbitrary: k r)
  case (Cons x xs)
  have "Index (x # xs) Map.empty k = ((Map.empty(ru_id x \<mapsto> x)) ++ Index xs Map.empty) k"
    using Index_override [of xs "Map.empty(ru_id x \<mapsto> x)"] by simp
  moreover have "Index xs Map.empty (ru_id x) = None"
  proof (cases "Index xs Map.empty (ru_id x)")
    case (Some a)
    with Cons.IH [of "ru_id x" a] Cons.prems have "a \<in> set xs" "ru_id a = ru_id x" by simp_all
    with Cons.prems have False by (metis distinct.simps(2) imageI list.set_map list.simps(9))
    then show ?thesis ..
  qed simp
  ultimately show ?case using Cons.IH [of k r] Cons.prems by (auto simp: map_add_Some_iff)
qed simp

lemma Index_set:
  assumes "distinct (map ru_id rs)" and "distinct (map ru_id ss)" and "set rs = set ss"
  shows "Index rs Map.empty = Index ss Map.empty"
proof
  fix k show "Index rs Map.empty k = Index ss Map.empty k"
    using assms Index_distinct [of rs k] Index_distinct [of ss k]
    by (metis option.exhaust)
qed

lemma set_replace:
  assumes "distinct (map ru_id out)" and i: "i < length out" "ru_id (out ! i) = ru_id r"
  shows "x \<in> set (out[i := r]) \<longleftrightarrow> x = r \<or> x \<in> set out \<and> ru_id x \<noteq> ru_id r"
proof -
  have inj: "j = i" if "j < length out" "ru_id (out ! j) = ru_id r" for j
    using assms that by (metis length_map nth_eq_iff_index_eq nth_map)
  have "out[i := r] ! j = (if j = i then r else out ! j)" if "j < length out" for j
    using that by simp
  then have "x \<in> set (out[i := r]) \<longleftrightarrow> (\<exists>j < length out. x = (if j = i then r else out ! j))"
    unfolding in_set_conv_nth by (metis length_list_update)
  also have "\<dots> \<longleftrightarrow> x = r \<or> (\<exists>j < length out. j \<noteq> i \<and> x = out ! j)" using i(1) by auto
  also have "\<dots> \<longleftrightarrow> x = r \<or> x \<in> set out \<and> ru_id x \<noteq> ru_id r"
    unfolding in_set_conv_nth using i inj by metis
  finally show ?thesis .
qed

lemma Index_replace:
  assumes d: "distinct (map ru_id out)" and i: "i < length out" "ru_id (out ! i) = ru_id r"
  shows "Index (out[i := r]) Map.empty = (Index out Map.empty)(ru_id r \<mapsto> r)"
proof
  fix k
  have "map ru_id (out[i := r]) = map ru_id out" using i by (simp add: map_update list_update_same_conv)
  with d have d': "distinct (map ru_id (out[i := r]))" by simp
  note mem = set_replace [OF assms]
  show "Index (out[i := r]) Map.empty k = ((Index out Map.empty)(ru_id r \<mapsto> r)) k"
  proof (cases "k = ru_id r")
    case True
    with Index_distinct [OF d', of k r] mem [of r] show ?thesis by simp
  next
    case False
    then have "Index (out[i := r]) Map.empty k = Some x \<longleftrightarrow> Index out Map.empty k = Some x" for x
      using Index_distinct [OF d', of k x] Index_distinct [OF d, of k x] mem [of x] by auto
    with False show ?thesis by (metis fun_upd_other option.exhaust)
  qed
qed

lemma merge_loop_spec:
  assumes "positions out idx"
  shows "distinct (map ru_id (merge_loop out idx rs)) \<and>
    Index (merge_loop out idx rs) Map.empty = Index rs (Index out Map.empty)"
  using assms
proof (induction rs arbitrary: out idx)
  case Nil
  then show ?case by (simp add: positions_def)
next
  case (Cons r rs)
  show ?case
  proof (cases "idx (ru_id r)")
    case None
    have new: "ru_id r \<notin> ru_id ` set out"
    proof
      assume "ru_id r \<in> ru_id ` set out"
      then obtain i where "i < length out" "ru_id (out ! i) = ru_id r" by (auto simp: in_set_conv_nth)
      then have "idx (ru_id r) = Some i" using Cons.prems by (simp add: positions_def)
      with None show False by simp
    qed
    have pos: "positions (out @ [r]) (idx(ru_id r \<mapsto> length out))"
      unfolding positions_def
    proof (intro conjI allI)
      show "distinct (map ru_id (out @ [r]))" using Cons.prems new by (simp add: positions_def)
      fix k i
      have old: "idx k = Some i \<longleftrightarrow> i < length out \<and> ru_id (out ! i) = k"
        using Cons.prems by (simp add: positions_def)
      have "i < length out \<Longrightarrow> ru_id (out ! i) \<noteq> ru_id r" using new by (metis imageI nth_mem)
      then show "(idx(ru_id r \<mapsto> length out)) k = Some i \<longleftrightarrow> i < length (out @ [r]) \<and> ru_id ((out @ [r]) ! i) = k"
        using old by (cases "i < length out") (auto simp: nth_append less_Suc_eq)
    qed
    have "merge_loop out idx (r # rs) = merge_loop (out @ [r]) (idx(ru_id r \<mapsto> length out)) rs"
      using None by simp
    moreover have "Index (out @ [r]) Map.empty = (Index out Map.empty)(ru_id r \<mapsto> r)"
      by (simp add: Index_append)
    ultimately show ?thesis using Cons.IH [OF pos] by (simp only: Index.simps)
  next
    case (Some i)
    then have i: "i < length out" "ru_id (out ! i) = ru_id r"
      using Cons.prems by (auto simp: positions_def)
    then have ids: "map ru_id (out[i := r]) = map ru_id out" by (simp add: map_update list_update_same_conv)
    then have pos: "positions (out[i := r]) idx"
      using Cons.prems by (simp add: positions_def) (metis length_list_update nth_map)
    have "distinct (map ru_id out)" using Cons.prems by (simp add: positions_def)
    note ix = Index_replace [OF this i]
    have "merge_loop out idx (r # rs) = merge_loop (out[i := r]) idx rs" using Some by simp
    with ix Cons.IH [OF pos] show ?thesis by (simp only: Index.simps)
  qed
qed

lemma sorted_by_id:
  assumes "distinct (map ru_id rs)"
  shows "distinct (map ru_id (sort_key ru_id rs))" and "sorted (map ru_id (sort_key ru_id rs))"
    and "Index (sort_key ru_id rs) Map.empty = Index rs Map.empty"
proof -
  have "mset (map ru_id (sort_key ru_id rs)) = mset (map ru_id rs)" by simp
  then show d: "distinct (map ru_id (sort_key ru_id rs))"
    using assms by (metis mset_eq_imp_distinct_iff)
  show "sorted (map ru_id (sort_key ru_id rs))" by simp
  show "Index (sort_key ru_id rs) Map.empty = Index rs Map.empty"
    by (rule Index_set [OF d assms]) simp
qed

lemma layers_spec: "Index (concat layers) Map.empty = foldl (\<lambda>m l. m ++ Index l Map.empty) Map.empty layers"
proof -
  have "Index (concat layers) m = foldl (\<lambda>m l. m ++ Index l Map.empty) m layers" for m
    by (induction layers arbitrary: m) (simp_all add: Index_append Index_override [symmetric])
  then show ?thesis by simp
qed

text \<open>
  C22. Layers of rules refine the override of maps: the merged list holds every id once, in
  ascending order, and looking an id up in it is looking it up in the layers as maps, each
  overriding the ones before it. So a later layer replaces a rule of an earlier one, or turns
  it off: the bundle for the probe holds the enabled rules of the merged set and no other.
\<close>

theorem merge_refines_override:
  "distinct (map ru_id (Merge layers)) \<and> sorted (map ru_id (Merge layers)) \<and>
   Index (Merge layers) Map.empty = foldl (\<lambda>m l. m ++ Index l Map.empty) Map.empty layers \<and>
   (\<forall>b. b \<in> set (rb_rules (BundleFrom v (Merge layers))) \<longleftrightarrow>
      (\<exists>k r. foldl (\<lambda>m l. m ++ Index l Map.empty) Map.empty layers k = Some r \<and> IsEnabled r \<and>
         b = ToBundleRule r))"
proof -
  have "positions [] Map.empty" by (simp add: positions_def)
  from merge_loop_spec [OF this, of "concat layers"]
  have d: "distinct (map ru_id (merge_loop [] Map.empty (concat layers)))"
    and i: "Index (merge_loop [] Map.empty (concat layers)) Map.empty = Index (concat layers) Map.empty"
    by simp_all
  have ix: "Index (Merge layers) Map.empty = foldl (\<lambda>m l. m ++ Index l Map.empty) Map.empty layers"
    using sorted_by_id(3) [OF d] i by (simp add: Merge_def layers_spec)
  have dm: "distinct (map ru_id (Merge layers))" using sorted_by_id(1) [OF d] by (simp add: Merge_def)
  have "b \<in> set (rb_rules (BundleFrom v (Merge layers))) \<longleftrightarrow>
    (\<exists>k r. Index (Merge layers) Map.empty k = Some r \<and> IsEnabled r \<and> b = ToBundleRule r)" for b
    using Index_distinct [OF dm] by (auto simp: BundleFrom_def)
  with ix dm sorted_by_id(2) [OF d] show ?thesis by (simp add: Merge_def)
qed


section \<open>What the engine reports\<close>

text \<open>One finding for a rule and an item; the reference the engine is compared with.\<close>

definition finding_of :: "(json \<Rightarrow> string) \<Rightarrow> go_time \<Rightarrow> compiled_rule \<Rightarrow> activation \<Rightarrow> json finding" where
  "finding_of sprint now r act = \<lparr>fi_rule_id = cp_id r, fi_evidence = evidence_of r act,
     fi_dedup_key = dedupKey sprint r act, fi_observed_at = now\<rparr>"

definition rule_acts :: "json \<Rightarrow> compiled_rule \<Rightarrow> activation list" where
  "rule_acts snap r = map (\<lambda>it. \<lparr>act_item = it, act_snapshot = snap\<rparr>) (rule_items snap r)"

lemma eval_items_Inr:
  "eval_items sprint now snap r its = Inr fs \<longleftrightarrow>
     (let acts = map (\<lambda>it. \<lparr>act_item = it, act_snapshot = snap\<rparr>) its in
      list_all (\<lambda>act. \<exists>b. evalBool (cp_when r) act = Inr b) acts \<and>
      fs = map (finding_of sprint now r) (filter (\<lambda>act. evalBool (cp_when r) act = Inr True) acts))"
proof (induction its arbitrary: fs)
  case (Cons it its)
  let ?act = "\<lparr>act_item = it, act_snapshot = snap\<rparr>"
  show ?case
  proof (cases "evalBool (cp_when r) ?act")
    case (Inr b)
    show ?thesis
    proof (cases "eval_items sprint now snap r its")
      case (Inl e)
      with Cons.IH Inr show ?thesis by (auto simp: Let_def)
    next
      case (Inr gs)
      with Cons.IH [of gs] \<open>evalBool (cp_when r) ?act = Inr b\<close> show ?thesis
        by (cases b) (auto simp: Let_def finding_of_def)
    qed
  qed (simp add: Let_def)
qed auto

text \<open>
  C21. The engine reports exactly the matches. When it returns findings, every condition it
  evaluated is a bool, and the findings are, in the order of the rules and of the items of each
  rule's collection, one for each item whose condition holds; a rule whose collection is absent
  or no list reports nothing; a rule without one is evaluated once. It fails exactly when some
  condition it reaches does not evaluate to a bool: an error of an evidence or dedup expression
  loses that field, never the finding.
\<close>

theorem engine_reports_matches:
  "Evaluate sprint now snap rs = Inr fs \<longleftrightarrow>
     (\<forall>r \<in> set rs. \<forall>act \<in> set (rule_acts snap r). \<exists>b. evalBool (cp_when r) act = Inr b) \<and>
     fs = concat (map (\<lambda>r. map (finding_of sprint now r)
            (filter (\<lambda>act. evalBool (cp_when r) act = Inr True) (rule_acts snap r))) rs)"
proof (induction rs arbitrary: fs)
  case (Cons r rs)
  show ?case
  proof (cases "eval_items sprint now snap r (rule_items snap r)")
    case (Inl e)
    have "\<not> list_all (\<lambda>act. \<exists>b. evalBool (cp_when r) act = Inr b) (rule_acts snap r)"
    proof
      assume "list_all (\<lambda>act. \<exists>b. evalBool (cp_when r) act = Inr b) (rule_acts snap r)"
      then have "\<exists>fs. eval_items sprint now snap r (rule_items snap r) = Inr fs"
        unfolding eval_items_Inr Let_def rule_acts_def by blast
      with Inl show False by simp
    qed
    with Inl show ?thesis by (auto simp: list_all_iff)
  next
    case (Inr gs)
    then have g: "list_all (\<lambda>act. \<exists>b. evalBool (cp_when r) act = Inr b) (rule_acts snap r)"
      "gs = map (finding_of sprint now r) (filter (\<lambda>act. evalBool (cp_when r) act = Inr True) (rule_acts snap r))"
      using eval_items_Inr [of sprint now snap r "rule_items snap r" gs] by (simp_all add: Let_def rule_acts_def)
    show ?thesis
    proof (cases "Evaluate sprint now snap rs")
      case (Inl e)
      with Inr g Cons.IH show ?thesis by (auto simp: list_all_iff)
    next
      case (Inr hs)
      with \<open>eval_items _ _ _ _ _ = _\<close> g Cons.IH [of hs] show ?thesis by (auto simp: list_all_iff)
    qed
  qed
qed auto

definition demo_rule :: compiled_rule where
  "demo_rule = \<lparr>cp_id = ''r'', cp_foreach = ''ps'', cp_when = \<lambda>act. Inr (act_item act),
     cp_evidence = [(''bad'', \<lambda>_. Inl ''no''), (''it'', \<lambda>act. Inr (act_item act))], cp_dedup = []\<rparr>"

theorem engine_reports_matches_witness:
  "Evaluate (\<lambda>_. ''v'') 7 (JObj [(''ps'', JList [JBool False, JBool True])]) [demo_rule] =
     Inr [\<lparr>fi_rule_id = ''r'', fi_evidence = [(''it'', JBool True)], fi_dedup_key = ''r'', fi_observed_at = 7\<rparr>]"
proof -
  have acts: "rule_acts (JObj [(''ps'', JList [JBool False, JBool True])]) demo_rule =
    [\<lparr>act_item = JBool False, act_snapshot = JObj [(''ps'', JList [JBool False, JBool True])]\<rparr>,
     \<lparr>act_item = JBool True, act_snapshot = JObj [(''ps'', JList [JBool False, JBool True])]\<rparr>]"
    by (simp add: rule_acts_def rule_items_def lookupPath_def demo_rule_def)
  have ev: "evalBool (cp_when demo_rule) act = (case act_item act of JBool b \<Rightarrow> Inr b
      | _ \<Rightarrow> Inl ''expression did not return bool'')" for act
    by (simp add: demo_rule_def evalBool_def)
  have f: "finding_of (\<lambda>_. ''v'') 7 demo_rule act =
      \<lparr>fi_rule_id = ''r'', fi_evidence = [(''it'', act_item act)], fi_dedup_key = ''r'', fi_observed_at = 7\<rparr>" for act
    by (simp add: demo_rule_def finding_of_def evidence_of_def dedupKey_def List.map_filter_def)
  have "Ex Not" by (rule exI [of _ False]) simp
  moreover have "\<exists>b. b" by (rule exI [of _ True]) simp
  ultimately show ?thesis unfolding engine_reports_matches by (simp add: acts ev f)
qed

end
