(* ===== verification/ScanRunner.thy ===== *)
theory ScanRunner
  imports RuleSet StoreMachine "HOL-Library.Signed_Division"
begin

text \<open>
  One agentless scan (\<open>internal/scan/runner.go\<close>) and the findings that only exist across hosts
  (\<open>internal/scan/reuse.go\<close>): the probe's result is enriched with the rules' metadata and
  stored, the state digest is compared with the host's baseline, with its cohort and with the
  credential inventories of the fleet.

  The transport (SSH or a local process) is an argument: it takes the bundle and the store as it
  is when the probe starts, and gives the store as it is when the probe ends (other clients may
  have moved it on meanwhile) and the result or an error. So are the loading of the rules,
  whether the context is cancelled when the probe returns, the clock, fresh identifiers and the
  orders in which maps are met. The calls before and after the probe follow one another. Digests
  are association lists in the order their range meets them.
\<close>

section \<open>The environment of a scan\<close>

record upsert_env =
  ue_scans :: "string list"
  ue_exports :: "string list"
  ue_uuid :: string
  ue_uuids :: "nat \<Rightarrow> string"
  ue_now :: go_time

record bpf_prog =
  bp_type :: string
  bp_tag :: string
  bp_json :: string

record host_info =
  hi_hostname :: string
  hi_kernel :: string
  hi_os :: string
  hi_arch :: string

type_synonym digest = "(string \<times> string list) list"

record scan_result =
  sr_probe_version :: string
  sr_host :: host_info
  sr_findings :: "any_value finding list"
  sr_collector_errors :: "string list"
  sr_state_digest :: digest
  sr_bpf_programs :: "bpf_prog list"

type_synonym transport = "rule_bundle \<Rightarrow> memory \<Rightarrow> memory \<times> (string + scan_result)"

record runner =
  rn_load_rules :: "memory \<Rightarrow> string + rule list"
  rn_new_transport :: "host \<Rightarrow> memory \<Rightarrow> string + transport"

record scan_env =
  se_uuid :: string
  se_start :: go_time
  se_end :: go_time
  se_online :: go_time
  se_bundle_version :: string
  se_cancelled :: "string option"
  se_upsert :: "nat \<Rightarrow> upsert_env"
  se_baseline_keys :: "string list"
  se_host_keys :: "string list"
  se_inventory_keys :: "string list"
  se_ids :: "string \<Rightarrow> string list"

definition digest_of :: "digest \<Rightarrow> string \<Rightarrow> string list" where
  "digest_of d cat = (case map_of d cat of None \<Rightarrow> [] | Some items \<Rightarrow> items)"

definition DigestListeningPorts :: string where "DigestListeningPorts = ''listening_ports''"
definition DigestKernelModules :: string where "DigestKernelModules = ''kernel_modules''"
definition DigestAccounts :: string where "DigestAccounts = ''accounts''"
definition DigestAuthorizedKeys :: string where "DigestAuthorizedKeys = ''authorized_keys''"
definition DigestCron :: string where "DigestCron = ''cron''"
definition DigestSystemdUnits :: string where "DigestSystemdUnits = ''systemd_units''"
definition DigestBpfPrograms :: string where "DigestBpfPrograms = ''bpf_programs''"
definition DigestPasswordHashes :: string where "DigestPasswordHashes = ''password_hashes''"
definition DigestPrivateKeys :: string where "DigestPrivateKeys = ''private_keys''"

lemmas digest_names = DigestListeningPorts_def DigestKernelModules_def DigestAccounts_def
  DigestAuthorizedKeys_def DigestCron_def DigestSystemdUnits_def DigestBpfPrograms_def
  DigestPasswordHashes_def DigestPrivateKeys_def

text \<open>The \<open>n\<close>-th upsert of the scan.\<close>

definition upsert :: "scan_env \<Rightarrow> nat \<Rightarrow> observation \<Rightarrow> memory \<Rightarrow> observation outcome" where
  "upsert env n ob m = (let e = se_upsert env n in
     UpsertObservation (ue_scans e) (ue_exports e) (ue_uuid e) (ue_uuids e) (ue_now e) ob m)"

text \<open>A loop that upserts and adds \<open>pts\<close> to a score for each success, skipping failures.\<close>

fun upsert_each :: "scan_env \<Rightarrow> nat \<Rightarrow> (observation \<times> int) list \<Rightarrow> memory \<Rightarrow> memory \<times> int" where
  "upsert_each env n [] m = (m, 0)"
| "upsert_each env n ((ob, pts) # rest) m =
     (case upsert env n ob m of (m, r) \<Rightarrow>
      (case upsert_each env (Suc n) rest m of (m, score) \<Rightarrow>
       (m, (case r of Inl e \<Rightarrow> score | Inr _ \<Rightarrow> pts + score))))"

section \<open>Findings of the rules\<close>

definition enriched :: "string \<Rightarrow> string \<Rightarrow> rule \<Rightarrow> any_value finding \<Rightarrow> observation" where
  "enriched hostID scanID meta f = \<lparr>o_id = [], o_host_id = hostID, o_scan_id = scanID,
     o_source = SourceAgentlessProbe, o_rule_id = fi_rule_id f, o_category = ru_category meta,
     o_title = ru_title meta, o_severity = ru_severity meta, o_score = ru_score meta,
     o_mitre = ru_mitre meta, o_evidence = fi_evidence f, o_dedup_key = fi_dedup_key f,
     o_status = ObsOpen, o_verdict = [], o_first_seen = 0, o_last_seen = 0, o_count = 0\<rparr>"

fun store_findings ::
  "scan_env \<Rightarrow> (string \<rightharpoonup> rule) \<Rightarrow> string \<Rightarrow> string \<Rightarrow> any_value finding list \<Rightarrow> nat \<Rightarrow> int \<Rightarrow> memory \<Rightarrow>
   memory \<times> (store_error + nat \<times> int)" where
  "store_findings env idx hostID scanID [] n risk m = (m, Inr (n, risk))"
| "store_findings env idx hostID scanID (f # fs) n risk m =
     (case idx (fi_rule_id f) of
        None \<Rightarrow> store_findings env idx hostID scanID fs n risk m
      | Some meta \<Rightarrow>
          (case upsert env n (enriched hostID scanID meta f) m of
             (m, Inl e) \<Rightarrow> (m, Inl e)
           | (m, Inr _) \<Rightarrow>
               store_findings env idx hostID scanID fs (Suc n) (wrap64 (risk + ru_score meta)) m))"

section \<open>Drift from the baseline\<close>

definition baselineCategory :: "string \<Rightarrow> string" where
  "baselineCategory cat =
     (if cat = DigestListeningPorts then ''network''
      else if cat = DigestKernelModules then ''kernel''
      else if cat = DigestAccounts \<or> cat = DigestAuthorizedKeys then ''credential''
      else if cat = DigestCron \<or> cat = DigestSystemdUnits then ''persistence''
      else [])"

definition categoryMitre :: "string \<Rightarrow> string list" where
  "categoryMitre cat =
     (if cat = DigestListeningPorts then [''T1571'']
      else if cat = DigestKernelModules then [''T1547.006'']
      else if cat = DigestAccounts then [''T1136.001'']
      else if cat = DigestAuthorizedKeys then [''T1098.004'']
      else if cat = DigestCron then [''T1053.003'']
      else if cat = DigestSystemdUnits then [''T1543.002'']
      else if cat = DigestBpfPrograms then [''T1547.006'']
      else [])"

text \<open>The evidence of a drifted BPF program carries the programs of the scan that match it.\<close>

definition bpf_evidence :: "go_time \<Rightarrow> bpf_prog list \<Rightarrow> string \<Rightarrow> (string \<times> any_value) list" where
  "bpf_evidence started progs it =
     (let matches = filter (\<lambda>p. bp_type p @ '':'' @ bp_tag p = it) progs
      in [(''scan_started_at'', AnyTime started),
          (''programs'', AnyOther (if matches = [] then ''null''
             else [CHR 0x5B] @ Join '','' (map bp_json matches) @ [CHR 0x5D]))] @
         (if matches = [] then [(''evidence_status'', AnyString ''unavailable'')] else []))"

definition drift_observation ::
  "string \<Rightarrow> string \<Rightarrow> go_time \<Rightarrow> bpf_prog list \<Rightarrow> string \<Rightarrow> string \<Rightarrow> observation" where
  "drift_observation hostID scanID started progs cat it = \<lparr>o_id = [], o_host_id = hostID,
     o_scan_id = scanID, o_source = SourceBaseline, o_rule_id = ''baseline-new-'' @ cat,
     o_category = baselineCategory cat,
     o_title = ''New '' @ cat @ '' since baseline: '' @ it, o_severity = ''medium'', o_score = 40,
     o_mitre = categoryMitre cat,
     o_evidence = [(''category'', AnyString cat), (''item'', AnyString it)] @
       (if cat = DigestBpfPrograms then bpf_evidence started progs it else []),
     o_dedup_key = ''baseline|'' @ cat @ ''|'' @ it, o_status = ObsOpen, o_verdict = [],
     o_first_seen = 0, o_last_seen = 0, o_count = 0\<rparr>"

definition drift_items :: "digest \<Rightarrow> digest \<Rightarrow> (string \<times> string) list" where
  "drift_items base d = concat (map (\<lambda>(cat, items).
     map (Pair cat) (filter (\<lambda>it. it \<notin> set (digest_of base cat)) items)) d)"

definition applyBaseline ::
  "scan_env \<Rightarrow> nat \<Rightarrow> host \<Rightarrow> scan \<Rightarrow> digest \<Rightarrow> bpf_prog list \<Rightarrow> memory \<Rightarrow> memory \<times> int" where
  "applyBaseline env n host sc d progs m =
     (if d = [] then (m, 0)
      else case GetBaseline (h_id host) m of
        Inl e \<Rightarrow> (fst (SaveBaseline (ue_now (se_upsert env n))
                   \<lparr>b_host_id = h_id host, b_digest = d, b_created_at = 0\<rparr> m), 0)
      | Inr base \<Rightarrow>
          (case upsert_each env n
                  (map (\<lambda>(cat, it). (drift_observation (h_id host) (s_id sc) (s_started_at sc) progs cat it, 10))
                    (drift_items (b_digest base) d)) m of
             (m, drift) \<Rightarrow> (m, if drift > 50 then 50 else drift)))"

section \<open>Rarity in the cohort\<close>

definition minFleetHosts :: nat where "minFleetHosts = 4"

definition rarityCategory :: "string \<Rightarrow> bool" where
  "rarityCategory cat \<longleftrightarrow> cat \<in> {DigestKernelModules, DigestListeningPorts, DigestAuthorizedKeys, DigestCron}"

text \<open>The part of a word before its first dot or dash, when that is not its first character.\<close>

definition version_head :: "string \<Rightarrow> string" where
  "version_head f =
     (let num = takeWhile (\<lambda>c. c \<noteq> CHR ''.'' \<and> c \<noteq> CHR ''-'') f
      in if num = f \<or> num = [] then f else num)"

fun cohort_of_fields :: "string \<Rightarrow> string list \<Rightarrow> string" where
  "cohort_of_fields distro [] = distro"
| "cohort_of_fields distro (f # fs) =
     (if Atoi (version_head f) \<noteq> None then distro @ ''-'' @ version_head f
      else cohort_of_fields distro fs)"

definition cohortKey :: "host \<Rightarrow> string" where
  "cohortKey h =
     (let name = ToLower (TrimSpace (h_os_name h))
      in if name = [] then ''unknown''
         else (case Fields name of [] \<Rightarrow> [] | distro # fs \<Rightarrow> cohort_of_fields distro fs))"

definition cohort_of_host :: "host list \<Rightarrow> string \<Rightarrow> string" where
  "cohort_of_host hs i = (case find (\<lambda>h. h_id h = i) (rev hs) of None \<Rightarrow> [] | Some h \<Rightarrow> cohortKey h)"

definition item_count :: "baseline list \<Rightarrow> string \<Rightarrow> string \<Rightarrow> nat" where
  "item_count cohort cat it = sum_list (map (\<lambda>b. count_list (digest_of (b_digest b) cat) it) cohort)"

definition rare_observation ::
  "string \<Rightarrow> string \<Rightarrow> string \<Rightarrow> nat \<Rightarrow> string \<Rightarrow> string \<Rightarrow> nat \<Rightarrow> observation" where
  "rare_observation hostID scanID cohort csize cat it n = \<lparr>o_id = [], o_host_id = hostID,
     o_scan_id = scanID, o_source = SourceFleet, o_rule_id = ''fleet-rare-'' @ cat,
     o_category = baselineCategory cat,
     o_title = ''Rare in '' @ cohort @ '' cohort ('' @ cat @ '' on '' @ Itoa (int n) @ ''/'' @ Itoa (int csize) @
       '' hosts): '' @ it,
     o_severity = ''low'', o_score = 15, o_mitre = categoryMitre cat,
     o_evidence = [(''category'', AnyString cat), (''item'', AnyString it), (''hosts_with'', AnyInt (int n)),
       (''cohort'', AnyString cohort), (''cohort_size'', AnyInt (int csize))],
     o_dedup_key = ''fleet|'' @ cat @ ''|'' @ it, o_status = ObsOpen, o_verdict = [],
     o_first_seen = 0, o_last_seen = 0, o_count = 0\<rparr>"

definition rare_items :: "baseline list \<Rightarrow> digest \<Rightarrow> (string \<times> string) list" where
  "rare_items cohort d =
     (let rareMax = max 1 (length cohort div 20)
      in concat (map (\<lambda>(cat, items). map (Pair cat)
           (filter (\<lambda>it. \<not> (item_count cohort cat it = 0 \<or> item_count cohort cat it > rareMax)) items))
         (filter (\<lambda>(cat, _). rarityCategory cat) d)))"

definition applyRarity ::
  "scan_env \<Rightarrow> nat \<Rightarrow> host \<Rightarrow> scan \<Rightarrow> digest \<Rightarrow> memory \<Rightarrow> memory \<times> int" where
  "applyRarity env n host sc d m =
     (if d = [] then (m, 0)
      else
        let bases = ListBaselines (se_baseline_keys env) m;
            hs = ListHosts (se_host_keys env) m;
            my = cohortKey host;
            cohort = filter (\<lambda>b. cohort_of_host hs (b_host_id b) = my) bases
        in if length cohort < minFleetHosts then (m, 0)
           else (case upsert_each env n
                   (map (\<lambda>(cat, it). (rare_observation (h_id host) (s_id sc) my (length cohort) cat it
                                        (item_count cohort cat it), 5))
                     (rare_items cohort d)) m of
                   (m, score) \<Rightarrow> (m, if score > 30 then 30 else score)))"

section \<open>Credential reuse across hosts\<close>

definition takeInventory :: "digest \<Rightarrow> digest \<times> digest" where
  "takeInventory d =
     (let fleetOnly = [DigestPasswordHashes, DigestPrivateKeys];
          keys = digest_of d DigestAuthorizedKeys;
          inve = (if length keys > 0 then [(DigestAuthorizedKeys, keys)] else []) @
            List.map_filter (\<lambda>cat. map_option (Pair cat) (map_of d cat)) fleetOnly
      in (inve, filter (\<lambda>(cat, _). cat \<notin> set fleetOnly) d))"

record holder =
  ho_host :: string
  ho_accounts :: "string list"
  ho_state :: string

text \<open>What one inventory holds under an identifier: the items \<open>account:id[:state]\<close> with that id, in
  order; the state is that of the first.\<close>

definition item_parts :: "string \<Rightarrow> (string \<times> string \<times> string) option" where
  "item_parts it =
     (case Split CHR '':'' it of
        account # i # rest \<Rightarrow> Some (account, i, case rest of [] \<Rightarrow> [] | state # _ \<Rightarrow> state)
      | _ \<Rightarrow> None)"

definition inventory_holder :: "inventory \<Rightarrow> string \<Rightarrow> string \<Rightarrow> holder option" where
  "inventory_holder inve category i =
     (case filter (\<lambda>(_, i', _). i' = i) (List.map_filter item_parts (digest_of (i_items inve) category)) of
        [] \<Rightarrow> None
      | (a, _, state) # ps \<Rightarrow>
          Some \<lparr>ho_host = i_host_id inve, ho_accounts = a # map fst ps, ho_state = state\<rparr>)"

definition index :: "inventory list \<Rightarrow> string \<Rightarrow> string \<Rightarrow> holder list" where
  "index invs category i = List.map_filter (\<lambda>inve. inventory_holder inve category i) invs"

definition others :: "holder list \<Rightarrow> string \<Rightarrow> (string \<Rightarrow> string) \<Rightarrow> string list" where
  "others holders self names = sort (map (\<lambda>h. if names (ho_host h) = [] then ho_host h else names (ho_host h))
     (filter (\<lambda>h. ho_host h \<noteq> self) holders))"

definition clip :: "'a list \<Rightarrow> nat \<Rightarrow> 'a list" where
  "clip xs n = (if length xs > n then take n xs else xs)"

definition maxAlsoOn :: nat where "maxAlsoOn = 8"

definition short_id :: "string \<Rightarrow> string" where
  "short_id i = (if length i > 12 then take 12 i else i)"

definition host_names :: "host list \<Rightarrow> string \<Rightarrow> string" where
  "host_names hs i = (case find (\<lambda>h. h_id h = i) (rev hs) of
     None \<Rightarrow> [] | Some h \<Rightarrow> if h_hostname h = [] then h_primary_ip h else h_hostname h)"

definition reuse_observation ::
  "string \<Rightarrow> string \<Rightarrow> string \<Rightarrow> string \<Rightarrow> string \<Rightarrow> int \<Rightarrow> string list \<Rightarrow> string \<Rightarrow> (string \<times> any_value) list \<Rightarrow>
   observation \<times> int" where
  "reuse_observation hostID scanID rule_name title severity pts mitre dedup_suffix ev =
     (\<lparr>o_id = [], o_host_id = hostID, o_scan_id = scanID, o_source = SourceFleet, o_rule_id = rule_name,
       o_category = ''credential'', o_title = title, o_severity = severity, o_score = pts, o_mitre = mitre,
       o_evidence = ev, o_dedup_key = ''reuse|'' @ dedup_suffix, o_status = ObsOpen, o_verdict = [],
       o_first_seen = 0, o_last_seen = 0, o_count = 0\<rparr>, pts sdiv 5)"

definition shared_key ::
  "string \<Rightarrow> string \<Rightarrow> string \<Rightarrow> holder \<Rightarrow> string list \<Rightarrow> (observation \<times> int) list" where
  "shared_key hostID scanID i h also =
     (if also = [] then []
      else [reuse_observation hostID scanID ''fleet-shared-ssh-key''
              (''SSH key '' @ short_id i @ '' is authorized on '' @ Itoa (int (length also) + 1) @ '' hosts'')
              ''low'' 20 [''T1098.004'', ''T1021.004''] (''ssh-key|'' @ i)
              [(''key'', AnyString (short_id i)), (''hosts_with'', AnyInt (int (length also) + 1)),
               (''accounts'', AnyStrings (ho_accounts h)), (''also_on'', AnyStrings (clip also maxAlsoOn)),
               (''root'', AnyBool (''root'' \<in> set (ho_accounts h)))]])"

definition shared_hash ::
  "string \<Rightarrow> string \<Rightarrow> string \<Rightarrow> holder \<Rightarrow> string list \<Rightarrow> (observation \<times> int) list" where
  "shared_hash hostID scanID i h also =
     (if also = [] \<and> length (ho_accounts h) < 2 then []
      else [reuse_observation hostID scanID ''fleet-shared-password-hash''
              (''Password hash '' @ short_id i @ '' is shared across '' @ Itoa (int (length also) + 1) @
               '' host(s) / '' @ Itoa (int (length (ho_accounts h))) @ '' account(s) here'')
              ''medium'' 45 [''T1078'', ''T1110.002''] (''pwhash|'' @ i)
              [(''fingerprint'', AnyString (short_id i)), (''hosts_with'', AnyInt (int (length also) + 1)),
               (''accounts'', AnyStrings (ho_accounts h)), (''also_on'', AnyStrings (clip also maxAlsoOn)),
               (''root'', AnyBool (''root'' \<in> set (ho_accounts h)))]])"

definition private_key ::
  "string \<Rightarrow> string \<Rightarrow> string \<Rightarrow> holder \<Rightarrow> string list \<Rightarrow> string list \<Rightarrow> (observation \<times> int) list" where
  "private_key hostID scanID i h authorizedOn copies =
     (if authorizedOn = [] then []
      else [reuse_observation hostID scanID ''ssh-private-key-grants-access''
              (''Private key '' @ short_id i @ '' stored here is authorized on '' @
               Itoa (int (length authorizedOn)) @ '' other host(s)'')
              (if ho_state h = ''locked'' then ''low'' else ''medium'')
              (if ho_state h = ''locked'' then 25 else 55) [''T1552.004'', ''T1021.004''] (''privkey-access|'' @ i)
              [(''key'', AnyString (short_id i)), (''owner'', AnyStrings (ho_accounts h)),
               (''protection'', AnyString (ho_state h)),
               (''authorized_on'', AnyStrings (clip authorizedOn maxAlsoOn)),
               (''hosts_with'', AnyInt (int (length authorizedOn)))]]) @
     (if copies = [] then []
      else [reuse_observation hostID scanID ''fleet-private-key-copied''
              (''Private key '' @ short_id i @ '' is stored on '' @ Itoa (int (length copies) + 1) @ '' hosts'')
              ''medium'' 45 [''T1552.004''] (''privkey-copy|'' @ i)
              [(''key'', AnyString (short_id i)), (''owner'', AnyStrings (ho_accounts h)),
               (''protection'', AnyString (ho_state h)), (''also_on'', AnyStrings (clip copies maxAlsoOn)),
               (''hosts_with'', AnyInt (int (length copies) + 1))]])"

text \<open>The observations a host's inventory gives rise to, given the inventories of the fleet.\<close>

definition reuse_findings ::
  "(string \<Rightarrow> string list) \<Rightarrow> string \<Rightarrow> string \<Rightarrow> digest \<Rightarrow> inventory list \<Rightarrow> (string \<Rightarrow> string) \<Rightarrow>
   (observation \<times> int) list" where
  "reuse_findings ids hostID scanID inve invs names =
     (let mine = (\<lambda>cat i. inventory_holder \<lparr>i_host_id = hostID, i_items = inve, i_updated_at = 0\<rparr> cat i);
          each = (\<lambda>cat f. concat (map (\<lambda>(i, h). f i h) (entries (ids cat) (mine cat))));
          on = (\<lambda>cat i. others (index invs cat i) hostID names)
      in each DigestAuthorizedKeys (\<lambda>i h. shared_key hostID scanID i h (on DigestAuthorizedKeys i)) @
         each DigestPasswordHashes (\<lambda>i h. shared_hash hostID scanID i h (on DigestPasswordHashes i)) @
         each DigestPrivateKeys (\<lambda>i h. private_key hostID scanID i h (on DigestAuthorizedKeys i)
           (on DigestPrivateKeys i)))"

definition applyCredentialReuse ::
  "scan_env \<Rightarrow> nat \<Rightarrow> host \<Rightarrow> scan \<Rightarrow> digest \<Rightarrow> memory \<Rightarrow> memory \<times> int" where
  "applyCredentialReuse env n host sc inve m =
     (let m = fst (SaveInventory (ue_now (se_upsert env n)) \<lparr>i_host_id = h_id host, i_items = inve, i_updated_at = 0\<rparr> m);
          invs = ListInventories (se_inventory_keys env) m;
          names = host_names (ListHosts (se_host_keys env) m)
      in (case upsert_each env n (reuse_findings (se_ids env) (h_id host) (s_id sc) inve invs names) m of
            (m, score) \<Rightarrow> (m, if score > 40 then 40 else score)))"

section \<open>The scan\<close>

definition finish_scan ::
  "scan_env \<Rightarrow> host \<Rightarrow> scan \<Rightarrow> string \<Rightarrow> string \<Rightarrow> memory \<Rightarrow> memory \<times> scan" where
  "finish_scan env host sc status msg m =
     (let sc = sc\<lparr>s_finished_at := Some (se_end env),
                  s_duration_ms := time_Sub (se_end env) (s_started_at sc) sdiv 1000000,
                  s_status := status, s_error := msg\<rparr>;
          m = fst (UpdateScan sc m);
          m = (if status = ScanFailed then fst (SetHostUnreachable (h_id host) m) else m)
      in (m, sc))"

definition discard_scan :: "scan_env \<Rightarrow> scan \<Rightarrow> string \<Rightarrow> memory \<Rightarrow> memory \<times> scan option \<times> string option" where
  "discard_scan env sc cause m =
     (let sc = sc\<lparr>s_status := ScanFailed, s_error := ''discarded scan result: '' @ cause,
                  s_finished_at := Some (se_end env)\<rparr>
      in (case UpdateScan sc m of
            (m, Inl e) \<Rightarrow> (m, Some sc, Some (''discard result ('' @ cause @ ''): '' @ store_error_text e))
          | (m, Inr _) \<Rightarrow> (m, Some sc, Some cause)))"

definition updateHostFromResult :: "scan_env \<Rightarrow> host \<Rightarrow> scan_result \<Rightarrow> memory \<Rightarrow> memory" where
  "updateHostFromResult env host res m = fst (SetHostOnline (h_id host) (se_online env)
     (hi_os (sr_host res)) (hi_kernel (sr_host res)) (hi_arch (sr_host res)) (hi_hostname (sr_host res)) m)"

text \<open>Positions of the upserts of each phase in \<open>se_upsert\<close>: any numbering that keeps them apart.\<close>

definition ingest_result ::
  "scan_env \<Rightarrow> (string \<rightharpoonup> rule) \<Rightarrow> host \<Rightarrow> scan \<Rightarrow> scan_result \<Rightarrow> memory \<Rightarrow> memory \<times> scan" where
  "ingest_result env idx host sc res m =
     (let sc = sc\<lparr>s_probe_version := sr_probe_version res\<rparr> in
      case store_findings env idx (h_id host) (s_id sc) (sr_findings res) 0 0 m of
        (m, Inl e) \<Rightarrow> finish_scan env host sc ScanFailed (''store observation: '' @ store_error_text e) m
      | (m, Inr (n, risk)) \<Rightarrow>
          (let (inve, d) = takeInventory (sr_state_digest res);
               k = length (sr_findings res) + length (concat (map snd d));
               (m, drift) = applyBaseline env n host sc d (sr_bpf_programs res) m;
               (m, rare) = applyRarity env k host sc d m;
               (m, reuse) = applyCredentialReuse env (k + length (concat (map snd d))) host sc inve m;
               risk = wrap64 (risk + drift + rare + reuse);
               sc = sc\<lparr>s_risk_score := (if risk > 100 then 100 else risk)\<rparr>;
               m = updateHostFromResult env host res m
           in if length (sr_collector_errors res) > 0
              then finish_scan env host sc ScanPartial (Join ''; '' (sr_collector_errors res)) m
              else finish_scan env host sc ScanOK [] m))"

definition run_scan ::
  "runner \<Rightarrow> scan_env \<Rightarrow> host \<Rightarrow> string \<Rightarrow> (memory \<Rightarrow> memory \<times> string option) option \<Rightarrow> memory \<Rightarrow>
   memory \<times> scan option \<times> string option" where
  "run_scan rn env host trigger validateOwner m =
     (case CreateScan (se_uuid env)
             \<lparr>s_id = [], s_host_id = h_id host, s_trigger = trigger, s_status = ScanRunning,
              s_probe_version = [], s_started_at = se_start env, s_finished_at = None, s_duration_ms = 0,
              s_error = [], s_risk_score = 0\<rparr> m of
        (m, Inl e) \<Rightarrow> (m, None, Some (store_error_text e))
      | (m, Inr sc) \<Rightarrow>
          (let fin = (\<lambda>r. case r of (m, sc) \<Rightarrow> (m, Some sc, None)) in
           case rn_load_rules rn m of
             Inl e \<Rightarrow> fin (finish_scan env host sc ScanFailed (''load rules: '' @ e) m)
           | Inr activeRules \<Rightarrow>
               (case rn_new_transport rn host m of
                  Inl e \<Rightarrow> fin (finish_scan env host sc ScanFailed (''transport: '' @ e) m)
                | Inr runProbe \<Rightarrow>
                    (case runProbe (BundleFrom (se_bundle_version env) activeRules) m of (m, result) \<Rightarrow>
                     (case se_cancelled env of
                        Some cause \<Rightarrow> discard_scan env sc cause m
                      | None \<Rightarrow>
                          (case (case validateOwner of None \<Rightarrow> (m, None) | Some v \<Rightarrow> v m) of
                             (m, Some cause) \<Rightarrow> discard_scan env sc cause m
                           | (m, None) \<Rightarrow>
                               (case result of
                                  Inl e \<Rightarrow> fin (finish_scan env host sc ScanFailed (''probe: '' @ e) m)
                                | Inr res \<Rightarrow> fin (ingest_result env (Index activeRules Map.empty) host sc res m))))))))"

section \<open>What the upserts of a scan do\<close>

definition without_findings :: "memory \<Rightarrow> memory" where
  "without_findings m = m\<lparr>obs := Map.empty, dedup := Map.empty, deliveries := Map.empty\<rparr>"

definition only_findings :: "memory \<Rightarrow> memory \<Rightarrow> bool" where
  "only_findings m m' \<longleftrightarrow> without_findings m' = without_findings m"

lemma only_findings_refl [simp]: "only_findings m m"
  by (simp add: only_findings_def)

lemma only_findings_trans: "only_findings m m1 \<Longrightarrow> only_findings m1 m2 \<Longrightarrow> only_findings m m2"
  by (simp add: only_findings_def)

lemma without_findings_simps [simp]:
  "hosts (without_findings m) = hosts m" "scans (without_findings m) = scans m"
  "baselines (without_findings m) = baselines m" "inventories (without_findings m) = inventories m"
  "scanJobs (without_findings m) = scanJobs m" "responses (without_findings m) = responses m"
  by (simp_all add: without_findings_def)

lemma only_findings_fields:
  assumes "only_findings m m'"
  shows "hosts m' = hosts m" "scans m' = scans m" "baselines m' = baselines m"
    "inventories m' = inventories m" "scanJobs m' = scanJobs m" "responses m' = responses m"
proof -
  have e: "without_findings m' = without_findings m" using assms by (simp add: only_findings_def)
  show "hosts m' = hosts m" using arg_cong [OF e, of hosts] by simp
  show "scans m' = scans m" using arg_cong [OF e, of scans] by simp
  show "baselines m' = baselines m" using arg_cong [OF e, of baselines] by simp
  show "inventories m' = inventories m" using arg_cong [OF e, of inventories] by simp
  show "scanJobs m' = scanJobs m" using arg_cong [OF e, of scanJobs] by simp
  show "responses m' = responses m" using arg_cong [OF e, of responses] by simp
qed

text \<open>The finding under a key of a host is stored, as last seen by the given scan.\<close>

definition recorded :: "string \<Rightarrow> string \<Rightarrow> string \<Rightarrow> memory \<Rightarrow> bool" where
  "recorded hostID scanID key m \<longleftrightarrow>
     (\<exists>i ob. dedup_lookup m hostID key = Some i \<and> obs m i = Some ob \<and> o_scan_id ob = scanID)"

lemma upsert_effect:
  assumes "upsert env n ob m = (m', r)"
  shows "only_findings m m'"
    and "recorded (o_host_id ob) (o_scan_id ob) key m \<Longrightarrow> recorded (o_host_id ob) (o_scan_id ob) key m'"
    and "r = Inr x \<Longrightarrow> recorded (o_host_id ob) (o_scan_id ob) (o_dedup_key ob) m'"
proof -
  define e where "e = se_upsert env n"
  note up = assms [unfolded upsert_def Let_def, folded e_def]
  show "only_findings m m'"
    using up by (auto simp: UpsertObservation_def Let_def enqueueExportsLocked_def only_findings_def
        without_findings_def split: option.splits)
next
  define e where "e = se_upsert env n"
  note up = assms [unfolded upsert_def Let_def, folded e_def]
  {
    fix key x
    assume key: "recorded (o_host_id ob) (o_scan_id ob) key m \<or> (r = Inr x \<and> key = o_dedup_key ob)"
    have "recorded (o_host_id ob) (o_scan_id ob) key m'"
    proof (cases "dedup_lookup m (o_host_id ob) (o_dedup_key ob)")
      case (Some i)
      show ?thesis
      proof (cases "obs m i")
        case None
        with up Some key show ?thesis by (auto simp: UpsertObservation_def Let_def)
      next
        case (Some ex)
        note kn = Upsert_known [OF \<open>dedup_lookup m _ _ = Some i\<close> Some]
        from up key \<open>dedup_lookup m _ _ = Some i\<close> show ?thesis
          unfolding kn Let_def recorded_def by auto
      qed
    next
      case None
      note nw = Upsert_new [OF None]
      have lk: "dedup_lookup m' h k = (if h = o_host_id ob \<and> k = o_dedup_key ob
          then Some (or_default (o_id ob) (ue_uuid e)) else dedup_lookup m h k)" for h k
        using up unfolding nw Let_def
        by (auto simp: dedup_lookup_upd [of "m\<lparr>obs := x\<rparr>" for x, simplified])
      have ob: "obs m' = (obs m)(or_default (o_id ob) (ue_uuid e) \<mapsto>
          inserted (ue_uuid e) (ue_now e) (ob\<lparr>o_verdict := or_default (o_verdict ob) ''unknown''\<rparr>))"
        using up unfolding nw Let_def by auto
      have sid: "o_scan_id (inserted (ue_uuid e) (ue_now e) (ob\<lparr>o_verdict := v\<rparr>)) = o_scan_id ob" for v
        by (simp add: inserted_def)
      show ?thesis using key unfolding recorded_def lk ob by (auto simp: sid)
    qed
  }
  then show "recorded (o_host_id ob) (o_scan_id ob) key m \<Longrightarrow> recorded (o_host_id ob) (o_scan_id ob) key m'"
    and "r = Inr x \<Longrightarrow> recorded (o_host_id ob) (o_scan_id ob) (o_dedup_key ob) m'" by blast+
qed

text \<open>In a consistent store with fresh identifiers an upsert succeeds.\<close>

definition fresh_obs :: "scan_env \<Rightarrow> nat \<Rightarrow> memory \<Rightarrow> bool" where
  "fresh_obs env n m \<longleftrightarrow> inj (\<lambda>i. ue_uuid (se_upsert env i)) \<and>
     (\<forall>i\<ge>n. obs m (ue_uuid (se_upsert env i)) = None)"

definition upserting :: "scan_env \<Rightarrow> nat \<Rightarrow> memory \<Rightarrow> bool" where
  "upserting env n m \<longleftrightarrow> obs_inv m \<and> fresh_obs env n m"

lemma upserting_later: "upserting env n m \<Longrightarrow> n \<le> k \<Longrightarrow> upserting env k m"
  by (auto simp: upserting_def fresh_obs_def)

lemma upserting_frame [simp]:
  "upserting env n (m\<lparr>baselines := x\<rparr>) = upserting env n m"
  "upserting env n (m\<lparr>inventories := y\<rparr>) = upserting env n m"
  "upserting env n (m\<lparr>hosts := z\<rparr>) = upserting env n m"
  by (simp_all add: upserting_def fresh_obs_def obs_inv_def dedup_lookup_def)

lemma recorded_frame [simp]:
  "recorded h s key (m\<lparr>baselines := x\<rparr>) = recorded h s key m"
  "recorded h s key (m\<lparr>inventories := y\<rparr>) = recorded h s key m"
  "recorded h s key (m\<lparr>hosts := z\<rparr>) = recorded h s key m"
  "recorded h s key (m\<lparr>scans := u\<rparr>) = recorded h s key m"
  by (simp_all add: recorded_def dedup_lookup_def)

lemma upsert_good:
  assumes u: "upserting env n m" and oid: "o_id ob = []"
  shows "\<exists>m' x. upsert env n ob m = (m', Inr x) \<and> upserting env (Suc n) m'"
proof -
  define e where "e = se_upsert env n"
  have inve: "obs_inv m" and fresh: "obs m (ue_uuid e) = None"
    using u by (simp_all add: upserting_def fresh_obs_def e_def)
  obtain m' r where up: "upsert env n ob m = (m', r)" by fastforce
  note up' = up [unfolded upsert_def Let_def, folded e_def]
  have inv': "obs_inv m'"
    using obs_inv_upsert [OF inve oid fresh, of "ue_scans e" "ue_exports e" "ue_uuids e" "ue_now e"] up' by simp
  have ne: "ue_uuid (se_upsert env i) \<noteq> ue_uuid e" if "i > n" for i
  proof -
    have "inj (\<lambda>i. ue_uuid (se_upsert env i))" using u by (simp add: upserting_def fresh_obs_def)
    then show ?thesis using that inj_eq [of "\<lambda>i. ue_uuid (se_upsert env i)" i n] by (simp add: e_def)
  qed
  have res: "(\<exists>x. r = Inr x) \<and> (\<exists>i v. obs m' = (obs m)(i \<mapsto> v) \<and> (i = ue_uuid e \<or> obs m i \<noteq> None))"
  proof (cases "dedup_lookup m (o_host_id ob) (o_dedup_key ob)")
    case None
    have r: "\<exists>x. r = Inr x" "\<exists>v. obs m' = (obs m)(ue_uuid e \<mapsto> v)"
      using up' oid unfolding Upsert_new [OF None] Let_def by auto
    then show ?thesis by blast
  next
    case (Some i)
    then obtain ex where ex: "obs m i = Some ex" using obs_inv_index [OF inve] by blast
    have "\<exists>x. r = Inr x" "\<exists>v. obs m' = (obs m)(i \<mapsto> v)" "obs m i \<noteq> None"
      using up' ex unfolding Upsert_known [OF Some ex] Let_def by auto
    then show ?thesis by blast
  qed
  then obtain x i v where r: "r = Inr x" "obs m' = (obs m)(i \<mapsto> v)" "i = ue_uuid e \<or> obs m i \<noteq> None" by blast
  have "obs m' (ue_uuid (se_upsert env j)) = None" if "j \<ge> Suc n" for j
  proof -
    have "obs m (ue_uuid (se_upsert env j)) = None"
      using u that by (simp add: upserting_def fresh_obs_def)
    moreover from this ne [of j] that r(3) have "ue_uuid (se_upsert env j) \<noteq> i" by auto
    ultimately show ?thesis using r(2) by simp
  qed
  with u inv' have "upserting env (Suc n) m'" by (simp add: upserting_def fresh_obs_def)
  with up r(1) show ?thesis by blast
qed

text \<open>A list of observations of one scan of one host, each worth a score.\<close>

definition scan_batch :: "string \<Rightarrow> string \<Rightarrow> (observation \<times> int) list \<Rightarrow> bool" where
  "scan_batch hostID scanID xs \<longleftrightarrow> list_all
     (\<lambda>(ob, pts). o_id ob = [] \<and> o_host_id ob = hostID \<and> o_scan_id ob = scanID \<and> 0 \<le> pts) xs"

lemma upsert_each_effect:
  assumes "upsert_each env n xs m = (m', score)" and "scan_batch hostID scanID xs" and "upserting env n m"
  shows "only_findings m m' \<and> upserting env (n + length xs) m' \<and> score = sum_list (map snd xs) \<and>
    (\<forall>key. recorded hostID scanID key m \<or> key \<in> (\<lambda>(ob, _). o_dedup_key ob) ` set xs \<longrightarrow>
       recorded hostID scanID key m')"
  using assms
proof (induction xs arbitrary: n m score)
  case (Cons x xs)
  obtain ob pts where x: "x = (ob, pts)" by fastforce
  with Cons.prems(2) have ob: "o_id ob = []" "o_host_id ob = hostID" "o_scan_id ob = scanID"
    and b: "scan_batch hostID scanID xs" by (simp_all add: scan_batch_def)
  obtain m1 r where up: "upsert env n ob m = (m1, Inr r)" and g: "upserting env (Suc n) m1"
    using upsert_good [OF Cons.prems(3) ob(1)] by blast
  obtain s where rest: "upsert_each env (Suc n) xs m1 = (m', s)" and s: "score = pts + s"
    using Cons.prems(1) up by (auto simp: x split: prod.splits)
  note eff = upsert_effect [OF up, unfolded ob]
  note ih = Cons.IH [OF rest b g]
  show ?case
  proof (intro conjI allI impI)
    show "only_findings m m'" using only_findings_trans [OF eff(1)] ih by blast
    show "upserting env (n + length (x # xs)) m'" using ih by simp
    show "score = sum_list (map snd (x # xs))" using ih s x by simp
    fix key
    assume "recorded hostID scanID key m \<or> key \<in> (\<lambda>(ob, _). o_dedup_key ob) ` set (x # xs)"
    then show "recorded hostID scanID key m'" using ih eff(2) [of key] eff(3) [OF refl] x by auto
  qed
qed simp

lemma drift_batch: "scan_batch hostID scanID
    (map (\<lambda>(cat, it). (drift_observation hostID scanID t progs cat it, 10)) xs)"
  by (auto simp: scan_batch_def list_all_iff drift_observation_def)

lemma rare_batch: "scan_batch hostID scanID
    (map (\<lambda>(cat, it). (rare_observation hostID scanID c k cat it (f cat it), 5)) xs)"
  by (auto simp: scan_batch_def list_all_iff rare_observation_def)

lemma reuse_batch: "scan_batch hostID scanID (reuse_findings ids hostID scanID inve invs names)"
  by (auto simp: scan_batch_def list_all_iff reuse_findings_def Let_def shared_key_def shared_hash_def
      private_key_def reuse_observation_def split: if_splits)

lemma drift_items_iff:
  "(cat, it) \<in> set (drift_items base d) \<longleftrightarrow>
     (\<exists>items. (cat, items) \<in> set d \<and> it \<in> set items) \<and> it \<notin> set (digest_of base cat)"
  by (auto simp: drift_items_def)

text \<open>
  C17. The baseline engine, in any reachable store with fresh identifiers. A host without a
  baseline gets the digest as its baseline and no finding. A host with one keeps it, whatever the
  scan saw; each item of the digest that the baseline lacks is recorded as a finding of this scan
  under its own key, and the risk it adds is ten an item, fifty at most, so it is zero exactly
  when the digest holds nothing the baseline lacks.
\<close>

theorem baseline_drift_exact:
  assumes "reachable b w m" and "fresh_obs env n m" and "d \<noteq> []"
  shows "case applyBaseline env n host sc d progs m of (m', drift) \<Rightarrow>
    (case baselines m (h_id host) of
       None \<Rightarrow> drift = 0 \<and> obs m' = obs m \<and>
         (\<exists>base. baselines m' = (baselines m)(h_id host \<mapsto> base) \<and> b_digest base = d)
     | Some base \<Rightarrow>
         baselines m' = baselines m \<and>
         drift = min 50 (10 * int (length (drift_items (b_digest base) d))) \<and>
         (drift = 0 \<longleftrightarrow> (\<forall>(cat, items) \<in> set d. set items \<subseteq> set (digest_of (b_digest base) cat))) \<and>
         (\<forall>(cat, it) \<in> set (drift_items (b_digest base) d).
            recorded (h_id host) (s_id sc) (''baseline|'' @ cat @ ''|'' @ it) m'))"
proof (cases "baselines m (h_id host)")
  case None
  let ?base = "\<lparr>b_host_id = h_id host, b_digest = d, b_created_at = or_default_time 0 (ue_now (se_upsert env n))\<rparr>"
  have "applyBaseline env n host sc d progs m = (m\<lparr>baselines := (baselines m)(h_id host \<mapsto> ?base)\<rparr>, 0)"
    using None assms(3) by (simp add: applyBaseline_def GetBaseline_def get_or_def SaveBaseline_def Let_def)
  moreover have "\<exists>base. (baselines m)(h_id host \<mapsto> ?base) = (baselines m)(h_id host \<mapsto> base) \<and> b_digest base = d"
    by (rule exI [of _ ?base]) simp
  ultimately show ?thesis using None by simp
next
  case (Some base)
  let ?xs = "map (\<lambda>(cat, it). (drift_observation (h_id host) (s_id sc) (s_started_at sc) progs cat it, 10 :: int))
    (drift_items (b_digest base) d)"
  have up: "upserting env n m"
    using reachable_inv [OF assms(1)] assms(2) by (simp add: upserting_def store_inv_def)
  obtain m' s where e: "upsert_each env n ?xs m = (m', s)" by fastforce
  note eff = upsert_each_effect [OF e drift_batch up]
  have sum: "sum_list (map snd (map (\<lambda>(cat, it). (f cat it, 10 :: int)) ys)) = 10 * int (length ys)" for f ys
    by (induction ys) auto
  have s: "s = 10 * int (length (drift_items (b_digest base) d))" using eff unfolding sum by blast
  have a: "applyBaseline env n host sc d progs m = (m', min 50 s)"
    using assms(3) Some e by (simp add: applyBaseline_def GetBaseline_def get_or_def min_def)
  have nil: "drift_items (b_digest base) d = [] \<longleftrightarrow>
      (\<forall>(cat, items) \<in> set d. set items \<subseteq> set (digest_of (b_digest base) cat))"
    by (force simp: drift_items_def filter_empty_conv)
  have rec: "recorded (h_id host) (s_id sc) (''baseline|'' @ cat @ ''|'' @ it) m'"
    if "(cat, it) \<in> set (drift_items (b_digest base) d)" for cat it
  proof -
    have "''baseline|'' @ cat @ ''|'' @ it \<in> (\<lambda>(ob, _). o_dedup_key ob) ` set ?xs"
      using that by (force simp: drift_observation_def)
    with eff show ?thesis by blast
  qed
  have z: "min 50 s = 0 \<longleftrightarrow> drift_items (b_digest base) d = []"
    by (cases "drift_items (b_digest base) d") (auto simp: s min_def)
  show ?thesis unfolding a prod.case Some option.case z
  proof (intro conjI)
    show "baselines m' = baselines m" using only_findings_fields(3) [of m m'] eff by blast
    show "min 50 s = min 50 (10 * int (length (drift_items (b_digest base) d)))" by (simp only: s)
    show "drift_items (b_digest base) d = [] \<longleftrightarrow>
        (\<forall>(cat, items) \<in> set d. set items \<subseteq> set (digest_of (b_digest base) cat))" by (rule nil)
    show "\<forall>(cat, it) \<in> set (drift_items (b_digest base) d).
        recorded (h_id host) (s_id sc) (''baseline|'' @ cat @ ''|'' @ it) m'" using rec by blast
  qed
qed

definition probe_env :: scan_env where
  "probe_env = \<lparr>se_uuid = ''s'', se_start = 10, se_end = 12, se_online = 11, se_bundle_version = [],
     se_cancelled = None,
     se_upsert = (\<lambda>i. \<lparr>ue_scans = [], ue_exports = [], ue_uuid = replicate (Suc i) CHR ''o'',
       ue_uuids = \<lambda>_. [], ue_now = 11\<rparr>),
     se_baseline_keys = [''h1''], se_host_keys = [''h1''], se_inventory_keys = [''h1''], se_ids = \<lambda>_. []\<rparr>"

definition demo_row :: scan where
  "demo_row = \<lparr>s_id = ''s'', s_host_id = ''h1'', s_trigger = [], s_status = ScanRunning,
     s_probe_version = [], s_started_at = 10, s_finished_at = None, s_duration_ms = 0, s_error = [],
     s_risk_score = 0\<rparr>"

definition demo_b1 :: memory where
  "demo_b1 = fst (SaveBaseline 3
     \<lparr>b_host_id = ''h1'', b_digest = [(DigestAccounts, [''root:0''])], b_created_at = 0\<rparr> demo_s1)"

lemma demo_b1_facts:
  "reachable False 0 demo_b1" "fresh_obs probe_env n demo_b1"
  "baselines demo_b1 ''h1'' = Some \<lparr>b_host_id = ''h1'', b_digest = [(DigestAccounts, [''root:0''])], b_created_at = 3\<rparr>"
  "hosts demo_b1 = [''h1'' \<mapsto> demo_host\<lparr>h_id := ''h1'', h_created_at := 1\<rparr>]"
proof -
  show "reachable False 0 demo_b1" unfolding demo_b1_def
    by (rule reachable_step [OF demo_reachable(1) by_tables [OF step_SaveBaseline]])
  have "inj (\<lambda>i. replicate (Suc i) CHR ''o'')" by (rule injI) (metis Suc_inject length_replicate)
  then show "fresh_obs probe_env n demo_b1"
    by (simp add: fresh_obs_def demo_b1_def SaveBaseline_def Let_def demo_defs probe_env_def)
qed (simp_all add: demo_b1_def SaveBaseline_def Let_def demo_defs)

theorem baseline_drift_exact_witness:
  "\<exists>m'. applyBaseline probe_env 0 (demo_host\<lparr>h_id := ''h1''\<rparr>) demo_row
     [(DigestAccounts, [''root:0'', ''eve:0''])] [] demo_b1 = (m', 10) \<and>
     recorded ''h1'' ''s'' ''baseline|accounts|eve:0'' m'"
proof -
  let ?d = "[(DigestAccounts, [''root:0'', ''eve:0''])]"
  obtain m' drift where a: "applyBaseline probe_env 0 (demo_host\<lparr>h_id := ''h1''\<rparr>) demo_row ?d [] demo_b1 = (m', drift)"
    by fastforce
  have d: "drift_items [(DigestAccounts, [''root:0''])] ?d = [(DigestAccounts, ''eve:0'')]"
    by (simp add: drift_items_def digest_of_def)
  have h: "h_id (demo_host\<lparr>h_id := ''h1''\<rparr>) = ''h1''" "s_id demo_row = ''s''" by (simp_all add: demo_row_def)
  have "?d \<noteq> []" by simp
  from baseline_drift_exact [OF demo_b1_facts(1) demo_b1_facts(2) this, where n = 0 and host = "demo_host\<lparr>h_id := ''h1''\<rparr>"
      and sc = demo_row and progs = "[]",
      unfolded a h demo_b1_facts(3) prod.case option.case baseline.select_convs d]
  have "drift = 10" "recorded ''h1'' ''s'' (''baseline|'' @ DigestAccounts @ ''|'' @ ''eve:0'') m'" by simp_all
  with a show ?thesis by (simp add: DigestAccounts_def)
qed

section \<open>A whole scan\<close>

text \<open>The phases after the findings: each keeps the consistency, the host rows and what is recorded.\<close>

definition phase_ok :: "scan_env \<Rightarrow> nat \<Rightarrow> string \<Rightarrow> string \<Rightarrow> memory \<Rightarrow> memory \<Rightarrow> bool" where
  "phase_ok env n hostID scanID m m' \<longleftrightarrow> upserting env n m' \<and> hosts m' = hosts m \<and> scans m' = scans m \<and>
     (\<forall>key. recorded hostID scanID key m \<longrightarrow> recorded hostID scanID key m')"

lemma phase_ok_trans: "phase_ok env n h s m m1 \<Longrightarrow> phase_ok env k h s m1 m2 \<Longrightarrow> phase_ok env k h s m m2"
  by (auto simp: phase_ok_def)

lemma phase_ok_batch:
  assumes "upsert_each env n xs m = (m', score)" and "scan_batch hostID scanID xs"
    and "upserting env n m" and "n + length xs \<le> k"
  shows "phase_ok env k hostID scanID m m'" and "score = sum_list (map snd xs)"
  using upsert_each_effect [OF assms(1-3)] only_findings_fields [of m m'] upserting_later [OF _ assms(4), of env m']
  by (auto simp: phase_ok_def)

lemma length_drift_items: "length (drift_items base d) \<le> length (concat (map snd d))"
  by (induction d) (auto simp: drift_items_def intro: add_mono length_filter_le)

lemma length_rare_items: "length (rare_items cohort d) \<le> length (concat (map snd d))"
proof -
  have "length (concat (map (\<lambda>(cat, items). map (Pair cat) (filter (P cat) items)) (filter Q d)))
      \<le> length (concat (map snd d))" for P and Q :: "string \<times> string list \<Rightarrow> bool"
    by (induction d) (auto intro: add_mono length_filter_le trans_le_add2)
  then show ?thesis unfolding rare_items_def Let_def .
qed

lemma baseline_phase:
  assumes "applyBaseline env n host sc d progs m = (m', drift)" and "upserting env n m"
    and "n + length (concat (map snd d)) \<le> k"
  shows "phase_ok env k (h_id host) (s_id sc) m m' \<and>
    (baselines m (h_id host) \<noteq> None \<longrightarrow> baselines m' = baselines m) \<and> inventories m' = inventories m"
proof (cases "d = []")
  case True
  with assms upserting_later [of env n m k] show ?thesis by (simp add: applyBaseline_def phase_ok_def)
next
  case d: False
  show ?thesis
  proof (cases "baselines m (h_id host)")
    case None
    have "upserting env k m" by (rule upserting_later [OF assms(2)]) (use assms(3) in simp)
    with None d assms(1) show ?thesis
      by (auto simp: applyBaseline_def GetBaseline_def get_or_def SaveBaseline_def Let_def phase_ok_def)
  next
    case (Some base)
    let ?xs = "map (\<lambda>(cat, it). (drift_observation (h_id host) (s_id sc) (s_started_at sc) progs cat it, 10 :: int))
      (drift_items (b_digest base) d)"
    obtain s where e: "upsert_each env n ?xs m = (m', s)"
      using assms(1) d Some by (auto simp: applyBaseline_def GetBaseline_def get_or_def split: prod.splits)
    have len: "n + length ?xs \<le> k" using assms(3) length_drift_items [of "b_digest base" d] by simp
    from phase_ok_batch(1) [OF e drift_batch assms(2) len]
      only_findings_fields [OF conjunct1 [OF upsert_each_effect [OF e drift_batch assms(2)]]]
    show ?thesis by simp
  qed
qed

lemma rarity_phase:
  assumes "applyRarity env n host sc d m = (m', score)" and "upserting env n m"
    and "n + length (concat (map snd d)) \<le> k"
  shows "phase_ok env k (h_id host) (s_id sc) m m' \<and> baselines m' = baselines m"
proof (cases "m' = m")
  case True
  with upserting_later [OF assms(2), of k] assms(3) show ?thesis by (simp add: phase_ok_def)
next
  case False
  then obtain cohort c f s where e: "upsert_each env n (map (\<lambda>(cat, it). (rare_observation (h_id host)
      (s_id sc) c (length cohort) cat it (f cat it), 5)) (rare_items cohort d)) m = (m', s)"
    using assms(1) unfolding applyRarity_def Let_def by (auto split: if_splits prod.splits)
  have len: "n + length (rare_items cohort d) \<le> k" using assms(3) length_rare_items [of cohort d] by simp
  from phase_ok_batch(1) [OF e rare_batch assms(2)] len
    only_findings_fields [OF conjunct1 [OF upsert_each_effect [OF e rare_batch assms(2)]]]
  show ?thesis by simp
qed

lemma reuse_phase:
  assumes "applyCredentialReuse env n host sc inve m = (m', score)" and "upserting env n m"
  shows "\<exists>k. phase_ok env k (h_id host) (s_id sc) m m'" and "baselines m' = baselines m"
proof -
  define m1 where "m1 = fst (SaveInventory (ue_now (se_upsert env n))
    \<lparr>i_host_id = h_id host, i_items = inve, i_updated_at = 0\<rparr> m)"
  have m1: "m1 = m\<lparr>inventories := inventories m1\<rparr>" by (simp add: m1_def SaveInventory_def Let_def)
  obtain xs s where e: "upsert_each env n xs m1 = (m', s)" and b: "scan_batch (h_id host) (s_id sc) xs"
    using assms(1) reuse_batch unfolding applyCredentialReuse_def Let_def m1_def [symmetric]
    by (auto split: prod.splits)
  have up: "upserting env n m1" and hosts: "hosts m1 = hosts m" "scans m1 = scans m" "baselines m1 = baselines m"
    and rec: "recorded h s' key m1 = recorded h s' key m" for h s' key
    using assms(2) by (subst m1, simp)+
  from phase_ok_batch(1) [OF e b up order_refl]
  show "\<exists>k. phase_ok env k (h_id host) (s_id sc) m m'" unfolding phase_ok_def hosts rec by blast
  show "baselines m' = baselines m"
    using only_findings_fields(3) [OF conjunct1 [OF upsert_each_effect [OF e b up]]] hosts by simp
qed

lemma findings_phase:
  assumes "upserting env n m"
  shows "\<exists>m' k risk'. store_findings env idx hostID scanID fs n risk m = (m', Inr (k, risk')) \<and>
    k \<le> n + length fs \<and> phase_ok env k hostID scanID m m' \<and> baselines m' = baselines m \<and>
    (\<forall>f \<in> set fs. idx (fi_rule_id f) \<noteq> None \<longrightarrow> recorded hostID scanID (fi_dedup_key f) m')"
  using assms
proof (induction fs arbitrary: n risk m)
  case Nil
  then show ?case by (simp add: phase_ok_def)
next
  case (Cons f fs)
  show ?case
  proof (cases "idx (fi_rule_id f)")
    case None
    from Cons.IH [OF Cons.prems, of risk] None show ?thesis by (auto intro: le_SucI)
  next
    case (Some meta)
    let ?ob = "enriched hostID scanID meta f"
    have ob: "o_id ?ob = []" "o_host_id ?ob = hostID" "o_scan_id ?ob = scanID" "o_dedup_key ?ob = fi_dedup_key f"
      by (simp_all add: enriched_def)
    obtain m1 x where up: "upsert env n ?ob m = (m1, Inr x)" and g: "upserting env (Suc n) m1"
      using upsert_good [OF Cons.prems ob(1)] by blast
    note eff = upsert_effect [OF up, unfolded ob]
    have p1: "phase_ok env (Suc n) hostID scanID m m1"
      using g only_findings_fields [OF eff(1)] eff(2) by (simp add: phase_ok_def)
    from Cons.IH [OF g, of "wrap64 (risk + ru_score meta)"] obtain m' k risk' where
      ih: "store_findings env idx hostID scanID fs (Suc n) (wrap64 (risk + ru_score meta)) m1 = (m', Inr (k, risk'))"
        "k \<le> Suc n + length fs" "phase_ok env k hostID scanID m1 m'" "baselines m' = baselines m1"
        "\<forall>f \<in> set fs. idx (fi_rule_id f) \<noteq> None \<longrightarrow> recorded hostID scanID (fi_dedup_key f) m'" by blast
    have "recorded hostID scanID (fi_dedup_key f) m'" using eff(3) [OF refl] ih(3) by (simp add: phase_ok_def)
    with ih phase_ok_trans [OF p1 ih(3)] Some up only_findings_fields(3) [OF eff(1)] show ?thesis by simp
  qed
qed

text \<open>The store and the scan row before \<open>finish\<close>, when every phase succeeds.\<close>

lemma ingest_phases:
  assumes up: "upserting env 0 m"
  shows "\<exists>m4 risk. ingest_result env idx host sc res m =
      finish_scan env host (sc\<lparr>s_probe_version := sr_probe_version res,
          s_risk_score := (if risk > 100 then 100 else risk)\<rparr>)
        (if sr_collector_errors res = [] then ScanOK else ScanPartial) (Join ''; '' (sr_collector_errors res))
        (updateHostFromResult env host res m4) \<and>
    hosts m4 = hosts m \<and> (baselines m (h_id host) \<noteq> None \<longrightarrow> baselines m4 = baselines m) \<and>
    (\<forall>f \<in> set (sr_findings res). idx (fi_rule_id f) \<noteq> None \<longrightarrow>
       recorded (h_id host) (s_id sc) (fi_dedup_key f) m4)"
proof -
  let ?sc = "sc\<lparr>s_probe_version := sr_probe_version res\<rparr>"
  obtain m1 n risk where f: "store_findings env idx (h_id host) (s_id ?sc) (sr_findings res) 0 0 m = (m1, Inr (n, risk))"
    "n \<le> length (sr_findings res)" and p1: "phase_ok env n (h_id host) (s_id sc) m m1"
    and b1: "baselines m1 = baselines m"
    and rec: "\<forall>f \<in> set (sr_findings res). idx (fi_rule_id f) \<noteq> None \<longrightarrow>
      recorded (h_id host) (s_id sc) (fi_dedup_key f) m1"
    using findings_phase [OF up, of idx "h_id host" "s_id sc" "sr_findings res" 0] by auto
  obtain inve d where td: "takeInventory (sr_state_digest res) = (inve, d)" by fastforce
  let ?k = "length (sr_findings res) + length (concat (map snd d))"
  obtain m2 drift where a2: "applyBaseline env n host ?sc d (sr_bpf_programs res) m1 = (m2, drift)" by fastforce
  obtain m3 rare where a3: "applyRarity env ?k host ?sc d m2 = (m3, rare)" by fastforce
  obtain m4 reuse where a4: "applyCredentialReuse env (?k + length (concat (map snd d))) host ?sc inve m3 = (m4, reuse)"
    by fastforce
  have p2: "phase_ok env ?k (h_id host) (s_id sc) m1 m2 \<and>
      (baselines m1 (h_id host) \<noteq> None \<longrightarrow> baselines m2 = baselines m1)"
    using baseline_phase [OF a2, of ?k] p1 f(2) by (simp add: phase_ok_def)
  have p3: "phase_ok env (?k + length (concat (map snd d))) (h_id host) (s_id sc) m2 m3 \<and> baselines m3 = baselines m2"
    using rarity_phase [OF a3, of "?k + length (concat (map snd d))"] p2 by (simp add: phase_ok_def)
  then obtain j where p4: "phase_ok env j (h_id host) (s_id sc) m3 m4" "baselines m4 = baselines m3"
    using reuse_phase [OF a4] by (auto simp: phase_ok_def)
  show ?thesis
  proof (rule exI [of _ m4], rule exI [of _ "wrap64 (risk + drift + rare + reuse)"], intro conjI)
    show "hosts m4 = hosts m" using p1 p2 p3 p4 by (simp add: phase_ok_def)
    show "baselines m (h_id host) \<noteq> None \<longrightarrow> baselines m4 = baselines m" using b1 p2 p3 p4 by simp
    show "\<forall>f \<in> set (sr_findings res). idx (fi_rule_id f) \<noteq> None \<longrightarrow>
       recorded (h_id host) (s_id sc) (fi_dedup_key f) m4"
      using rec p2 p3 p4 by (simp add: phase_ok_def)
  qed (simp add: ingest_result_def Let_def f(1) [simplified] td a2 a3 a4)
qed

lemma finish_not_failed:
  assumes "status \<noteq> ScanFailed"
  shows "\<exists>m' sc'. finish_scan env host sc status msg m = (m', sc') \<and> hosts m' = hosts m \<and>
    baselines m' = baselines m \<and> (\<forall>h s key. recorded h s key m' = recorded h s key m) \<and>
    s_status sc' = status \<and> s_error sc' = msg \<and> s_risk_score sc' = s_risk_score sc"
  using assms by (simp add: finish_scan_def Let_def UpdateScan_def split: option.split)

lemma host_goes_online:
  "baselines (updateHostFromResult env host res m) = baselines m \<and>
   (\<forall>h s key. recorded h s key (updateHostFromResult env host res m) = recorded h s key m) \<and>
   (case hosts m (h_id host) of None \<Rightarrow> hosts (updateHostFromResult env host res m) = hosts m
    | Some h \<Rightarrow> \<exists>h'. hosts (updateHostFromResult env host res m) = (hosts m)(h_id host \<mapsto> h') \<and>
        h_status h' = StatusOnline \<and> h_last_seen h' = Some (se_online env))"
proof (cases "hosts m (h_id host)")
  case None
  then show ?thesis by (simp add: updateHostFromResult_def SetHostOnline_def)
next
  case (Some h)
  then obtain h' where "updateHostFromResult env host res m = m\<lparr>hosts := (hosts m)(h_id host \<mapsto> h')\<rparr>"
    "h_status h' = StatusOnline" "h_last_seen h' = Some (se_online env)"
    by (auto simp: updateHostFromResult_def SetHostOnline_def Let_def)
  with Some show ?thesis by auto
qed



end
