(* ===== verification/SensorDeploy.thy ===== *)
theory SensorDeploy
  imports ScanRunner
begin

text \<open>
  Enabling and disabling the sensor of a host (\<open>internal/scan/runner.go\<close>,
  \<open>EnableSensor\<close> and \<open>DisableSensor\<close>): the preconditions, the token that is
  minted before the deployment, the rotation after it, and the row of the host that is written back.
\<close>

section \<open>Enabling and disabling the sensor\<close>

text \<open>
  \<open>deploy\<close> and \<open>stop\<close> are the SSH sessions: they give the store as it is when they end (the
  session learns a host key through \<open>SetHostSSHHostKey\<close>) and an error text, if any.
\<close>

record sensor_config =
  sb_binaries :: "string \<Rightarrow> bool"
  sb_policy_size :: nat
  sb_transport :: "(host \<Rightarrow> memory \<Rightarrow> string option) option"

text \<open>\<open>strings.ToUpper\<close> on the ASCII letters.\<close>

definition upper_char :: "char \<Rightarrow> char" where
  "upper_char c = (let n = of_char c :: nat in if 97 \<le> n \<and> n \<le> 122 then char_of (n - 32) else c)"

definition ToUpper :: "string \<Rightarrow> string" where
  "ToUpper s = map upper_char s"

datatype sensor_error = NotConfigured string | SensorFailed string

definition enable_precondition :: "sensor_config \<Rightarrow> host \<Rightarrow> memory \<Rightarrow> sensor_error option" where
  "enable_precondition cfg host m =
     (let arch = (if h_arch host = [] then ''amd64'' else h_arch host) in
      if \<not> sb_binaries cfg arch
      then Some (NotConfigured (''no sensor binary for arch '' @ dquoted arch @
                   '' (set BLADEDR_SENSOR_LINUX_'' @ ToUpper arch @ '')''))
      else if sb_policy_size cfg = 0 then Some (NotConfigured ''no policy bundle configured (set BLADEDR_POLICY_DIR)'')
      else (case sb_transport cfg of
              None \<Rightarrow> Some (NotConfigured ''sensor deploy not available (no SSH transport)'')
            | Some t \<Rightarrow> map_option SensorFailed (t host m)))"

definition EnableSensor ::
  "sensor_config \<Rightarrow> (memory \<Rightarrow> memory \<times> string option) \<Rightarrow> (string \<Rightarrow> string) \<Rightarrow> string \<Rightarrow> string \<Rightarrow>
   string list \<Rightarrow> go_time \<Rightarrow> host \<Rightarrow> memory \<Rightarrow> memory \<times> sensor_error option" where
  "EnableSensor cfg deploy tokenDigest rawToken uuid ks now host m =
     (case enable_precondition cfg host m of Some e \<Rightarrow> (m, Some e) | None \<Rightarrow>
      (case CreateSensorToken uuid now
              \<lparr>t_id = [], t_host_id = h_id host, t_token_hash = tokenDigest rawToken, t_created_at = 0,
               t_expires_at = Some (now + 90 * 24 * Hour), t_revoked_at = None\<rparr> m of
         (m, Inl e) \<Rightarrow> (m, Some (SensorFailed (''create per-host sensor credential: '' @ store_error_text e)))
       | (m, Inr credential) \<Rightarrow>
           (case deploy m of
              (m, Some e) \<Rightarrow> (fst (RevokeSensorToken ks now (h_id host) (t_id credential) m), Some (SensorFailed e))
            | (m, None) \<Rightarrow>
                (case RevokeOtherSensorTokens now (h_id host) (t_id credential) m of
                   (m, Inl e) \<Rightarrow> (m, Some (SensorFailed (''revoke superseded sensor credentials: '' @ store_error_text e)))
                 | (m, Inr _) \<Rightarrow>
                     (case UpdateHost (host\<lparr>h_mode := ''scan_plus_sensor''\<rparr>) m of
                        (m, Inl e) \<Rightarrow> (m, Some (SensorFailed (store_error_text e)))
                      | (m, Inr _) \<Rightarrow> (m, None))))))"

definition DisableSensor ::
  "sensor_config \<Rightarrow> (memory \<Rightarrow> memory) \<Rightarrow> go_time \<Rightarrow> host \<Rightarrow> memory \<Rightarrow> memory \<times> sensor_error option" where
  "DisableSensor cfg stop now host m =
     (let m = (case sb_transport cfg of
                 None \<Rightarrow> m
               | Some t \<Rightarrow> (case t host m of Some e \<Rightarrow> m | None \<Rightarrow> stop m))
      in (case RevokeSensorTokens now (h_id host) m of
            (m, Inl e) \<Rightarrow> (m, Some (SensorFailed (store_error_text e)))
          | (m, Inr _) \<Rightarrow>
              (case UpdateHost (host\<lparr>h_mode := ''scan_only''\<rparr>) m of
                 (m, Inl e) \<Rightarrow> (m, Some (SensorFailed (store_error_text e)))
               | (m, Inr _) \<Rightarrow> (m, None))))"

section \<open>Deploying the sensor\<close>

definition issued_token :: "string \<Rightarrow> string \<Rightarrow> string \<Rightarrow> go_time \<Rightarrow> sensor_token" where
  "issued_token hostID hash uuid now = \<lparr>t_id = uuid, t_host_id = hostID, t_token_hash = hash,
     t_created_at = or_default_time 0 now, t_expires_at = Some (now + 90 * 24 * Hour), t_revoked_at = None\<rparr>"

lemma EnableSensor_eq:
  assumes "enable_precondition cfg host m = None" and "hosts m (h_id host) \<noteq> None"
    and "m1 = m\<lparr>sensorTok := (sensorTok m)(dig raw \<mapsto> issued_token (h_id host) (dig raw) uuid now)\<rparr>"
  shows "EnableSensor cfg deploy dig raw uuid ks now host m = (case deploy m1 of
       (m, Some e) \<Rightarrow> (fst (RevokeSensorToken ks now (h_id host) uuid m), Some (SensorFailed e))
     | (m, None) \<Rightarrow> (case UpdateHost (host\<lparr>h_mode := ''scan_plus_sensor''\<rparr>)
                             (fst (RevokeOtherSensorTokens now (h_id host) uuid m)) of
           (m, Inl e) \<Rightarrow> (m, Some (SensorFailed (store_error_text e)))
         | (m, Inr _) \<Rightarrow> (m, None)))"
proof -
  have "CreateSensorToken uuid now \<lparr>t_id = [], t_host_id = h_id host, t_token_hash = dig raw, t_created_at = 0,
      t_expires_at = Some (now + 90 * 24 * Hour), t_revoked_at = None\<rparr> m =
      (m1, Inr (issued_token (h_id host) (dig raw) uuid now))"
    using assms(2,3) by (auto simp: CreateSensorToken_def issued_token_def Let_def)
  moreover have "t_id (issued_token (h_id host) (dig raw) uuid now) = uuid" by (simp add: issued_token_def)
  ultimately show ?thesis unfolding EnableSensor_def assms(1) option.case
    by (simp only: prod.case sum.case RevokeOtherSensorTokens_def fst_conv)
qed

text \<open>Revoking all tokens but the new one, and revoking the new one.\<close>

lemma others_revoked_valid:
  assumes "sensorTok m1 = tk(hash \<mapsto> issued_token hostID hash uuid now)" and "tk hash = None"
    and "\<forall>k t. tk k = Some t \<longrightarrow> t_id t \<noteq> uuid"
  shows "SensorTokenValid t i h (fst (RevokeOtherSensorTokens now hostID uuid m1)) \<longleftrightarrow>
    (if i = hostID then h = hash \<and> t < now + 90 * 24 * Hour
     else (\<exists>x. tk h = Some x \<and> t_host_id x = i \<and> t_revoked_at x = None \<and> (\<forall>e. t_expires_at x = Some e \<longrightarrow> t < e)))"
proof -
  have id: "t_id x \<noteq> uuid" if "tk h = Some x" for x using assms(3) that by blast
  let ?m = "fst (RevokeOtherSensorTokens now hostID uuid m1)"
  have r: "sensorTok ?m h = (if h = hash then Some (issued_token hostID hash uuid now)
       else map_option (\<lambda>x. if t_host_id x = hostID then revoked now x else x) (tk h))"
    using id by (cases "tk h") (simp_all add: RevokeOtherSensorTokens_def assms(1) issued_token_def)
  have dead: "t_revoked_at (revoked now x) \<noteq> None" "t_host_id (revoked now x) = t_host_id x" for x
    by (simp_all add: revoked_def split: option.splits)
  show ?thesis
  proof (cases "h = hash")
    case True
    then show ?thesis unfolding SensorTokenValid_iff r using assms(2) by (cases "i = hostID") (simp_all add: issued_token_def)
  next
    case False
    then show ?thesis unfolding SensorTokenValid_iff r
      by (cases "tk h"; cases "i = hostID") (auto simp: dead)
  qed
qed

lemma find_unique:
  assumes "x \<in> set xs" and "P x" and "\<And>y. y \<in> set xs \<Longrightarrow> P y \<Longrightarrow> y = x"
  shows "find P xs = Some x"
  using assms
proof (induction xs)
  case (Cons a xs)
  show ?case
  proof (cases "P a")
    case True
    have "a = x" by (rule Cons.prems(3)) (simp_all add: True)
    with True show ?thesis by simp
  next
    case False
    then have "x \<in> set xs" using Cons.prems(1,2) by auto
    with False Cons.IH Cons.prems(2,3) show ?thesis by (metis find.simps(2) list.set_intros(2))
  qed
qed simp

lemma new_revoked_valid:
  assumes "sensorTok m1 = tk(hash \<mapsto> issued_token hostID hash uuid now)" and "tk hash = None"
    and "\<forall>k t. tk k = Some t \<longrightarrow> t_id t \<noteq> uuid" and "iterates ks (sensorTok m1)"
  shows "SensorTokenValid t i h (fst (RevokeSensorToken ks now hostID uuid m1)) \<longleftrightarrow>
      (\<exists>x. tk h = Some x \<and> t_host_id x = i \<and> t_revoked_at x = None \<and> (\<forall>e. t_expires_at x = Some e \<longrightarrow> t < e))"
    and "hosts (fst (RevokeSensorToken ks now hostID uuid m1)) = hosts m1"
proof -
  let ?n = "issued_token hostID hash uuid now"
  have "find (\<lambda>(k, t). t_id t = uuid \<and> t_host_id t = hostID) (entries ks (sensorTok m1)) = Some (hash, ?n)"
  proof (rule find_unique)
    show "(hash, ?n) \<in> set (entries ks (sensorTok m1))" using iterates_entries [OF assms(4)] assms(1) by simp
    show "y = (hash, ?n)" if y: "y \<in> set (entries ks (sensorTok m1))" "case y of (k, t) \<Rightarrow> t_id t = uuid \<and> t_host_id t = hostID" for y
    proof -
      obtain k x where k: "y = (k, x)" by fastforce
      have "sensorTok m1 k = Some x" using y(1) unfolding k iterates_entries [OF assms(4)] .
      moreover have "t_id x = uuid" using y(2) unfolding k by simp
      ultimately show ?thesis unfolding k using assms(1,3) by (cases "k = hash") auto
    qed
  qed (simp add: issued_token_def)
  then have r: "RevokeSensorToken ks now hostID uuid m1 = (m1\<lparr>sensorTok := tk(hash \<mapsto> revoked now ?n)\<rparr>, Inr ())"
    by (simp add: RevokeSensorToken_def assms(1))
  show "SensorTokenValid t i h (fst (RevokeSensorToken ks now hostID uuid m1)) \<longleftrightarrow>
      (\<exists>x. tk h = Some x \<and> t_host_id x = i \<and> t_revoked_at x = None \<and> (\<forall>e. t_expires_at x = Some e \<longrightarrow> t < e))"
    using assms(2) unfolding r by (auto simp: SensorTokenValid_iff revoked_def issued_token_def)
  show "hosts (fst (RevokeSensorToken ks now hostID uuid m1)) = hosts m1" unfolding r by simp
qed

text \<open>
  Enabling the sensor rotates the credential without a gap, and writes back a stale host. If
  the deployment succeeds, the new token is valid for ninety days and it is the only valid one of
  the host; if it fails, exactly the tokens that were valid before still are. Tokens of other hosts
  keep their validity. In the success case the host's row is the copy the handler read before the
  session started, with the mode changed: whatever was written to the row meanwhile, the SSH host
  key the session itself pinned included, is lost.
\<close>

theorem sensor_rotation:
  assumes pre: "enable_precondition cfg host m = None" and host: "hosts m (h_id host) \<noteq> None"
    and tok: "sensorTok m (dig raw) = None" and uuid: "\<forall>k t. sensorTok m k = Some t \<longrightarrow> t_id t \<noteq> uuid"
    and ks: "iterates ks ((sensorTok m)(dig raw \<mapsto> issued_token (h_id host) (dig raw) uuid now))"
    and f: "f (hosts m) (h_id host) = Some h'"
  shows "case EnableSensor cfg (\<lambda>m. (m\<lparr>hosts := f (hosts m)\<rparr>, err)) dig raw uuid ks now host m of (m', res) \<Rightarrow>
    (case err of
       None \<Rightarrow> res = None \<and>
         (\<forall>t hash. SensorTokenValid t (h_id host) hash m' \<longleftrightarrow> hash = dig raw \<and> t < now + 90 * 24 * Hour) \<and>
         hosts m' = (f (hosts m))(h_id host \<mapsto> host\<lparr>h_mode := ''scan_plus_sensor''\<rparr>)
     | Some e \<Rightarrow> res = Some (SensorFailed e) \<and>
         (\<forall>t hash. SensorTokenValid t (h_id host) hash m' \<longleftrightarrow> SensorTokenValid t (h_id host) hash m) \<and>
         hosts m' = f (hosts m)) \<and>
    (\<forall>t i hash. i \<noteq> h_id host \<longrightarrow> SensorTokenValid t i hash m' = SensorTokenValid t i hash m)"
proof -
  define m1 where "m1 = m\<lparr>sensorTok := (sensorTok m)(dig raw \<mapsto> issued_token (h_id host) (dig raw) uuid now)\<rparr>"
  have e: "EnableSensor cfg d dig raw uuid ks now host m = (case d m1 of
       (m, Some e) \<Rightarrow> (fst (RevokeSensorToken ks now (h_id host) uuid m), Some (SensorFailed e))
     | (m, None) \<Rightarrow> (case UpdateHost (host\<lparr>h_mode := ''scan_plus_sensor''\<rparr>)
                             (fst (RevokeOtherSensorTokens now (h_id host) uuid m)) of
           (m, Inl e) \<Rightarrow> (m, Some (SensorFailed (store_error_text e)))
         | (m, Inr _) \<Rightarrow> (m, None)))" for d
    using pre host m1_def by (rule EnableSensor_eq)
  let ?m = "m1\<lparr>hosts := f (hosts m)\<rparr>"
  have hm: "hosts m1 = hosts m" by (simp add: m1_def)
  have t1: "sensorTok ?m = (sensorTok m)(dig raw \<mapsto> issued_token (h_id host) (dig raw) uuid now)" by (simp add: m1_def)
  show ?thesis
  proof (cases err)
    case None
    define m2 where "m2 = fst (RevokeOtherSensorTokens now (h_id host) uuid ?m)"
    have h2: "hosts m2 = f (hosts m)" by (simp add: m2_def RevokeOtherSensorTokens_def)
    have up: "UpdateHost (host\<lparr>h_mode := ''scan_plus_sensor''\<rparr>) m2 =
        (m2\<lparr>hosts := (f (hosts m))(h_id host \<mapsto> host\<lparr>h_mode := ''scan_plus_sensor''\<rparr>)\<rparr>, Inr ())"
      using f h2 by (simp add: UpdateHost_def)
    have "EnableSensor cfg (\<lambda>m. (m\<lparr>hosts := f (hosts m)\<rparr>, err)) dig raw uuid ks now host m =
        (m2\<lparr>hosts := (f (hosts m))(h_id host \<mapsto> host\<lparr>h_mode := ''scan_plus_sensor''\<rparr>)\<rparr>, None)"
      by (simp only: e hm None prod.case option.case sum.case m2_def [symmetric] up)
    then show ?thesis
      using others_revoked_valid [OF t1 tok uuid] None
      by (simp add: SensorTokenValid_iff m2_def [symmetric])
  next
    case (Some er)
    then have "EnableSensor cfg (\<lambda>m. (m\<lparr>hosts := f (hosts m)\<rparr>, err)) dig raw uuid ks now host m =
        (fst (RevokeSensorToken ks now (h_id host) uuid ?m), Some (SensorFailed er))"
      by (simp only: e hm prod.case option.case)
    with new_revoked_valid [OF t1 tok uuid] ks Some show ?thesis
      by (simp add: t1 SensorTokenValid_iff)
  qed
qed

theorem sensor_rotation_witness:
  "\<exists>m'. EnableSensor \<lparr>sb_binaries = \<lambda>a. True, sb_policy_size = 1, sb_transport = Some (\<lambda>h m. None)\<rparr>
      (\<lambda>m. (m\<lparr>hosts := (\<lambda>t. t(''h1'' := map_option (h_ssh_host_key_update (\<lambda>_. ''learned'')) (t ''h1''))) (hosts m)\<rparr>, None))
      (\<lambda>t. CHR ''#'' # t) ''raw'' ''u1'' [''#raw''] 50 (demo_host\<lparr>h_id := ''h1''\<rparr>) demo_s1 = (m', None) \<and>
    SensorTokenValid 60 ''h1'' ''#raw'' m' \<and> map_option h_ssh_host_key (hosts m' ''h1'') = Some []"
proof -
  let ?cfg = "\<lparr>sb_binaries = \<lambda>a. True, sb_policy_size = 1, sb_transport = Some (\<lambda>(h :: host) (m :: memory). None)\<rparr>"
  let ?f = "\<lambda>t. t(''h1'' := map_option (h_ssh_host_key_update (\<lambda>_. ''learned'')) (t ''h1''))"
  let ?h = "demo_host\<lparr>h_id := ''h1''\<rparr>"
  have pre: "enable_precondition ?cfg ?h demo_s1 = None" by (simp add: enable_precondition_def)
  have host: "hosts demo_s1 (h_id ?h) \<noteq> None" and tok: "sensorTok demo_s1 = Map.empty"
    and f: "\<exists>x. ?f (hosts demo_s1) (h_id ?h) = Some x" by (simp_all add: demo_defs)
  obtain x where x: "?f (hosts demo_s1) (h_id ?h) = Some x" using f by blast
  have t: "sensorTok demo_s1 (CHR ''#'' # ''raw'') = None" and u: "\<forall>k t. sensorTok demo_s1 k = Some t \<longrightarrow> t_id t \<noteq> ''u1''"
    and ks: "iterates [''#raw''] ((sensorTok demo_s1)(CHR ''#'' # ''raw'' \<mapsto>
      issued_token (h_id ?h) (CHR ''#'' # ''raw'') ''u1'' 50))"
    by (simp_all add: tok iterates_def)
  obtain m' res where e: "EnableSensor ?cfg (\<lambda>m. (m\<lparr>hosts := ?f (hosts m)\<rparr>, None)) (\<lambda>t. CHR ''#'' # t) ''raw'' ''u1''
      [''#raw''] 50 ?h demo_s1 = (m', res)" by fastforce
  from sensor_rotation [where err = None and dig = "\<lambda>t. CHR ''#'' # t" and f = ?f,
      OF pre host t u ks x, unfolded e prod.case option.case]
  show ?thesis using e by (simp add: demo_host_def)
qed

end
