(* ===== verification/CredentialReuse.thy ===== *)
theory CredentialReuse
  imports ScanRunner
begin

text \<open>
  What the cross-host rules of \<open>internal/scan/reuse.go\<close> report: exactly the credentials this host
  shares with another inventory, each once, and the protection state they give a private key.
\<close>

section \<open>Holders\<close>

text \<open>The items of an inventory that name an identifier, and whether there are any.\<close>

definition naming :: "string \<Rightarrow> string \<Rightarrow> bool" where
  "naming i it = (case item_parts it of None \<Rightarrow> False | Some (_, i', _) \<Rightarrow> i' = i)"

definition naming_items :: "inventory \<Rightarrow> string \<Rightarrow> string \<Rightarrow> string list" where
  "naming_items inve category i = filter (naming i) (digest_of (i_items inve) category)"

definition holds :: "inventory \<Rightarrow> string \<Rightarrow> string \<Rightarrow> bool" where
  "holds inve category i \<longleftrightarrow> naming_items inve category i \<noteq> []"

definition held_elsewhere :: "string \<Rightarrow> inventory list \<Rightarrow> string \<Rightarrow> string \<Rightarrow> bool" where
  "held_elsewhere hostID invs category i \<longleftrightarrow> (\<exists>inve \<in> set invs. i_host_id inve \<noteq> hostID \<and> holds inve category i)"

lemma map_filter_set: "y \<in> set (List.map_filter f xs) \<longleftrightarrow> (\<exists>x \<in> set xs. f x = Some y)"
  by (induction xs) (auto simp: List.map_filter_simps split: option.splits)

lemma length_named:
  "length (filter (\<lambda>(_, i', _). i' = i) (List.map_filter item_parts its)) = length (filter (naming i) its)"
  by (induction its) (auto simp: List.map_filter_simps naming_def split: option.splits)

lemma inventory_holder_cases:
  "inventory_holder inve category i = None \<and> \<not> holds inve category i \<or>
   (\<exists>h. inventory_holder inve category i = Some h \<and> ho_host h = i_host_id inve \<and> holds inve category i \<and>
      length (ho_accounts h) = length (naming_items inve category i))"
  using length_named [of i "digest_of (i_items inve) category"]
  by (auto simp: inventory_holder_def holds_def naming_items_def split: list.splits)

lemma inventory_holder_iff: "(\<exists>h. inventory_holder inve category i = Some h) \<longleftrightarrow> holds inve category i"
  using inventory_holder_cases [of inve category i] by auto

lemma accounts_holding:
  "inventory_holder inve category i = Some h \<Longrightarrow> length (ho_accounts h) = length (naming_items inve category i)"
  using inventory_holder_cases [of inve category i] by auto

lemma inventory_holder_host: "inventory_holder inve category i = Some h \<Longrightarrow> ho_host h = i_host_id inve"
  using inventory_holder_cases [of inve category i] by auto

lemma others_empty: "others (index invs category i) hostID names = [] \<longleftrightarrow> \<not> held_elsewhere hostID invs category i"
proof -
  have "(\<exists>h \<in> set (index invs category i). ho_host h \<noteq> hostID) \<longleftrightarrow>
      (\<exists>inve \<in> set invs. \<exists>h. inventory_holder inve category i = Some h \<and> ho_host h \<noteq> hostID)"
    unfolding index_def Bex_def map_filter_set by blast
  also have "\<dots> \<longleftrightarrow> held_elsewhere hostID invs category i"
    unfolding held_elsewhere_def inventory_holder_iff [symmetric] using inventory_holder_host by fastforce
  finally have "held_elsewhere hostID invs category i \<longleftrightarrow>
      filter (\<lambda>h. ho_host h \<noteq> hostID) (index invs category i) \<noteq> []"
    by (auto simp: filter_empty_conv)
  moreover have "sort ys = [] \<longleftrightarrow> ys = []" for ys :: "string list" by (metis length_0_conv length_sort)
  ultimately show ?thesis by (simp add: others_def)
qed

section \<open>The findings\<close>

lemma shared_key_keys:
  "map (\<lambda>(ob, _). o_dedup_key ob) (shared_key hostID scanID i h also) =
   (if also = [] then [] else [''reuse|ssh-key|'' @ i])"
  by (simp add: shared_key_def reuse_observation_def)

lemma shared_hash_keys:
  "map (\<lambda>(ob, _). o_dedup_key ob) (shared_hash hostID scanID i h also) =
   (if also = [] \<and> length (ho_accounts h) < 2 then [] else [''reuse|pwhash|'' @ i])"
  by (simp add: shared_hash_def reuse_observation_def)

lemma private_key_keys:
  "map (\<lambda>(ob, _). o_dedup_key ob) (private_key hostID scanID i h on copies) =
   (if on = [] then [] else [''reuse|privkey-access|'' @ i]) @
   (if copies = [] then [] else [''reuse|privkey-copy|'' @ i])"
  by (simp add: private_key_def reuse_observation_def)

definition own :: "string \<Rightarrow> digest \<Rightarrow> inventory" where
  "own hostID inve = \<lparr>i_host_id = hostID, i_items = inve, i_updated_at = 0\<rparr>"

text \<open>The dedup keys of the findings of one category are those of the identifiers met, in order.\<close>

definition keys_of :: "string list \<Rightarrow> (string \<rightharpoonup> holder) \<Rightarrow> (string \<Rightarrow> holder \<Rightarrow> string list) \<Rightarrow> string list" where
  "keys_of ids m f = concat (map (\<lambda>(i, h). f i h) (entries ids m))"

lemma set_keys_of: "iterates ids m \<Longrightarrow> k \<in> set (keys_of ids m f) \<longleftrightarrow> (\<exists>i h. m i = Some h \<and> k \<in> set (f i h))"
proof -
  assume i: "iterates ids m"
  have "k \<in> set (keys_of ids m f) \<longleftrightarrow> (\<exists>i h. (i, h) \<in> set (entries ids m) \<and> k \<in> set (f i h))"
    by (force simp: keys_of_def)
  then show ?thesis by (simp add: iterates_entries [OF i])
qed

lemma distinct_keys_of:
  assumes "distinct ids" and "\<And>i h. distinct (f i h)"
    and "\<And>i h j g k. k \<in> set (f i h) \<Longrightarrow> k \<in> set (f j g) \<Longrightarrow> i = j"
  shows "distinct (keys_of ids m f)"
  using assms(1)
proof (induction ids)
  case (Cons i ids)
  have "k \<notin> set (keys_of ids m f)" if "k \<in> set (f i h)" for k h
  proof
    assume "k \<in> set (keys_of ids m f)"
    then obtain j g where "(j, g) \<in> set (entries ids m)" "k \<in> set (f j g)" by (auto simp: keys_of_def)
    then have "j \<in> set ids" "i = j" using assms(3) [OF that] by (auto simp: in_entries_iff)
    with Cons.prems show False by simp
  qed
  with Cons assms(2) show ?case
    by (cases "m i") (auto simp: keys_of_def entries_def List.map_filter_simps)
qed (simp add: keys_of_def entries_def List.map_filter_simps)

section \<open>The report is exact\<close>

lemma map_concat_entries:
  "map g (concat (map (\<lambda>(i, h). f i h) (entries ids m))) = keys_of ids m (\<lambda>i h. map g (f i h))"
  by (simp add: keys_of_def map_concat comp_def case_prod_unfold)

lemma reuse_keys:
  "map (\<lambda>(ob, _). o_dedup_key ob) (reuse_findings ids hostID scanID inve invs names) =
   keys_of (ids DigestAuthorizedKeys) (inventory_holder (own hostID inve) DigestAuthorizedKeys)
     (\<lambda>i h. if held_elsewhere hostID invs DigestAuthorizedKeys i then [''reuse|ssh-key|'' @ i] else []) @
   keys_of (ids DigestPasswordHashes) (inventory_holder (own hostID inve) DigestPasswordHashes)
     (\<lambda>i h. if held_elsewhere hostID invs DigestPasswordHashes i \<or> 2 \<le> length (ho_accounts h)
            then [''reuse|pwhash|'' @ i] else []) @
   keys_of (ids DigestPrivateKeys) (inventory_holder (own hostID inve) DigestPrivateKeys)
     (\<lambda>i h. (if held_elsewhere hostID invs DigestAuthorizedKeys i then [''reuse|privkey-access|'' @ i] else []) @
            (if held_elsewhere hostID invs DigestPrivateKeys i then [''reuse|privkey-copy|'' @ i] else []))"
  unfolding reuse_findings_def Let_def own_def map_append map_concat_entries
    shared_key_keys shared_hash_keys private_key_keys others_empty
  by (auto intro!: arg_cong2 [where f = "(@)"] arg_cong [where f = "keys_of _ _"] ext simp: not_le)

text \<open>
  The cross-host rules report exactly what this host shares, each once. Given orders that meet
  every identifier of the host's own inventory: the findings have different keys; a shared SSH key
  is reported iff an account here and an inventory of another host both authorize it; a shared
  password hash iff another host or a second account here has it; a private key that grants access
  iff it is stored here and authorized on another host; a copied one iff it is stored on both.
\<close>

theorem reuse_report_exact:
  assumes "\<forall>cat \<in> {DigestAuthorizedKeys, DigestPasswordHashes, DigestPrivateKeys}.
      iterates (ids cat) (inventory_holder (own hostID inve) cat)"
    and "keys = map (\<lambda>(ob, _). o_dedup_key ob) (reuse_findings ids hostID scanID inve invs names)"
  shows "distinct keys \<and>
    (\<forall>i. (''reuse|ssh-key|'' @ i \<in> set keys) =
        (holds (own hostID inve) DigestAuthorizedKeys i \<and> held_elsewhere hostID invs DigestAuthorizedKeys i) \<and>
      (''reuse|pwhash|'' @ i \<in> set keys) =
        (holds (own hostID inve) DigestPasswordHashes i \<and> (held_elsewhere hostID invs DigestPasswordHashes i \<or>
           2 \<le> length (naming_items (own hostID inve) DigestPasswordHashes i))) \<and>
      (''reuse|privkey-access|'' @ i \<in> set keys) =
        (holds (own hostID inve) DigestPrivateKeys i \<and> held_elsewhere hostID invs DigestAuthorizedKeys i) \<and>
      (''reuse|privkey-copy|'' @ i \<in> set keys) =
        (holds (own hostID inve) DigestPrivateKeys i \<and> held_elsewhere hostID invs DigestPrivateKeys i))"
proof -
  have it: "iterates (ids DigestAuthorizedKeys) (inventory_holder (own hostID inve) DigestAuthorizedKeys)"
    "iterates (ids DigestPasswordHashes) (inventory_holder (own hostID inve) DigestPasswordHashes)"
    "iterates (ids DigestPrivateKeys) (inventory_holder (own hostID inve) DigestPrivateKeys)"
    using assms(1) by simp_all
  have d: "distinct (ids DigestAuthorizedKeys)" "distinct (ids DigestPasswordHashes)" "distinct (ids DigestPrivateKeys)"
    using it by (simp_all add: iterates_def)
  have "distinct keys" unfolding assms(2) reuse_keys
    by (auto intro!: distinct_keys_of d simp: set_keys_of it split: if_splits)
  moreover have "k \<in> set keys \<longleftrightarrow>
      (\<exists>i. holds (own hostID inve) DigestAuthorizedKeys i \<and> held_elsewhere hostID invs DigestAuthorizedKeys i \<and>
        k = ''reuse|ssh-key|'' @ i) \<or>
      (\<exists>i. holds (own hostID inve) DigestPasswordHashes i \<and> (held_elsewhere hostID invs DigestPasswordHashes i \<or>
           2 \<le> length (naming_items (own hostID inve) DigestPasswordHashes i)) \<and> k = ''reuse|pwhash|'' @ i) \<or>
      (\<exists>i. holds (own hostID inve) DigestPrivateKeys i \<and> held_elsewhere hostID invs DigestAuthorizedKeys i \<and>
        k = ''reuse|privkey-access|'' @ i) \<or>
      (\<exists>i. holds (own hostID inve) DigestPrivateKeys i \<and> held_elsewhere hostID invs DigestPrivateKeys i \<and>
        k = ''reuse|privkey-copy|'' @ i)" for k
    unfolding assms(2) reuse_keys set_append Un_iff set_keys_of [OF it(1)] set_keys_of [OF it(2)]
      set_keys_of [OF it(3)] inventory_holder_iff [symmetric]
    by (auto simp: accounts_holding split: if_splits)
  ultimately show ?thesis by simp
qed

definition demo_ids :: "string \<Rightarrow> string list" where "demo_ids cat = (if cat = DigestPrivateKeys then [''k''] else [])"

lemma demo_ids_iterate:
  "\<forall>cat \<in> {DigestAuthorizedKeys, DigestPasswordHashes, DigestPrivateKeys}.
     iterates (demo_ids cat) (inventory_holder (own ''h1'' [(''private_keys'', [''a:k:plain''])]) cat)"
  by (auto simp: iterates_def demo_ids_def inventory_holder_def own_def digest_of_def item_parts_def
      DigestAuthorizedKeys_def DigestPasswordHashes_def DigestPrivateKeys_def List.map_filter_simps
      split: list.splits if_splits)

theorem reuse_report_exact_witness:
  "''reuse|privkey-access|k'' \<in> set (map (\<lambda>(ob, _). o_dedup_key ob) (reuse_findings demo_ids ''h1'' ''s''
     [(''private_keys'', [''a:k:plain''])]
     [\<lparr>i_host_id = ''h2'', i_items = [(''authorized_keys'', [''root:k''])], i_updated_at = 0\<rparr>] (\<lambda>_. [])))"
proof -
  have "holds (own ''h1'' [(''private_keys'', [''a:k:plain''])]) DigestPrivateKeys ''k''" by code_simp
  moreover have "held_elsewhere ''h1'' [\<lparr>i_host_id = ''h2'', i_items = [(''authorized_keys'', [''root:k''])],
      i_updated_at = 0\<rparr>] DigestAuthorizedKeys ''k''" by code_simp
  ultimately show ?thesis
    using reuse_report_exact [OF demo_ids_iterate refl, where scanID = "''s''" and names = "\<lambda>_. []"
      and invs = "[\<lparr>i_host_id = ''h2'', i_items = [(''authorized_keys'', [''root:k''])], i_updated_at = 0\<rparr>]"]
    by (metis append_Cons append_Nil)
qed

text \<open>
  A private key without a passphrase may be reported as protected. When one account of a host
  holds a locked copy of a key and a later item of the inventory an open copy of the same key, the
  finding that the key grants access to other hosts has the low severity and the score of a locked
  key, and names \<open>locked\<close> as its protection, whatever the fleet looks like.
\<close>

theorem plain_copy_reported_locked:
  "\<exists>h. inventory_holder (own hostID [(''private_keys'', [''alice:k:locked'', ''bob:k:plain''])]) DigestPrivateKeys ''k'' = Some h \<and>
    ho_accounts h = [''alice'', ''bob''] \<and>
    (case private_key hostID scanID ''k'' h (x # authorizedOn) [] of
       [(ob, _)] \<Rightarrow> o_severity ob = ''low'' \<and> o_score ob = 25 \<and>
         map_of (o_evidence ob) ''protection'' = Some (AnyString ''locked'')
     | _ \<Rightarrow> False)"
  by (simp add: inventory_holder_def own_def digest_of_def item_parts_def DigestPrivateKeys_def
      List.map_filter_simps private_key_def reuse_observation_def)

end
