(* ===== verification/ScanQueue.thy ===== *)
theory ScanQueue
  imports ScanRunner
begin

text \<open>
  The worker of the scan queue (\<open>internal/scan/queue.go\<close>): claim a job, scan its host with the
  lease checked before anything is stored, and complete the job or schedule the next attempt.

  The heartbeat goroutine only renews the lease while the probe runs; what it and other clients do
  to the store meanwhile is part of what the probe's step gives back, and its cancelling of the
  scan is the field \<open>se_cancelled\<close> of the scan's environment.
\<close>

section \<open>Doubling delays\<close>

text \<open>
  The contract of a retry delay: the first one is \<open>base\<close>, each further attempt doubles it up to
  \<open>cap\<close>, and an attempt counter that was never incremented counts as the first.
\<close>

locale doubling =
  fixes delay :: "int \<Rightarrow> duration" and base :: duration and cap :: duration
  assumes base_pos: "0 < base" and base_cap: "base \<le> cap"
    and first: "a \<le> 1 \<Longrightarrow> - (2 ^ 63) < a \<Longrightarrow> delay a = base"
    and later: "1 \<le> a \<Longrightarrow> a < 2 ^ 63 - 1 \<Longrightarrow> delay (a + 1) = min (2 * delay a) cap"
begin

lemma power_form: "int n < 2 ^ 63 - 1 \<Longrightarrow> delay (1 + int n) = min (base * 2 ^ n) cap"
proof (induction n)
  case 0
  then show ?case using base_cap by (simp add: first)
next
  case (Suc n)
  have "delay (1 + int n + 1) = min (2 * delay (1 + int n)) cap" using Suc.prems by (intro later) simp_all
  then show ?case using Suc base_pos base_cap by (simp add: add.commute min_def)
qed

lemma within: "- (2 ^ 63) < a \<Longrightarrow> a < 2 ^ 63 \<Longrightarrow> base \<le> delay a \<and> delay a \<le> cap"
proof (cases "a \<le> 1")
  case False
  assume "a < 2 ^ 63"
  obtain n where a: "a = 1 + int n" using False by (metis add_diff_cancel_left' diff_add_cancel le_cases zero_le_imp_eq_int diff_ge_0_iff_ge add.commute)
  have "base \<le> base * 2 ^ n" using base_pos by (simp add: mult_le_cancel_left1)
  then show ?thesis using power_form [of n] \<open>a < 2 ^ 63\<close> base_cap unfolding a by simp
qed (use first base_cap in auto)

lemma not_shorter:
  assumes "- (2 ^ 63) < a" and "a \<le> b" and "b < 2 ^ 63"
  shows "delay a \<le> delay b"
proof (cases "a \<le> 1")
  case True
  then show ?thesis using first [of a] within [of b] assms by simp
next
  case False
  obtain n k where n: "a = 1 + int n" and k: "b = 1 + int k"
    using False assms(2) by (metis add.commute diff_add_cancel diff_ge_0_iff_ge le_cases order_trans zero_le_imp_eq_int)
  have "base * 2 ^ n \<le> base * 2 ^ k" using assms(2) base_pos n k by (simp add: power_increasing)
  then show ?thesis using power_form [of n] power_form [of k] assms unfolding n k by simp
qed

lemma capped: "cap \<le> base * 2 ^ n \<Longrightarrow> int n < a \<Longrightarrow> a < 2 ^ 63 \<Longrightarrow> delay a = cap"
proof -
  assume c: "cap \<le> base * 2 ^ n" and a: "int n < a" "a < 2 ^ 63"
  have "delay (1 + int n) = cap" using power_form [of n] c a by simp
  moreover have "delay (1 + int n) \<le> delay a" by (rule not_shorter) (use a in auto)
  ultimately show ?thesis using within [of a] a by simp
qed

end

section \<open>The worker\<close>

definition scan_backoff :: "int \<Rightarrow> duration" where
  "scan_backoff attempts =
     (let shift = max (wrap64 (attempts - 1)) 0;
          delay = wrap64 (5 * Second * 2 ^ nat (min shift 6))
      in if delay > 5 * Minute then 5 * Minute else delay)"

record queue_env =
  qe_worker :: string
  qe_lease :: duration
  qe_job_keys :: "string list"
  qe_claim_at :: go_time
  qe_renew_at :: go_time
  qe_retry_from :: go_time
  qe_finish_at :: go_time

definition queue_fail :: "queue_env \<Rightarrow> scan_job \<Rightarrow> string \<Rightarrow> memory \<Rightarrow> unit outcome" where
  "queue_fail q job cause m =
     (let terminal = sj_attempts job \<ge> sj_max_attempts job in
      FailScanJob (qe_finish_at q) (sj_id job) (qe_worker q) cause
        (qe_retry_from q + scan_backoff (sj_attempts job)) terminal m)"

text \<open>What the worker passes to the scan to check, and renew, its lease before storing anything.\<close>

definition validate_owner :: "queue_env \<Rightarrow> scan_job \<Rightarrow> memory \<Rightarrow> memory \<times> string option" where
  "validate_owner q job m =
     (case RenewScanJobLease (qe_renew_at q) (sj_id job) (qe_worker q) (qe_renew_at q + qe_lease q) m of
        (m, Inl e) \<Rightarrow> (m, Some (store_error_text e)) | (m, Inr _) \<Rightarrow> (m, None))"

definition scan_error :: "scan option \<Rightarrow> string option \<Rightarrow> string option" where
  "scan_error sc err =
     (case (sc, err) of
        (Some sc, None) \<Rightarrow> if s_status sc = ScanFailed then Some (''scan failed: '' @ s_error sc) else None
      | _ \<Rightarrow> err)"

text \<open>The answer is whether there was work, and the error the worker logs.\<close>

definition Queue_runOne :: "runner \<Rightarrow> scan_env \<Rightarrow> queue_env \<Rightarrow> memory \<Rightarrow> memory \<times> bool \<times> store_error option" where
  "Queue_runOne rn env q m =
     (let report = (\<lambda>r. case r of (m, Inl e) \<Rightarrow> (m, True, Some e) | (m, Inr _) \<Rightarrow> (m, True, None)) in
      case ClaimScanJob (qe_job_keys q) (qe_worker q) (qe_claim_at q) (qe_lease q) m of
        (m, Inl (ErrNotFound _ _)) \<Rightarrow> (m, False, None)
      | (m, Inl e) \<Rightarrow> (m, False, Some e)
      | (m, Inr job) \<Rightarrow>
          (case GetHost (sj_host_id job) m of
             Inl e \<Rightarrow> report (queue_fail q job (store_error_text e) m)
           | Inr host \<Rightarrow>
               (case run_scan rn env host (sj_trigger job) (Some (validate_owner q job)) m of (m, sc, err) \<Rightarrow>
                (case scan_error sc err of
                   Some cause \<Rightarrow> report (queue_fail q job cause m)
                 | None \<Rightarrow> report (CompleteScanJob (qe_finish_at q) (sj_id job) (qe_worker q)
                                  (case sc of Some sc \<Rightarrow> s_id sc | None \<Rightarrow> []) m)))))"

section \<open>The delay of a scan job\<close>

lemma scan_backoff_less: "- (2 ^ 63) < a \<Longrightarrow> a \<le> 1 \<Longrightarrow> scan_backoff a = 5 * Second"
  by (simp add: scan_backoff_def wrap64_id)

lemma scan_backoff_large: "7 \<le> a \<Longrightarrow> a < 2 ^ 63 \<Longrightarrow> scan_backoff a = 5 * Minute"
  by (simp add: scan_backoff_def wrap64_id min_def Let_def)

lemma scan_backoff_next:
  assumes "1 \<le> a" and "a < 2 ^ 63 - 1"
  shows "scan_backoff (a + 1) = min (2 * scan_backoff a) (5 * Minute)"
proof (cases "7 \<le> a")
  case True
  with assms show ?thesis using scan_backoff_large [of a] scan_backoff_large [of "a + 1"] by simp
next
  case False
  with assms have "a \<in> {1, 2, 3, 4, 5, 6}" by auto
  then show ?thesis by (auto simp: scan_backoff_def wrap64_id min_def)
qed

interpretation sb: doubling scan_backoff "5 * Second" "5 * Minute"
  by unfold_locales (simp_all add: scan_backoff_less scan_backoff_next)

section \<open>What a scan leaves alone\<close>

lemma upsert_jobs [simp]: "scanJobs (fst (upsert env n ob m)) = scanJobs m"
  using only_findings_fields(5) [OF upsert_effect(1), of env n ob m] by (metis prod.collapse)

lemma upsert_each_jobs [simp]: "scanJobs (fst (upsert_each env n xs m)) = scanJobs m"
proof (induction xs arbitrary: n m)
  case (Cons x xs)
  obtain ob pts where x: "x = (ob, pts)" by fastforce
  obtain m1 r where u: "upsert env n ob m = (m1, r)" by fastforce
  have "scanJobs m1 = scanJobs m" using upsert_jobs [of env n ob m] u by simp
  then show ?case using Cons [of "Suc n" m1] unfolding x by (simp add: u case_prod_unfold)
qed simp

lemma store_findings_jobs [simp]: "scanJobs (fst (store_findings env idx h s fs n risk m)) = scanJobs m"
proof (induction fs arbitrary: n risk m)
  case (Cons f fs)
  show ?case
  proof (cases "idx (fi_rule_id f)")
    case (Some meta)
    obtain m1 r where u: "upsert env n (enriched h s meta f) m = (m1, r)" by fastforce
    have "scanJobs m1 = scanJobs m" using upsert_jobs [of env n "enriched h s meta f" m] u by simp
    then show ?thesis using Cons Some by (simp add: u split: sum.splits)
  qed (simp add: Cons)
qed simp

lemma applyBaseline_jobs [simp]: "scanJobs (fst (applyBaseline env n host sc d progs m)) = scanJobs m"
  by (simp add: applyBaseline_def SaveBaseline_def Let_def case_prod_unfold split: sum.split)

lemma applyRarity_jobs [simp]: "scanJobs (fst (applyRarity env n host sc d m)) = scanJobs m"
  by (simp add: applyRarity_def Let_def case_prod_unfold)

lemma applyCredentialReuse_jobs [simp]: "scanJobs (fst (applyCredentialReuse env n host sc inve m)) = scanJobs m"
  by (simp add: applyCredentialReuse_def SaveInventory_def Let_def case_prod_unfold)

lemma finish_scan_jobs [simp]: "scanJobs (fst (finish_scan env host sc status msg m)) = scanJobs m"
  by (simp add: finish_scan_def Let_def UpdateScan_def SetHostUnreachable_def split: option.split)

lemma ingest_result_jobs [simp]: "scanJobs (fst (ingest_result env idx host sc res m)) = scanJobs m"
proof -
  obtain m1 r where f: "store_findings env idx (h_id host) (s_id sc) (sr_findings res) 0 0 m = (m1, r)" by fastforce
  obtain inve d where td: "takeInventory (sr_state_digest res) = (inve, d)" by fastforce
  have j1: "scanJobs m1 = scanJobs m" using store_findings_jobs f by (metis fst_conv)
  have up: "scanJobs (updateHostFromResult env host res m') = scanJobs m'" for m'
    by (simp add: updateHostFromResult_def SetHostOnline_def Let_def split: option.split)
  show ?thesis
    by (cases r; simp add: ingest_result_def Let_def f td j1 case_prod_unfold up)
qed

section \<open>One attempt\<close>

text \<open>The scan gets as far as the end of the probe, at the store \<open>m2\<close>.\<close>

definition scan_reaches ::
  "runner \<Rightarrow> scan_env \<Rightarrow> host \<Rightarrow> string \<Rightarrow> memory \<Rightarrow> scan \<Rightarrow> rule list \<Rightarrow> memory \<Rightarrow> (string + scan_result) \<Rightarrow> bool" where
  "scan_reaches rn env host trigger m sc rs m2 result \<longleftrightarrow>
     (\<exists>m1 probe. CreateScan (se_uuid env)
             \<lparr>s_id = [], s_host_id = h_id host, s_trigger = trigger, s_status = ScanRunning,
              s_probe_version = [], s_started_at = se_start env, s_finished_at = None, s_duration_ms = 0,
              s_error = [], s_risk_score = 0\<rparr> m = (m1, Inr sc) \<and>
        rn_load_rules rn m1 = Inr rs \<and> rn_new_transport rn host m1 = Inr probe \<and>
        probe (BundleFrom (se_bundle_version env) rs) m1 = (m2, result))"

lemma run_scan_reached:
  assumes "scan_reaches rn env host trigger m sc rs m2 result"
  shows "run_scan rn env host trigger (Some v) m =
    (case se_cancelled env of
       Some cause \<Rightarrow> discard_scan env sc cause m2
     | None \<Rightarrow>
         (case v m2 of
            (m, Some cause) \<Rightarrow> discard_scan env sc cause m
          | (m, None) \<Rightarrow>
              (case (case result of
                       Inl e \<Rightarrow> finish_scan env host sc ScanFailed (''probe: '' @ e) m
                     | Inr res \<Rightarrow> ingest_result env (Index rs Map.empty) host sc res m) of
                 (m, sc) \<Rightarrow> (m, Some sc, None))))"
  using assms by (auto simp: scan_reaches_def run_scan_def Let_def split: option.splits prod.splits sum.splits)

lemma discard_scan_store:
  "\<exists>sc' e. discard_scan env sc cause m =
    (m\<lparr>scans := (case scans m (s_id sc) of None \<Rightarrow> scans m
       | Some _ \<Rightarrow> (scans m)(s_id sc \<mapsto> sc\<lparr>s_status := ScanFailed, s_error := ''discarded scan result: '' @ cause,
                     s_finished_at := Some (se_end env)\<rparr>))\<rparr>, Some sc', Some e)"
  by (simp add: discard_scan_def UpdateScan_def Let_def split: option.split)

lemma owned_job_cong: "scanJobs m' = scanJobs m \<Longrightarrow> owned_job k w m' = owned_job k w m"
  by (simp add: owned_job_def)

text \<open>
  C11. A worker whose lease is gone stores nothing of its scan. If the job is no longer the worker's
  when the probe returns, whatever the probe found and whether or not the scan was cancelled, the
  only change to the store the probe left is that the scan's own row, if it still exists, is marked
  failed as discarded; the job, the findings, the host, its baseline and its inventory are as the
  others left them, and the worker reports that it does not own the job.
\<close>

theorem lost_lease_stores_nothing:
  assumes "ClaimScanJob (qe_job_keys q) (qe_worker q) (qe_claim_at q) (qe_lease q) m = (m1, Inr job)"
    and "GetHost (sj_host_id job) m1 = Inr host"
    and "scan_reaches rn env host (sj_trigger job) m1 sc rs m2 result"
    and "owned_job (sj_id job) (qe_worker q) m2 = None"
    and "cause = (case se_cancelled env of Some c \<Rightarrow> c
                  | None \<Rightarrow> store_error_text (ErrNotFound ''owned scan job'' (sj_id job)))"
  shows "Queue_runOne rn env q m =
    (m2\<lparr>scans := (case scans m2 (s_id sc) of None \<Rightarrow> scans m2
       | Some _ \<Rightarrow> (scans m2)(s_id sc \<mapsto> sc\<lparr>s_status := ScanFailed, s_error := ''discarded scan result: '' @ cause,
                     s_finished_at := Some (se_end env)\<rparr>))\<rparr>,
     True, Some (ErrNotFound ''owned scan job'' (sj_id job)))"
proof -
  have v: "validate_owner q job m2 = (m2, Some (store_error_text (ErrNotFound ''owned scan job'' (sj_id job))))"
    by (simp add: validate_owner_def RenewScanJobLease_def assms(4))
  obtain sc' e where d: "discard_scan env sc cause m2 =
    (m2\<lparr>scans := (case scans m2 (s_id sc) of None \<Rightarrow> scans m2
       | Some _ \<Rightarrow> (scans m2)(s_id sc \<mapsto> sc\<lparr>s_status := ScanFailed, s_error := ''discarded scan result: '' @ cause,
                     s_finished_at := Some (se_end env)\<rparr>))\<rparr>, Some sc', Some e)"
    using discard_scan_store by blast
  have r: "run_scan rn env host (sj_trigger job) (Some (validate_owner q job)) m1 = discard_scan env sc cause m2"
    unfolding run_scan_reached [OF assms(3)] assms(5) by (simp add: v split: option.split)
  have o: "owned_job (sj_id job) (qe_worker q) (m2\<lparr>scans := u\<rparr>) = None" for u
    using assms(4) by (simp add: owned_job_def)
  show ?thesis
    by (simp add: Queue_runOne_def Let_def assms(1,2) r d scan_error_def queue_fail_def
        FailScanJob_def o)
qed

text \<open>Renewing the lease of an owned job, then completing or failing it.\<close>

lemma validate_owned:
  assumes "owned_job (sj_id job) (qe_worker q) m = Some j"
  shows "validate_owner q job m = (m\<lparr>scanJobs := (scanJobs m)(sj_id job \<mapsto>
      j\<lparr>sj_lease_until := Some (qe_renew_at q + qe_lease q), sj_updated_at := qe_renew_at q\<rparr>)\<rparr>, None)"
  by (simp add: validate_owner_def RenewScanJobLease_def assms)

definition retried :: "queue_env \<Rightarrow> scan_job \<Rightarrow> scan_job \<Rightarrow> bool" where
  "retried q job j \<longleftrightarrow> sj_worker_id j = [] \<and> sj_lease_until j = None \<and>
     (if sj_attempts job \<ge> sj_max_attempts job then sj_status j = ScanJobFailed
      else sj_status j = ScanJobQueued \<and> sj_next_attempt_at j = qe_retry_from q + scan_backoff (sj_attempts job))"

lemma queue_fail_owned:
  assumes "owned_job (sj_id job) (qe_worker q) m = Some j"
  shows "\<exists>m' j'. queue_fail q job cause m = (m', Inr ()) \<and> scanJobs m' = (scanJobs m)(sj_id job \<mapsto> j') \<and>
    retried q job j' \<and> sj_error j' = cause"
proof (cases "sj_max_attempts job \<le> sj_attempts job")
  case True
  then show ?thesis
    by (simp add: queue_fail_def FailScanJob_def assms Let_def retried_def)
      (rule exI [of _ "j\<lparr>sj_status := ScanJobFailed, sj_error := cause, sj_worker_id := [],
          sj_lease_until := None, sj_updated_at := qe_finish_at q\<rparr>"], simp)
next
  case False
  then show ?thesis
    by (simp add: queue_fail_def FailScanJob_def assms Let_def retried_def)
      (rule exI [of _ "j\<lparr>sj_status := ScanJobQueued,
          sj_next_attempt_at := qe_retry_from q + scan_backoff (sj_attempts job), sj_error := cause,
          sj_worker_id := [], sj_lease_until := None, sj_updated_at := qe_finish_at q\<rparr>"], simp)
qed

lemma complete_owned:
  assumes "owned_job (sj_id job) (qe_worker q) m = Some j"
  shows "\<exists>m' j'. CompleteScanJob (qe_finish_at q) (sj_id job) (qe_worker q) i m = (m', Inr ()) \<and>
    scanJobs m' = (scanJobs m)(sj_id job \<mapsto> j') \<and> sj_status j' = ScanJobSucceeded \<and> sj_scan_id j' = i \<and>
    sj_worker_id j' = [] \<and> sj_lease_until j' = None"
  by (simp add: CompleteScanJob_def assms)
    (rule exI [of _ "j\<lparr>sj_status := ScanJobSucceeded, sj_scan_id := i, sj_error := [], sj_worker_id := [],
        sj_lease_until := None, sj_updated_at := qe_finish_at q\<rparr>"], simp)

lemma finish_scan_row:
  "s_status (snd (finish_scan env host sc st msg m)) = st" "s_id (snd (finish_scan env host sc st msg m)) = s_id sc"
  by (simp_all add: finish_scan_def Let_def)

text \<open>What the scan returns while the worker owns the job: the store with the job's lease renewed, or not.\<close>

lemma scan_owned:
  assumes "scan_reaches rn env host trigger m sc rs m2 result"
    and "owned_job (sj_id job) (qe_worker q) m2 = Some j"
  shows "\<exists>m3 sc' err j3. run_scan rn env host trigger (Some (validate_owner q job)) m = (m3, Some sc', err) \<and>
    owned_job (sj_id job) (qe_worker q) m3 = Some j3 \<and> scanJobs m3 = (scanJobs m2)(sj_id job \<mapsto> j3) \<and>
    (se_cancelled env \<noteq> None \<or> (\<exists>e. result = Inl e) \<longrightarrow> scan_error (Some sc') err \<noteq> None) \<and>
    (se_cancelled env = None \<longrightarrow> (\<forall>res. result = Inr res \<longrightarrow> obs_inv m2 \<longrightarrow> fresh_obs env 0 m2 \<longrightarrow>
       scan_error (Some sc') err = None \<and> s_id sc' = s_id sc))"
proof (cases "se_cancelled env")
  case (Some cause)
  have "scanJobs m2 (sj_id job) = Some j" using assms(2) by (simp add: owned_job_Some)
  moreover obtain sc' e u where "discard_scan env sc cause m2 = (m2\<lparr>scans := u\<rparr>, Some sc', Some e)"
    using discard_scan_store by blast
  ultimately show ?thesis
    unfolding run_scan_reached [OF assms(1)] using Some assms(2)
    by (auto simp: scan_error_def owned_job_def split: option.splits)
next
  case None
  let ?j = "j\<lparr>sj_lease_until := Some (qe_renew_at q + qe_lease q), sj_updated_at := qe_renew_at q\<rparr>"
  let ?m = "m2\<lparr>scanJobs := (scanJobs m2)(sj_id job \<mapsto> ?j)\<rparr>"
  define fin where "fin = (case result of
      Inl e \<Rightarrow> finish_scan env host sc ScanFailed (''probe: '' @ e) ?m
    | Inr res \<Rightarrow> ingest_result env (Index rs Map.empty) host sc res ?m)"
  obtain m3 sc' where f: "fin = (m3, sc')" by fastforce
  have r: "run_scan rn env host trigger (Some (validate_owner q job)) m = (m3, Some sc', None)"
    using f unfolding run_scan_reached [OF assms(1)] by (simp add: None validate_owned [OF assms(2)] fin_def)
  have "scanJobs (fst fin) = scanJobs ?m" by (simp add: fin_def split: sum.split)
  then have jobs: "scanJobs m3 = (scanJobs m2)(sj_id job \<mapsto> ?j)" by (simp add: f)
  have own: "owned_job (sj_id job) (qe_worker q) m3 = Some ?j"
    using assms(2) by (simp add: owned_job_Some jobs)
  have bad: "scan_error (Some sc') None \<noteq> None" if "result = Inl e" for e
  proof -
    have "s_status sc' = ScanFailed" using f that by (auto simp: fin_def finish_scan_def Let_def)
    then show ?thesis by (simp add: scan_error_def)
  qed
  have good: "scan_error (Some sc') None = None \<and> s_id sc' = s_id sc"
    if "result = Inr res" and i: "obs_inv m2" "fresh_obs env 0 m2" for res
  proof -
    have "upserting env 0 ?m" using i by (simp add: upserting_def fresh_obs_def obs_inv_def dedup_lookup_def)
    from ingest_phases [OF this, of "Index rs Map.empty" host sc res]
    have "s_status (snd fin) \<noteq> ScanFailed \<and> s_id (snd fin) = s_id sc"
      by (auto simp: fin_def that(1) finish_scan_row split: if_splits)
    then show ?thesis by (simp add: f scan_error_def)
  qed
  show ?thesis using r own jobs None bad good by blast
qed

text \<open>
  What one attempt does to its job while the worker still owns it when the probe returns. The
  worker reports no error. The job is completed with the scan's identifier, or given back: failed
  for good when its attempts are used up, otherwise queued for its backoff later. A cancelled scan
  or a probe that failed gives it back; a probe that answered completes it in a consistent store.
  No other job changes, and nothing holds the job afterwards.
\<close>

theorem attempt_outcome:
  assumes "ClaimScanJob (qe_job_keys q) (qe_worker q) (qe_claim_at q) (qe_lease q) m = (m1, Inr job)"
    and "GetHost (sj_host_id job) m1 = Inr host"
    and "scan_reaches rn env host (sj_trigger job) m1 sc rs m2 result"
    and "owned_job (sj_id job) (qe_worker q) m2 = Some j"
  shows "\<exists>m' j'. Queue_runOne rn env q m = (m', True, None) \<and> scanJobs m' = (scanJobs m2)(sj_id job \<mapsto> j') \<and>
    sj_worker_id j' = [] \<and> sj_lease_until j' = None \<and>
    (sj_status j' = ScanJobSucceeded \<or> retried q job j') \<and>
    (se_cancelled env \<noteq> None \<or> (\<exists>e. result = Inl e) \<longrightarrow> retried q job j') \<and>
    (se_cancelled env = None \<longrightarrow> (\<forall>res. result = Inr res \<longrightarrow> obs_inv m2 \<longrightarrow> fresh_obs env 0 m2 \<longrightarrow>
       sj_status j' = ScanJobSucceeded \<and> sj_scan_id j' = s_id sc))"
proof -
  note owned = scan_owned [OF assms(3,4)]
  then obtain m3 sc' err j3 where r: "run_scan rn env host (sj_trigger job) (Some (validate_owner q job)) m1 = (m3, Some sc', err)"
    and own: "owned_job (sj_id job) (qe_worker q) m3 = Some j3"
    and jobs: "scanJobs m3 = (scanJobs m2)(sj_id job \<mapsto> j3)"
    and bad: "se_cancelled env \<noteq> None \<or> (\<exists>e. result = Inl e) \<longrightarrow> scan_error (Some sc') err \<noteq> None"
    and good: "se_cancelled env = None \<longrightarrow> (\<forall>res. result = Inr res \<longrightarrow> obs_inv m2 \<longrightarrow> fresh_obs env 0 m2 \<longrightarrow>
       scan_error (Some sc') err = None \<and> s_id sc' = s_id sc)"
    by (elim exE conjE) (rule that; assumption)
  show ?thesis
  proof (cases "scan_error (Some sc') err")
    case None
    obtain m' j' where "CompleteScanJob (qe_finish_at q) (sj_id job) (qe_worker q) (s_id sc') m3 = (m', Inr ())"
      "scanJobs m' = (scanJobs m2)(sj_id job \<mapsto> j')" "sj_status j' = ScanJobSucceeded" "sj_scan_id j' = s_id sc'"
      "sj_worker_id j' = []" "sj_lease_until j' = None"
      using complete_owned [OF own, of "s_id sc'"] unfolding jobs by auto
    with None bad good show ?thesis
      by (auto simp: Queue_runOne_def Let_def assms(1,2) r)
  next
    case (Some cause)
    obtain m' j' where "queue_fail q job cause m3 = (m', Inr ())" "scanJobs m' = (scanJobs m2)(sj_id job \<mapsto> j')"
      "retried q job j'"
      using queue_fail_owned [OF own, of cause] unfolding jobs by auto
    moreover from this have "sj_worker_id j' = []" "sj_lease_until j' = None" by (simp_all add: retried_def)
    ultimately show ?thesis using Some good
      by (auto simp: Queue_runOne_def Let_def assms(1,2) r)
  qed
qed

section \<open>Examples\<close>

definition demo_queue :: queue_env where
  "demo_queue = \<lparr>qe_worker = ''w'', qe_lease = 90 * Second, qe_job_keys = [''j''], qe_claim_at = 100,
     qe_renew_at = 150, qe_retry_from = 160, qe_finish_at = 170\<rparr>"

definition waiting_job :: scan_job where
  "waiting_job = \<lparr>sj_id = ''j'', sj_host_id = ''h1'', sj_trigger = TriggerScheduled, sj_status = ScanJobQueued,
     sj_attempts = 0, sj_max_attempts = 3, sj_worker_id = [], sj_lease_until = None, sj_next_attempt_at = 0,
     sj_scan_id = [], sj_error = [], sj_created_at = 0, sj_updated_at = 0\<rparr>"

definition demo_queued :: memory where
  "demo_queued = NewMemory\<lparr>hosts := [''h1'' \<mapsto> demo_host\<lparr>h_id := ''h1''\<rparr>], scanJobs := [''j'' \<mapsto> waiting_job]\<rparr>"

definition failing_runner :: "(memory \<Rightarrow> memory) \<Rightarrow> runner" where
  "failing_runner f = \<lparr>rn_load_rules = (\<lambda>m. Inr []), rn_new_transport = (\<lambda>h m. Inr (\<lambda>b m. (f m, Inl ''timeout'')))\<rparr>"

definition demo_claimed :: scan_job where
  "demo_claimed = waiting_job\<lparr>sj_status := ScanJobRunning, sj_worker_id := ''w'',
     sj_lease_until := Some (100 + 90 * Second), sj_attempts := 1, sj_updated_at := 100\<rparr>"

lemma demo_claim:
  "ClaimScanJob (qe_job_keys demo_queue) (qe_worker demo_queue) (qe_claim_at demo_queue) (qe_lease demo_queue) demo_queued =
     (demo_queued\<lparr>scanJobs := [''j'' \<mapsto> demo_claimed]\<rparr>, Inr demo_claimed)"
  "GetHost (sj_host_id demo_claimed) (demo_queued\<lparr>scanJobs := [''j'' \<mapsto> demo_claimed]\<rparr>) = Inr (demo_host\<lparr>h_id := ''h1''\<rparr>)"
  by (simp_all add: ClaimScanJob_def demo_queue_def demo_queued_def waiting_job_def demo_claimed_def entries_def
      List.map_filter_simps job_waiting_def GetHost_def get_or_def Let_def)

lemma demo_reaches:
  "\<exists>m2 sc. scan_reaches (failing_runner f) probe_env (demo_host\<lparr>h_id := ''h1''\<rparr>) t m sc [] (f m2) (Inl ''timeout'') \<and>
     scanJobs m2 = scanJobs m"
  by (simp add: scan_reaches_def failing_runner_def CreateScan_def Let_def) force

theorem lost_lease_stores_nothing_witness:
  "\<exists>m'. Queue_runOne (failing_runner (\<lambda>m. m\<lparr>scanJobs := Map.empty\<rparr>)) probe_env demo_queue demo_queued =
    (m', True, Some (ErrNotFound ''owned scan job'' ''j''))"
proof -
  obtain m2 sc where "scan_reaches (failing_runner (\<lambda>m. m\<lparr>scanJobs := Map.empty\<rparr>)) probe_env
      (demo_host\<lparr>h_id := ''h1''\<rparr>) (sj_trigger demo_claimed) (demo_queued\<lparr>scanJobs := [''j'' \<mapsto> demo_claimed]\<rparr>) sc []
      (m2\<lparr>scanJobs := Map.empty\<rparr>) (Inl ''timeout'')"
    using demo_reaches [of "\<lambda>m. m\<lparr>scanJobs := Map.empty\<rparr>"] by blast
  from lost_lease_stores_nothing [OF demo_claim this _ refl]
  show ?thesis by (simp add: owned_job_def demo_claimed_def waiting_job_def)
qed

theorem attempt_outcome_witness:
  "\<exists>m' j'. Queue_runOne (failing_runner id) probe_env demo_queue demo_queued = (m', True, None) \<and>
    scanJobs m' ''j'' = Some j' \<and> sj_status j' = ScanJobQueued \<and> sj_next_attempt_at j' = 160 + 5 * Second"
proof -
  obtain m2 sc where r: "scan_reaches (failing_runner id) probe_env (demo_host\<lparr>h_id := ''h1''\<rparr>)
      (sj_trigger demo_claimed) (demo_queued\<lparr>scanJobs := [''j'' \<mapsto> demo_claimed]\<rparr>) sc [] m2 (Inl ''timeout'')"
    and j: "scanJobs m2 = [''j'' \<mapsto> demo_claimed]"
    using demo_reaches [of id "sj_trigger demo_claimed" "demo_queued\<lparr>scanJobs := [''j'' \<mapsto> demo_claimed]\<rparr>"]
    by auto
  have "owned_job (sj_id demo_claimed) (qe_worker demo_queue) m2 = Some demo_claimed"
    by (simp add: owned_job_def j demo_claimed_def waiting_job_def demo_queue_def)
  from attempt_outcome [OF demo_claim r this]
  show ?thesis
    by (auto simp: retried_def demo_claimed_def waiting_job_def demo_queue_def scan_backoff_less)
qed

end
