(* ===== verification/ExportWorker.thy ===== *)
theory ExportWorker
  imports ScanQueue
begin

text \<open>
  The export worker (\<open>internal/export/worker.go\<close>) and the document it sends
  (\<open>internal/export/ecs.go\<close>): a delivery is claimed from the outbox, rendered, sent to its target and
  completed, retried with a growing delay or declared dead.

  The network, the URL and address parsers, the secret box and the JSON encoder are arguments.
\<close>

section \<open>The ECS document\<close>

datatype ecs = EStr string | EInt int | EStrs "string list" | ETime go_time | EAny any_value |
  EObj "(string \<times> ecs) list"

definition ecsSeverity :: "string \<Rightarrow> int" where
  "ecsSeverity sev =
     (if sev = ''critical'' then 99 else if sev = ''high'' then 73 else if sev = ''medium'' then 47
      else if sev = ''low'' then 21 else 0)"

definition ecs_os :: "host \<Rightarrow> (string \<times> ecs) list" where
  "ecs_os h =
     (if h_os_name h = [] then [] else [(''name'', EStr (h_os_name h))]) @
     (if h_os_version h = [] then [] else [(''version'', EStr (h_os_version h))]) @
     (if h_kernel h = [] then [] else [(''kernel'', EStr (h_kernel h))])"

definition ecs_host :: "observation \<Rightarrow> host option \<Rightarrow> (string \<times> ecs) list" where
  "ecs_host ob h =
     (case h of
        Some h \<Rightarrow>
          (if h_hostname h = [] then [] else [(''name'', EStr (h_hostname h))]) @
          (if h_id h = [] then [] else [(''id'', EStr (h_id h))]) @
          (if h_primary_ip h = [] then [] else [(''ip'', EStrs [h_primary_ip h])]) @
          (if h_arch h = [] then [] else [(''architecture'', EStr (h_arch h))]) @
          (if ecs_os h = [] then [] else [(''os'', EObj (ecs_os h @ [(''type'', EStr ''linux'')]))])
      | None \<Rightarrow> if o_host_id ob = [] then [] else [(''id'', EStr (o_host_id ob))])"

definition ecs_event :: "observation \<Rightarrow> (string \<times> ecs) list" where
  "ecs_event ob =
     [(''kind'', EStr ''alert''), (''category'', EStrs [''intrusion_detection'']), (''type'', EStrs [''info'']),
      (''id'', EStr (o_id ob)), (''module'', EStr ''bladedr''), (''dataset'', EStr ''bladedr.observation''),
      (''provider'', EStr (o_source ob)), (''severity'', EInt (ecsSeverity (o_severity ob))),
      (''risk_score'', EInt (o_score ob)), (''count'', EInt (o_count ob))] @
     (if o_first_seen ob = 0 then [] else [(''created'', ETime (o_first_seen ob))])"

definition ToECS :: "observation \<Rightarrow> host option \<Rightarrow> (string \<times> ecs) list" where
  "ToECS ob h =
     [(''event'', EObj (ecs_event ob)), (''message'', EStr (o_title ob)),
      (''rule'', EObj [(''id'', EStr (o_rule_id ob)), (''name'', EStr (o_title ob)),
                       (''category'', EStr (o_category ob))]),
      (''observer'', EObj [(''vendor'', EStr ''bladedr''), (''product'', EStr ''bladedr''), (''type'', EStr ''host-scanner'')]),
      (''tags'', EStrs [''bladedr'', o_severity ob]),
      (''@timestamp'', ETime (if o_last_seen ob = 0 then o_first_seen ob else o_last_seen ob))] @
     (if o_mitre ob = [] then []
      else [(''threat'', EObj [(''framework'', EStr ''MITRE ATT&CK''),
                               (''technique'', EObj [(''id'', EStrs (o_mitre ob))])])]) @
     (if ecs_host ob h = [] then [] else [(''host'', EObj (ecs_host ob h))]) @
     [(''labels'', EObj [(''status'', EStr (o_status ob)), (''source'', EStr (o_source ob)),
                         (''dedup_key'', EStr (o_dedup_key ob)), (''scan_id'', EStr (o_scan_id ob)),
                         (''bladedr_id'', EStr (o_id ob))])] @
     (if o_evidence ob = [] then []
      else [(''bladedr'', EObj [(''evidence'', EObj (map (\<lambda>(k, v). (k, EAny v)) (o_evidence ob)))])])"

section \<open>Sending\<close>

text \<open>An error is permanent (\<open>permanentError\<close>) or worth another attempt.\<close>

datatype send_error = Permanent string | Transient string

record http_request =
  hr_method :: string
  hr_url :: string
  hr_body :: string
  hr_headers :: "(string \<times> string) list"

record export_env =
  xe_parse_uri :: "string \<Rightarrow> (string \<times> string \<times> string) option"
  xe_path_escape :: "string \<Rightarrow> string"
  xe_split_host_port :: "string \<Rightarrow> string option"
  xe_http :: "http_request \<Rightarrow> string + int"
  xe_syslog :: "string \<Rightarrow> string \<Rightarrow> string \<Rightarrow> string option"
  xe_json :: "(string \<times> ecs) list \<Rightarrow> string + string"
  xe_can_open :: bool
  xe_open :: "bytes \<Rightarrow> string + string"
  xe_timestamp :: string

definition sendHTTP ::
  "export_env \<Rightarrow> string \<Rightarrow> string \<Rightarrow> string \<Rightarrow> string \<Rightarrow> string \<Rightarrow> string \<Rightarrow> send_error option" where
  "sendHTTP env verb endpoint authScheme secret payload deliveryID =
     (case xe_parse_uri env endpoint of
        None \<Rightarrow> Some (Permanent ''invalid HTTP export URL'')
      | Some (scheme, h, url) \<Rightarrow>
          if (scheme \<noteq> ''http'' \<and> scheme \<noteq> ''https'') \<or> h = [] then Some (Permanent ''invalid HTTP export URL'')
          else (case xe_http env \<lparr>hr_method = verb, hr_url = url, hr_body = payload,
                       hr_headers = [(''Content-Type'', ''application/json''), (''User-Agent'', ''bladedr-export/1''),
                                     (''Idempotency-Key'', deliveryID)] @
                         (if secret = [] then []
                          else [(''Authorization'', (if authScheme = [] then ''Bearer'' else authScheme) @ '' '' @ secret)])\<rparr> of
                  Inl e \<Rightarrow> Some (Transient e)
                | Inr code \<Rightarrow>
                    let msg = ''export endpoint returned HTTP '' @ Itoa code in
                    if code \<ge> 200 \<and> code < 300 then None
                    else if code \<ge> 400 \<and> code < 500 \<and> code \<noteq> 429 then Some (Permanent msg)
                    else Some (Transient msg)))"

definition sendSyslog :: "export_env \<Rightarrow> string_map \<Rightarrow> string \<Rightarrow> send_error option" where
  "sendSyslog env config payload =
     (let network = (if lookup_str config ''network'' = [] then ''tcp'' else lookup_str config ''network'');
          address = lookup_str config ''address''
      in if network \<noteq> ''tcp'' \<and> network \<noteq> ''udp'' then Some (Permanent ''syslog network must be tcp or udp'')
         else (case xe_split_host_port env address of
                 Some e \<Rightarrow> Some (Permanent (''invalid syslog address: '' @ e))
               | None \<Rightarrow> map_option Transient (xe_syslog env network address
                   (''<134>1 '' @ xe_timestamp env @ '' - bladedr - observation - '' @ payload @ [CHR 10]))))"

definition target_secret :: "export_env \<Rightarrow> export_target \<Rightarrow> send_error + string" where
  "target_secret env target =
     (if length (et_secret_enc target) > 0
      then if \<not> xe_can_open env then Inl (Permanent ''export target secret cannot be decrypted'')
           else (case xe_open env (et_secret_enc target) of
                   Inl e \<Rightarrow> Inl (Permanent (''decrypt export target secret: '' @ e))
                 | Inr plain \<Rightarrow> Inr plain)
      else Inr [])"

text \<open>The kinds of target.\<close>

abbreviation ExportWebhook :: string where "ExportWebhook \<equiv> ''webhook''"
abbreviation ExportElasticsearch :: string where "ExportElasticsearch \<equiv> ''elasticsearch''"
abbreviation ExportSyslog :: string where "ExportSyslog \<equiv> ''syslog''"

definition deliver :: "export_env \<Rightarrow> export_delivery \<Rightarrow> memory \<Rightarrow> send_error option" where
  "deliver env delivery m =
     (case GetExportTarget (d_target_id delivery) m of
        Inl e \<Rightarrow> Some (Permanent (store_error_text e))
      | Inr target \<Rightarrow>
          (case GetObservation (d_observation_id delivery) m of
             Inl e \<Rightarrow> Some (Permanent (store_error_text e))
           | Inr ob \<Rightarrow>
               let h = (case GetHost (o_host_id ob) m of Inl _ \<Rightarrow> None | Inr h \<Rightarrow> Some h) in
               (case xe_json env (ToECS ob h) of
                  Inl e \<Rightarrow> Some (Permanent e)
                | Inr payload \<Rightarrow>
                    (case target_secret env target of
                       Inl e \<Rightarrow> Some e
                     | Inr secret \<Rightarrow>
                         if et_type target = ExportWebhook
                         then sendHTTP env ''POST'' (lookup_str (et_config target) ''url'') [] secret payload (d_id delivery)
                         else if et_type target = ExportElasticsearch
                         then let base = TrimRight {CHR ''/''} (lookup_str (et_config target) ''url'');
                                  index = (if lookup_str (et_config target) ''index'' = [] then ''bladedr-observations''
                                           else lookup_str (et_config target) ''index'');
                                  endpoint = base @ ''/'' @ xe_path_escape env index @ ''/_doc/'' @
                                             xe_path_escape env (o_id ob)
                              in sendHTTP env ''PUT'' endpoint ''ApiKey'' secret payload (d_id delivery)
                         else if et_type target = ExportSyslog
                         then sendSyslog env (et_config target) payload
                         else Some (Permanent (''unsupported export target type '' @ dquoted (et_type target)))))))"

section \<open>The worker\<close>

text \<open>\<open>xr_meanwhile\<close> is what other clients do to the store while the delivery is being sent.\<close>

definition export_backoff :: "int \<Rightarrow> duration" where
  "export_backoff attempts =
     (let shift = max (wrap64 (attempts - 1)) 0;
          delay = wrap64 (30 * Second * 2 ^ nat (min shift 7))
      in if delay > Hour then Hour else delay)"

record export_run =
  xr_worker :: string
  xr_lease :: duration
  xr_delivery_keys :: "string list"
  xr_claim_at :: go_time
  xr_retry_from :: go_time
  xr_finish_at :: go_time
  xr_meanwhile :: "memory \<Rightarrow> memory"

definition Export_runOne :: "export_env \<Rightarrow> export_run \<Rightarrow> memory \<Rightarrow> memory \<times> bool \<times> store_error option" where
  "Export_runOne env x m =
     (let report = (\<lambda>r. case r of (m, Inl e) \<Rightarrow> (m, True, Some e) | (m, Inr _) \<Rightarrow> (m, True, None)) in
      case ClaimExportDelivery (xr_delivery_keys x) (xr_worker x) (xr_claim_at x) (xr_lease x) m of
        (m, Inl (ErrNotFound _ _)) \<Rightarrow> (m, False, None)
      | (m, Inl e) \<Rightarrow> (m, False, Some e)
      | (m, Inr delivery) \<Rightarrow>
          (case (deliver env delivery m, xr_meanwhile x m) of
             (None, m) \<Rightarrow> report (CompleteExportDelivery (xr_finish_at x) (d_id delivery) (xr_worker x) m)
           | (Some e, m) \<Rightarrow>
               let terminal = d_attempts delivery \<ge> d_max_attempts delivery \<or> (case e of Permanent _ \<Rightarrow> True | Transient _ \<Rightarrow> False) in
               report (FailExportDelivery (xr_finish_at x) (d_id delivery) (xr_worker x)
                 (case e of Permanent msg \<Rightarrow> msg | Transient msg \<Rightarrow> msg)
                 (xr_retry_from x + export_backoff (d_attempts delivery)) terminal m)))"

section \<open>The delays\<close>

lemma export_backoff_less: "- (2 ^ 63) < a \<Longrightarrow> a \<le> 1 \<Longrightarrow> export_backoff a = 30 * Second"
  by (simp add: export_backoff_def wrap64_id)

lemma export_backoff_large: "8 \<le> a \<Longrightarrow> a < 2 ^ 63 \<Longrightarrow> export_backoff a = Hour"
  by (simp add: export_backoff_def wrap64_id min_def Let_def)

lemma export_backoff_next:
  assumes "1 \<le> a" and "a < 2 ^ 63 - 1"
  shows "export_backoff (a + 1) = min (2 * export_backoff a) Hour"
proof (cases "8 \<le> a")
  case True
  with assms show ?thesis using export_backoff_large [of a] export_backoff_large [of "a + 1"] by simp
next
  case False
  with assms have "a \<in> {1, 2, 3, 4, 5, 6, 7}" by auto
  then show ?thesis by (auto simp: export_backoff_def wrap64_id min_def)
qed

interpretation xb: doubling export_backoff "30 * Second" Hour
  by unfold_locales (simp_all add: export_backoff_less export_backoff_next)

text \<open>
  The retry delays of the two workers, for every attempt counter of the machine's integers: at
  least the base (five seconds, half a minute), at most the cap (five minutes, an hour), never
  shorter for a later attempt, and at the cap from the seventh (eighth) attempt on.
\<close>

theorem retry_delays_bounded:
  assumes "- (2 ^ 63) < a" and "a \<le> b" and "b < 2 ^ 63"
  shows "5 * Second \<le> scan_backoff a \<and> scan_backoff a \<le> scan_backoff b \<and> scan_backoff b \<le> 5 * Minute \<and>
    (7 \<le> b \<longrightarrow> scan_backoff b = 5 * Minute) \<and>
    30 * Second \<le> export_backoff a \<and> export_backoff a \<le> export_backoff b \<and> export_backoff b \<le> Hour \<and>
    (8 \<le> b \<longrightarrow> export_backoff b = Hour)"
  using sb.within [of a] sb.within [of b] sb.not_shorter [of a b] sb.capped [of 6 b]
    xb.within [of a] xb.within [of b] xb.not_shorter [of a b] xb.capped [of 7 b] assms by simp

theorem retry_delays_bounded_witness: "scan_backoff 2 \<le> scan_backoff 9 \<and> export_backoff 9 = Hour"
  using retry_delays_bounded [of 2 9] by simp

section \<open>One delivery\<close>

text \<open>
  C30. What one attempt does to its delivery. If the worker still owns it when the sending ends, it
  is marked sent when the target took it, dead when the error is permanent or the attempts are used
  up, and otherwise queued again for its backoff later; nobody holds it and no other delivery
  changes. If the worker lost it, the store stays as the others left it.
\<close>

theorem delivery_outcome:
  assumes "ClaimExportDelivery (xr_delivery_keys x) (xr_worker x) (xr_claim_at x) (xr_lease x) m = (m1, Inr d)"
    and "m2 = xr_meanwhile x m1"
  shows "case owned_delivery (d_id d) (xr_worker x) m2 of
      None \<Rightarrow> Export_runOne env x m = (m2, True, Some (ErrNotFound ''owned export delivery'' (d_id d)))
    | Some d1 \<Rightarrow> (\<exists>m' d'. Export_runOne env x m = (m', True, None) \<and>
        deliveries m' = (deliveries m2)(d_id d \<mapsto> d') \<and> m'\<lparr>deliveries := deliveries m2\<rparr> = m2 \<and>
        d_worker_id d' = [] \<and> d_lease_until d' = None \<and>
        (case deliver env d m1 of
           None \<Rightarrow> d_status d' = DeliverySent
         | Some (Permanent e) \<Rightarrow> d_status d' = DeliveryDead \<and> d_last_error d' = e
         | Some (Transient e) \<Rightarrow> d_last_error d' = e \<and>
             (if d_attempts d \<ge> d_max_attempts d then d_status d' = DeliveryDead
              else d_status d' = DeliveryQueued \<and>
                   d_available_at d' = xr_retry_from x + export_backoff (d_attempts d))))"
proof (cases "owned_delivery (d_id d) (xr_worker x) m2")
  case None
  then show ?thesis
    by (cases "deliver env d m1")
      (simp_all add: Export_runOne_def Let_def assms CompleteExportDelivery_def FailExportDelivery_def)
next
  case (Some d1)
  then show ?thesis
    by (cases "deliver env d m1")
      (auto simp: Export_runOne_def Let_def assms CompleteExportDelivery_def FailExportDelivery_def
        split: send_error.split)
qed

section \<open>What the target sees\<close>

text \<open>
  The answer of an HTTP target decides the fate of the delivery: it counts as sent exactly when
  the URL is an absolute http or https one and the answer is 2xx; the error is permanent exactly
  when the URL is not, or the answer is a 4xx other than 429. Every request carries the delivery's
  identifier as its idempotency key, and the secret only in the Authorization header.
\<close>

theorem http_classification:
  assumes "xe_parse_uri env endpoint = Some (scheme, h, url)"
    and "req = \<lparr>hr_method = verb, hr_url = url, hr_body = payload,
       hr_headers = [(''Content-Type'', ''application/json''), (''User-Agent'', ''bladedr-export/1''),
                     (''Idempotency-Key'', deliveryID)] @
         (if secret = [] then [] else [(''Authorization'', (if auth = [] then ''Bearer'' else auth) @ '' '' @ secret)])\<rparr>"
    and "usable = ((scheme = ''http'' \<or> scheme = ''https'') \<and> h \<noteq> [])"
  shows "(sendHTTP env verb endpoint auth secret payload deliveryID = None) =
      (usable \<and> (\<exists>code. xe_http env req = Inr code \<and> 200 \<le> code \<and> code < 300)) \<and>
    (\<exists>e. sendHTTP env verb endpoint auth secret payload deliveryID = Some (Permanent e)) =
      (\<not> usable \<or> (\<exists>code. xe_http env req = Inr code \<and> 400 \<le> code \<and> code < 500 \<and> code \<noteq> 429)) \<and>
    map_of (hr_headers req) ''Idempotency-Key'' = Some deliveryID"
proof -
  have s: "sendHTTP env verb endpoint auth secret payload deliveryID =
      (if \<not> usable then Some (Permanent ''invalid HTTP export URL'')
       else case xe_http env req of
          Inl e \<Rightarrow> Some (Transient e)
        | Inr code \<Rightarrow> if code \<ge> 200 \<and> code < 300 then None
            else if code \<ge> 400 \<and> code < 500 \<and> code \<noteq> 429
            then Some (Permanent (''export endpoint returned HTTP '' @ Itoa code))
            else Some (Transient (''export endpoint returned HTTP '' @ Itoa code)))"
    unfolding sendHTTP_def assms(1,2,3) Let_def option.case prod.case by simp
  have "map_of (hr_headers req) ''Idempotency-Key'' = Some deliveryID" by (simp add: assms(2))
  then show ?thesis unfolding s by (cases usable; cases "xe_http env req") auto
qed

section \<open>The document keeps the finding\<close>

fun ecs_str :: "ecs option \<Rightarrow> string" where
  "ecs_str (Some (EStr s)) = s"
| "ecs_str _ = []"

fun ecs_int :: "ecs option \<Rightarrow> int" where
  "ecs_int (Some (EInt n)) = n"
| "ecs_int _ = 0"

fun ecs_time :: "ecs option \<Rightarrow> go_time" where
  "ecs_time (Some (ETime t)) = t"
| "ecs_time _ = 0"

fun ecs_strs :: "ecs option \<Rightarrow> string list" where
  "ecs_strs (Some (EStrs xs)) = xs"
| "ecs_strs _ = []"

fun ecs_obj :: "ecs option \<Rightarrow> (string \<times> ecs) list" where
  "ecs_obj (Some (EObj xs)) = xs"
| "ecs_obj _ = []"

fun ecs_any :: "ecs \<Rightarrow> any_value" where
  "ecs_any (EAny v) = v"
| "ecs_any _ = AnyOther []"

text \<open>The finding a consumer reads back from a document; the verdict is not part of it.\<close>

definition ecs_observation :: "(string \<times> ecs) list \<Rightarrow> observation" where
  "ecs_observation doc =
     (let event = map_of (ecs_obj (map_of doc ''event'')); rule = map_of (ecs_obj (map_of doc ''rule''));
          labels = map_of (ecs_obj (map_of doc ''labels''));
          ev = ecs_obj (map_of (ecs_obj (map_of doc ''bladedr'')) ''evidence'')
      in \<lparr>o_id = ecs_str (labels ''bladedr_id''),
          o_host_id = ecs_str (map_of (ecs_obj (map_of doc ''host'')) ''id''),
          o_scan_id = ecs_str (labels ''scan_id''), o_source = ecs_str (event ''provider''),
          o_rule_id = ecs_str (rule ''id''), o_category = ecs_str (rule ''category''),
          o_title = ecs_str (map_of doc ''message''),
          o_severity = (case ecs_strs (map_of doc ''tags'') of [_, sev] \<Rightarrow> sev | _ \<Rightarrow> []),
          o_score = ecs_int (event ''risk_score''),
          o_mitre = ecs_strs (map_of (ecs_obj (map_of (ecs_obj (map_of doc ''threat'')) ''technique'')) ''id''),
          o_evidence = map (\<lambda>(k, v). (k, ecs_any v)) ev,
          o_dedup_key = ecs_str (labels ''dedup_key''), o_status = ecs_str (labels ''status''), o_verdict = [],
          o_first_seen = ecs_time (event ''created''), o_last_seen = ecs_time (map_of doc ''@timestamp''),
          o_count = ecs_int (event ''count'')\<rparr>)"

lemma ecs_evidence: "map (\<lambda>(k, v). (k, ecs_any v)) (map (\<lambda>(k, v). (k, EAny v)) ev) = ev"
  by (induction ev) auto

lemma ToECS_parts:
  "map_of (ToECS ob h) ''event'' = Some (EObj (ecs_event ob))"
  "map_of (ToECS ob h) ''message'' = Some (EStr (o_title ob))"
  "map_of (ToECS ob h) ''rule'' = Some (EObj [(''id'', EStr (o_rule_id ob)), (''name'', EStr (o_title ob)),
                       (''category'', EStr (o_category ob))])"
  "map_of (ToECS ob h) ''tags'' = Some (EStrs [''bladedr'', o_severity ob])"
  "map_of (ToECS ob h) ''@timestamp'' = Some (ETime (if o_last_seen ob = 0 then o_first_seen ob else o_last_seen ob))"
  by (simp_all add: ToECS_def)

lemma ToECS_labels:
  "map_of (ToECS ob h) ''labels'' = Some (EObj [(''status'', EStr (o_status ob)), (''source'', EStr (o_source ob)),
                         (''dedup_key'', EStr (o_dedup_key ob)), (''scan_id'', EStr (o_scan_id ob)),
                         (''bladedr_id'', EStr (o_id ob))])"
  by (simp add: ToECS_def)

lemma ToECS_optional:
  "ecs_strs (map_of (ecs_obj (map_of (ecs_obj (map_of (ToECS ob h) ''threat'')) ''technique'')) ''id'') = o_mitre ob"
  "ecs_obj (map_of (ToECS ob h) ''host'') = ecs_host ob h"
  "map (\<lambda>(k, v). (k, ecs_any v)) (ecs_obj (map_of (ecs_obj (map_of (ToECS ob h) ''bladedr'')) ''evidence'')) = o_evidence ob"
  by (simp_all add: ToECS_def ecs_evidence del: map_map)

lemma ecs_host_id:
  "h = None \<or> (\<exists>x. h = Some x \<and> h_id x = o_host_id ob) \<Longrightarrow> ecs_str (map_of (ecs_host ob h) ''id'') = o_host_id ob"
  by (auto simp: ecs_host_def)

lemma ecs_event_parts:
  "ecs_str (map_of (ecs_event ob) ''provider'') = o_source ob"
  "ecs_int (map_of (ecs_event ob) ''risk_score'') = o_score ob"
  "ecs_int (map_of (ecs_event ob) ''count'') = o_count ob"
  "ecs_time (map_of (ecs_event ob) ''created'') = o_first_seen ob"
  by (simp_all add: ecs_event_def)

text \<open>
  C35. The exported document loses nothing but the verdict: whatever the finding and whether or not
  its host's row is still there, every field can be read back from the document.
\<close>

theorem ecs_roundtrip:
  assumes "h = None \<or> (\<exists>x. h = Some x \<and> h_id x = o_host_id ob)" and "o_last_seen ob \<noteq> 0"
  shows "ecs_observation (ToECS ob h) = ob\<lparr>o_verdict := []\<rparr>"
  by (rule observation.equality)
    (simp_all add: ecs_observation_def Let_def ToECS_parts ToECS_labels ToECS_optional
      ecs_event_parts ecs_host_id [OF assms(1)] assms(2) del: map_map)

definition demo_finding :: observation where
  "demo_finding = \<lparr>o_id = ''o1'', o_host_id = ''h1'', o_scan_id = ''s1'', o_source = SourceFleet, o_rule_id = ''r1'',
     o_category = ''credential'', o_title = ''T'', o_severity = ''high'', o_score = 70, o_mitre = [''T1078''],
     o_evidence = [(''root'', AnyBool True)], o_dedup_key = ''k'', o_status = ObsOpen, o_verdict = ''unknown'',
     o_first_seen = 5, o_last_seen = 9, o_count = 2\<rparr>"

theorem ecs_roundtrip_witness: "ecs_observation (ToECS demo_finding None) = demo_finding\<lparr>o_verdict := []\<rparr>"
  by (rule ecs_roundtrip) (simp_all add: demo_finding_def)

definition demo_export_env :: "int \<Rightarrow> export_env" where
  "demo_export_env code = \<lparr>xe_parse_uri = (\<lambda>u. Some (''https'', ''siem'', u)), xe_path_escape = id,
     xe_split_host_port = (\<lambda>_. None), xe_http = (\<lambda>_. Inr code), xe_syslog = (\<lambda>_ _ _. None),
     xe_json = (\<lambda>_. Inr ''{}''), xe_can_open = True, xe_open = Inr, xe_timestamp = []\<rparr>"

theorem http_classification_witness:
  "sendHTTP (demo_export_env 204) ''POST'' ''https://siem/in'' [] ''key'' ''{}'' ''d1'' = None \<and>
   (\<exists>e. sendHTTP (demo_export_env 401) ''POST'' ''https://siem/in'' [] ''key'' ''{}'' ''d1'' = Some (Permanent e))"
proof -
  have p: "xe_parse_uri (demo_export_env code) ''https://siem/in'' = Some (''https'', ''siem'', ''https://siem/in'')" for code
    by (simp add: demo_export_env_def)
  have a: "xe_http (demo_export_env code) r = Inr code" for code r by (simp add: demo_export_env_def)
  from http_classification [OF p [of 204] refl refl, where verb = "''POST''" and auth = "[]" and secret = "''key''"
      and payload = "''{}''" and deliveryID = "''d1''"]
    http_classification [OF p [of 401] refl refl, where verb = "''POST''" and auth = "[]" and secret = "''key''"
      and payload = "''{}''" and deliveryID = "''d1''"]
  show ?thesis by (simp add: a)
qed

definition demo_outbox :: memory where
  "demo_outbox = NewMemory\<lparr>obs := [''o1'' \<mapsto> demo_finding],
     exports := [''t'' \<mapsto> \<lparr>et_id = ''t'', et_name = ''siem'', et_type = ExportWebhook,
       et_config = [(''url'', ''https://siem/in'')], et_secret_enc = [], et_enabled = True, et_created_at = 0, et_updated_at = 0\<rparr>],
     deliveries := [''d1'' \<mapsto> \<lparr>d_id = ''d1'', d_target_id = ''t'', d_observation_id = ''o1'', d_status = DeliveryQueued,
       d_attempts = 0, d_max_attempts = 10, d_worker_id = [], d_lease_until = None, d_available_at = 0, d_last_error = [],
       d_created_at = 0, d_updated_at = 0, d_delivered_at = None\<rparr>]\<rparr>"

definition demo_export_run :: export_run where
  "demo_export_run = \<lparr>xr_worker = ''w'', xr_lease = 30 * Second, xr_delivery_keys = [''d1''], xr_claim_at = 10,
     xr_retry_from = 20, xr_finish_at = 21, xr_meanwhile = id\<rparr>"

theorem delivery_outcome_witness:
  "\<exists>m' d'. Export_runOne (demo_export_env 503) demo_export_run demo_outbox = (m', True, None) \<and>
    deliveries m' ''d1'' = Some d' \<and> d_status d' = DeliveryQueued \<and> d_available_at d' = 20 + 30 * Second"
proof -
  let ?x = demo_export_run
  define d where "d = claimed_delivery ''w'' 10 (30 * Second) (the (deliveries demo_outbox ''d1''))"
  have c: "ClaimExportDelivery (xr_delivery_keys ?x) (xr_worker ?x) (xr_claim_at ?x) (xr_lease ?x) demo_outbox =
      (demo_outbox\<lparr>deliveries := [''d1'' \<mapsto> d]\<rparr>, Inr d)"
    by (simp add: demo_export_run_def demo_outbox_def ClaimExportDelivery_def claimable_deliveries_def entries_def
        List.map_filter_simps Let_def d_def target_enabled_def delivery_waiting_def)
  have o: "owned_delivery (d_id d) (xr_worker ?x) (xr_meanwhile ?x (demo_outbox\<lparr>deliveries := [''d1'' \<mapsto> d]\<rparr>)) = Some d"
    by (simp add: owned_delivery_def d_def demo_outbox_def demo_export_run_def claimed_delivery_def)
  have s: "deliver (demo_export_env 503) d (demo_outbox\<lparr>deliveries := [''d1'' \<mapsto> d]\<rparr>) =
      Some (Transient (''export endpoint returned HTTP '' @ Itoa 503))"
    by (simp add: deliver_def d_def demo_outbox_def claimed_delivery_def demo_export_env_def GetExportTarget_def get_or_def
        GetObservation_def target_secret_def sendHTTP_def Let_def)
  have f: "d_id d = ''d1''" "d_attempts d = 1" "d_max_attempts d = 10"
    by (simp_all add: d_def demo_outbox_def claimed_delivery_def)
  have t: "xr_retry_from ?x = 20" by (simp add: demo_export_run_def)
  from delivery_outcome [OF c refl, of "demo_export_env 503", unfolded o, unfolded s option.case send_error.case f t]
  obtain m' d' where "Export_runOne (demo_export_env 503) ?x demo_outbox = (m', True, None)"
    "deliveries m' = (deliveries (xr_meanwhile ?x (demo_outbox\<lparr>deliveries := [''d1'' \<mapsto> d]\<rparr>)))(''d1'' \<mapsto> d')"
    "d_status d' = DeliveryQueued" "d_available_at d' = 20 + export_backoff 1" by auto
  then show ?thesis by (simp add: export_backoff_less)
qed

end
