(* ===== verification/Playbooks.thy ===== *)
theory Playbooks
  imports Text StoreMachine
begin

text \<open>
  The allow-listed response playbooks (\<open>internal/scan/response.go\<close>) and the quoting of shell
  commands (\<open>shellArg\<close> and \<open>wrapSudo\<close> in \<open>internal/scan/ssh.go\<close>): what a validated request may
  contain, and the command text the worker sends to the host.

  \<open>net.ParseIP\<close> and the parts of the server's URL are arguments; the SSH session that runs the
  command is an argument of the worker. A backslash is written \<open>CHR 92\<close>.
\<close>

section \<open>Quoting\<close>

text \<open>\<open>strings.ReplaceAll(s, "'", ...)\<close> between two single quotes.\<close>

definition shellArg :: "string \<Rightarrow> string" where
  "shellArg s = CHR 39 # concat (map (\<lambda>c. if c = CHR 39 then [CHR 39, CHR 92, CHR 39, CHR 39] else [c]) s) @ [CHR 39]"

text \<open>The command and what its standard input is fed with.\<close>

definition sudo_script :: "string \<Rightarrow> string" where
  \<open>sudo_script cmd = ''read -r PW'' @ [CHR 10] @ ''printf '%s'' @ [CHR 92] @ ''n' "$PW" | sudo -S sh -c '' @ shellArg cmd\<close>

definition wrapSudo :: "string \<Rightarrow> string \<Rightarrow> string \<times> string option" where
  "wrapSudo pw cmd =
     (if pw = [] then (cmd, None)
      else (''sh -c '' @ shellArg (sudo_script cmd), Some (pw @ [CHR 10])))"

section \<open>Requests\<close>

abbreviation PlaybookKillProcess :: string where "PlaybookKillProcess \<equiv> ''kill_process''"
abbreviation PlaybookDisableSystemdUnit :: string where "PlaybookDisableSystemdUnit \<equiv> ''disable_systemd_unit''"
abbreviation PlaybookIsolateHost :: string where "PlaybookIsolateHost \<equiv> ''isolate_host''"
abbreviation PlaybookRestoreNetwork :: string where "PlaybookRestoreNetwork \<equiv> ''restore_network''"

definition is_alnum :: "char \<Rightarrow> bool" where
  "is_alnum c = (let n = of_char c :: nat in 48 \<le> n \<and> n \<le> 57 \<or> 65 \<le> n \<and> n \<le> 90 \<or> 97 \<le> n \<and> n \<le> 122)"

text \<open>\<open>^[A-Za-z0-9_.@-]{1,200}$\<close>\<close>

definition systemdUnitPattern :: "string \<Rightarrow> bool" where
  "systemdUnitPattern s \<longleftrightarrow> 1 \<le> length s \<and> length s \<le> 200 \<and> list_all (\<lambda>c. is_alnum c \<or> c \<in> set ''_.@-'') s"

definition ValidateResponseRequest :: "(string \<Rightarrow> bool) \<Rightarrow> string \<Rightarrow> string_map \<Rightarrow> string option" where
  "ValidateResponseRequest parseIP playbook params =
     (if playbook = PlaybookKillProcess then
        (case Atoi (lookup_str params ''pid'') of
           None \<Rightarrow> Some ''kill_process requires numeric pid > 1''
         | Some pid \<Rightarrow>
             if pid \<le> 1 then Some ''kill_process requires numeric pid > 1''
             else if \<not> HasPrefix (lookup_str params ''expected_exe'') ''/''
             then Some ''kill_process requires an absolute expected_exe to guard against PID reuse''
             else None)
      else if playbook = PlaybookDisableSystemdUnit then
        (if \<not> systemdUnitPattern (lookup_str params ''unit'')
         then Some ''disable_systemd_unit requires a valid unit name'' else None)
      else if playbook = PlaybookIsolateHost then
        (if lookup_str params ''control_plane_ip'' \<noteq> [] \<and> \<not> parseIP (lookup_str params ''control_plane_ip'')
         then Some ''control_plane_ip must be a literal IPv4 or IPv6 address''
         else if lookup_str params ''control_plane_port'' \<noteq> [] then
           (case Atoi (lookup_str params ''control_plane_port'') of
              None \<Rightarrow> Some ''control_plane_port must be between 1 and 65535''
            | Some port \<Rightarrow> if port < 1 \<or> port > 65535 then Some ''control_plane_port must be between 1 and 65535''
                else None)
         else None)
      else if playbook = PlaybookRestoreNetwork then None
      else Some (''unsupported response playbook '' @ dquoted playbook))"

section \<open>Commands\<close>

text \<open>The parts of the server's URL that are used: all empty when it does not parse.\<close>

record server_url =
  su_scheme :: string
  su_hostname :: string
  su_port :: string

text \<open>
  The number \<open>strconv.Atoi\<close> gives beside its error: zero, or the nearest one in range. It stops at the digit
  that overflows 64 bits, and what follows is not looked at.
\<close>

definition atoi_value :: "string \<Rightarrow> int" where
  "atoi_value s =
     (let neg = (case s of c # _ \<Rightarrow> c = CHR ''-'' | [] \<Rightarrow> False);
          ds = (case s of c # cs \<Rightarrow> if c = CHR ''-'' \<or> c = CHR ''+'' then cs else s | [] \<Rightarrow> []);
          v = digits_value (takeWhile is_digit ds) 0
      in if ds = [] \<or> (\<not> list_all is_digit ds \<and> v < 2 ^ 64) then 0
         else if neg then max (- v) (- (2 ^ 63)) else min v (2 ^ 63 - 1))"

definition controlPlaneEndpoint :: "(string \<Rightarrow> bool) \<Rightarrow> server_url \<Rightarrow> string_map \<Rightarrow> string + string \<times> int" where
  "controlPlaneEndpoint parseIP u params =
     (let ip = lookup_str params ''control_plane_ip'';
          ip = (if ip = [] then su_hostname u else ip)
      in if \<not> parseIP ip
         then Inl ''isolate_host requires a literal control_plane_ip; DNS names are unsafe after network containment''
         else let port = atoi_value (lookup_str params ''control_plane_port'');
                  port = (if port = 0 then atoi_value (su_port u) else port);
                  port = (if port = 0 then (if su_scheme u = ''https'' then 443 else 80) else port)
              in if port < 1 \<or> port > 65535
                 then Inl (''control-plane port '' @ Itoa port @ '' is out of range'')
                 else Inr (ip, port))"

definition isolation_ruleset :: "int \<Rightarrow> string \<Rightarrow> string \<Rightarrow> int \<Rightarrow> string" where
  "isolation_ruleset sshPort family ip port = Join [CHR 10]
     [''table inet bladedr_response {'',
      ''  chain input {'',
      ''    type filter hook input priority -200; policy drop;'',
      ''    iif lo accept'',
      ''    ct state established,related accept'',
      ''    tcp dport '' @ Itoa sshPort @ '' accept'',
      ''    '' @ family @ '' saddr '' @ ip @ '' tcp sport '' @ Itoa port @ '' accept'',
      ''  }'',
      ''  chain output {'',
      ''    type filter hook output priority -200; policy drop;'',
      ''    oif lo accept'',
      ''    ct state established,related accept'',
      ''    tcp sport '' @ Itoa sshPort @ '' accept'',
      ''    '' @ family @ '' daddr '' @ ip @ '' tcp dport '' @ Itoa port @ '' accept'',
      ''  }'',
      ''}'']"

definition kill_inspect :: "string \<Rightarrow> string \<Rightarrow> string" where
  \<open>kill_inspect pid expected =
     ''pid='' @ pid @ ''; if [ ! -e "/proc/$pid" ]; then echo "process $pid already absent"; exit 0; fi; '' @
     ''actual=$(readlink -f "/proc/$pid/exe") || exit 1; actual="${actual% (deleted)}"; printf 'pid=%s exe=%s'' @
     [CHR 92] @ ''n' "$pid" "$actual"; '' @
     ''[ "$actual" = '' @ expected @ '' ] || { echo "executable mismatch; refusing" >&2; exit 1; }''\<close>

definition responseCommand ::
  "(string \<Rightarrow> bool) \<Rightarrow> server_url \<Rightarrow> host \<Rightarrow> response_action \<Rightarrow> string + string" where
  \<open>responseCommand parseIP u host action =
     (case ValidateResponseRequest parseIP (ra_playbook action) (ra_params action) of
        Some e \<Rightarrow> Inl e
      | None \<Rightarrow>
          if ra_playbook action = PlaybookKillProcess then
            (let inspect = kill_inspect (lookup_str (ra_params action) ''pid'')
                   (shellArg (lookup_str (ra_params action) ''expected_exe''))
             in Inr (if ra_dry_run action then inspect @ ''; echo '' @ squoted ''dry-run: would send SIGTERM''
                     else inspect @ ''; kill -TERM "$pid"; echo '' @ squoted ''SIGTERM sent''))
          else if ra_playbook action = PlaybookDisableSystemdUnit then
            (let unit = shellArg (lookup_str (ra_params action) ''unit'')
             in Inr (if ra_dry_run action
                     then ''systemctl show --no-pager --property=Id,LoadState,ActiveState,UnitFileState '' @ unit
                     else ''systemctl disable --now '' @ unit @
                          '' && systemctl show --no-pager --property=Id,ActiveState,UnitFileState '' @ unit))
          else if ra_playbook action = PlaybookIsolateHost then
            (case controlPlaneEndpoint parseIP u (ra_params action) of
               Inl e \<Rightarrow> Inl e
             | Inr (ip, port) \<Rightarrow>
                 let sshPort = (if h_ssh_port host \<le> 0 then 22 else h_ssh_port host);
                     family = (if CHR '':'' \<in> set ip then ''ip6'' else ''ip'')
                 in if ra_dry_run action
                    then Inr (''printf '' @ squoted (''dry-run: would isolate host; allow SSH tcp/'' @ Itoa sshPort @
                              '' and control plane '' @ ip @ '':'' @ Itoa port @ [CHR 92] @ ''n'') @
                              ''; nft list table inet bladedr_response 2>/dev/null || true'')
                    else Inr (Join ''; ''
                      [''command -v nft >/dev/null || { echo '' @ squoted ''nft is required'' @ '' >&2; exit 1; }'',
                       ''nft delete table inet bladedr_response 2>/dev/null || true'',
                       ''printf '' @ squoted (''%s'' @ [CHR 92] @ ''n'') @ '' '' @
                         shellArg (isolation_ruleset sshPort family ip port) @ '' | nft -f -'',
                       ''nft list table inet bladedr_response'']))
          else if ra_playbook action = PlaybookRestoreNetwork then
            Inr (if ra_dry_run action
                 then ''nft list table inet bladedr_response 2>/dev/null || echo '' @
                      squoted ''network isolation is not active'' @ ''; echo '' @
                      squoted ''dry-run: would remove only the bladedr_response table''
                 else ''nft delete table inet bladedr_response 2>/dev/null || true; echo '' @
                      squoted ''bladedr network isolation removed'')
          else Inl (''unsupported response playbook '' @ dquoted (ra_playbook action)))\<close>

section \<open>Running an action\<close>

text \<open>
  The SSH session is an argument, in two steps that each give the store as it is when they end (the
  connection may pin the host's key; others may move the store on): connecting, and running the
  command with its standard input, which gives the output and an error, if any.
\<close>

record response_env =
  rq_parse_ip :: "string \<Rightarrow> bool"
  rq_server_url :: server_url
  rq_transport :: "(host \<Rightarrow> memory \<Rightarrow> string + string) option"
  rq_dial :: "host \<Rightarrow> memory \<Rightarrow> memory \<times> string option"
  rq_run :: "host \<Rightarrow> string \<Rightarrow> string option \<Rightarrow> memory \<Rightarrow> memory \<times> string \<times> string option"

definition truncated :: "string \<Rightarrow> string" where
  "truncated out = (if length out > 65536 then take 65536 out @ [CHR 10] @ ''[output truncated]'' else out)"

definition ExecuteResponse :: "response_env \<Rightarrow> response_action \<Rightarrow> memory \<Rightarrow> memory \<times> string \<times> string option" where
  "ExecuteResponse env action m =
     (case GetHost (ra_host_id action) m of
        Inl e \<Rightarrow> (m, [], Some (store_error_text e))
      | Inr host \<Rightarrow>
          (case rq_transport env of
             None \<Rightarrow> (m, [], Some ''response transport unavailable'')
           | Some t \<Rightarrow>
               (case t host m of
                  Inl e \<Rightarrow> (m, [], Some e)
                | Inr sudoPassword \<Rightarrow>
                    (case responseCommand (rq_parse_ip env) (rq_server_url env) host action of
                       Inl e \<Rightarrow> (m, [], Some e)
                     | Inr command \<Rightarrow>
                         (case rq_dial env host m of
                            (m, Some e) \<Rightarrow> (m, [], Some e)
                          | (m, None) \<Rightarrow>
                              (case wrapSudo sudoPassword command of (cmd, cmdStdin) \<Rightarrow>
                               (case rq_run env host cmd cmdStdin m of (m, output, err) \<Rightarrow>
                                (m, truncated output,
                                 map_option (\<lambda>e. ''response '' @ ra_playbook action @ '': '' @ e) err))))))))"

record response_queue =
  rq_worker :: string
  rq_lease :: duration
  rq_action_keys :: "string list"
  rq_claim_at :: go_time
  rq_finish_at :: go_time

definition Response_RunOne ::
  "response_env \<Rightarrow> response_queue \<Rightarrow> memory \<Rightarrow> memory \<times> bool \<times> store_error option" where
  "Response_RunOne env q m =
     (let report = (\<lambda>r. case r of (m, Inl e) \<Rightarrow> (m, True, Some e) | (m, Inr _) \<Rightarrow> (m, True, None)) in
      case ClaimResponseAction (rq_action_keys q) (rq_worker q) (rq_claim_at q) (rq_lease q) m of
        (m, Inl (ErrNotFound _ _)) \<Rightarrow> (m, False, None)
      | (m, Inl e) \<Rightarrow> (m, False, Some e)
      | (m, Inr action) \<Rightarrow>
          (case ExecuteResponse env action m of
             (m, output, Some e) \<Rightarrow>
               report (FailResponseAction (rq_finish_at q) (ra_id action) (rq_worker q)
                 (if output \<noteq> [] then e @ ''; output: '' @ output else e) m)
           | (m, output, None) \<Rightarrow>
               report (CompleteResponseAction (rq_finish_at q) (ra_id action) (rq_worker q) output m)))"

section \<open>Reading the quoted words back\<close>

text \<open>
  One word as a POSIX shell reads it: single quotes keep everything up to the next single quote, a
  backslash outside quotes keeps the next character, and an unquoted blank or operator ends the
  word. The first argument says whether the reader is inside quotes. Text the shell would expand or
  that is left unterminated has no value. The rest of the input is returned.
\<close>

definition sh_break :: "char \<Rightarrow> bool" where
  "sh_break c \<longleftrightarrow> is_space c \<or> c \<in> set '';|&()<>''"

definition sh_special :: "char \<Rightarrow> bool" where
  "sh_special c \<longleftrightarrow> c \<in> set ''$`*?[~#!{}'' \<or> c = CHR 34"

fun sh_word :: "bool \<Rightarrow> string \<Rightarrow> (string \<times> string) option" where
  "sh_word inq [] = (if inq then None else Some ([], []))"
| "sh_word inq (c # cs) =
     (if inq then (if c = CHR 39 then sh_word False cs
                   else map_option (\<lambda>(w, r). (c # w, r)) (sh_word True cs))
      else if c = CHR 39 then sh_word True cs
      else if c = CHR 92 then
        (case cs of [] \<Rightarrow> None | d # ds \<Rightarrow> map_option (\<lambda>(w, r). (d # w, r)) (sh_word False ds))
      else if sh_break c then Some ([], c # cs)
      else if sh_special c then None
      else map_option (\<lambda>(w, r). (c # w, r)) (sh_word False cs))"

lemma sh_word_quoted:
  "sh_word True (concat (map (\<lambda>c. if c = CHR 39 then [CHR 39, CHR 92, CHR 39, CHR 39] else [c]) s) @ CHR 39 # t) =
   map_option (\<lambda>(w, r). (s @ w, r)) (sh_word False t)"
proof (induction s)
  case Nil
  show ?case by (simp add: option.map_ident_strong case_prod_unfold)
next
  case (Cons c s)
  then show ?case by (cases "c = CHR 39") (simp_all add: option.map_comp comp_def case_prod_unfold)
qed

lemma sh_word_shellArg: "sh_word False (shellArg s @ t) = map_option (\<lambda>(w, r). (s @ w, r)) (sh_word False t)"
  using sh_word_quoted [of s t] by (simp add: shellArg_def)

lemma sh_word_one: "t = [] \<or> sh_break (hd t) \<Longrightarrow> sh_word False (shellArg s @ t) = Some (s, t)"
  unfolding sh_word_shellArg by (cases t) (auto simp: sh_break_def is_space_def)

text \<open>
  C19. Quoting is faithful, also when it is nested. A shell reads \<open>shellArg s\<close> as exactly \<open>s\<close>, joined
  to whatever word follows it directly, whatever \<open>s\<close> contains. With a sudo password the host's shell
  is given three words, \<open>sh\<close>, \<open>-c\<close> and the script, and the script ends in \<open>sh -c\<close> and one word that
  is the whole command; the password itself is in the standard input only, so that the command
  text does not depend on it.
\<close>

theorem quoting_roundtrip:
  "sh_word False (shellArg s @ t) = map_option (\<lambda>(w, r). (s @ w, r)) (sh_word False t) \<and>
   (\<exists>script. wrapSudo (c # pw) cmd = (''sh -c '' @ script, Some (c # pw @ [CHR 10])) \<and>
      sh_word False script = Some (sudo_script cmd, []) \<and>
      (\<exists>before arg. sudo_script cmd = before @ '' | sudo -S sh -c '' @ arg \<and> sh_word False arg = Some (cmd, []) \<and>
         (\<forall>cmd'. \<exists>arg'. sudo_script cmd' = before @ '' | sudo -S sh -c '' @ arg'))) \<and>
   fst (wrapSudo (c # pw) cmd) = fst (wrapSudo (d # pw') cmd)"
proof -
  have q: "sh_word False (shellArg u) = Some (u, [])" for u
    using sh_word_one [of "[]" u] by simp
  define before where \<open>before = ''read -r PW'' @ [CHR 10] @ ''printf '%s'' @ [CHR 92] @ ''n' "$PW"''\<close>
  have s: "sudo_script u = before @ '' | sudo -S sh -c '' @ shellArg u" for u
    by (simp add: sudo_script_def before_def)
  have "\<exists>before arg. sudo_script cmd = before @ '' | sudo -S sh -c '' @ arg \<and> sh_word False arg = Some (cmd, []) \<and>
      (\<forall>cmd'. \<exists>arg'. sudo_script cmd' = before @ '' | sudo -S sh -c '' @ arg')"
    using s q by blast
  then show ?thesis by (simp add: sh_word_shellArg wrapSudo_def q)
qed

section \<open>Validated requests\<close>

definition validated :: "(string \<Rightarrow> bool) \<Rightarrow> response_action \<Rightarrow> bool" where
  "validated parseIP a \<longleftrightarrow> ValidateResponseRequest parseIP (ra_playbook a) (ra_params a) = None"

lemma takeWhile_list_all: "list_all P xs \<Longrightarrow> takeWhile P xs = xs"
  by (induction xs) auto

lemma atoi_value_Some: "Atoi s = Some n \<Longrightarrow> atoi_value s = n"
  by (auto simp: Atoi_def atoi_value_def Let_def takeWhile_list_all split: if_splits)

lemma Atoi_shape:
  assumes "Atoi s = Some n"
  shows "\<exists>ds. (s = ds \<or> s = CHR ''-'' # ds \<or> s = CHR ''+'' # ds) \<and> ds \<noteq> [] \<and> list_all is_digit ds"
  using assms by (cases s) (auto simp: Atoi_def Let_def split: if_splits)

text \<open>The endpoint of a validated isolation request.\<close>

lemma endpoint_validated:
  assumes "ValidateResponseRequest parseIP PlaybookIsolateHost params = None"
    and "su_port u = [] \<or> 1 \<le> atoi_value (su_port u) \<and> atoi_value (su_port u) \<le> 65535"
  shows "\<exists>port. 1 \<le> port \<and> port \<le> 65535 \<and> (\<forall>n. Atoi (lookup_str params ''control_plane_port'') = Some n \<longrightarrow> port = n) \<and>
    controlPlaneEndpoint parseIP u params =
      (let ip = (if lookup_str params ''control_plane_ip'' = [] then su_hostname u else lookup_str params ''control_plane_ip'')
       in if parseIP ip then Inr (ip, port)
          else Inl ''isolate_host requires a literal control_plane_ip; DNS names are unsafe after network containment'')"
proof (cases "lookup_str params ''control_plane_port'' = []")
  case True
  have z: "Atoi [] = None" "atoi_value [] = 0" by (simp_all add: Atoi_def atoi_value_def)
  define port where "port = (if atoi_value (su_port u) = 0 then if su_scheme u = ''https'' then 443 else 80
    else atoi_value (su_port u))"
  have "1 \<le> port \<and> port \<le> 65535" using assms(2) z by (auto simp: port_def)
  then show ?thesis using True z
    by (intro exI [of _ port]) (auto simp: controlPlaneEndpoint_def Let_def port_def)
next
  case False
  then obtain n where n: "Atoi (lookup_str params ''control_plane_port'') = Some n" "1 \<le> n" "n \<le> 65535"
    using assms(1) by (auto simp: ValidateResponseRequest_def split: if_splits option.splits)
  note v = atoi_value_Some [OF n(1)]
  show ?thesis using n v by (intro exI [of _ n]) (simp add: controlPlaneEndpoint_def Let_def)
qed

lemma validated_playbook:
  assumes "validated parseIP a"
  shows "ra_playbook a \<in> {PlaybookKillProcess, PlaybookDisableSystemdUnit, PlaybookIsolateHost, PlaybookRestoreNetwork}"
  using assms by (auto simp: validated_def ValidateResponseRequest_def split: if_splits)

lemma validated_ip:
  assumes "validated parseIP a" and "ra_playbook a = PlaybookIsolateHost"
    and "lookup_str (ra_params a) ''control_plane_ip'' \<noteq> []"
  shows "parseIP (lookup_str (ra_params a) ''control_plane_ip'')"
  using assms by (auto simp: validated_def ValidateResponseRequest_def split: if_splits)

lemma command_not_isolating:
  assumes "validated parseIP a" and "ra_playbook a \<noteq> PlaybookIsolateHost"
  shows "\<exists>cmd. responseCommand parseIP u host a = Inr cmd"
  using validated_playbook [OF assms(1)] assms by (auto simp: validated_def responseCommand_def Let_def)

lemma command_isolating:
  assumes "validated parseIP a" and "ra_playbook a = PlaybookIsolateHost"
  shows "(\<exists>cmd. responseCommand parseIP u host a = Inr cmd) = (\<exists>e. controlPlaneEndpoint parseIP u (ra_params a) = Inr e)"
  using assms by (cases "controlPlaneEndpoint parseIP u (ra_params a)")
    (auto simp: validated_def responseCommand_def Let_def)

text \<open>
  A request that passes validation does not fail later for its parameters, with one exception.
  Its command exists unless it asks for isolation without giving the address; then the address is
  the server URL's, and the action fails, after it was approved, exactly when that is not an IP
  literal. A port given in the request is used as it is. A request that fails validation
  never gets a command.
\<close>

theorem validated_request_has_command:
  assumes "validated parseIP a" and "su_port u = [] \<or> 1 \<le> atoi_value (su_port u) \<and> atoi_value (su_port u) \<le> 65535"
  shows "(\<exists>cmd. responseCommand parseIP u host a = Inr cmd) =
      (ra_playbook a = PlaybookIsolateHost \<and> lookup_str (ra_params a) ''control_plane_ip'' = [] \<longrightarrow> parseIP (su_hostname u)) \<and>
    (ra_playbook a = PlaybookIsolateHost \<and> lookup_str (ra_params a) ''control_plane_ip'' \<noteq> [] \<longrightarrow>
      (\<exists>port. controlPlaneEndpoint parseIP u (ra_params a) = Inr (lookup_str (ra_params a) ''control_plane_ip'', port) \<and>
         1 \<le> port \<and> port \<le> 65535 \<and>
         (\<forall>n. Atoi (lookup_str (ra_params a) ''control_plane_port'') = Some n \<longrightarrow> port = n)))"
proof (cases "ra_playbook a = PlaybookIsolateHost")
  case True
  then have v: "ValidateResponseRequest parseIP PlaybookIsolateHost (ra_params a) = None"
    using assms(1) by (simp add: validated_def)
  obtain port where port: "1 \<le> port" "port \<le> 65535"
      "\<forall>n. Atoi (lookup_str (ra_params a) ''control_plane_port'') = Some n \<longrightarrow> port = n"
    and e: "controlPlaneEndpoint parseIP u (ra_params a) =
      (let ip = (if lookup_str (ra_params a) ''control_plane_ip'' = [] then su_hostname u
                 else lookup_str (ra_params a) ''control_plane_ip'')
       in if parseIP ip then Inr (ip, port)
          else Inl ''isolate_host requires a literal control_plane_ip; DNS names are unsafe after network containment'')"
    using endpoint_validated [OF v assms(2)] by blast
  show ?thesis unfolding command_isolating [OF assms(1) True] e
    using validated_ip [OF assms(1) True] port by (auto simp: Let_def True)
next
  case False
  then show ?thesis using command_not_isolating [OF assms(1) False] by simp
qed

theorem invalid_request_has_none:
  "\<not> validated parseIP a \<Longrightarrow> \<exists>e. responseCommand parseIP u host a = Inl e"
  by (auto simp: validated_def responseCommand_def)

section \<open>What reaches a host\<close>

lemma Execute_needs_command:
  assumes "ExecuteResponse env a m \<noteq> ExecuteResponse (env\<lparr>rq_run := run'\<rparr>) a m"
  shows "\<exists>host cmd. hosts m (ra_host_id a) = Some host \<and>
    responseCommand (rq_parse_ip env) (rq_server_url env) host a = Inr cmd"
proof (cases "hosts m (ra_host_id a)")
  case None
  then show ?thesis using assms by (simp add: ExecuteResponse_def GetHost_def get_or_def)
next
  case (Some host)
  then have h: "GetHost (ra_host_id a) m = Inr host" by (simp add: GetHost_def get_or_def)
  show ?thesis
  proof (cases "responseCommand (rq_parse_ip env) (rq_server_url env) host a")
    case (Inl e)
    then have "ExecuteResponse env a m = ExecuteResponse (env\<lparr>rq_run := run'\<rparr>) a m"
      by (simp add: ExecuteResponse_def h split: option.split sum.split)
    with assms show ?thesis by simp
  qed (use Some in blast)
qed

lemma responseCommand_Inr: "responseCommand parseIP u host a = Inr cmd \<Longrightarrow> validated parseIP a"
  using invalid_request_has_none [of parseIP a u host] by auto

lemma validated_claimed [simp]: "validated parseIP (claimed_action w now l a) = validated parseIP a"
  by (simp add: validated_def)

text \<open>
  C1. Nothing runs on a host that a second administrator did not approve. With self-approval off, in
  every reachable store: if what the response worker does depends at all on the commands it sends
  to hosts (replacing the session by another makes a difference), then the store holds an action
  that is approved, or running under a lease that ran out, which someone other than its requester
  approved, whose request passes validation and whose host is there.
\<close>

theorem nothing_runs_unapproved:
  assumes "reachable False w m" and "Response_RunOne env q m \<noteq> Response_RunOne (env\<lparr>rq_run := run'\<rparr>) q m"
  shows "\<exists>k a host. responses m k = Some a \<and> (action_ready a \<or> action_expired (rq_claim_at q) a) \<and>
    ra_approved_at a \<noteq> None \<and> ra_approved_by a \<noteq> ra_requested_by a \<and>
    validated (rq_parse_ip env) a \<and> hosts m (ra_host_id a) = Some host"
proof -
  obtain m1 r where c: "ClaimResponseAction (rq_action_keys q) (rq_worker q) (rq_claim_at q) (rq_lease q) m = (m1, r)"
    by fastforce
  obtain action where r: "r = Inr action"
    using assms(2) by (cases r) (simp_all add: Response_RunOne_def Let_def c split: store_error.splits)
  have "ExecuteResponse env action m1 \<noteq> ExecuteResponse (env\<lparr>rq_run := run'\<rparr>) action m1"
  proof
    assume "ExecuteResponse env action m1 = ExecuteResponse (env\<lparr>rq_run := run'\<rparr>) action m1"
    with assms(2) show False by (simp add: Response_RunOne_def Let_def c r)
  qed
  from Execute_needs_command [OF this] obtain host cmd where h: "hosts m1 (ra_host_id action) = Some host"
    and cmd: "responseCommand (rq_parse_ip env) (rq_server_url env) host action = Inr cmd" by blast
  obtain k a where a: "responses m k = Some a" "action_ready a \<or> action_expired (rq_claim_at q) a"
    "m1 = m\<lparr>responses := (responses m)(k \<mapsto> action)\<rparr>" "action = claimed_action (rq_worker q) (rq_claim_at q) (rq_lease q) a"
    using ClaimAction_ok [OF c [unfolded r]] by blast
  have "action_row_ok False k a"
    using reachable_inv [OF assms(1)] reachable_policy [OF assms(1)] a(1) by (simp add: store_inv_def resp_inv_def)
  from row_ok_claimed [OF this a(2)] responseCommand_Inr [OF cmd] h a show ?thesis by auto
qed

section \<open>Parameters stay data\<close>

lemma validated_kill:
  assumes "validated parseIP a" and "ra_playbook a = PlaybookKillProcess"
  shows "\<exists>ds. lookup_str (ra_params a) ''pid'' \<in> {ds, CHR ''+'' # ds} \<and> ds \<noteq> [] \<and> list_all is_digit ds"
    and "HasPrefix (lookup_str (ra_params a) ''expected_exe'') ''/''"
proof -
  obtain pid where pid: "Atoi (lookup_str (ra_params a) ''pid'') = Some pid" "1 < pid"
    using assms by (auto simp: validated_def ValidateResponseRequest_def split: option.splits if_splits)
  have "lookup_str (ra_params a) ''pid'' \<noteq> CHR ''-'' # ds" if "list_all is_digit ds" for ds
  proof
    assume m: "lookup_str (ra_params a) ''pid'' = CHR ''-'' # ds"
    have "0 \<le> digits_value ds 0" by (rule digits_value_nonneg [OF that]) simp
    then show False using pid m by (simp add: Atoi_def Let_def split: if_splits)
  qed
  with Atoi_shape [OF pid(1)]
  show "\<exists>ds. lookup_str (ra_params a) ''pid'' \<in> {ds, CHR ''+'' # ds} \<and> ds \<noteq> [] \<and> list_all is_digit ds" by blast
  show "HasPrefix (lookup_str (ra_params a) ''expected_exe'') ''/''"
    using assms by (auto simp: validated_def ValidateResponseRequest_def split: option.splits if_splits)
qed


section \<open>Examples\<close>

definition demo_kill :: response_action where
  "demo_kill = requested_action ''h1'' PlaybookKillProcess [(''pid'', ''42''), (''expected_exe'', ''/tmp/x'')] False ''alice''"

definition demo_r1 :: memory where "demo_r1 = fst (CreateResponseAction ''a1'' 2 demo_kill demo_s1)"
definition demo_r2 :: memory where "demo_r2 = fst (ApproveResponseAction 3 ''a1'' ''bob'' demo_r1)"

lemma demo_r2_reachable: "reachable False 0 demo_r2"
proof -
  have "responses demo_s1 ''a1'' = None" by (simp add: demo_defs)
  then have "reachable False 0 demo_r1" unfolding demo_r1_def demo_kill_def
    by (rule reachable_step [OF demo_reachable(1) by_responses [OF resp_create]])
  then show ?thesis unfolding demo_r2_def
    by (rule reachable_step [OF _ by_responses [OF resp_approve]])
qed

lemma demo_kill_validated: "validated parseIP demo_kill"
proof -
  have "Atoi ''42'' = Some 42" by code_simp
  then show ?thesis
    by (simp add: validated_def demo_kill_def requested_action_def ValidateResponseRequest_def lookup_str_def)
qed

definition demo_response_env :: "string option \<Rightarrow> response_env" where
  "demo_response_env e = \<lparr>rq_parse_ip = (\<lambda>_. False), rq_server_url = \<lparr>su_scheme = ''https'', su_hostname = ''cp'', su_port = []\<rparr>,
     rq_transport = Some (\<lambda>h m. Inr []), rq_dial = (\<lambda>h m. (m, None)), rq_run = (\<lambda>h c i m. (m, [], e))\<rparr>"

definition demo_response_queue :: response_queue where
  "demo_response_queue = \<lparr>rq_worker = ''w'', rq_lease = 60, rq_action_keys = [''a1''], rq_claim_at = 10, rq_finish_at = 11\<rparr>"

lemma demo_run:
  "\<exists>m' a. Response_RunOne (demo_response_env e) demo_response_queue demo_r2 = (m', True, None) \<and>
     responses m' ''a1'' = Some a \<and> ra_status a = (if e = None then ResponseSucceeded else ResponseFailed)"
proof -
  define a0 where "a0 = demo_kill\<lparr>ra_id := ''a1'', ra_created_at := 2, ra_updated_at := 3, ra_status := ResponseApproved,
    ra_approved_by := ''bob'', ra_approved_at := Some 3\<rparr>"
  define a where "a = claimed_action ''w'' 10 60 a0"
  define m1 where "m1 = demo_r2\<lparr>responses := [''a1'' \<mapsto> a]\<rparr>"
  have r: "responses demo_r2 = [''a1'' \<mapsto> a0]"
    by (simp add: a0_def demo_r2_def demo_r1_def demo_kill_def demo_defs)
  have st: "ra_status a0 = ResponseApproved" by (simp add: a0_def)
  have c: "ClaimResponseAction [''a1''] ''w'' 10 60 demo_r2 = (m1, Inr a)"
    by (simp add: ClaimResponseAction_def claimable_actions_def entries_def List.map_filter_simps
        r st action_ready_def Let_def m1_def a_def)
  have a: "ra_id a = ''a1''" "ra_host_id a = ''h1''" "ra_playbook a = PlaybookKillProcess" "ra_params a = ra_params demo_kill"
    by (simp_all add: a_def a0_def demo_kill_def requested_action_def)
  have h: "GetHost ''h1'' m1 = Inr (the (hosts m1 ''h1''))"
    by (simp add: m1_def GetHost_def get_or_def demo_r2_def demo_r1_def demo_kill_def demo_defs)
  have "validated p a" for p
    using demo_kill_validated [of p] a by (simp add: validated_def demo_kill_def requested_action_def)
  from command_not_isolating [OF this] a obtain cmd where
    cmd: "responseCommand (\<lambda>_. False) \<lparr>su_scheme = ''https'', su_hostname = ''cp'', su_port = []\<rparr> (the (hosts m1 ''h1'')) a = Inr cmd"
    by force
  have x: "ExecuteResponse (demo_response_env e) a m1 =
      (m1, [], map_option (\<lambda>e. ''response '' @ PlaybookKillProcess @ '': '' @ e) e)" for e
    by (simp add: ExecuteResponse_def a h cmd demo_response_env_def wrapSudo_def truncated_def)
  have o: "owned_action ''a1'' ''w'' m1 = Some a" by (simp add: owned_action_def m1_def a_def)
  show ?thesis
    by (cases e) (simp_all add: Response_RunOne_def demo_response_queue_def c x a o Let_def CompleteResponseAction_def
        FailResponseAction_def)
qed

theorem nothing_runs_unapproved_witness:
  "\<exists>k a. responses demo_r2 k = Some a \<and> ra_approved_by a \<noteq> ra_requested_by a"
proof -
  have env: "demo_response_env e = (demo_response_env None)\<lparr>rq_run := rq_run (demo_response_env e)\<rparr>" for e
    by (simp add: demo_response_env_def)
  have "Response_RunOne (demo_response_env None) demo_response_queue demo_r2 \<noteq>
      Response_RunOne (demo_response_env (Some [])) demo_response_queue demo_r2"
    using demo_run [of None] demo_run [of "Some []"] by auto
  then have "Response_RunOne (demo_response_env None) demo_response_queue demo_r2 \<noteq>
      Response_RunOne ((demo_response_env None)\<lparr>rq_run := rq_run (demo_response_env (Some []))\<rparr>) demo_response_queue demo_r2"
    using env [of "Some []"] by metis
  from nothing_runs_unapproved [OF demo_r2_reachable this] show ?thesis by blast
qed

theorem validated_request_has_command_witness:
  "\<exists>cmd. responseCommand (\<lambda>_. False) \<lparr>su_scheme = ''https'', su_hostname = ''cp'', su_port = []\<rparr> demo_host demo_kill = Inr cmd"
  using validated_request_has_command [OF demo_kill_validated, where
      u = "\<lparr>su_scheme = ''https'', su_hostname = ''cp'', su_port = []\<rparr>" and host = demo_host]
  by (simp add: demo_kill_def requested_action_def)


text \<open>The unit pattern lets an option of \<open>systemctl\<close> through, which the quoting does not hide.\<close>

lemma option_like_unit_accepted:
  assumes "ra_playbook a = PlaybookDisableSystemdUnit" and "ra_params a = [(''unit'', ''--version'')]" and "\<not> ra_dry_run a"
  shows "\<exists>rest. responseCommand parseIP u host a = Inr (''systemctl disable --now '' @ shellArg ''--version'' @ rest)"
proof -
  have "systemdUnitPattern ''--version''" by code_simp
  then show ?thesis using assms
    by (simp add: responseCommand_def ValidateResponseRequest_def lookup_str_def Let_def)
qed

end
