(* ===== verification/Ingest.thy ===== *)
theory Ingest
  imports AuthApi ScanRunner
begin

text \<open>
  The endpoint sensors post to (\<open>ingestEvents\<close> in \<open>internal/api/api.go\<close>): which events of a batch are
  stored, and how far a batch can reach into the store.

  \<open>pathID\<close> is the host in the URL; the middleware has checked that the token is one of that host. The
  batch is the decoded body, or the answer \<open>decodeLimited\<close> has already written. The identifiers, the
  clock and the orders of the maps come from \<open>se_upsert\<close>, as in a scan.
\<close>

section \<open>The handler\<close>

record sensor_event =
  ev_rule_id :: string
  ev_category :: string
  ev_title :: string
  ev_severity :: string
  ev_score :: int
  ev_mitre :: "string list"
  ev_evidence :: "(string \<times> any_value) list"
  ev_dedup_key :: string

datatype ingest_reply = IngestError reply | Ingested int

definition maxIngestBatch :: nat where "maxIngestBatch = 500"

definition event_accepted :: "sensor_event \<Rightarrow> bool" where
  "event_accepted e \<longleftrightarrow> \<not> (ev_rule_id e = [] \<or> ev_dedup_key e = []) \<and>
     ev_severity e \<in> {''info'', ''low'', ''medium'', ''high'', ''critical''} \<and>
     \<not> (ev_score e < 0 \<or> ev_score e > 100)"

definition event_observation :: "string \<Rightarrow> sensor_event \<Rightarrow> observation" where
  "event_observation hostID e = \<lparr>o_id = [], o_host_id = hostID, o_scan_id = [], o_source = SourceEBPFSensor,
     o_rule_id = ev_rule_id e, o_category = ev_category e, o_title = ev_title e, o_severity = ev_severity e,
     o_score = ev_score e, o_mitre = ev_mitre e, o_evidence = ev_evidence e, o_dedup_key = ev_dedup_key e,
     o_status = ObsOpen, o_verdict = [], o_first_seen = 0, o_last_seen = 0, o_count = 0\<rparr>"

fun ingest_events :: "scan_env \<Rightarrow> string \<Rightarrow> nat \<Rightarrow> sensor_event list \<Rightarrow> memory \<Rightarrow> memory \<times> int" where
  "ingest_events env hostID n [] m = (m, 0)"
| "ingest_events env hostID n (e # es) m =
     (if \<not> event_accepted e then ingest_events env hostID n es m
      else case upsert env n (event_observation hostID e) m of (m, r) \<Rightarrow>
        (case ingest_events env hostID (Suc n) es m of (m, k) \<Rightarrow>
          (m, (case r of Inl _ \<Rightarrow> k | Inr _ \<Rightarrow> k + 1))))"

definition ingestEvents :: "scan_env \<Rightarrow> string \<Rightarrow> sensor_event list body \<Rightarrow> memory \<Rightarrow> memory \<times> ingest_reply" where
  "ingestEvents env pathID body m =
     (case GetHost pathID m of
        Inl e \<Rightarrow> (m, IngestError (writeErr e))
      | Inr host \<Rightarrow>
          (case body of
             Inl (code, msg) \<Rightarrow> (m, IngestError (Err code msg))
           | Inr evs \<Rightarrow>
               if length evs > maxIngestBatch then (m, IngestError (Err 413 ''event batch exceeds 500 items''))
               else (case ingest_events env (h_id host) 0 evs m of (m, n) \<Rightarrow> (m, Ingested n))))"

section \<open>How far a batch reaches\<close>

definition same_identity :: "observation \<Rightarrow> observation \<Rightarrow> bool" where
  "same_identity ob ob' \<longleftrightarrow> o_id ob' = o_id ob \<and> o_host_id ob' = o_host_id ob \<and> o_source ob' = o_source ob \<and>
     o_rule_id ob' = o_rule_id ob \<and> o_category ob' = o_category ob \<and> o_title ob' = o_title ob \<and>
     o_mitre ob' = o_mitre ob \<and> o_dedup_key ob' = o_dedup_key ob \<and> o_verdict ob' = o_verdict ob \<and>
     o_first_seen ob' = o_first_seen ob"

text \<open>One row before and after: of one of the five severities and with a score in range, a new finding of
  a sensor, or a known one that keeps its identity and verdict.\<close>

definition row_reported :: "string \<Rightarrow> string set \<Rightarrow> observation option \<Rightarrow> observation \<Rightarrow> bool" where
  "row_reported h K old ob' \<longleftrightarrow> o_host_id ob' = h \<and> o_dedup_key ob' \<in> K \<and>
     o_severity ob' \<in> {''info'', ''low'', ''medium'', ''high'', ''critical''} \<and> 0 \<le> o_score ob' \<and> o_score ob' \<le> 100 \<and>
     (case old of
        None \<Rightarrow> o_source ob' = SourceEBPFSensor \<and> o_verdict ob' = ''unknown'' \<and> o_status ob' = ObsOpen
      | Some ob \<Rightarrow> same_identity ob ob' \<and> (o_status ob' = o_status ob \<or> o_status ob' = ObsOpen))"

definition reported :: "string \<Rightarrow> string set \<Rightarrow> memory \<Rightarrow> memory \<Rightarrow> bool" where
  "reported h K m m' \<longleftrightarrow> only_findings m m' \<and>
     (\<forall>k. obs m' k = obs m k \<or> (\<exists>ob'. obs m' k = Some ob' \<and> row_reported h K (obs m k) ob'))"

lemma reported_refl [simp]: "reported h K m m"
  by (simp add: reported_def)

lemma row_reported_trans:
  assumes "row_reported h K old ob" and "row_reported h K (Some ob) ob'"
  shows "row_reported h K old ob'"
  using assms by (auto simp: row_reported_def same_identity_def split: option.splits)

lemma reported_trans:
  assumes "reported h K m m1" and "reported h K m1 m2"
  shows "reported h K m m2"
  unfolding reported_def
proof (intro conjI allI)
  show "only_findings m m2" using assms only_findings_trans unfolding reported_def by blast
  fix k
  have 1: "obs m1 k = obs m k \<or> (\<exists>ob. obs m1 k = Some ob \<and> row_reported h K (obs m k) ob)"
    and 2: "obs m2 k = obs m1 k \<or> (\<exists>ob. obs m2 k = Some ob \<and> row_reported h K (obs m1 k) ob)"
    using assms unfolding reported_def by blast+
  show "obs m2 k = obs m k \<or> (\<exists>ob'. obs m2 k = Some ob' \<and> row_reported h K (obs m k) ob')"
    using 1 2 row_reported_trans by metis
qed

lemma reported_mono: "reported h K m m' \<Longrightarrow> K \<subseteq> K' \<Longrightarrow> reported h K' m m'"
  unfolding reported_def row_reported_def by (meson subsetD)

lemma upsert_reported:
  assumes "upserting env n m" and "upsert env n (event_observation h e) m = (m', r)" and "ev_dedup_key e \<in> K"
    and "event_accepted e"
  shows "reported h K m m'"
proof -
  let ?ob = "event_observation h e"
  define u where "u = se_upsert env n"
  note up = assms(2) [unfolded upsert_def Let_def, folded u_def]
  have f: "o_host_id ?ob = h" "o_dedup_key ?ob = ev_dedup_key e" "o_id ?ob = []" by (simp_all add: event_observation_def)
  have inve: "obs_inv m" and fresh: "obs m (ue_uuid u) = None"
    using assms(1) by (simp_all add: upserting_def fresh_obs_def u_def)
  have "\<exists>k v. obs m' = (obs m)(k \<mapsto> v) \<and> row_reported h K (obs m k) v"
  proof (cases "dedup_lookup m (o_host_id ?ob) (o_dedup_key ?ob)")
    case None
    define v where "v = inserted (ue_uuid u) (ue_now u) (?ob\<lparr>o_verdict := or_default (o_verdict ?ob) ''unknown''\<rparr>)"
    have "obs m' = (obs m)(ue_uuid u \<mapsto> v)" using up f unfolding Upsert_new [OF None] Let_def v_def by auto
    moreover have "row_reported h K None v"
      using assms(3,4) by (simp add: row_reported_def v_def inserted_def event_observation_def or_default_def event_accepted_def)
    ultimately show ?thesis using fresh by (intro exI [of _ "ue_uuid u"] exI [of _ v]) simp
  next
    case (Some i)
    then obtain ex where ex: "obs m i = Some ex" "o_host_id ex = h" "o_dedup_key ex = ev_dedup_key e"
      using obs_inv_index [OF inve Some] f by auto
    obtain reopen where "obs m' = (obs m)(i \<mapsto> refreshed reopen (ue_now u) ?ob ex)"
      using up unfolding Upsert_known [OF Some ex(1)] Let_def by auto
    moreover have "row_reported h K (Some ex) (refreshed reopen (ue_now u) ?ob ex)"
      using ex assms(3,4)
      by (simp add: row_reported_def refreshed_def same_identity_def event_observation_def event_accepted_def)
    ultimately show ?thesis using ex(1) by (metis)
  qed
  then obtain k v where "obs m' = (obs m)(k \<mapsto> v)" "row_reported h K (obs m k) v" by blast
  with upsert_effect(1) [OF assms(2)] show ?thesis by (auto simp: reported_def)
qed

lemma ingest_reported:
  assumes "upserting env n m" and "\<forall>e \<in> set es. event_accepted e \<longrightarrow> ev_dedup_key e \<in> K"
  shows "\<exists>m'. ingest_events env h n es m = (m', int (length (filter event_accepted es))) \<and> reported h K m m' \<and>
    (\<forall>key. recorded h [] key m \<or> key \<in> ev_dedup_key ` set (filter event_accepted es) \<longrightarrow> recorded h [] key m')"
  using assms
proof (induction es arbitrary: n m)
  case (Cons e es)
  show ?case
  proof (cases "event_accepted e")
    case False
    with Cons.IH [OF Cons.prems(1)] Cons.prems(2) show ?thesis by simp
  next
    case True
    have ob: "o_id (event_observation h e) = []" "o_host_id (event_observation h e) = h"
      "o_scan_id (event_observation h e) = []" "o_dedup_key (event_observation h e) = ev_dedup_key e"
      by (simp_all add: event_observation_def)
    obtain m1 x where up: "upsert env n (event_observation h e) m = (m1, Inr x)" and g: "upserting env (Suc n) m1"
      using upsert_good [OF Cons.prems(1) ob(1)] by blast
    note eff = upsert_effect [OF up, unfolded ob]
    have r1: "reported h K m m1" using upsert_reported [OF Cons.prems(1) up _ True] Cons.prems(2) True by simp
    obtain m' where ih: "ingest_events env h (Suc n) es m1 = (m', int (length (filter event_accepted es)))"
      "reported h K m1 m'" "\<forall>key. recorded h [] key m1 \<or> key \<in> ev_dedup_key ` set (filter event_accepted es) \<longrightarrow>
         recorded h [] key m'"
      using Cons.IH [OF g] Cons.prems(2) by auto
    have "recorded h [] key m'" if "recorded h [] key m \<or> key \<in> ev_dedup_key ` set (filter event_accepted (e # es))" for key
      using that ih(3) eff(2) [of key] eff(3) [OF refl] True by auto
    with True up ih reported_trans [OF r1 ih(2)] show ?thesis by simp
  qed
qed simp

text \<open>
  C14. What a holder of a host's sensor token can do with a batch of events, in any reachable store
  with fresh identifiers. A batch of at most 500 is answered with the number of its well-formed
  events, and each of them is recorded under its key. Nothing changes but findings (and the
  deliveries they queue); a changed finding belongs to this host and has the key of one of the
  events, one of the five severities and a score from 0 to 100; a new one is marked as the sensor's, open and without a verdict; a known one keeps its
  identity, its source, its rule and its verdict, and its status unless it reopens.
\<close>

theorem ingest_scope:
  assumes "reachable b w m" and "fresh_obs env 0 m" and "hosts m h = Some host" and "length evs \<le> maxIngestBatch"
  shows "\<exists>m'. ingestEvents env h (Inr evs) m = (m', Ingested (int (length (filter event_accepted evs)))) \<and>
    only_findings m m' \<and>
    (\<forall>e \<in> set evs. event_accepted e \<longrightarrow> recorded h [] (ev_dedup_key e) m') \<and>
    (\<forall>k. obs m' k = obs m k \<or>
       (\<exists>ob'. obs m' k = Some ob' \<and> row_reported h (ev_dedup_key ` set (filter event_accepted evs)) (obs m k) ob'))"
proof -
  have inve: "store_inv m" using reachable_inv [OF assms(1)] .
  have up: "upserting env 0 m" using inve assms(2) by (simp add: upserting_def store_inv_def)
  have id: "h_id host = h" using inve assms(3) by (simp add: store_inv_def tables_inv_def)
  obtain m' where i: "ingest_events env h 0 evs m = (m', int (length (filter event_accepted evs)))"
    "reported h (ev_dedup_key ` set (filter event_accepted evs)) m m'"
    "\<forall>key. recorded h [] key m \<or> key \<in> ev_dedup_key ` set (filter event_accepted evs) \<longrightarrow> recorded h [] key m'"
    using ingest_reported [OF up, of evs "ev_dedup_key ` set (filter event_accepted evs)" h] by auto
  show ?thesis
    using assms(3,4) i by (auto simp: ingestEvents_def GetHost_def get_or_def id reported_def)
qed

definition demo_event :: sensor_event where
  "demo_event = \<lparr>ev_rule_id = ''p1'', ev_category = ''runtime'', ev_title = ''T'', ev_severity = ''info'', ev_score = 0,
     ev_mitre = [], ev_evidence = [], ev_dedup_key = ''k1''\<rparr>"

theorem ingest_scope_witness:
  "\<exists>m'. ingestEvents probe_env ''h1'' (Inr [demo_event, demo_event\<lparr>ev_severity := ''loud''\<rparr>]) demo_b1 = (m', Ingested 1) \<and>
    recorded ''h1'' [] ''k1'' m'"
proof -
  have h: "hosts demo_b1 ''h1'' = Some (demo_host\<lparr>h_id := ''h1'', h_created_at := 1\<rparr>)" by (simp add: demo_b1_facts(4))
  have "length [demo_event, demo_event\<lparr>ev_severity := ''loud''\<rparr>] \<le> maxIngestBatch" by (simp add: maxIngestBatch_def)
  from ingest_scope [OF demo_b1_facts(1) demo_b1_facts(2) h this]
  show ?thesis by (auto simp: demo_event_def event_accepted_def)
qed

text \<open>
  The key of an event is the sensor's own choice, so it may be that of a finding the agentless
  scan raised: the batch then rewrites the severity, the score and the evidence of that finding,
  whatever its rule said, and the row still names the scan's source and rule.
\<close>

theorem sensor_rewrites_agentless:
  assumes "obs_inv m" and "obs m i = Some ob" and "o_source ob = SourceAgentlessProbe" and "hosts m (o_host_id ob) = Some host"
    and "h_id host = o_host_id ob" and "o_dedup_key ob \<noteq> []"
  shows "\<exists>m' ob'. ingestEvents env (o_host_id ob)
      (Inr [\<lparr>ev_rule_id = ''x'', ev_category = [], ev_title = [], ev_severity = ''info'', ev_score = 0, ev_mitre = [],
             ev_evidence = [], ev_dedup_key = o_dedup_key ob\<rparr>]) m = (m', Ingested 1) \<and>
    obs m' i = Some ob' \<and> o_severity ob' = ''info'' \<and> o_score ob' = 0 \<and> o_evidence ob' = [] \<and>
    o_source ob' = SourceAgentlessProbe \<and> o_rule_id ob' = o_rule_id ob"
proof -
  let ?e = "\<lparr>ev_rule_id = ''x'', ev_category = [], ev_title = [], ev_severity = ''info'', ev_score = 0, ev_mitre = [],
      ev_evidence = [], ev_dedup_key = o_dedup_key ob\<rparr>"
  let ?ob = "event_observation (o_host_id ob) ?e"
  define u where "u = se_upsert env 0"
  have acc: "event_accepted ?e" using assms(6) by (simp add: event_accepted_def)
  have k: "dedup_lookup m (o_host_id ?ob) (o_dedup_key ?ob) = Some i"
    using obs_inv_row [OF assms(1,2)] by (simp add: event_observation_def)
  obtain reopen m1 where up: "upsert env 0 ?ob m = (m1, Inr (refreshed reopen (ue_now u) ?ob ob))"
    and o: "obs m1 = (obs m)(i \<mapsto> refreshed reopen (ue_now u) ?ob ob)"
    unfolding upsert_def Let_def u_def Upsert_known [OF k assms(2)] by simp
  have "ingestEvents env (o_host_id ob) (Inr [?e]) m = (m1, Ingested 1)"
    using up acc assms(4,5) by (simp add: ingestEvents_def GetHost_def get_or_def maxIngestBatch_def)
  then show ?thesis using o assms(3) by (simp add: refreshed_def event_observation_def)
qed

end
