(* ===== verification/SensorEvents.thy ===== *)
theory SensorEvents
  imports Ingest Text
begin

text \<open>
  The sensor's side of the pipeline: the metadata read from the policies (\<open>internal/sensor/policy.go\<close>),
  the events of Tetragon's stream (\<open>event.go\<close>, \<open>stream.go\<close>), and whether the server stores what
  the sensor makes of them.

  Reading a directory and decoding YAML or JSON are arguments: an entry carries its name and, for a
  file that can be read, its decoded policy, if it decodes; \<open>unmarshal\<close> decodes one line.
\<close>

section \<open>Policies\<close>

record policy_meta =
  pm_name :: string
  pm_title :: string
  pm_severity :: string
  pm_category :: string
  pm_mitre :: "string list"

record tracing_policy =
  tp_name :: string
  tp_annotations :: string_map

definition categoryOf :: "string \<Rightarrow> string" where
  "categoryOf name =
     (let n = ToLower name; has = (\<lambda>ws. \<exists>w \<in> set ws. Contains n w) in
      if has [''shell-spawn'', ''exec'', ''memfd'', ''compiler''] then ''execution''
      else if has [''network'', ''tcp'', ''udp'', ''dns''] then ''network''
      else if has [''ptrace'', ''proc-mem'', ''antidebug'', ''log-tampering'', ''hidden''] then ''evasion''
      else if has [''docker'', ''setns'', ''pivot-root'', ''unshare'', ''capability'', ''suid'', ''setuid'', ''gtfobins'']
      then ''privilege''
      else if has [''lkm'', ''bpf'', ''module'', ''kernel'', ''core-pattern'', ''umh'', ''cve''] then ''kernel''
      else if has [''crontab'', ''systemd'', ''udev'', ''ssh'', ''pam'', ''persistence'', ''binfmt''] then ''persistence''
      else if has [''credential'', ''sensitive-files'', ''etc-writes''] then ''credential''
      else ''runtime'')"

definition metaFrom :: "tracing_policy \<Rightarrow> policy_meta" where
  "metaFrom tp =
     (let a = tp_annotations tp;
          m = \<lparr>pm_name = tp_name tp, pm_title = [], pm_severity = ''medium'', pm_category = categoryOf (tp_name tp), pm_mitre = []\<rparr>;
          d = lookup_str a ''description''; s = lookup_str a ''severity''; mt = lookup_str a ''mitre'';
          m = (if d \<noteq> [] then m\<lparr>pm_title := d\<rparr> else m);
          m = (if s \<noteq> [] then m\<lparr>pm_severity := ToLower s\<rparr> else m);
          m = (if mt \<noteq> [] then m\<lparr>pm_mitre := filter (\<lambda>t. t \<noteq> []) (map TrimSpace (Split CHR '','' mt))\<rparr> else m)
      in if pm_title m = [] then m\<lparr>pm_title := tp_name tp\<rparr> else m)"

record dir_entry =
  de_name :: string
  de_is_dir :: bool
  de_policy :: "tracing_policy option option"

fun load_entries :: "dir_entry list \<Rightarrow> (string \<rightharpoonup> policy_meta) \<Rightarrow> (string \<rightharpoonup> policy_meta)" where
  "load_entries [] out = out"
| "load_entries (e # es) out =
     (if de_is_dir e \<or> (\<not> HasSuffix (de_name e) ''.yml'' \<and> \<not> HasSuffix (de_name e) ''.yaml'') then load_entries es out
      else case de_policy e of
        None \<Rightarrow> load_entries es out
      | Some None \<Rightarrow> load_entries es out
      | Some (Some tp) \<Rightarrow>
          if tp_name tp = [] then load_entries es out
          else load_entries es (out(tp_name tp \<mapsto> metaFrom tp)))"

definition LoadPolicyMeta :: "string + dir_entry list \<Rightarrow> string + (string \<rightharpoonup> policy_meta)" where
  "LoadPolicyMeta dir = (case dir of Inl e \<Rightarrow> Inl e | Inr es \<Rightarrow> Inr (load_entries es Map.empty))"

section \<open>Events\<close>

record proc_info =
  pi_pid :: int
  pi_uid :: int
  pi_binary :: string
  pi_arguments :: string

record kprobe_event =
  ke_process :: "proc_info option"
  ke_parent :: "proc_info option"
  ke_function :: string
  ke_policy :: string

record tetragon_event =
  te_kprobe :: "kprobe_event option"
  te_tracepoint :: "kprobe_event option"
  te_uprobe :: "kprobe_event option"
  te_time :: string

record event =
  e_policy :: string
  e_function :: string
  e_time :: string
  e_process :: "proc_info option"
  e_parent :: "proc_info option"

definition json_blank :: "char \<Rightarrow> bool" where
  "json_blank c \<longleftrightarrow> (of_char c :: nat) \<in> {32, 9, 10, 13}"

definition trimSpace :: "string \<Rightarrow> string" where
  "trimSpace b = rev (dropWhile json_blank (rev (dropWhile json_blank b)))"

definition ParseEvent :: "(string \<Rightarrow> tetragon_event option) \<Rightarrow> string \<Rightarrow> event option" where
  "ParseEvent unmarshal line =
     (let line = trimSpace line in
      case line of
        [] \<Rightarrow> None
      | c # _ \<Rightarrow>
          if c \<noteq> CHR ''{'' then None
          else (case unmarshal line of
                  None \<Rightarrow> None
                | Some te \<Rightarrow>
                    let k = te_kprobe te;
                        k = (case k of None \<Rightarrow> te_tracepoint te | _ \<Rightarrow> k);
                        k = (case k of None \<Rightarrow> te_uprobe te | _ \<Rightarrow> k)
                    in (case k of
                          None \<Rightarrow> None
                        | Some k \<Rightarrow>
                            if ke_policy k = [] then None
                            else Some \<lparr>e_policy = ke_policy k, e_function = ke_function k, e_time = te_time te,
                                   e_process = ke_process k, e_parent = ke_parent k\<rparr>)))"

definition severityScore :: "string \<Rightarrow> int" where
  "severityScore sev =
     (let s = ToLower sev in
      if s = ''critical'' then 90 else if s = ''high'' then 75 else if s = ''medium'' then 50
      else if s = ''low'' then 25 else 40)"

definition EventToObservation :: "event \<Rightarrow> (string \<rightharpoonup> policy_meta) \<Rightarrow> string \<Rightarrow> observation" where
  "EventToObservation ev meta hostID =
     (let m = (case meta (e_policy ev) of
                 Some m \<Rightarrow> m
               | None \<Rightarrow> \<lparr>pm_name = [], pm_title = e_policy ev, pm_severity = ''medium'',
                           pm_category = categoryOf (e_policy ev), pm_mitre = []\<rparr>);
          binary = (case e_process ev of None \<Rightarrow> [] | Some p \<Rightarrow> pi_binary p);
          evidence = [(''function'', AnyString (e_function ev))] @
            (case e_process ev of
               None \<Rightarrow> []
             | Some p \<Rightarrow> [(''binary'', AnyString (pi_binary p)), (''args'', AnyString (pi_arguments p)),
                         (''pid'', AnyInt (pi_pid p)), (''uid'', AnyInt (pi_uid p))]) @
            (case e_parent ev of None \<Rightarrow> [] | Some p \<Rightarrow> [(''parent'', AnyString (pi_binary p))])
      in \<lparr>o_id = [], o_host_id = hostID, o_scan_id = [], o_source = SourceEBPFSensor, o_rule_id = e_policy ev,
          o_category = pm_category m, o_title = pm_title m, o_severity = pm_severity m,
          o_score = severityScore (pm_severity m), o_mitre = pm_mitre m, o_evidence = evidence,
          o_dedup_key = e_policy ev @ ''|'' @ binary, o_status = ObsOpen, o_verdict = [],
          o_first_seen = 0, o_last_seen = 0, o_count = 0\<rparr>)"

text \<open>The observations \<open>Stream\<close> hands on, in the order of the lines.\<close>

definition Stream ::
  "(string \<Rightarrow> tetragon_event option) \<Rightarrow> string list \<Rightarrow> (string \<rightharpoonup> policy_meta) \<Rightarrow> string \<Rightarrow> observation list" where
  "Stream unmarshal lines meta hostID =
     List.map_filter (\<lambda>line. map_option (\<lambda>ev. EventToObservation ev meta hostID) (ParseEvent unmarshal line)) lines"

section \<open>What the server makes of them\<close>

text \<open>The event the server decodes from a posted observation: the fields the two JSON forms share.\<close>

definition wire :: "observation \<Rightarrow> sensor_event" where
  "wire ob = \<lparr>ev_rule_id = o_rule_id ob, ev_category = o_category ob, ev_title = o_title ob, ev_severity = o_severity ob,
     ev_score = o_score ob, ev_mitre = o_mitre ob, ev_evidence = o_evidence ob, ev_dedup_key = o_dedup_key ob\<rparr>"

definition known_severity :: "string \<Rightarrow> bool" where
  "known_severity s \<longleftrightarrow> s \<in> {''info'', ''low'', ''medium'', ''high'', ''critical''}"

lemma severityScore_range: "25 \<le> severityScore s \<and> severityScore s \<le> 90"
  by (simp add: severityScore_def Let_def)

lemma ParseEvent_policy: "ParseEvent unmarshal line = Some ev \<Longrightarrow> e_policy ev \<noteq> []"
  by (auto simp: ParseEvent_def Let_def split: list.splits if_splits option.splits)

lemma load_entries_Some:
  assumes "load_entries es out p = Some m" and "out p \<noteq> Some m"
  shows "\<exists>e \<in> set es. \<exists>tp. de_policy e = Some (Some tp) \<and> tp_name tp = p \<and> p \<noteq> [] \<and> m = metaFrom tp"
  using assms
proof (induction es arbitrary: out)
  case (Cons e es)
  show ?case
  proof (cases "load_entries (e # es) out = load_entries es out")
    case True
    with Cons show ?thesis by auto
  next
    case False
    then obtain tp where tp: "de_policy e = Some (Some tp)" "tp_name tp \<noteq> []"
      "load_entries (e # es) out = load_entries es (out(tp_name tp \<mapsto> metaFrom tp))"
      by (simp split: if_splits option.splits)
    show ?thesis
    proof (cases "tp_name tp = p \<and> metaFrom tp = m")
      case True
      with tp(1,2) show ?thesis by auto
    next
      case False
      with Cons.prems(2) have o: "(out(tp_name tp \<mapsto> metaFrom tp)) p \<noteq> Some m" by auto
      have l: "load_entries es (out(tp_name tp \<mapsto> metaFrom tp)) p = Some m" using Cons.prems(1) by (simp only: tp(3))
      show ?thesis using Cons.IH [OF l o] by auto
    qed
  qed
qed simp

lemma metaFrom_severity:
  "pm_severity (metaFrom tp) =
    (if lookup_str (tp_annotations tp) ''severity'' = [] then ''medium'' else ToLower (lookup_str (tp_annotations tp) ''severity''))"
  by (simp add: metaFrom_def Let_def)

text \<open>
  From Tetragon's stream to the store. A line becomes at most one finding of the host, with the
  policy as its rule and a score from 25 to 90. The server stores it exactly when the severity its
  policy's annotation gives, in lower case, is one of the five it knows; a policy without the
  annotation, or a hit of a policy without a file, is medium and is stored. So a policy whose
  author wrote another word for its severity never produces a finding.
\<close>

theorem sensor_event_stored_iff:
  assumes "LoadPolicyMeta (Inr es) = Inr meta" and "ParseEvent unmarshal line = Some ev"
  shows "event_accepted (wire (EventToObservation ev meta h)) =
      (case meta (e_policy ev) of None \<Rightarrow> True | Some m \<Rightarrow> known_severity (pm_severity m)) \<and>
    (\<forall>m. meta (e_policy ev) = Some m \<longrightarrow> (\<exists>e \<in> set es. \<exists>tp. de_policy e = Some (Some tp) \<and> tp_name tp = e_policy ev \<and>
       pm_severity m = (if lookup_str (tp_annotations tp) ''severity'' = [] then ''medium''
                        else ToLower (lookup_str (tp_annotations tp) ''severity''))))"
proof -
  have p: "e_policy ev \<noteq> []" by (rule ParseEvent_policy [OF assms(2)])
  have m: "load_entries es Map.empty = meta" using assms(1) by (simp add: LoadPolicyMeta_def)
  have "event_accepted (wire (EventToObservation ev meta h)) =
      (case meta (e_policy ev) of None \<Rightarrow> True | Some m \<Rightarrow> known_severity (pm_severity m))"
    using p severityScore_range
    by (cases "meta (e_policy ev)")
      (auto simp: event_accepted_def wire_def EventToObservation_def Let_def known_severity_def not_less
        intro: order_trans [of _ 90] order_trans [of _ 25])
  moreover have "\<exists>e \<in> set es. \<exists>tp. de_policy e = Some (Some tp) \<and> tp_name tp = e_policy ev \<and>
       pm_severity m = (if lookup_str (tp_annotations tp) ''severity'' = [] then ''medium''
                        else ToLower (lookup_str (tp_annotations tp) ''severity''))"
    if "meta (e_policy ev) = Some m" for m
  proof -
    have "load_entries es Map.empty (e_policy ev) = Some m" using that m by simp
    from load_entries_Some [OF this] show ?thesis using metaFrom_severity by fastforce
  qed
  ultimately show ?thesis by blast
qed

definition demo_policy :: "string \<Rightarrow> dir_entry" where
  "demo_policy sev = \<lparr>de_name = ''p.yaml'', de_is_dir = False,
     de_policy = Some (Some \<lparr>tp_name = ''p1'', tp_annotations = [(''severity'', sev)]\<rparr>)\<rparr>"

definition demo_unmarshal :: "string \<Rightarrow> tetragon_event option" where
  "demo_unmarshal line = Some \<lparr>te_kprobe = Some \<lparr>ke_process = None, ke_parent = None, ke_function = ''f'', ke_policy = ''p1''\<rparr>,
     te_tracepoint = None, te_uprobe = None, te_time = []\<rparr>"

theorem sensor_event_stored_iff_witness:
  "\<exists>ev meta. ParseEvent demo_unmarshal '' {}'' = Some ev \<and>
    LoadPolicyMeta (Inr [demo_policy ''Warning'']) = Inr meta \<and> \<not> event_accepted (wire (EventToObservation ev meta ''h1''))"
proof -
  obtain meta where meta: "LoadPolicyMeta (Inr [demo_policy ''Warning'']) = Inr meta"
    and m: "meta ''p1'' = Some (metaFrom \<lparr>tp_name = ''p1'', tp_annotations = [(''severity'', ''Warning'')]\<rparr>)"
    by (simp add: LoadPolicyMeta_def demo_policy_def HasSuffix_def)
  obtain ev where ev: "ParseEvent demo_unmarshal '' {}'' = Some ev" and p: "e_policy ev = ''p1''"
    by (simp add: ParseEvent_def trimSpace_def json_blank_def demo_unmarshal_def Let_def)
  have "ToLower ''Warning'' = ''warning''" by code_simp
  then have "\<not> known_severity (pm_severity (metaFrom \<lparr>tp_name = ''p1'', tp_annotations = [(''severity'', ''Warning'')]\<rparr>))"
    by (simp add: metaFrom_severity lookup_str_def known_severity_def)
  with sensor_event_stored_iff [OF meta ev, of "''h1''"] m p ev meta show ?thesis by auto
qed

end
