(* ===== verification/EventBuffer.thy ===== *)
theory EventBuffer
  imports Ingest ScanQueue
begin

text \<open>
  The sensor's buffer of findings the server has not taken yet (\<open>cmd/bladedr-sensor/buffer.go\<close>) and
  the loop that feeds and drains it (\<open>flusher\<close> in \<open>main.go\<close>).

  Posting a batch is an argument: a function of the state of the outside world that gives the next
  state and whether the server answered with success. \<open>s\<close> stands for that world.
\<close>

section \<open>The buffer\<close>

definition maxBufferedEvents :: nat where "maxBufferedEvents = 10000"
definition maxPostBatch :: nat where "maxPostBatch = 500"
definition postBackoffBase :: duration where "postBackoffBase = 2 * Second"
definition postBackoffMax :: duration where "postBackoffMax = 60 * Second"

record 'a event_buffer =
  eb_pending :: "'a list"
  eb_dropped :: int
  eb_fail_streak :: int
  eb_next_try :: go_time

definition empty_buffer :: "'a event_buffer" where
  "empty_buffer = \<lparr>eb_pending = [], eb_dropped = 0, eb_fail_streak = 0, eb_next_try = 0\<rparr>"

definition add_event :: "'a \<Rightarrow> 'a event_buffer \<Rightarrow> 'a event_buffer" where
  "add_event x b =
     (let b = b\<lparr>eb_pending := eb_pending b @ [x]\<rparr>;
          over = int (length (eb_pending b)) - int maxBufferedEvents
      in if over > 0
         then b\<lparr>eb_pending := drop (nat over) (eb_pending b), eb_dropped := eb_dropped b + over\<rparr>
         else b)"

definition post_backoff :: "int \<Rightarrow> duration" where
  "post_backoff failStreak =
     min (wrap64 (postBackoffBase * 2 ^ nat (min (wrap64 (failStreak - 1)) 5))) postBackoffMax"

text \<open>The loop of \<open>flush\<close>; a batch is never empty, so it shortens the buffer.\<close>

function flush_loop :: "go_time \<Rightarrow> ('a list \<Rightarrow> 's \<Rightarrow> 's \<times> bool) \<Rightarrow> 'a event_buffer \<Rightarrow> 's \<Rightarrow> 'a event_buffer \<times> 's" where
  "flush_loop now send b s =
     (if eb_pending b = [] then (b\<lparr>eb_fail_streak := 0, eb_next_try := 0\<rparr>, s)
      else let n = min (length (eb_pending b)) maxPostBatch in
        (case send (take n (eb_pending b)) s of
           (s, False) \<Rightarrow>
             (let b = b\<lparr>eb_fail_streak := eb_fail_streak b + 1\<rparr>
              in (b\<lparr>eb_next_try := now + post_backoff (eb_fail_streak b)\<rparr>, s))
         | (s, True) \<Rightarrow> flush_loop now send (b\<lparr>eb_pending := drop n (eb_pending b)\<rparr>) s))"
  by pat_completeness auto

termination flush_loop
  by (relation "measure (\<lambda>(now, send, b, s). length (eb_pending b))") (auto simp: maxPostBatch_def)

declare flush_loop.simps [simp del]

definition flush :: "go_time \<Rightarrow> ('a list \<Rightarrow> 's \<Rightarrow> 's \<times> bool) \<Rightarrow> 'a event_buffer \<Rightarrow> 's \<Rightarrow> 'a event_buffer \<times> 's" where
  "flush now send b s =
     (if eb_pending b = [] \<or> now < eb_next_try b then (b, s) else flush_loop now send b s)"

section \<open>The flusher\<close>

text \<open>What wakes the loop: an event on the channel, the ticker, or the end of the stream.\<close>

datatype 'a wake = Arrived 'a | Tick | Closed

fun flusher_step :: "('a list \<Rightarrow> 's \<Rightarrow> 's \<times> bool) \<Rightarrow> go_time \<Rightarrow> 'a wake \<Rightarrow> 'a event_buffer \<times> 's \<Rightarrow> 'a event_buffer \<times> 's" where
  "flusher_step send now (Arrived x) (b, s) =
     (let b = add_event x b in if length (eb_pending b) \<ge> maxPostBatch then flush now send b s else (b, s))"
| "flusher_step send now Tick (b, s) =
     (case flush now send b s of (b, s) \<Rightarrow> (if eb_dropped b > 0 then b\<lparr>eb_dropped := 0\<rparr> else b, s))"
| "flusher_step send now Closed (b, s) = flush now send b s"

definition flusher_run ::
  "('a list \<Rightarrow> 's \<Rightarrow> 's \<times> bool) \<Rightarrow> (go_time \<times> 'a wake) list \<Rightarrow> 'a event_buffer \<times> 's \<Rightarrow> 'a event_buffer \<times> 's" where
  "flusher_run send ws st = foldl (\<lambda>st (now, w). flusher_step send now w st) st ws"

section \<open>One flush\<close>

lemma post_backoff_less: "- (2 ^ 63) < a \<Longrightarrow> a \<le> 1 \<Longrightarrow> post_backoff a = postBackoffBase"
  by (simp add: post_backoff_def wrap64_id postBackoffBase_def postBackoffMax_def)

lemma post_backoff_large: "6 \<le> a \<Longrightarrow> a < 2 ^ 63 \<Longrightarrow> post_backoff a = postBackoffMax"
  by (simp add: post_backoff_def wrap64_id postBackoffBase_def postBackoffMax_def min_def)

lemma post_backoff_next:
  assumes "1 \<le> a" and "a < 2 ^ 63 - 1"
  shows "post_backoff (a + 1) = min (2 * post_backoff a) postBackoffMax"
proof (cases "6 \<le> a")
  case True
  with assms show ?thesis using post_backoff_large [of a] post_backoff_large [of "a + 1"]
    by (simp add: postBackoffMax_def)
next
  case False
  with assms have "a \<in> {1, 2, 3, 4, 5}" by auto
  then show ?thesis by (auto simp: post_backoff_def wrap64_id min_def postBackoffBase_def postBackoffMax_def)
qed

interpretation pb: doubling post_backoff postBackoffBase postBackoffMax
  by unfold_locales (simp_all add: post_backoff_less post_backoff_next postBackoffBase_def postBackoffMax_def)

text \<open>Posting with a log of the events the server took.\<close>

definition logged :: "('a list \<Rightarrow> 'w \<Rightarrow> 'w \<times> bool) \<Rightarrow> 'a list \<Rightarrow> 'w \<times> 'a list \<Rightarrow> ('w \<times> 'a list) \<times> bool" where
  "logged send batch s = (case s of (w, sent) \<Rightarrow> (case send batch w of (w', success) \<Rightarrow>
     ((w', if success then sent @ batch else sent), success)))"

lemma flush_loop_sends:
  "flush_loop now (logged send) b (w, sent) = (b', (w', sent')) \<Longrightarrow>
   \<exists>k \<le> length (eb_pending b). eb_pending b' = drop k (eb_pending b) \<and> sent' = sent @ take k (eb_pending b) \<and>
     eb_dropped b' = eb_dropped b"
proof (induction "length (eb_pending b)" arbitrary: b w sent rule: less_induct)
  case less
  show ?case
  proof (cases "eb_pending b = []")
    case True
    with less.prems show ?thesis by (auto simp: flush_loop.simps)
  next
    case False
    let ?n = "min (length (eb_pending b)) maxPostBatch"
    obtain w1 success where s: "send (take ?n (eb_pending b)) w = (w1, success)" by fastforce
    show ?thesis
    proof (cases success)
      case False
      with less.prems \<open>eb_pending b \<noteq> []\<close> s show ?thesis
        by (intro exI [of _ 0]) (auto simp: flush_loop.simps [of now _ b] logged_def Let_def)
    next
      case True
      let ?b = "b\<lparr>eb_pending := drop ?n (eb_pending b)\<rparr>"
      have r: "flush_loop now (logged send) ?b (w1, sent @ take ?n (eb_pending b)) = (b', (w', sent'))"
        using less.prems False s True by (simp add: flush_loop.simps [of now _ b] logged_def Let_def)
      have "length (eb_pending ?b) < length (eb_pending b)" using False by (simp add: maxPostBatch_def)
      from less.hyps [OF this r] obtain k where "k \<le> length (eb_pending ?b)"
        "eb_pending b' = drop k (eb_pending ?b)" "sent' = (sent @ take ?n (eb_pending b)) @ take k (eb_pending ?b)"
        "eb_dropped b' = eb_dropped b" by auto
      moreover have "drop k (drop ?n (eb_pending b)) = drop (?n + k) (eb_pending b)" by (simp add: add.commute)
      moreover have "take (?n + k) (eb_pending b) = take ?n (eb_pending b) @ take k (drop ?n (eb_pending b))"
        by (rule take_add)
      ultimately show ?thesis by (intro exI [of _ "?n + k"]) simp
    qed
  qed
qed

lemma flush_sends:
  assumes "flush now (logged send) b (w, sent) = (b', (w', sent'))"
  shows "\<exists>k \<le> length (eb_pending b). eb_pending b' = drop k (eb_pending b) \<and> sent' = sent @ take k (eb_pending b) \<and>
     eb_dropped b' = eb_dropped b"
proof (cases "eb_pending b = [] \<or> now < eb_next_try b")
  case True
  with assms show ?thesis by (intro exI [of _ 0]) (simp add: flush_def)
next
  case False
  with assms flush_loop_sends show ?thesis by (simp add: flush_def)
qed

lemma add_event_pending:
  "\<exists>k \<le> length (eb_pending b @ [x]). eb_pending (add_event x b) = drop k (eb_pending b @ [x]) \<and>
     length (eb_pending (add_event x b)) \<le> maxBufferedEvents \<and>
     (length (eb_pending b) < maxBufferedEvents \<longrightarrow> k = 0)"
proof -
  let ?ys = "eb_pending b @ [x]"
  have n: "nat (int (length ?ys) - int maxBufferedEvents) = length ?ys - maxBufferedEvents" by simp
  have "eb_pending (add_event x b) = drop (length ?ys - maxBufferedEvents) ?ys"
  proof (cases "int (length ?ys) - int maxBufferedEvents > 0")
    case True
    then show ?thesis unfolding n [symmetric] by (simp add: add_event_def Let_def del: drop_append)
  next
    case False
    then have "length ?ys - maxBufferedEvents = 0" by simp
    with False show ?thesis by (simp add: add_event_def Let_def)
  qed
  then show ?thesis by (intro exI [of _ "length ?ys - maxBufferedEvents"]) auto
qed

section \<open>Nothing is lost silently or out of order\<close>

definition arrived :: "(go_time \<times> 'a wake) list \<Rightarrow> 'a list" where
  "arrived ws = List.map_filter (\<lambda>(_, w). case w of Arrived x \<Rightarrow> Some x | _ \<Rightarrow> None) ws"

lemma arrived_Cons: "arrived (a # ws) = arrived [a] @ arrived ws"
  by (simp add: arrived_def List.map_filter_simps split: option.split)

text \<open>The events that left the buffer, each with whether the server took it, and those still in it.\<close>

definition accounted :: "'a list \<Rightarrow> 'a event_buffer \<times> 'w \<times> 'a list \<Rightarrow> bool" where
  "accounted xs st = (case st of (b, _, sent) \<Rightarrow>
     length (eb_pending b) \<le> maxBufferedEvents \<and>
     (\<exists>outs. xs = map fst outs @ eb_pending b \<and> sent = map fst (filter snd outs)))"

lemma accounted_flush:
  assumes "accounted xs (b, w, sent)" and "flush now (logged send) b (w, sent) = (b', (w', sent'))"
  shows "accounted xs (b', w', sent')"
proof -
  obtain k where k: "k \<le> length (eb_pending b)" "eb_pending b' = drop k (eb_pending b)"
    "sent' = sent @ take k (eb_pending b)" using flush_sends [OF assms(2)] by blast
  obtain outs where o: "xs = map fst outs @ eb_pending b" "sent = map fst (filter snd outs)"
    using assms(1) by (auto simp: accounted_def)
  let ?outs = "outs @ map (\<lambda>x. (x, True)) (take k (eb_pending b))"
  have "xs = map fst ?outs @ eb_pending b'" "sent' = map fst (filter snd ?outs)"
    by (simp_all add: o k comp_def filter_map)
  moreover have "length (eb_pending b') \<le> maxBufferedEvents" using assms(1) k by (auto simp: accounted_def)
  ultimately show ?thesis unfolding accounted_def by blast
qed

lemma accounted_add:
  assumes "accounted xs (b, w, sent)"
  shows "accounted (xs @ [x]) (add_event x b, w, sent)"
proof -
  obtain k where k: "eb_pending (add_event x b) = drop k (eb_pending b @ [x])"
    "length (eb_pending (add_event x b)) \<le> maxBufferedEvents" using add_event_pending [of b x] by blast
  obtain outs where o: "xs = map fst outs @ eb_pending b" "sent = map fst (filter snd outs)"
    using assms by (auto simp: accounted_def)
  let ?outs = "outs @ map (\<lambda>x. (x, False)) (take k (eb_pending b @ [x]))"
  have "xs @ [x] = map fst outs @ take k (eb_pending b @ [x]) @ drop k (eb_pending b @ [x])"
    using o(1) by (simp only: append_take_drop_id append_assoc)
  then have "xs @ [x] = map fst ?outs @ eb_pending (add_event x b)" "sent = map fst (filter snd ?outs)"
    by (simp_all add: o(2) k comp_def filter_map del: take_append drop_append)
  then show ?thesis using k(2) unfolding accounted_def by blast
qed

lemma accounted_step:
  assumes "accounted xs (b, w, sent)"
  shows "accounted (xs @ arrived [(now, wk)]) (flusher_step (logged send) now wk (b, w, sent))"
proof -
  have f: "accounted ys (flush now (logged send) c s)" if "accounted ys (c, s)" for ys c and s :: "'b \<times> 'a list"
    using accounted_flush that by (metis prod.collapse)
  have d: "accounted ys (if eb_dropped c > 0 then c\<lparr>eb_dropped := 0\<rparr> else c, s)" if "accounted ys (c, s)"
    for ys c and s :: "'b \<times> 'a list" using that by (cases s) (simp add: accounted_def)
  show ?thesis
  proof (cases wk)
    case (Arrived x)
    with accounted_add [OF assms, of x] f show ?thesis
      by (simp add: arrived_def List.map_filter_simps Let_def)
  next
    case Tick
    obtain c s where c: "flush now (logged send) b (w, sent) = (c, s)"
      by (cases "flush now (logged send) b (w, sent)") blast
    have "accounted xs (c, s)" using f [OF assms] unfolding c .
    from d [OF this] Tick c show ?thesis by (simp add: arrived_def List.map_filter_simps)
  next
    case Closed
    with f [OF assms] show ?thesis by (simp add: arrived_def List.map_filter_simps)
  qed
qed


section \<open>What the server is sent, and when\<close>

text \<open>A batch the flush sends is between one event and what the server's endpoint takes.\<close>

definition postable :: "'a list \<Rightarrow> bool" where
  "postable batch \<longleftrightarrow> 1 \<le> length batch \<and> length batch \<le> maxIngestBatch"

lemma flush_loop_batches:
  "flush_loop now send b s = flush_loop now (\<lambda>batch s. if postable batch then send batch s else other batch s) b s"
proof (induction "length (eb_pending b)" arbitrary: b s rule: less_induct)
  case less
  show ?case
  proof (cases "eb_pending b = []")
    case False
    let ?n = "min (length (eb_pending b)) maxPostBatch"
    let ?send = "\<lambda>batch s. if postable batch then send batch s else other batch s"
    have p: "postable (take ?n (eb_pending b))"
      using False by (cases "eb_pending b") (auto simp: postable_def maxPostBatch_def maxIngestBatch_def)
    have "length (eb_pending (b\<lparr>eb_pending := drop ?n (eb_pending b)\<rparr>)) < length (eb_pending b)"
      using False by (simp add: maxPostBatch_def)
    note ih = less [OF this]
    show ?thesis
      by (subst (1 2) flush_loop.simps) (use False ih p in \<open>simp add: Let_def split: prod.split bool.split\<close>)
  qed (simp add: flush_loop.simps)
qed

lemma flush_loop_result:
  "flush_loop now send b s = (b', s') \<Longrightarrow>
   eb_pending b' = [] \<and> eb_fail_streak b' = 0 \<and> eb_next_try b' = 0 \<or>
   eb_pending b' \<noteq> [] \<and> eb_fail_streak b' = eb_fail_streak b + 1 \<and> eb_next_try b' = now + post_backoff (eb_fail_streak b')"
proof (induction "length (eb_pending b)" arbitrary: b s rule: less_induct)
  case less
  show ?case
  proof (cases "eb_pending b = []")
    case True
    with less.prems show ?thesis by (auto simp: flush_loop.simps)
  next
    case False
    let ?n = "min (length (eb_pending b)) maxPostBatch"
    obtain s1 success where s: "send (take ?n (eb_pending b)) s = (s1, success)" by fastforce
    show ?thesis
    proof (cases success)
      case True
      let ?b = "b\<lparr>eb_pending := drop ?n (eb_pending b)\<rparr>"
      have "length (eb_pending ?b) < length (eb_pending b)" using False by (simp add: maxPostBatch_def)
      moreover have "flush_loop now send ?b s1 = (b', s')"
        using less.prems False s True by (simp add: flush_loop.simps [of now send b] Let_def)
      ultimately show ?thesis using less.hyps [of ?b s1] by simp
    next
      case f: False
      with less.prems False s show ?thesis by (auto simp: flush_loop.simps [of now send b] Let_def)
    qed
  qed
qed

text \<open>
  What a flush sends and when. Every batch holds at least one and at most 500 events, the
  number the server accepts (a sender that would treat others differently changes nothing). Before
  the retry time nothing is sent. After a flush either the buffer is empty and the failure count is
  reset, or a post failed, one more failure is counted, and the next try is two to sixty seconds
  later.
\<close>

theorem flush_discipline:
  assumes "0 \<le> eb_fail_streak b" and "eb_fail_streak b < 2 ^ 63 - 1"
  shows "flush now send b s = flush now (\<lambda>batch s. if postable batch then send batch s else other batch s) b s \<and>
    (now < eb_next_try b \<longrightarrow> flush now send b s = (b, s)) \<and>
    (eb_pending b \<noteq> [] \<and> eb_next_try b \<le> now \<longrightarrow> (case flush now send b s of (b', s') \<Rightarrow>
       eb_pending b' = [] \<and> eb_fail_streak b' = 0 \<or>
       eb_pending b' \<noteq> [] \<and> eb_fail_streak b' = eb_fail_streak b + 1 \<and>
       now + 2 * Second \<le> eb_next_try b' \<and> eb_next_try b' \<le> now + 60 * Second))"
proof -
  have d: "2 * Second \<le> post_backoff (eb_fail_streak b + 1) \<and> post_backoff (eb_fail_streak b + 1) \<le> 60 * Second"
    using pb.within [of "eb_fail_streak b + 1"] assms by (simp add: postBackoffBase_def postBackoffMax_def)
  obtain b' s' where r: "flush_loop now send b s = (b', s')" by fastforce
  have "flush now send b s = (b', s')" if "eb_pending b \<noteq> []" "eb_next_try b \<le> now"
    using that r by (simp add: flush_def)
  then show ?thesis using flush_loop_result [OF r] d flush_loop_batches [of now send b s other]
    by (auto simp: flush_def)
qed

theorem flush_discipline_witness:
  "flush 5 (\<lambda>batch s. (s, False)) \<lparr>eb_pending = [()], eb_dropped = 0, eb_fail_streak = 0, eb_next_try = 9\<rparr> () =
    (\<lparr>eb_pending = [()], eb_dropped = 0, eb_fail_streak = 0, eb_next_try = 9\<rparr>, ())"
  using flush_discipline [of "\<lparr>eb_pending = [()], eb_dropped = 0, eb_fail_streak = 0, eb_next_try = 9\<rparr>" 5 "\<lambda>batch s. (s, False)" "()"]
  by simp

text \<open>
  A batch the server will never take (one whose body is too large is answered like an outage) stays
  at the head: whatever the ticks, the buffer keeps it and everything behind it.
\<close>

theorem refused_batch_blocks:
  assumes "\<And>s. snd (send (take maxPostBatch (eb_pending b)) s) = False" and "eb_pending b \<noteq> []"
  shows "eb_pending (fst (flusher_run send (map (\<lambda>t. (t, Tick)) ts) (b, s))) = eb_pending b"
  using assms
proof (induction ts arbitrary: b s)
  case Nil
  then show ?case by (simp add: flusher_run_def)
next
  case (Cons t ts)
  have tk: "take (min (length (eb_pending b)) maxPostBatch) (eb_pending b) = take maxPostBatch (eb_pending b)"
    by (metis min.commute take_all_iff take_take order_refl)
  obtain b' s' where f: "flusher_step send t Tick (b, s) = (b', s')" by fastforce
  obtain s1 where s1: "send (take maxPostBatch (eb_pending b)) s = (s1, False)"
    using Cons.prems(1) [of s] by (metis prod.collapse)
  have p: "eb_pending b' = eb_pending b"
    using f Cons.prems(2) s1 by (auto simp: flush_def flush_loop.simps tk Let_def split: if_splits)
  have "eb_pending (fst (flusher_run send (map (\<lambda>t. (t, Tick)) ts) (b', s'))) = eb_pending b'"
    by (rule Cons.IH) (use Cons.prems p in simp_all)
  then show ?case by (simp add: flusher_run_def f p del: flusher_step.simps)
qed

end
