(* ===== verification/StateDigest.thy ===== *)
theory StateDigest
  imports Credentials
begin

text \<open>
  The state digest of a snapshot (\<open>internal/probe/digest.go\<close>) and what becomes of it in the server:
  the inventory of credentials and the cross-host rules.
\<close>

section \<open>The snapshot\<close>

record socket =
  so_proto :: string
  so_laddr :: string
  so_lport :: int
  so_pid :: int
  so_comm :: string

record kernel_module =
  km_name :: string
  km_out_of_tree :: bool
  km_signed :: bool

record cron_entry =
  ce_path :: string
  ce_user :: string
  ce_line :: string
  ce_sha256 :: string

record systemd_unit =
  sy_name :: string
  sy_exec_start :: string
  sy_enabled :: bool
  sy_exec_pre :: string
  sy_environment :: string

record persistence =
  pe_cron :: "cron_entry list"
  pe_systemd_units :: "systemd_unit list"
  pe_authorized_keys :: "auth_keys_file list"

text \<open>The fields of a snapshot the digest reads.\<close>

record snapshot =
  sn_listening_sockets :: "socket list"
  sn_persistence :: persistence
  sn_kernel_modules :: "kernel_module list"
  sn_accounts :: "account list"
  sn_private_keys :: "private_key_file list"
  sn_bpf_programs :: "bpf_prog list"

definition module_line :: "files \<Rightarrow> string \<Rightarrow> kernel_module option" where
  "module_line fs text =
     (case Fields text of
        [] \<Rightarrow> None
      | name # _ \<Rightarrow>
          (let taint = TrimSpace (readFile fs (''/sys/module/'' @ name @ ''/taint''))
           in if taint \<noteq> [] then Some \<lparr>km_name = name, km_out_of_tree = Contains taint ''O'', km_signed = \<not> Contains taint ''E''\<rparr>
              else Some \<lparr>km_name = name, km_out_of_tree = False, km_signed = True\<rparr>))"

definition collectModules :: "files \<Rightarrow> kernel_module list" where
  "collectModules fs = (case fs ''/proc/modules'' of
     None \<Rightarrow> [] | Some s \<Rightarrow> List.map_filter (module_line fs) (ScanLines (64 * 1024) s))"

definition parseCronFile :: "files \<Rightarrow> string \<Rightarrow> cron_entry list" where
  "parseCronFile fs path =
     List.map_filter (\<lambda>line. let t = TrimSpace line in
       if t = [] \<or> HasPrefix t ''#'' then None
       else Some \<lparr>ce_path = path, ce_user = [], ce_line = t, ce_sha256 = []\<rparr>) (nonEmptyLines (readFile fs path))"

section \<open>The digest\<close>

text \<open>\<open>sort.Strings\<close> orders byte strings; the order on strings here is the lexicographic one.\<close>

definition sortedUnique :: "string list \<Rightarrow> string list" where
  "sortedUnique xs = sort (rev (foldl (\<lambda>out s. if s \<in> set out then out else s # out) [] xs))"

definition digest_items :: "snapshot \<Rightarrow> (string \<times> string list) list" where
  "digest_items s =
    [(DigestListeningPorts, map (\<lambda>sk. so_proto sk @ ''/'' @ Itoa (so_lport sk))
        (filter (\<lambda>sk. \<not> so_lport sk \<ge> 32768) (sn_listening_sockets s))),
     (DigestKernelModules, map km_name (filter km_out_of_tree (sn_kernel_modules s))),
     (DigestAccounts, map (\<lambda>a. ac_name a @ '':'' @ Itoa (ac_uid a)) (sn_accounts s)),
     (DigestAuthorizedKeys, concat (map (\<lambda>akf. map (\<lambda>k. af_owner akf @ '':'' @ ak_sha256 k) (af_keys akf))
        (pe_authorized_keys (sn_persistence s)))),
     (DigestPasswordHashes, map (\<lambda>a. ac_name a @ '':'' @ ac_password_fingerprint a)
        (filter (\<lambda>a. ac_password_fingerprint a \<noteq> [] \<and> \<not> HasSuffix (ac_shell a) ''nologin'' \<and>
           \<not> HasSuffix (ac_shell a) ''false'') (sn_accounts s))),
     (DigestPrivateKeys, map (\<lambda>k. pf_owner k @ '':'' @ pf_pub_sha256 k @ '':'' @
           (if pf_encrypted k then ''locked'' else ''plain''))
        (filter (\<lambda>k. pf_pub_sha256 k \<noteq> []) (sn_private_keys s))),
     (DigestCron, map (\<lambda>c. ce_path c @ '' :: '' @ ce_line c) (pe_cron (sn_persistence s))),
     (DigestSystemdUnits, map sy_name (pe_systemd_units (sn_persistence s))),
     (DigestBpfPrograms, map (\<lambda>p. bp_type p @ '':'' @ bp_tag p) (sn_bpf_programs s))]"

text \<open>A category without items has no entry.\<close>

definition BuildStateDigest :: "snapshot \<Rightarrow> digest" where
  "BuildStateDigest s =
     map (\<lambda>(cat, items). (cat, sortedUnique items)) (filter (\<lambda>(_, items). items \<noteq> []) (digest_items s))"

section \<open>What the digest holds\<close>

lemma unique_foldl:
  "distinct ys \<Longrightarrow> distinct (foldl (\<lambda>out s. if s \<in> set out then out else s # out) ys xs) \<and>
   set (foldl (\<lambda>out s. if s \<in> set out then out else s # out) ys xs) = set ys \<union> set xs"
  by (induction xs arbitrary: ys) auto

lemma sortedUnique [simp]:
  "set (sortedUnique xs) = set xs" "distinct (sortedUnique xs)" "sorted (sortedUnique xs)"
  using unique_foldl [of "[]" xs] by (simp_all add: sortedUnique_def)

lemma sortedUnique_empty [simp]: "sortedUnique xs = [] \<longleftrightarrow> xs = []"
  by (metis set_empty sortedUnique(1))

lemma sortedUnique_Nil: "sortedUnique [] = []"
  by simp

lemmas digest_categories = DigestListeningPorts_def DigestKernelModules_def DigestAccounts_def
  DigestAuthorizedKeys_def DigestPasswordHashes_def DigestPrivateKeys_def DigestCron_def
  DigestSystemdUnits_def DigestBpfPrograms_def

lemma distinct_digest_items: "distinct (map fst (digest_items s))"
  by (simp add: digest_items_def digest_categories)

lemma map_of_digest:
  assumes "distinct (map fst its)"
  shows "map_of (map (\<lambda>(cat, items). (cat, sortedUnique items)) (filter (\<lambda>(_, items). items \<noteq> []) its)) cat =
    (case map_of its cat of None \<Rightarrow> None | Some items \<Rightarrow> if items = [] then None else Some (sortedUnique items))"
  using assms
proof (induction its)
  case (Cons x its)
  obtain k v where x: "x = (k, v)" by fastforce
  have "map_of its k = None" using Cons.prems x by (simp add: map_of_eq_None_iff)
  with Cons x show ?case by (auto split: option.splits)
qed simp

lemma BuildStateDigest_map:
  "map_of (BuildStateDigest s) cat = (case map_of (digest_items s) cat of
     None \<Rightarrow> None | Some items \<Rightarrow> if items = [] then None else Some (sortedUnique items))"
  unfolding BuildStateDigest_def by (rule map_of_digest [OF distinct_digest_items])

lemma digest_of_Build:
  "digest_of (BuildStateDigest s) cat = (case map_of (digest_items s) cat of None \<Rightarrow> [] | Some items \<Rightarrow> sortedUnique items)"
  by (simp add: digest_of_def BuildStateDigest_map sortedUnique_Nil split: option.splits)

lemma digest_of_shape:
  "sorted (digest_of (BuildStateDigest s) cat)" "distinct (digest_of (BuildStateDigest s) cat)"
  by (simp_all add: digest_of_Build split: option.splits)

lemma map_of_drop_fleet:
  "cat \<noteq> DigestPasswordHashes \<Longrightarrow> cat \<noteq> DigestPrivateKeys \<Longrightarrow> map_of (snd (takeInventory d)) cat = map_of d cat"
  by (induction d) (auto simp: takeInventory_def Let_def)

lemma fleet_categories:
  "DigestAuthorizedKeys \<noteq> DigestPasswordHashes" "DigestAuthorizedKeys \<noteq> DigestPrivateKeys"
  "DigestPasswordHashes \<noteq> DigestPrivateKeys"
  by (simp_all add: digest_categories)

lemma digest_of_takeInventory:
  assumes "cat \<in> {DigestAuthorizedKeys, DigestPasswordHashes, DigestPrivateKeys}"
  shows "digest_of (fst (takeInventory d)) cat = digest_of d cat"
proof -
  define inve where "inve = fst (takeInventory d)"
  have "inve = (if digest_of d DigestAuthorizedKeys = [] then []
       else [(DigestAuthorizedKeys, digest_of d DigestAuthorizedKeys)]) @
      (case map_of d DigestPasswordHashes of None \<Rightarrow> [] | Some v \<Rightarrow> [(DigestPasswordHashes, v)]) @
      (case map_of d DigestPrivateKeys of None \<Rightarrow> [] | Some v \<Rightarrow> [(DigestPrivateKeys, v)])"
    by (simp add: inve_def takeInventory_def Let_def List.map_filter_simps split: option.splits)
  moreover have "digest_of inve DigestAuthorizedKeys = digest_of d DigestAuthorizedKeys"
    "digest_of inve DigestPasswordHashes = digest_of d DigestPasswordHashes"
    "digest_of inve DigestPrivateKeys = digest_of d DigestPrivateKeys"
    unfolding calculation using fleet_categories by (simp_all add: digest_of_def split: option.splits)
  ultimately show ?thesis using assms by (auto simp: inve_def)
qed

section \<open>Numerals\<close>

lemma digits_value_append: "digits_value (xs @ ys) acc = digits_value ys (digits_value xs acc)"
  by (induction xs acc rule: digits_value.induct) simp_all

lemma digits_value_nat_digits: "digits_value (nat_digits n) 0 = int n"
proof (induction n rule: nat_digits.induct)
  case (1 n)
  show ?case
  proof (cases "n < 10")
    case True
    then show ?thesis by (subst nat_digits.simps) simp
  next
    case False
    have "of_char (char_of (48 + n mod 10) :: char) = (48 + n mod 10 :: nat)" by simp
    with False 1 show ?thesis by (subst nat_digits.simps) (simp add: digits_value_append zdiv_int zmod_int)
  qed
qed

lemma nat_digits_no_minus: "hd (nat_digits n) \<noteq> CHR ''-''"
proof
  assume "hd (nat_digits n) = CHR ''-''"
  then have "is_digit (CHR ''-'')" using nat_digits_digits [of n]
    by (cases "nat_digits n") simp_all
  then show False by (simp add: is_digit_def)
qed

lemma Itoa_inject [simp]: "Itoa i = Itoa j \<longleftrightarrow> i = j"
proof
  have v: "digits_value (nat_digits n) 0 = digits_value (nat_digits k) 0 \<Longrightarrow> n = k" for n k
    by (simp add: digits_value_nat_digits)
  have n: "nat_digits n = nat_digits k \<longleftrightarrow> n = k" for n k using v by metis
  have m: "nat_digits n \<noteq> CHR ''-'' # ds" for n ds using nat_digits_no_minus [of n] by auto
  assume "Itoa i = Itoa j"
  then show "i = j" using m m [symmetric] by (auto simp: Itoa_def n split: if_splits)
qed simp

section \<open>Credentials of a fleet\<close>

text \<open>The credentials of a snapshot: who can log in with a hash, which keys are authorized, which are stored.\<close>

definition password_names :: "snapshot \<Rightarrow> string \<Rightarrow> string set" where
  "password_names s fp = ac_name ` {a \<in> set (sn_accounts s). ac_password_fingerprint a = fp \<and> fp \<noteq> [] \<and> \<not> nologin a}"

definition authorized_ids :: "snapshot \<Rightarrow> string set" where
  "authorized_ids s = ak_sha256 ` (\<Union>f \<in> set (pe_authorized_keys (sn_persistence s)). set (af_keys f))"

definition private_ids :: "snapshot \<Rightarrow> string set" where
  "private_ids s = {pf_pub_sha256 k |k. k \<in> set (sn_private_keys s) \<and> pf_pub_sha256 k \<noteq> []}"

text \<open>Names of accounts are fields of \<open>/etc/passwd\<close> and fingerprints are hexadecimal: no colon in either.\<close>

definition colon_free :: "snapshot \<Rightarrow> bool" where
  "colon_free s \<longleftrightarrow>
     (\<forall>a \<in> set (sn_accounts s). CHR '':'' \<notin> set (ac_name a) \<and> CHR '':'' \<notin> set (ac_password_fingerprint a)) \<and>
     (\<forall>f \<in> set (pe_authorized_keys (sn_persistence s)). CHR '':'' \<notin> set (af_owner f) \<and>
        (\<forall>k \<in> set (af_keys f). CHR '':'' \<notin> set (ak_sha256 k))) \<and>
     (\<forall>k \<in> set (sn_private_keys s). CHR '':'' \<notin> set (pf_owner k) \<and> CHR '':'' \<notin> set (pf_pub_sha256 k))"

definition inventory_items :: "snapshot \<Rightarrow> digest" where
  "inventory_items s = fst (takeInventory (BuildStateDigest s))"

definition fleet_inventories :: "(string \<times> snapshot) list \<Rightarrow> inventory list" where
  "fleet_inventories fleet = map (\<lambda>(h, t). own h (inventory_items t)) fleet"

lemma naming_two: "CHR '':'' \<notin> set a \<Longrightarrow> CHR '':'' \<notin> set k \<Longrightarrow> naming i (a @ '':'' @ k) \<longleftrightarrow> k = i"
  using Split_append [of "CHR '':''" a k] by (simp add: naming_def item_parts_def Split_no_sep)

lemma naming_three:
  "CHR '':'' \<notin> set a \<Longrightarrow> CHR '':'' \<notin> set k \<Longrightarrow> naming i (a @ '':'' @ k @ '':'' @ st) \<longleftrightarrow> k = i"
  using Split_append [of "CHR '':''" a "k @ '':'' @ st"] Split_append [of "CHR '':''" k st]
  by (cases "Split (CHR '':'') st") (simp_all add: naming_def item_parts_def)

lemma fleet_digest_items:
  "map_of (digest_items s) DigestAuthorizedKeys = Some (concat (map (\<lambda>akf. map (\<lambda>k. af_owner akf @ '':'' @ ak_sha256 k)
     (af_keys akf)) (pe_authorized_keys (sn_persistence s))))"
  "map_of (digest_items s) DigestPasswordHashes = Some (map (\<lambda>a. ac_name a @ '':'' @ ac_password_fingerprint a)
     (filter (\<lambda>a. ac_password_fingerprint a \<noteq> [] \<and> \<not> HasSuffix (ac_shell a) ''nologin'' \<and>
        \<not> HasSuffix (ac_shell a) ''false'') (sn_accounts s)))"
  "map_of (digest_items s) DigestPrivateKeys = Some (map (\<lambda>k. pf_owner k @ '':'' @ pf_pub_sha256 k @ '':'' @
     (if pf_encrypted k then ''locked'' else ''plain'')) (filter (\<lambda>k. pf_pub_sha256 k \<noteq> []) (sn_private_keys s)))"
  by (simp_all add: digest_items_def digest_categories)

lemma own_items [simp]: "i_items (own h inve) = inve" "i_host_id (own h inve) = h"
  by (simp_all add: own_def)

lemma holds_iff:
  "cat \<in> {DigestAuthorizedKeys, DigestPasswordHashes, DigestPrivateKeys} \<Longrightarrow> map_of (digest_items s) cat = Some its \<Longrightarrow>
   holds (own h (inventory_items s)) cat i \<longleftrightarrow> (\<exists>it \<in> set its. naming i it)"
  by (simp add: holds_def naming_items_def inventory_items_def digest_of_takeInventory digest_of_Build
      filter_empty_conv del: insert_iff)

lemma holds_authorized:
  "colon_free s \<Longrightarrow> holds (own h (inventory_items s)) DigestAuthorizedKeys i \<longleftrightarrow> i \<in> authorized_ids s"
  by (subst holds_iff [OF _ fleet_digest_items(1)])
    (auto simp: authorized_ids_def colon_free_def naming_two [simplified])

lemma holds_private:
  "colon_free s \<Longrightarrow> holds (own h (inventory_items s)) DigestPrivateKeys i \<longleftrightarrow> i \<in> private_ids s"
  by (subst holds_iff [OF _ fleet_digest_items(3)])
    (auto simp: private_ids_def colon_free_def naming_three [simplified])

lemma holds_password:
  "colon_free s \<Longrightarrow> holds (own h (inventory_items s)) DigestPasswordHashes i \<longleftrightarrow> password_names s i \<noteq> {}"
  by (subst holds_iff [OF _ fleet_digest_items(2)])
    (auto simp: password_names_def colon_free_def nologin_def naming_two [simplified])

lemma naming_password_count:
  assumes "colon_free s"
  shows "length (naming_items (own h (inventory_items s)) DigestPasswordHashes i) = card (password_names s i)"
proof -
  let ?its = "naming_items (own h (inventory_items s)) DigestPasswordHashes i"
  have its: "?its = filter (naming i) (digest_of (BuildStateDigest s) DigestPasswordHashes)"
    by (simp add: naming_items_def inventory_items_def digest_of_takeInventory)
  have "set ?its = (\<lambda>n. n @ '':'' @ i) ` password_names s i"
    using assms unfolding its digest_of_Build fleet_digest_items
    by (auto simp: password_names_def colon_free_def nologin_def naming_two [simplified])
  moreover have "inj_on (\<lambda>n. n @ '':'' @ i) (password_names s i)" by (simp add: inj_on_def)
  moreover have "distinct ?its" unfolding its by (simp add: digest_of_shape)
  ultimately show ?thesis by (metis card_image distinct_card)
qed

lemma held_elsewhere_fleet:
  "held_elsewhere hostID (fleet_inventories fleet) cat i \<longleftrightarrow>
   (\<exists>(h, t) \<in> set fleet. h \<noteq> hostID \<and> holds (own h (inventory_items t)) cat i)"
  by (simp add: held_elsewhere_def fleet_inventories_def case_prod_unfold)

text \<open>
  From the hosts' snapshots to the cross-host findings. Whatever the snapshots of a host and of its
  fleet, with the inventories their digests give: a password hash is reported iff an account that can log
  in has it here and so has a second one, here or on another host; an SSH key iff it is authorized here and on
  another host; a stored private key as giving access iff another host authorizes it, and as copied
  iff another host stores it; each once.
\<close>

theorem fleet_reuse_reported:
  assumes "colon_free s" and "\<forall>(h, t) \<in> set fleet. colon_free t"
    and "\<forall>cat \<in> {DigestAuthorizedKeys, DigestPasswordHashes, DigestPrivateKeys}.
      iterates (ids cat) (inventory_holder (own hostID (inventory_items s)) cat)"
    and "keys = map (\<lambda>(ob, _). o_dedup_key ob)
      (reuse_findings ids hostID scanID (inventory_items s) (fleet_inventories fleet) names)"
  shows "distinct keys \<and> (\<forall>k.
    (''reuse|ssh-key|'' @ k \<in> set keys) = (k \<in> authorized_ids s \<and>
        (\<exists>(h, t) \<in> set fleet. h \<noteq> hostID \<and> k \<in> authorized_ids t)) \<and>
    (''reuse|pwhash|'' @ k \<in> set keys) = (password_names s k \<noteq> {} \<and>
        ((\<exists>(h, t) \<in> set fleet. h \<noteq> hostID \<and> password_names t k \<noteq> {}) \<or> 2 \<le> card (password_names s k))) \<and>
    (''reuse|privkey-access|'' @ k \<in> set keys) = (k \<in> private_ids s \<and>
        (\<exists>(h, t) \<in> set fleet. h \<noteq> hostID \<and> k \<in> authorized_ids t)) \<and>
    (''reuse|privkey-copy|'' @ k \<in> set keys) = (k \<in> private_ids s \<and>
        (\<exists>(h, t) \<in> set fleet. h \<noteq> hostID \<and> k \<in> private_ids t)))"
proof -
  have cf: "colon_free t" if "(h, t) \<in> set fleet" for h t using assms(2) that by auto
  have ex: "(\<And>h t. (h, t) \<in> set fleet \<Longrightarrow> P h t = Q t) \<Longrightarrow>
      (\<exists>(h, t) \<in> set fleet. h \<noteq> hostID \<and> P h t) = (\<exists>(h, t) \<in> set fleet. h \<noteq> hostID \<and> Q t)" for P Q
    by (metis (no_types, lifting) case_prodE case_prodI)
  have e: "(\<exists>(h, t) \<in> set fleet. h \<noteq> hostID \<and> holds (own h (inventory_items t)) DigestAuthorizedKeys k) =
      (\<exists>(h, t) \<in> set fleet. h \<noteq> hostID \<and> k \<in> authorized_ids t)"
    "(\<exists>(h, t) \<in> set fleet. h \<noteq> hostID \<and> holds (own h (inventory_items t)) DigestPrivateKeys k) =
      (\<exists>(h, t) \<in> set fleet. h \<noteq> hostID \<and> k \<in> private_ids t)"
    "(\<exists>(h, t) \<in> set fleet. h \<noteq> hostID \<and> holds (own h (inventory_items t)) DigestPasswordHashes k) =
      (\<exists>(h, t) \<in> set fleet. h \<noteq> hostID \<and> password_names t k \<noteq> {})" for k
    by (rule ex, rule holds_authorized, erule cf)
      (rule ex, rule holds_private, erule cf, rule ex, rule holds_password, erule cf)
  show ?thesis
    using reuse_report_exact [OF assms(3,4)]
    unfolding held_elsewhere_fleet e holds_authorized [OF assms(1)] holds_private [OF assms(1)]
      holds_password [OF assms(1)] naming_password_count [OF assms(1)] .
qed

definition demo_snapshot :: snapshot where
  "demo_snapshot = \<lparr>sn_listening_sockets = [], sn_persistence = \<lparr>pe_cron = [], pe_systemd_units = [], pe_authorized_keys = []\<rparr>,
     sn_kernel_modules = [], sn_accounts = [], sn_private_keys = [], sn_bpf_programs = []\<rparr>"

definition demo_login :: "string \<Rightarrow> account" where
  "demo_login n = \<lparr>ac_name = n, ac_uid = 1000, ac_gid = 1000, ac_home = ''/home'', ac_shell = ''/bin/sh'',
     ac_password_scheme = ''des'', ac_password_fingerprint = ''f''\<rparr>"

definition demo_hash_ids :: "string \<Rightarrow> string list" where
  "demo_hash_ids cat = (if cat = DigestPasswordHashes then [''f''] else [])"


lemma demo_login_simps: "ac_name (demo_login n) = n" "ac_password_fingerprint (demo_login n) = ''f''" "\<not> nologin (demo_login n)"
  by (simp_all add: demo_login_def nologin_def HasSuffix_def)

theorem fleet_reuse_reported_witness:
  "''reuse|pwhash|f'' \<in> set (map (\<lambda>(ob, _). o_dedup_key ob) (reuse_findings demo_hash_ids ''h1'' ''s''
     (inventory_items (demo_snapshot\<lparr>sn_accounts := [demo_login ''a'']\<rparr>))
     (fleet_inventories [(''h2'', demo_snapshot\<lparr>sn_accounts := [demo_login ''b'']\<rparr>)]) (\<lambda>_. [])))"
proof -
  let ?s = "demo_snapshot\<lparr>sn_accounts := [demo_login ''a'']\<rparr>" and ?t = "demo_snapshot\<lparr>sn_accounts := [demo_login ''b'']\<rparr>"
  have cf: "colon_free ?s" "\<forall>(h, t) \<in> set [(''h2'', ?t)]. colon_free t"
    by (simp_all add: colon_free_def demo_snapshot_def demo_login_def)
  have "inventory_items ?s = [(DigestPasswordHashes, [''a:f''])]" by code_simp
  then have it: "\<forall>cat \<in> {DigestAuthorizedKeys, DigestPasswordHashes, DigestPrivateKeys}.
      iterates (demo_hash_ids cat) (inventory_holder (own ''h1'' (inventory_items ?s)) cat)"
    by (auto simp: iterates_def demo_hash_ids_def inventory_holder_def own_def digest_of_def item_parts_def
        fleet_categories List.map_filter_simps split: list.splits if_splits)
  have "password_names ?s ''f'' = {''a''}" "password_names ?t ''f'' = {''b''}"
    by (auto simp: password_names_def demo_login_simps)
  with fleet_reuse_reported [OF cf it refl, where scanID = "''s''" and names = "\<lambda>_. []"] show ?thesis
    by simp
qed


section \<open>Drift\<close>

text \<open>What the server keeps as a baseline and compares with it.\<close>

definition drift_digest :: "snapshot \<Rightarrow> digest" where
  "drift_digest s = snd (takeInventory (BuildStateDigest s))"

lemma drift_member:
  assumes "distinct (map fst d)"
  shows "(cat, it) \<in> set (drift_items base d) \<longleftrightarrow> it \<in> set (digest_of d cat) \<and> it \<notin> set (digest_of base cat)"
proof -
  have "(cat, it) \<in> set (drift_items base d) \<longleftrightarrow>
      (\<exists>items. (cat, items) \<in> set d \<and> it \<in> set items) \<and> it \<notin> set (digest_of base cat)"
    unfolding drift_items_iff by blast
  also have "(\<exists>items. (cat, items) \<in> set d \<and> it \<in> set items) \<longleftrightarrow>
      (\<exists>items. map_of d cat = Some items \<and> it \<in> set items)"
    by (simp add: map_of_eq_Some_iff [OF assms])
  also have "\<dots> \<longleftrightarrow> it \<in> set (digest_of d cat)"
    by (cases "map_of d cat") (simp_all add: digest_of_def)
  finally show ?thesis .
qed

lemma distinct_drift_digest: "distinct (map fst (drift_digest s))"
proof -
  have "distinct (map fst (filter (\<lambda>(_, items). items \<noteq> []) (digest_items s)))"
    using distinct_digest_items by (rule distinct_map_filter)
  moreover have "map fst (BuildStateDigest s) = map fst (filter (\<lambda>(_, items). items \<noteq> []) (digest_items s))"
    by (simp add: BuildStateDigest_def case_prod_unfold comp_def)
  ultimately show ?thesis
    by (simp add: drift_digest_def takeInventory_def Let_def distinct_map_filter)
qed

lemma digest_of_drift:
  "digest_of (drift_digest s) cat = (if cat = DigestPasswordHashes \<or> cat = DigestPrivateKeys then []
     else digest_of (BuildStateDigest s) cat)"
proof (cases "cat = DigestPasswordHashes \<or> cat = DigestPrivateKeys")
  case True
  then have "map_of (drift_digest s) cat = None"
    by (auto simp: drift_digest_def takeInventory_def Let_def map_of_eq_None_iff)
  with True show ?thesis by (simp add: digest_of_def)
next
  case False
  then show ?thesis by (simp add: drift_digest_def digest_of_def map_of_drop_fleet)
qed

lemma append_at_inject:
  assumes "c \<notin> set a" and "c \<notin> set b"
  shows "a @ c # x = b @ c # y \<longleftrightarrow> a = b \<and> x = y"
  using assms by (induction a arbitrary: b) (case_tac b; auto)+

lemma drift_iff:
  "(cat, it) \<in> set (drift_items (drift_digest s) (drift_digest t)) \<longleftrightarrow>
   cat \<noteq> DigestPasswordHashes \<and> cat \<noteq> DigestPrivateKeys \<and>
   it \<in> set (digest_of (BuildStateDigest t) cat) \<and> it \<notin> set (digest_of (BuildStateDigest s) cat)"
  unfolding drift_member [OF distinct_drift_digest] digest_of_drift by auto

lemma drift_digest_items:
  "set (digest_of (BuildStateDigest s) DigestAccounts) = (\<lambda>a. ac_name a @ CHR '':'' # Itoa (ac_uid a)) ` set (sn_accounts s)"
  "set (digest_of (BuildStateDigest s) DigestKernelModules) = km_name ` {m \<in> set (sn_kernel_modules s). km_out_of_tree m}"
  "set (digest_of (BuildStateDigest s) DigestListeningPorts) =
     (\<lambda>k. so_proto k @ CHR ''/'' # Itoa (so_lport k)) ` {k \<in> set (sn_listening_sockets s). so_lport k < 32768}"
  "set (digest_of (BuildStateDigest s) DigestAuthorizedKeys) =
     (\<Union>f \<in> set (pe_authorized_keys (sn_persistence s)). (\<lambda>k. af_owner f @ CHR '':'' # ak_sha256 k) ` set (af_keys f))"
  by (simp_all add: digest_of_Build digest_items_def digest_categories not_le)



text \<open>
  A line of \<open>authorized_keys\<close> without a key type has the empty identity, and so has every other such line:
  two hosts with one unreadable line each are reported as sharing a key (\<open>authorized_ids\<close> holds the
  empty identity of both).
\<close>

theorem unreadable_lines_are_one_key:
  assumes "\<forall>f \<in> set (Fields line). \<not> key_type_token f"
  shows "ak_sha256 (parseAuthKey sha line) = []"
proof -
  have "dropWhile (\<lambda>f. \<not> key_type_token f) (Fields line) = []" using assms by simp
  then show ?thesis unfolding parseAuthKey_def Let_def by (simp del: dropWhile_eq_Nil_conv)
qed

end
