(* ===== verification/RiskFeatures.thy ===== *)
theory RiskFeatures
  imports Complex_Main Credentials SensorDeploy
begin

text \<open>
  The features of the risk model (\<open>internal/risk/model.go\<close>): the tokens a finding is reduced to, computed
  from its rule, its source and the shape of its evidence.

  Evidence is a JSON object, or the Go values a collector on the server put there. An object is an
  association list in the order a range over the map meets its keys; a Go \<open>[]string\<close> is kept apart from
  a decoded JSON array because the code treats them differently.
\<close>

section \<open>Findings as the model reads them\<close>

datatype evidence =
  EvString string
| EvFloat rat
| EvInt int
| EvOther string
| EvStrings "string list"
| EvList "evidence list"
| EvMap "(string \<times> evidence) list"

type_synonym evidence_map = "(string \<times> evidence) list"

record risk_row =
  rr_host_id :: string
  rr_scan_id :: string
  rr_source :: string
  rr_rule_id :: string
  rr_score :: int
  rr_evidence :: evidence_map
  rr_verdict :: string

datatype label = Unlabeled | Negative | Positive

definition LabelOf :: "string \<Rightarrow> label" where
  "LabelOf verdict = (if verdict = ObsFalsePositive then Negative
     else if verdict = ''true_positive'' then Positive else Unlabeled)"

definition sourceLab :: string where "sourceLab = ''lab''"

definition ev_string :: "evidence_map \<Rightarrow> string \<Rightarrow> string option" where
  "ev_string ev k = (case map_of ev k of Some (EvString s) \<Rightarrow> Some s | _ \<Rightarrow> None)"

text \<open>A type assertion whose second result is dropped: the empty string stands for no string.\<close>

definition ev_str :: "evidence_map \<Rightarrow> string \<Rightarrow> string" where
  "ev_str ev k = (case ev_string ev k of None \<Rightarrow> [] | Some s \<Rightarrow> s)"

fun walk :: "evidence \<Rightarrow> string list" where
  "walk (EvString s) = [s]"
| "walk (EvList es) = concat (map walk es)"
| "walk (EvMap kvs) = concat (map (\<lambda>(k, v). walk v) kvs)"
| "walk _ = []"

definition evidenceStrings :: "evidence_map \<Rightarrow> string list" where
  "evidenceStrings ev = walk (EvMap ev)"

section \<open>Shapes\<close>

definition transientRoots :: "string list" where
  "transientRoots = [''/tmp/'', ''/var/tmp/'', ''/dev/shm/'', ''/run/'', ''/dev/'']"

definition hidden_field :: "string \<Rightarrow> bool" where
  "hidden_field field \<longleftrightarrow> (\<exists>root \<in> set transientRoots. HasPrefix field root) \<and>
     (case Index_of field ''/.'' of
        None \<Rightarrow> False
      | Some i \<Rightarrow> (let rest = drop (i + 2) field
                  in rest \<noteq> [] \<and> \<not> HasPrefix rest ''.'' \<and> \<not> HasPrefix rest ''/''))"

definition hasHiddenComponent :: "string list \<Rightarrow> bool" where
  "hasHiddenComponent values \<longleftrightarrow> (\<exists>v \<in> set values. \<exists>field \<in> set (Fields v). hidden_field field)"

definition capabilityClass :: "evidence_map \<Rightarrow> string" where
  "capabilityClass ev =
     (let caps = ev_str ev ''caps'' in
      if caps = [] then []
      else if contains_any [''cap_setuid'', ''cap_setgid'', ''cap_dac_override'', ''cap_sys_admin'',
             ''cap_sys_module'', ''cap_sys_rawio''] caps then ''direct''
      else if contains_any [''cap_sys_ptrace'', ''cap_dac_read_search''] caps then ''observe''
      else ''other'')"

fun grantShape :: "string list \<Rightarrow> string" where
  "grantShape [] = []"
| "grantShape (v # vs) =
     (let f = Fields v in
      if length f < 2 \<or> \<not> Contains v ''ALL='' then grantShape vs
      else if HasPrefix (f ! 0) ''%'' then ''group'' else ''user'')"

definition referencesLinkerInjection :: "string list \<Rightarrow> bool" where
  "referencesLinkerInjection values \<longleftrightarrow> (\<exists>v \<in> set values.
     Contains (ToUpper v) ''LD_PRELOAD'' \<or> Contains (ToUpper v) ''LD_LIBRARY_PATH'' \<or> Contains v ''ld.so.preload'')"

definition hasInlineInterpreter :: "string list \<Rightarrow> bool" where
  "hasInlineInterpreter values \<longleftrightarrow> (\<exists>v \<in> set values. contains_any
     [''python -c'', ''python3 -c'', ''perl -e'', ''ruby -e'', ''bash -c'', ''sh -c'', ''php -r'', ''node -e''] v)"

definition hasShellStringExec :: "string list \<Rightarrow> bool" where
  "hasShellStringExec values \<longleftrightarrow> (\<exists>v \<in> set values. contains_any
     [''os.system('', ''os.popen('', ''shell=True'', ''subprocess.call('' @ [CHR 0x22], ''system(''] v \<or>
     length (filter (\<lambda>c. c = CHR 0x60) v) \<ge> 2)"

fun tunnelShape :: "string list \<Rightarrow> string" where
  "tunnelShape [] = []"
| "tunnelShape (v # vs) =
     (let l = ToLower v in
      if Contains l ''socks'' \<or> Contains l ''(-d)'' then ''dynamic''
      else if Contains l ''port-forward'' \<or> Contains l ''(-r)'' \<or> Contains l ''(-l)'' then ''forward''
      else tunnelShape vs)"

definition writableReach :: "evidence_map \<Rightarrow> string" where
  "writableReach ev = (let v = ev_str ev ''via'' in if v = ''other'' \<or> v = ''group'' then v else [])"

definition keyExposedToOthers :: "evidence_map \<Rightarrow> bool" where
  "keyExposedToOthers ev =
     (let path = ev_str ev ''path''; mode = ev_str ev ''mode'' in
      if ev_string ev ''type'' = None then False
      else if \<not> Contains path ''/.ssh/'' \<and> \<not> HasSuffix path ''.pem'' \<and> \<not> HasSuffix path ''.key'' then False
      else if length mode < 2 then False
      else drop (length mode - 2) mode \<noteq> ''00'')"

fun enforcementState :: "string list \<Rightarrow> string" where
  "enforcementState [] = []"
| "enforcementState (v # vs) =
     (let l = ToLower v in
      if Contains l ''selinux=disabled'' \<or> Contains l ''=disabled'' then ''off''
      else if Contains l ''selinux=permissive'' \<or> Contains l ''=permissive'' then ''permissive''
      else enforcementState vs)"

section \<open>Classes\<close>

definition dirClass :: "string \<Rightarrow> string" where
  "dirClass q =
     (let p = (if q \<noteq> [] \<and> hd q = CHR '' '' then q else takeWhile (\<lambda>c. c \<noteq> CHR '' '') q) in
      if HasPrefix p ''/tmp/'' then ''tmp''
      else if HasPrefix p ''/dev/shm/'' then ''shm''
      else if HasPrefix p ''/var/tmp/'' then ''vartmp''
      else if HasPrefix p ''/home/'' then ''home''
      else if HasPrefix p ''/root/'' then ''root''
      else if HasPrefix p ''/etc/'' then ''etc''
      else if HasPrefix p ''/usr/local/'' then ''usrlocal''
      else if HasPrefix p ''/usr/'' \<or> HasPrefix p ''/bin/'' \<or> HasPrefix p ''/sbin/'' \<or> HasPrefix p ''/lib'' then ''system''
      else if HasPrefix p ''/var/'' then ''var''
      else if HasPrefix p ''/run/'' then ''run''
      else ''other'')"

definition path_keys :: "string list" where
  "path_keys = [''path'', ''binary'', ''exec_start'', ''exec_pre'', ''entry'', ''file'', ''dir'', ''interp'',
     ''interpreter'', ''shell'', ''module'', ''command'']"

definition path_value :: "evidence_map \<Rightarrow> string \<Rightarrow> string option" where
  "path_value ev k = (case ev_string ev k of None \<Rightarrow> None | Some s \<Rightarrow> if Contains s ''/'' then Some s else None)"

definition pathClass :: "evidence_map \<Rightarrow> string" where
  "pathClass ev = (case List.map_filter (path_value ev) path_keys of [] \<Rightarrow> [] | s # _ \<Rightarrow> dirClass s)"

definition exeClass :: "evidence_map \<Rightarrow> string" where
  "exeClass ev = (case ev_string ev ''exe'' of None \<Rightarrow> [] | Some s \<Rightarrow> if HasPrefix s ''/'' then dirClass s else [])"

text \<open>Go's conversion of a floating point number to an integer drops the fraction.\<close>

definition truncate_rat :: "rat \<Rightarrow> int" where
  "truncate_rat q = (if q < 0 then - \<lfloor>- q\<rfloor> else \<lfloor>q\<rfloor>)"

definition uid_bucket :: "int \<Rightarrow> string" where
  "uid_bucket u = (if u = 0 then ''root'' else if u < 1000 then ''service'' else ''user'')"

definition uidClass :: "evidence_map \<Rightarrow> string" where
  "uidClass ev = (case map_of ev ''uid'' of
     Some (EvFloat n) \<Rightarrow> uid_bucket (truncate_rat n) | Some (EvInt n) \<Rightarrow> uid_bucket n | _ \<Rightarrow> [])"

definition parentClass :: "evidence_map \<Rightarrow> string" where
  "parentClass ev =
     (let q = ev_str ev ''parent''; p = rev (takeWhile (\<lambda>c. c \<noteq> CHR ''/'') (rev q)) in
      if q = [] then []
      else if p \<in> {''bash'', ''sh'', ''dash'', ''zsh'', ''ksh''} then ''shell''
      else if contains_any [''apache'', ''nginx'', ''httpd''] p \<or> p = ''php-fpm'' then ''web''
      else if Contains p ''cron'' \<or> p = ''atd'' then ''cron''
      else if p = ''systemd'' \<or> p = ''init'' then ''init''
      else if p \<in> {''python'', ''python3'', ''perl'', ''ruby'', ''node''} then ''interp''
      else if contains_any [''mysqld'', ''postgres'', ''mariadb''] p then ''db''
      else ''other'')"

section \<open>Features\<close>

definition add_feature :: "string list \<Rightarrow> string \<Rightarrow> string list" where
  "add_feature feats f = (if f \<in> set feats then feats else feats @ [f])"

definition classed :: "string \<Rightarrow> string \<Rightarrow> string list" where
  "classed prefix c = (if c = [] then [] else [prefix @ c])"

definition flagged :: "string \<Rightarrow> bool \<Rightarrow> string list" where
  "flagged f b = (if b then [f] else [])"

definition shape_features :: "evidence_map \<Rightarrow> string list list" where
  "shape_features e =
     (let ev = evidenceStrings e in
      [classed ''path:'' (pathClass e), classed ''exe:'' (exeClass e), classed ''uid:'' (uidClass e),
       classed ''parent:'' (parentClass e), flagged ''shape:hidden-path'' (hasHiddenComponent ev),
       classed ''shape:cap-'' (capabilityClass e), classed ''shape:grant-'' (grantShape ev),
       flagged ''shape:linker-inject'' (referencesLinkerInjection ev),
       flagged ''shape:inline-code'' (hasInlineInterpreter ev),
       classed ''shape:enforce-'' (enforcementState ev),
       flagged ''shape:shell-string-exec'' (hasShellStringExec ev),
       classed ''shape:tunnel-'' (tunnelShape ev), classed ''shape:writable-'' (writableReach e),
       flagged ''shape:key-exposed'' (keyExposedToOthers e)])"

definition source_token :: "risk_row \<Rightarrow> string" where
  "source_token ob = ''src:'' @ (if rr_source ob = sourceLab then ''agentless_probe'' else rr_source ob)"

definition feature_candidates :: "risk_row \<Rightarrow> string list" where
  "feature_candidates ob = [''rule:'' @ rr_rule_id ob, source_token ob] @ concat (shape_features (rr_evidence ob))"

definition Features :: "risk_row \<Rightarrow> string list" where
  "Features ob = foldl add_feature [] (feature_candidates ob)"


section \<open>The vocabulary\<close>

definition dir_classes :: "string list" where
  "dir_classes = [''tmp'', ''shm'', ''vartmp'', ''home'', ''root'', ''etc'', ''usrlocal'', ''system'', ''var'', ''run'', ''other'']"

definition shape_vocabulary :: "string list" where
  "shape_vocabulary = map ((@) ''path:'') dir_classes @ map ((@) ''exe:'') dir_classes @
     map ((@) ''uid:'') [''root'', ''service'', ''user''] @
     map ((@) ''parent:'') [''shell'', ''web'', ''cron'', ''init'', ''interp'', ''db'', ''other''] @
     map ((@) ''shape:'') [''hidden-path'', ''cap-direct'', ''cap-observe'', ''cap-other'', ''grant-group'', ''grant-user'',
       ''linker-inject'', ''inline-code'', ''enforce-off'', ''enforce-permissive'', ''shell-string-exec'',
       ''tunnel-dynamic'', ''tunnel-forward'', ''writable-other'', ''writable-group'', ''key-exposed'']"

lemma foldl_add_feature:
  "distinct fs \<Longrightarrow> distinct (foldl add_feature fs xs) \<and> set (foldl add_feature fs xs) = set fs \<union> set xs \<and>
   length (foldl add_feature fs xs) \<le> length fs + length xs"
proof (induction xs arbitrary: fs)
  case (Cons x xs)
  have "distinct (add_feature fs x)" using Cons.prems by (simp add: add_feature_def)
  from Cons.IH [OF this] show ?case by (auto simp: add_feature_def split: if_splits)
qed simp

lemma dirClass_range: "dirClass p \<in> set dir_classes"
  unfolding dirClass_def Let_def dir_classes_def by simp

lemma pathClass_range: "pathClass ev = [] \<or> pathClass ev \<in> set dir_classes"
  using dirClass_range by (auto simp: pathClass_def split: list.splits)

lemma exeClass_range: "exeClass ev = [] \<or> exeClass ev \<in> set dir_classes"
  using dirClass_range by (auto simp: exeClass_def split: option.splits)

lemma uidClass_range: "uidClass ev \<in> {[], ''root'', ''service'', ''user''}"
  by (simp add: uidClass_def uid_bucket_def split: option.splits evidence.splits)

lemma parentClass_range: "parentClass ev \<in> {[], ''shell'', ''web'', ''cron'', ''init'', ''interp'', ''db'', ''other''}"
  unfolding parentClass_def Let_def by simp

lemma capabilityClass_range: "capabilityClass ev \<in> {[], ''direct'', ''observe'', ''other''}"
  unfolding capabilityClass_def Let_def by simp

lemma grantShape_range: "grantShape vs \<in> {[], ''group'', ''user''}"
  by (induction vs) (simp_all add: Let_def)

lemma enforcementState_range: "enforcementState vs \<in> {[], ''off'', ''permissive''}"
  by (induction vs) (simp_all add: Let_def)

lemma tunnelShape_range: "tunnelShape vs \<in> {[], ''dynamic'', ''forward''}"
  by (induction vs) (simp_all add: Let_def)

lemma writableReach_range: "writableReach ev \<in> {[], ''other'', ''group''}"
  by (simp add: writableReach_def Let_def)

lemma length_classed: "length (classed pre c) \<le> 1" "length (flagged f b) \<le> 1"
  by (simp_all add: classed_def flagged_def)

lemma set_classed: "c \<in> C \<Longrightarrow> (@) pre ` (C - {[]}) \<subseteq> V \<Longrightarrow> set (classed pre c) \<subseteq> V"
  by (auto simp: classed_def)

lemma dir_tokens:
  "c = [] \<or> c \<in> set dir_classes \<Longrightarrow> set (classed ''path:'' c) \<subseteq> set shape_vocabulary"
  "c = [] \<or> c \<in> set dir_classes \<Longrightarrow> set (classed ''exe:'' c) \<subseteq> set shape_vocabulary"
  by (auto simp: classed_def shape_vocabulary_def)

lemma class_tokens:
  "set (classed ''uid:'' (uidClass e)) \<subseteq> set shape_vocabulary"
  "set (classed ''parent:'' (parentClass e)) \<subseteq> set shape_vocabulary"
  "set (classed ''shape:cap-'' (capabilityClass e)) \<subseteq> set shape_vocabulary"
  "set (classed ''shape:grant-'' (grantShape vs)) \<subseteq> set shape_vocabulary"
  "set (classed ''shape:enforce-'' (enforcementState vs)) \<subseteq> set shape_vocabulary"
  "set (classed ''shape:tunnel-'' (tunnelShape vs)) \<subseteq> set shape_vocabulary"
  "set (classed ''shape:writable-'' (writableReach e)) \<subseteq> set shape_vocabulary"
  by (rule set_classed [OF uidClass_range], simp add: shape_vocabulary_def)
    (rule set_classed [OF parentClass_range], simp add: shape_vocabulary_def,
     rule set_classed [OF capabilityClass_range], simp add: shape_vocabulary_def,
     rule set_classed [OF grantShape_range], simp add: shape_vocabulary_def,
     rule set_classed [OF enforcementState_range], simp add: shape_vocabulary_def,
     rule set_classed [OF tunnelShape_range], simp add: shape_vocabulary_def,
     rule set_classed [OF writableReach_range], simp add: shape_vocabulary_def)

lemma flag_tokens:
  "f \<in> {''shape:hidden-path'', ''shape:linker-inject'', ''shape:inline-code'', ''shape:shell-string-exec'', ''shape:key-exposed''} \<Longrightarrow>
   set (flagged f b) \<subseteq> set shape_vocabulary"
  by (auto simp: flagged_def shape_vocabulary_def)

lemma concat_lists:
  "\<forall>l \<in> set ls. set l \<subseteq> V \<Longrightarrow> set (concat ls) \<subseteq> V"
  "\<forall>l \<in> set ls. length l \<le> 1 \<Longrightarrow> length (concat ls) \<le> length ls"
  by (induction ls) auto

lemma shape_features_range: "set (concat (shape_features e)) \<subseteq> set shape_vocabulary"
  unfolding shape_features_def Let_def
  by (rule concat_lists(1)) (simp add: dir_tokens(1) [OF pathClass_range] dir_tokens(2) [OF exeClass_range] class_tokens flag_tokens)

lemma length_shape_features: "length (concat (shape_features e)) \<le> 14"
proof -
  have "length (concat (shape_features e)) \<le> length (shape_features e)"
    by (rule concat_lists(2)) (simp add: shape_features_def Let_def length_classed [simplified])
  then show ?thesis by (simp add: shape_features_def Let_def)
qed

text \<open>
  C40. The type of a feature vector. Whatever a finding carries, it is reduced to at most sixteen different
  tokens: its rule, its source, and words of one fixed vocabulary. No name, path or argument an attacker
  picks becomes a token of its own, and a record of the attack range has the source of the agentless probe.
\<close>

theorem features_vocabulary:
  "distinct (Features ob) \<and> length (Features ob) \<le> 16 \<and>
   {''rule:'' @ rr_rule_id ob, source_token ob} \<subseteq> set (Features ob) \<and>
   set (Features ob) \<subseteq> {''rule:'' @ rr_rule_id ob, source_token ob} \<union> set shape_vocabulary \<and>
   length shape_vocabulary = 48 \<and> source_token (ob\<lparr>rr_source := sourceLab\<rparr>) = ''src:agentless_probe''"
proof -
  have "distinct (Features ob) \<and> set (Features ob) = set (feature_candidates ob) \<and>
      length (Features ob) \<le> length (feature_candidates ob)"
    using foldl_add_feature [of "[]" "feature_candidates ob"] by (simp add: Features_def)
  moreover have "set (feature_candidates ob) = {''rule:'' @ rr_rule_id ob, source_token ob} \<union>
      set (concat (shape_features (rr_evidence ob)))"
    "length (feature_candidates ob) = 2 + length (concat (shape_features (rr_evidence ob)))"
    unfolding feature_candidates_def by simp_all
  moreover have "length shape_vocabulary = 48" by (simp add: shape_vocabulary_def dir_classes_def)
  moreover have "source_token (ob\<lparr>rr_source := sourceLab\<rparr>) = ''src:agentless_probe''" by (simp add: source_token_def)
  ultimately show ?thesis using shape_features_range [of "rr_evidence ob"] length_shape_features [of "rr_evidence ob"]
    by auto
qed

text \<open>
  Which of two grants decides the token depends on the order in which the range over the evidence meets
  them, and Go's order is random: one finding has different features in different runs.
\<close>

theorem grant_token_order_dependent:
  "grantShape (evidenceStrings [(''a'', EvString ''% ALL=x''), (''b'', EvString ''u ALL=x'')]) = ''group'' \<and>
   grantShape (evidenceStrings [(''b'', EvString ''u ALL=x''), (''a'', EvString ''% ALL=x'')]) = ''user''"
  by (simp add: evidenceStrings_def Fields_def is_space_def)

end
