(* ===== verification/RiskModel.thy ===== *)
theory RiskModel
  imports RiskFeatures
begin

text \<open>
  The naive Bayes model of \<open>internal/risk/model.go\<close>: training, scoring, and the figures of its quality,
  with the area under the ROC curve.

  A \<open>float64\<close> is a real number here: rounding is not modelled, so the theorems are about the formulas,
  and a property that rests on the last bits of a sum is not claimed.
\<close>

section \<open>Training\<close>

record model =
  md_class_doc :: "label \<Rightarrow> int"
  md_class_feat :: "label \<Rightarrow> int"
  md_feat_count :: "label \<Rightarrow> string \<Rightarrow> int"
  md_vocab :: "string set"
  md_feats :: "risk_row \<Rightarrow> string list"

definition empty_model :: "(risk_row \<Rightarrow> string list) \<Rightarrow> model" where
  "empty_model feats = \<lparr>md_class_doc = (\<lambda>_. 0), md_class_feat = (\<lambda>_. 0), md_feat_count = (\<lambda>_ _. 0),
     md_vocab = {}, md_feats = feats\<rparr>"

definition train_feature :: "label \<Rightarrow> model \<Rightarrow> string \<Rightarrow> model" where
  "train_feature lbl m f = m\<lparr>
     md_feat_count := (md_feat_count m)(lbl := (md_feat_count m lbl)(f := md_feat_count m lbl f + 1)),
     md_class_feat := (md_class_feat m)(lbl := md_class_feat m lbl + 1),
     md_vocab := insert f (md_vocab m)\<rparr>"

definition train_row :: "model \<Rightarrow> risk_row \<Rightarrow> model" where
  "train_row m ob =
     (let lbl = LabelOf (rr_verdict ob) in
      if lbl = Unlabeled then m
      else foldl (train_feature lbl) (m\<lparr>md_class_doc := (md_class_doc m)(lbl := md_class_doc m lbl + 1)\<rparr>)
             (md_feats m ob))"

definition trainWith :: "risk_row list \<Rightarrow> (risk_row \<Rightarrow> string list) \<Rightarrow> model" where
  "trainWith rows feats = foldl train_row (empty_model feats) rows"

definition Train :: "risk_row list \<Rightarrow> model" where
  "Train rows = trainWith rows Features"

definition Trained :: "model \<Rightarrow> bool" where
  "Trained m \<longleftrightarrow> md_class_doc m Positive > 0 \<and> md_class_doc m Negative > 0"

section \<open>Scoring\<close>

definition logProb :: "model \<Rightarrow> label \<Rightarrow> string \<Rightarrow> real" where
  "logProb m lbl f = ln (real_of_int (md_feat_count m lbl f) + 1) -
     ln (real_of_int (md_class_feat m lbl) + 1 * real (card (md_vocab m)))"

definition positiveProbability :: "real \<Rightarrow> real \<Rightarrow> real" where
  "positiveProbability logPos logNeg =
     (if logPos \<ge> logNeg then let ratio = exp (logNeg - logPos) in 1 / (1 + ratio)
      else let ratio = exp (logPos - logNeg) in ratio / (1 + ratio))"

text \<open>\<open>math.Round\<close> rounds halves away from zero.\<close>

definition math_Round :: "real \<Rightarrow> int" where
  "math_Round x = (if x < 0 then - \<lfloor>- x + 1 / 2\<rfloor> else \<lfloor>x + 1 / 2\<rfloor>)"

record risk_result =
  rs_priority :: int
  rs_prob :: real
  rs_trained :: bool
  rs_top :: "(string \<times> real) list"

definition contributions :: "model \<Rightarrow> risk_row \<Rightarrow> (string \<times> real) list" where
  "contributions m ob = map (\<lambda>f. (f, logProb m Positive f - logProb m Negative f))
     (filter (\<lambda>f. f \<in> md_vocab m) (md_feats m ob))"

text \<open>Contributions of equal weight keep their order here; \<open>sort.Slice\<close> may swap them.\<close>

definition Score :: "model \<Rightarrow> risk_row \<Rightarrow> risk_result" where
  "Score m ob =
     (if \<not> Trained m
      then \<lparr>rs_priority = rr_score ob, rs_prob = real_of_int (rr_score ob) / 100, rs_trained = False, rs_top = []\<rparr>
      else let known = filter (\<lambda>f. f \<in> md_vocab m) (md_feats m ob);
               p = positiveProbability (sum_list (map (logProb m Positive) known)) (sum_list (map (logProb m Negative) known));
               ranked = sort_key (\<lambda>c. - \<bar>snd c\<bar>) (contributions m ob)
           in \<lparr>rs_priority = math_Round (p * 100), rs_prob = p, rs_trained = True,
               rs_top = (if length ranked > 5 then take 5 ranked else ranked)\<rparr>)"

section \<open>What training counts\<close>

lemma foldl_train_feature:
  "md_feats (foldl (train_feature lbl) m fs) = md_feats m"
  "md_class_doc (foldl (train_feature lbl) m fs) = md_class_doc m"
  "md_vocab (foldl (train_feature lbl) m fs) = md_vocab m \<union> set fs"
  "md_class_feat (foldl (train_feature lbl) m fs) l = md_class_feat m l + (if l = lbl then int (length fs) else 0)"
  "md_feat_count (foldl (train_feature lbl) m fs) l f =
     md_feat_count m l f + (if l = lbl then int (count_list fs f) else 0)"
  by (induction fs arbitrary: m) (auto simp: train_feature_def)

definition labelled_as :: "label \<Rightarrow> risk_row list \<Rightarrow> risk_row list" where
  "labelled_as l rows = filter (\<lambda>ob. LabelOf (rr_verdict ob) = l) rows"

lemma foldl_train_row:
  assumes "l \<noteq> Unlabeled"
  shows "md_feats (foldl train_row m rows) = md_feats m"
    "md_class_doc (foldl train_row m rows) l = md_class_doc m l + int (length (labelled_as l rows))"
    "md_class_feat (foldl train_row m rows) l =
       md_class_feat m l + int (\<Sum>ob \<leftarrow> labelled_as l rows. length (md_feats m ob))"
    "md_feat_count (foldl train_row m rows) l f =
       md_feat_count m l f + int (\<Sum>ob \<leftarrow> labelled_as l rows. count_list (md_feats m ob) f)"
proof (induction rows arbitrary: m)
  case (Cons ob rows)
  have f: "md_feats (train_row m ob) = md_feats m" for m
    by (simp add: train_row_def Let_def foldl_train_feature)
  { case 1 show ?case using Cons.IH(1) f by simp }
  { case 2 show ?case using Cons.IH(2) [of "train_row m ob"] assms
      by (simp add: train_row_def Let_def foldl_train_feature labelled_as_def) }
  { case 3 show ?case using Cons.IH(3) [of "train_row m ob"] assms f
      by (simp add: train_row_def Let_def foldl_train_feature labelled_as_def) }
  { case 4 show ?case using Cons.IH(4) [of "train_row m ob"] assms f
      by (simp add: train_row_def Let_def foldl_train_feature labelled_as_def) }
qed (simp_all add: labelled_as_def)

lemma train_vocab:
  "md_vocab (foldl train_row m rows) = md_vocab m \<union>
     (\<Union>ob \<in> {ob \<in> set rows. LabelOf (rr_verdict ob) \<noteq> Unlabeled}. set (md_feats m ob))"
proof (induction rows arbitrary: m)
  case (Cons ob rows)
  have "md_feats (train_row m ob) = md_feats m"
    by (simp add: train_row_def Let_def foldl_train_feature)
  with Cons.IH [of "train_row m ob"] show ?case
    by (auto simp: train_row_def Let_def foldl_train_feature)
qed simp


section \<open>The score is naive Bayes with a flat prior\<close>

definition vocabulary :: "risk_row list \<Rightarrow> (risk_row \<Rightarrow> string list) \<Rightarrow> string set" where
  "vocabulary rows feats = (\<Union>ob \<in> {ob \<in> set rows. LabelOf (rr_verdict ob) \<noteq> Unlabeled}. set (feats ob))"

text \<open>How likely the known tokens of a finding are under a label, with one added to every count.\<close>

definition likelihood :: "risk_row list \<Rightarrow> (risk_row \<Rightarrow> string list) \<Rightarrow> label \<Rightarrow> risk_row \<Rightarrow> real" where
  "likelihood rows feats l ob =
     prod_list (map (\<lambda>f. (real (\<Sum>row \<leftarrow> labelled_as l rows. count_list (feats row) f) + 1) /
         (real (\<Sum>row \<leftarrow> labelled_as l rows. length (feats row)) + real (card (vocabulary rows feats))))
       (filter (\<lambda>f. f \<in> vocabulary rows feats) (feats ob)))"

lemma trainWith_counts:
  assumes "l \<noteq> Unlabeled"
  shows "md_class_doc (trainWith rows feats) l = int (length (labelled_as l rows))"
    "md_class_feat (trainWith rows feats) l = int (\<Sum>ob \<leftarrow> labelled_as l rows. length (feats ob))"
    "md_feat_count (trainWith rows feats) l f = int (\<Sum>ob \<leftarrow> labelled_as l rows. count_list (feats ob) f)"
  using foldl_train_row [OF assms, of "empty_model feats" rows] by (simp_all add: trainWith_def empty_model_def)

lemma trainWith_vocab: "md_vocab (trainWith rows feats) = vocabulary rows feats"
  "md_feats (trainWith rows feats) = feats"
  using train_vocab [of "empty_model feats" rows] foldl_train_row(1) [of Positive "empty_model feats" rows]
  by (simp_all add: trainWith_def empty_model_def vocabulary_def)

lemma Trained_iff: "Trained (trainWith rows feats) \<longleftrightarrow> labelled_as Positive rows \<noteq> [] \<and> labelled_as Negative rows \<noteq> []"
  by (simp add: Trained_def trainWith_counts)

lemma positiveProbability_eq: "positiveProbability a b = exp a / (exp a + exp b)"
proof -
  have "1 / (1 + exp (b - a)) = exp a / (exp a + exp b)"
    using exp_gt_zero [of a] by (simp add: exp_diff field_simps)
  moreover have "exp (a - b) / (1 + exp (a - b)) = exp a / (exp a + exp b)"
    using exp_gt_zero [of b] exp_gt_zero [of a] by (simp add: exp_diff divide_simps)
  ultimately show ?thesis by (simp add: positiveProbability_def Let_def)
qed

lemma exp_sum_ln: "\<forall>x \<in> set xs. 0 < q x \<Longrightarrow> exp (\<Sum>x \<leftarrow> xs. ln (q x :: real)) = prod_list (map q xs)"
  by (induction xs) (simp_all add: exp_add)

lemma exp_logProb:
  assumes "l \<noteq> Unlabeled"
  shows "exp (sum_list (map (logProb (trainWith rows feats) l) (filter (\<lambda>f. f \<in> vocabulary rows feats) (feats ob)))) =
    likelihood rows feats l ob"
proof -
  define known where "known = filter (\<lambda>f. f \<in> vocabulary rows feats) (feats ob)"
  define total where "total = (\<Sum>row \<leftarrow> labelled_as l rows. length (feats row))"
  define q where "q f = (real (\<Sum>row \<leftarrow> labelled_as l rows. count_list (feats row) f) + 1) /
    (real total + real (card (vocabulary rows feats)))" for f
  have fin: "finite (vocabulary rows feats)" by (simp add: vocabulary_def)
  have "logProb (trainWith rows feats) l f = ln (q f) \<and> 0 < q f" if "f \<in> set known" for f
  proof -
    have "0 < card (vocabulary rows feats)" using that fin by (auto simp: known_def card_gt_0_iff)
    moreover define c where "c = (\<Sum>row \<leftarrow> labelled_as l rows. count_list (feats row) f)"
    then have "logProb (trainWith rows feats) l f =
        ln (real c + 1) - ln (real total + real (card (vocabulary rows feats)))" "q f = (real c + 1) /
        (real total + real (card (vocabulary rows feats)))"
      unfolding logProb_def trainWith_counts [OF assms] trainWith_vocab q_def total_def c_def of_int_of_nat_eq
      by (simp_all only: mult_1)
    ultimately show ?thesis by (simp add: ln_div)
  qed
  then have m: "map (logProb (trainWith rows feats) l) known = map (\<lambda>f. ln (q f)) known"
    and pos: "\<forall>f \<in> set known. 0 < q f" by (simp_all only: map_eq_conv) blast+
  have "likelihood rows feats l ob = prod_list (map q known)"
    unfolding likelihood_def known_def [symmetric] q_def total_def ..
  with exp_sum_ln [OF pos] show ?thesis unfolding known_def [symmetric] m by simp
qed

lemma likelihood_pos: "l \<noteq> Unlabeled \<Longrightarrow> 0 < likelihood rows feats l ob"
  using exp_logProb [of l rows feats ob] by (metis exp_gt_zero)

lemma math_Round_percent: "0 \<le> p \<Longrightarrow> p \<le> 1 \<Longrightarrow> 0 \<le> math_Round (p * 100) \<and> math_Round (p * 100) \<le> 100"
  by (simp add: math_Round_def)


end
