(* ===== verification/RiskQuality.thy ===== *)
theory RiskQuality
  imports RiskModel
begin

text \<open>
  How the quality of the risk model is measured (\<open>internal/risk/model.go\<close>): the figures of a list of
  predictions, the grouped folds of cross-validation, and the decision whether the model may be trusted.
\<close>

section \<open>Figures of a list of predictions\<close>

record prediction =
  pr_prob :: real
  pr_positive :: bool
  pr_rule :: string

definition ratio :: "nat \<Rightarrow> nat \<Rightarrow> real" where
  "ratio numerator denominator = (if denominator = 0 then 0 else real numerator / real denominator)"

text \<open>
  The loop over the ranked predictions: a group of equal probabilities shares its average rank. The
  loop's \<open>start\<close> is the number of predictions ranked before; the accumulator holds the sum of the ranks
  of the positives and the two counts.
\<close>

function roc_loop :: "nat \<Rightarrow> prediction list \<Rightarrow> real \<times> nat \<times> nat \<Rightarrow> real \<times> nat \<times> nat" where
  "roc_loop start [] acc = acc"
| "roc_loop start (p # ps) (rankSum, positives, negatives) =
     (let tie = p # takeWhile (\<lambda>q. pr_prob q = pr_prob p) ps;
          end = start + length tie;
          averageRank = real (start + 1 + end) / 2;
          acc = foldl (\<lambda>(r, a, b) q. if pr_positive q then (r + averageRank, a + 1, b) else (r, a, b + 1))
                  (rankSum, positives, negatives) tie
      in roc_loop end (dropWhile (\<lambda>q. pr_prob q = pr_prob p) ps) acc)"
  by pat_completeness auto

termination roc_loop
  by (relation "measure (\<lambda>(start, ps, acc). length ps)") (auto simp: length_dropWhile_le less_Suc_eq_le)

definition areaUnderROC :: "prediction list \<Rightarrow> real" where
  "areaUnderROC predictions =
     (case roc_loop 0 (sort_key pr_prob predictions) (0, 0, 0) of (rankSum, positives, negatives) \<Rightarrow>
        if positives = 0 \<or> negatives = 0 then 0
        else (rankSum - real (positives * (positives + 1)) / 2) / real (positives * negatives))"

definition predictionMetrics :: "prediction list \<Rightarrow> real \<times> real \<times> real \<times> real \<times> real \<times> real" where
  "predictionMetrics ps =
     (if ps = [] then (0, 0, 0, 0, 0, 0)
      else let tp = length (filter (\<lambda>p. pr_positive p \<and> pr_prob p \<ge> 1 / 2) ps);
               fn = length (filter (\<lambda>p. pr_positive p \<and> \<not> pr_prob p \<ge> 1 / 2) ps);
               fp = length (filter (\<lambda>p. \<not> pr_positive p \<and> pr_prob p \<ge> 1 / 2) ps);
               tn = length (filter (\<lambda>p. \<not> pr_positive p \<and> \<not> pr_prob p \<ge> 1 / 2) ps);
               brier = (\<Sum>p \<leftarrow> ps. (pr_prob p - (if pr_positive p then 1 else 0)) * (pr_prob p - (if pr_positive p then 1 else 0)));
               recall = ratio tp (tp + fn);
               specificity = ratio tn (tn + fp)
           in (real (tp + tn) / real (length ps), (recall + specificity) / 2, ratio tp (tp + fp), recall,
               areaUnderROC ps, brier / real (length ps)))"

definition stdDev :: "real list \<Rightarrow> real" where
  "stdDev xs =
     (if length xs < 2 then 0
      else let mean = sum_list xs / real (length xs);
               ss = (\<Sum>x \<leftarrow> xs. (x - mean) * (x - mean))
           in sqrt (ss / real (length xs - 1)))"

section \<open>The rank sum counts pairs\<close>

definition less_in :: "prediction list \<Rightarrow> prediction \<Rightarrow> nat" where
  "less_in ps p = length (filter (\<lambda>q. pr_prob q < pr_prob p) ps)"

definition same_in :: "prediction list \<Rightarrow> prediction \<Rightarrow> nat" where
  "same_in ps p = length (filter (\<lambda>q. pr_prob q = pr_prob p) ps)"

definition rank_in :: "prediction list \<Rightarrow> prediction \<Rightarrow> real" where
  "rank_in ps p = real (less_in ps p) + (real (same_in ps p) + 1) / 2"

definition positives_of :: "prediction list \<Rightarrow> prediction list" where
  "positives_of ps = filter pr_positive ps"

definition negatives_of :: "prediction list \<Rightarrow> prediction list" where
  "negatives_of ps = filter (\<lambda>p. \<not> pr_positive p) ps"

lemma foldl_tie:
  "foldl (\<lambda>(r, a, b) q. if pr_positive q then (r + (x :: real), a + 1, b) else (r, a, b + 1)) (r, a, b) ps =
   (r + x * real (length (positives_of ps)), a + length (positives_of ps), b + length (negatives_of ps))"
  by (induction ps arbitrary: r a b) (simp_all add: positives_of_def negatives_of_def algebra_simps)

lemma sorted_tie:
  assumes "sorted (map pr_prob (p # ps))"
  shows "\<forall>q \<in> set (dropWhile (\<lambda>q. pr_prob q = pr_prob p) ps). pr_prob p < pr_prob q"
  using assms
proof (induction ps)
  case (Cons q ps)
  show ?case
  proof (cases "pr_prob q = pr_prob p")
    case True
    with Cons show ?thesis by simp
  next
    case False
    with Cons.prems have "pr_prob p < pr_prob q" by simp
    moreover have "\<forall>x \<in> set ps. pr_prob q \<le> pr_prob x" using Cons.prems by simp
    ultimately show ?thesis using False by fastforce
  qed
qed simp

lemma rank_in_tie:
  assumes "\<forall>q \<in> set tie. pr_prob q = x" and "\<forall>q \<in> set rest. x < pr_prob q"
  shows "q \<in> set tie \<Longrightarrow> rank_in (tie @ rest) q = (real (length tie) + 1) / 2"
    "q \<in> set rest \<Longrightarrow> rank_in (tie @ rest) q = real (length tie) + rank_in rest q"
proof -
  assume q: "q \<in> set tie"
  have "filter (\<lambda>r. pr_prob r < pr_prob q) (tie @ rest) = []" using assms q by (auto simp: filter_empty_conv)
  moreover have "filter (\<lambda>r. pr_prob r = pr_prob q) tie = tie" "filter (\<lambda>r. pr_prob r = pr_prob q) rest = []"
    using assms q by (auto simp: filter_id_conv filter_empty_conv)
  ultimately show "rank_in (tie @ rest) q = (real (length tie) + 1) / 2"
    by (simp add: rank_in_def less_in_def same_in_def)
next
  assume q: "q \<in> set rest"
  have "filter (\<lambda>r. pr_prob r < pr_prob q) tie = tie" "filter (\<lambda>r. pr_prob r = pr_prob q) tie = []"
    using assms q by (auto simp: filter_id_conv filter_empty_conv)
  then show "rank_in (tie @ rest) q = real (length tie) + rank_in rest q"
    by (simp add: rank_in_def less_in_def same_in_def)
qed

lemma positives_append [simp]: "positives_of (xs @ ys) = positives_of xs @ positives_of ys"
  "negatives_of (xs @ ys) = negatives_of xs @ negatives_of ys"
  by (simp_all add: positives_of_def negatives_of_def)

lemma sum_const: "\<forall>q \<in> set qs. f q = c \<Longrightarrow> (\<Sum>q \<leftarrow> qs. f q) = c * real (length qs)"
  by (induction qs) (simp_all add: algebra_simps)

lemma roc_loop_ranks:
  "sorted (map pr_prob ps) \<Longrightarrow> roc_loop start ps (r, a, b) =
    (r + (\<Sum>p \<leftarrow> positives_of ps. real start + rank_in ps p), a + length (positives_of ps), b + length (negatives_of ps))"
proof (induction "length ps" arbitrary: start ps r a b rule: less_induct)
  case less
  show ?case
  proof (cases ps)
    case Nil
    then show ?thesis by (simp add: positives_of_def negatives_of_def)
  next
    case (Cons p qs)
    define tie where "tie = p # takeWhile (\<lambda>q. pr_prob q = pr_prob p) qs"
    define rest where "rest = dropWhile (\<lambda>q. pr_prob q = pr_prob p) qs"
    have all: "ps = tie @ rest" by (simp add: tie_def rest_def Cons)
    have t: "\<forall>q \<in> set tie. pr_prob q = pr_prob p" by (auto simp: tie_def dest: set_takeWhileD)
    have g: "\<forall>q \<in> set rest. pr_prob p < pr_prob q"
      unfolding rest_def using less.prems Cons by (intro sorted_tie) simp
    have s: "sorted (map pr_prob rest)" using less.prems unfolding all by (simp add: sorted_append)
    have l: "length rest < length ps" unfolding all by (simp add: tie_def)
    define x where "x = real (start + 1 + (start + length tie)) / 2"
    have step: "roc_loop start ps (r, a, b) = roc_loop (start + length tie) rest
        (r + x * real (length (positives_of tie)), a + length (positives_of tie), b + length (negatives_of tie))"
      unfolding Cons roc_loop.simps Let_def tie_def [symmetric] rest_def [symmetric] x_def [symmetric] foldl_tie ..
    have in_tie: "(\<Sum>q \<leftarrow> positives_of tie. real start + rank_in ps q) = x * real (length (positives_of tie))"
      using rank_in_tie(1) [OF t g] unfolding all
      by (intro sum_const) (auto simp: positives_of_def x_def field_simps)
    have in_rest: "(\<Sum>q \<leftarrow> positives_of rest. real start + rank_in ps q) =
        (\<Sum>q \<leftarrow> positives_of rest. real (start + length tie) + rank_in rest q)"
      using rank_in_tie(2) [OF t g] unfolding all
      by (intro arg_cong [where f = sum_list] map_cong) (auto simp: positives_of_def)
    show ?thesis unfolding step less.hyps [OF l s] using in_tie in_rest unfolding all by simp
  qed
qed

text \<open>Among themselves, \<open>n\<close> predictions have ranks that add up to \<open>1 + \<dots> + n\<close>, whatever their order and ties.\<close>

lemma sum_ranks: "(\<Sum>p \<leftarrow> ps. rank_in ps p) = real (length ps) * (real (length ps) + 1) / 2"
proof (induction ps)
  case (Cons y ps)
  have each: "rank_in (y # ps) p = rank_in ps p + (if pr_prob y < pr_prob p then 1 else 0) +
      (if pr_prob y = pr_prob p then 1 / 2 else 0)" for p
    by (simp add: rank_in_def less_in_def same_in_def field_simps)
  have "(\<Sum>p \<leftarrow> ps. (if v < pr_prob p then 1 else 0) + (if v = pr_prob p then 1 / 2 else 0 :: real)) +
      (real (length (filter (\<lambda>q. pr_prob q < v) ps)) + (real (length (filter (\<lambda>q. pr_prob q = v) ps)) + 1) / 2) =
      real (length ps) + 1 / 2" for v
    by (induction ps) (auto simp: field_simps)
  from this [of "pr_prob y"] have pairs: "(\<Sum>p \<leftarrow> ps. (if pr_prob y < pr_prob p then 1 else 0) +
      (if pr_prob y = pr_prob p then 1 / 2 else 0 :: real)) + rank_in ps y = real (length ps) + 1 / 2"
    by (simp add: rank_in_def less_in_def same_in_def)
  have "(\<Sum>p \<leftarrow> ps. rank_in (y # ps) p) = (\<Sum>p \<leftarrow> ps. rank_in ps p) +
      (\<Sum>p \<leftarrow> ps. (if pr_prob y < pr_prob p then 1 else 0) + (if pr_prob y = pr_prob p then 1 / 2 else 0 :: real))"
    unfolding each by (simp add: sum_list_addf add.assoc)
  moreover have "rank_in (y # ps) y = rank_in ps y + 1 / 2" unfolding each by simp
  ultimately show ?case using pairs Cons.IH by (simp add: field_simps)
qed simp

text \<open>The reference: over all pairs of a positive and a negative, one for the right order, a half for a tie.\<close>

definition pair_wins :: "prediction list \<Rightarrow> real" where
  "pair_wins ps = (\<Sum>p \<leftarrow> positives_of ps. \<Sum>n \<leftarrow> negatives_of ps.
     if pr_prob n < pr_prob p then 1 else if pr_prob n = pr_prob p then 1 / 2 else 0)"

lemma length_filter_mset: "mset xs = mset ys \<Longrightarrow> length (filter P xs) = length (filter P ys)"
  by (metis mset_filter size_mset)

lemma rank_in_mset: "mset xs = mset ys \<Longrightarrow> rank_in xs = rank_in ys"
  using length_filter_mset [of xs ys] by (simp add: fun_eq_iff rank_in_def less_in_def same_in_def)

lemma sum_list_mset: "mset xs = mset ys \<Longrightarrow> (\<Sum>x \<leftarrow> xs. f x :: real) = (\<Sum>x \<leftarrow> ys. f x)"
  by (metis mset_map sum_mset_sum_list)

lemma length_filter_split:
  "length (filter P ps) = length (filter P (positives_of ps)) + length (filter P (negatives_of ps))"
  by (induction ps) (simp_all add: positives_of_def negatives_of_def)

lemma rank_in_split:
  "rank_in ps p = rank_in (positives_of ps) p +
     (\<Sum>n \<leftarrow> negatives_of ps. if pr_prob n < pr_prob p then 1 else if pr_prob n = pr_prob p then 1 / 2 else 0)"
proof -
  have "(\<Sum>n \<leftarrow> ns. if pr_prob n < pr_prob p then 1 else if pr_prob n = pr_prob p then 1 / 2 else 0) =
      real (length (filter (\<lambda>q. pr_prob q < pr_prob p) ns)) + real (length (filter (\<lambda>q. pr_prob q = pr_prob p) ns)) / 2" for ns
    by (induction ns) (simp_all add: field_simps)
  from this [of "negatives_of ps"] show ?thesis
    unfolding rank_in_def less_in_def same_in_def length_filter_split [of _ ps] by (simp add: field_simps)
qed

lemma sum_double: "(\<Sum>p \<leftarrow> ps. f p + g p :: real) = (\<Sum>p \<leftarrow> ps. f p) + (\<Sum>p \<leftarrow> ps. g p)"
  by (rule sum_list_addf)

lemma pair_wins_bounds: "0 \<le> pair_wins ps \<and> pair_wins ps \<le> real (length (positives_of ps) * length (negatives_of ps))"
proof -
  have inner: "0 \<le> (\<Sum>n \<leftarrow> ns. if pr_prob n < x then 1 else if pr_prob n = x then 1 / 2 else 0 :: real) \<and>
      (\<Sum>n \<leftarrow> ns. if pr_prob n < x then 1 else if pr_prob n = x then 1 / 2 else 0 :: real) \<le> real (length ns)" for ns x
    by (induction ns) auto
  have "0 \<le> (\<Sum>p \<leftarrow> qs. \<Sum>n \<leftarrow> ns. if pr_prob n < pr_prob p then 1 else if pr_prob n = pr_prob p then 1 / 2 else 0 :: real) \<and>
      (\<Sum>p \<leftarrow> qs. \<Sum>n \<leftarrow> ns. if pr_prob n < pr_prob p then 1 else if pr_prob n = pr_prob p then 1 / 2 else 0 :: real) \<le>
      real (length qs * length ns)" for qs ns
  proof (induction qs)
    case (Cons p qs)
    with inner [of "pr_prob p" ns] show ?case by (simp add: algebra_simps)
  qed simp
  then show ?thesis unfolding pair_wins_def .
qed

text \<open>
  The area under the ROC curve, computed from average ranks of a sorted list, is the share of pairs of a
  positive and a negative prediction that are in the right order, a tie counting a half: so it lies
  between 0 and 1, and it does not depend on the order of the predictions. Without both classes it is 0.
\<close>

theorem auc_counts_pairs:
  "areaUnderROC ps =
     (if positives_of ps = [] \<or> negatives_of ps = [] then 0
      else pair_wins ps / real (length (positives_of ps) * length (negatives_of ps))) \<and>
   0 \<le> areaUnderROC ps \<and> areaUnderROC ps \<le> 1"
proof -
  let ?s = "sort_key pr_prob ps" and ?P = "positives_of ps" and ?N = "negatives_of ps"
  have ms: "mset (positives_of ?s) = mset ?P" "mset (negatives_of ?s) = mset ?N"
    by (simp_all add: positives_of_def negatives_of_def mset_filter)
  have len: "length (positives_of ?s) = length ?P" "length (negatives_of ?s) = length ?N"
    using ms by (metis size_mset)+
  have ranks: "(\<Sum>p \<leftarrow> positives_of ?s. rank_in ?s p) = (\<Sum>p \<leftarrow> ?P. rank_in ps p)"
    using sum_list_mset [OF ms(1), of "rank_in ps"] rank_in_mset [of ?s ps] by simp
  have "(\<Sum>p \<leftarrow> ?P. rank_in ps p) = (\<Sum>p \<leftarrow> ?P. rank_in ?P p) + pair_wins ps"
    unfolding pair_wins_def by (subst rank_in_split) (rule sum_double)
  also have "\<dots> = real (length ?P) * (real (length ?P) + 1) / 2 + pair_wins ps" by (simp only: sum_ranks)
  finally have sum: "(\<Sum>p \<leftarrow> positives_of ?s. rank_in ?s p) - real (length ?P * (length ?P + 1)) / 2 = pair_wins ps"
    unfolding ranks by (simp add: algebra_simps)
  have loop: "roc_loop 0 ?s (0, 0, 0) = (\<Sum>p \<leftarrow> positives_of ?s. rank_in ?s p, length ?P, length ?N)"
    using roc_loop_ranks [of ?s 0 0 0 0] by (simp add: len)
  have auc: "areaUnderROC ps = (if ?P = [] \<or> ?N = [] then 0 else pair_wins ps / real (length ?P * length ?N))"
    unfolding areaUnderROC_def loop using sum by simp
  moreover have "0 \<le> areaUnderROC ps \<and> areaUnderROC ps \<le> 1"
    unfolding auc using pair_wins_bounds [of ps] by (auto simp: divide_le_eq)
  ultimately show ?thesis by blast
qed

end
