(* ===== verification/RiskValidation.thy ===== *)
theory RiskValidation
  imports RiskQuality
begin

text \<open>
  Cross-validation of the risk model in groups, and the decision whether its ranking may be trusted
  (\<open>groupedFolds\<close>, \<open>crossValidate\<close>, \<open>withinRuleSeparation\<close> and \<open>evaluate\<close> of \<open>internal/risk/model.go\<close>).

  The seeded shuffle of the groups is an argument, a function of the seed and the sorted keys.
\<close>

section \<open>Folds\<close>

definition row_group :: "nat \<Rightarrow> risk_row \<Rightarrow> string" where
  "row_group i ob =
     (if rr_source ob = sourceLab \<and> rr_scan_id ob \<noteq> [] then ''lab:'' @ rr_scan_id ob
      else if rr_host_id ob \<noteq> [] then ''host:'' @ rr_host_id ob
      else ''row:'' @ Itoa (int i))"

definition group_rows :: "risk_row list \<Rightarrow> string \<Rightarrow> nat list" where
  "group_rows rows k = filter (\<lambda>i. row_group i (rows ! i) = k) [0..<length rows]"

definition row_label :: "risk_row list \<Rightarrow> nat \<Rightarrow> label" where
  "row_label rows i = LabelOf (rr_verdict (rows ! i))"

definition group_keys :: "risk_row list \<Rightarrow> string list" where
  "group_keys rows = sort (remdups (map (\<lambda>i. row_group i (rows ! i)) [0..<length rows]))"

definition group_count :: "risk_row list \<Rightarrow> label \<Rightarrow> nat" where
  "group_count rows l = length (filter (\<lambda>k. l \<in> row_label rows ` set (group_rows rows k)) (group_keys rows))"

type_synonym fold_loads = "nat \<Rightarrow> label \<Rightarrow> nat"

definition best_fold :: "nat \<Rightarrow> (label \<Rightarrow> nat) \<Rightarrow> fold_loads \<Rightarrow> nat" where
  "best_fold folds class loads =
     (let cost = (\<lambda>f. class Positive * loads f Positive + class Negative * loads f Negative)
      in foldl (\<lambda>best f. if cost f < cost best then f else best) 0 [1..<folds])"

definition assign_row :: "risk_row list \<Rightarrow> nat \<Rightarrow> nat list \<times> fold_loads \<Rightarrow> nat \<Rightarrow> nat list \<times> fold_loads" where
  "assign_row rows best st i =
     (case st of (assigned, loads) \<Rightarrow>
        (assigned[i := best],
         loads(best := (loads best)(row_label rows i := loads best (row_label rows i) + 1))))"

definition assign_group :: "risk_row list \<Rightarrow> nat \<Rightarrow> nat list \<times> fold_loads \<Rightarrow> string \<Rightarrow> nat list \<times> fold_loads" where
  "assign_group rows folds st k =
     (let idx = group_rows rows k;
          class = (\<lambda>l. length (filter (\<lambda>i. row_label rows i = l) idx))
      in foldl (assign_row rows (best_fold folds class (snd st))) st idx)"

definition groupedFolds ::
  "(int \<Rightarrow> string list \<Rightarrow> string list) \<Rightarrow> risk_row list \<Rightarrow> nat \<Rightarrow> int \<Rightarrow> nat list \<times> nat" where
  "groupedFolds shuffle rows folds seed =
     (let folds = min folds (min (group_count rows Positive) (group_count rows Negative)) in
      if folds < 2 then ([], 0)
      else (fst (foldl (assign_group rows folds) (replicate (length rows) 0, \<lambda>_ _. 0)
              (shuffle seed (group_keys rows))), folds))"

section \<open>Cross-validation\<close>

definition fold_model :: "(risk_row \<Rightarrow> string list) \<Rightarrow> risk_row list \<Rightarrow> nat list \<Rightarrow> nat \<Rightarrow> model" where
  "fold_model feats rows foldOf k =
     trainWith (map ((!) rows) (filter (\<lambda>i. foldOf ! i \<noteq> k) [0..<length rows])) feats"

definition predict :: "model \<Rightarrow> risk_row \<Rightarrow> prediction" where
  "predict m ob = \<lparr>pr_prob = rs_prob (Score m ob), pr_positive = LabelOf (rr_verdict ob) = Positive, pr_rule = rr_rule_id ob\<rparr>"

definition crossValidate ::
  "(int \<Rightarrow> string list \<Rightarrow> string list) \<Rightarrow> (risk_row \<Rightarrow> string list) \<Rightarrow> risk_row list \<Rightarrow> nat \<Rightarrow> int \<Rightarrow> prediction list" where
  "crossValidate shuffle feats rows folds seed =
     (case groupedFolds shuffle rows folds seed of (foldOf, folds) \<Rightarrow>
        if folds < 2 then []
        else if \<not> list_all (\<lambda>k. Trained (fold_model feats rows foldOf k)) [0..<folds] then []
        else concat (map (\<lambda>k. map (\<lambda>i. predict (fold_model feats rows foldOf k) (rows ! i))
               (filter (\<lambda>i. foldOf ! i = k) [0..<length rows])) [0..<folds]))"

section \<open>Groups stay together\<close>

lemma assign_rows:
  "length (fst (foldl (assign_row rows b) st idx)) = length (fst st)"
  "j < length (fst st) \<Longrightarrow> fst (foldl (assign_row rows b) st idx) ! j = (if j \<in> set idx then b else fst st ! j)"
  by (induction idx arbitrary: st) (auto simp: assign_row_def nth_list_update split: prod.splits)

lemma best_fold_less: "0 < folds \<Longrightarrow> best_fold folds class loads < folds"
proof -
  assume "0 < folds"
  have "foldl (\<lambda>best f. if c f < c best then f else best) b fs < folds"
    if "b < folds" "\<forall>f \<in> set fs. f < folds" for b fs and c :: "nat \<Rightarrow> nat"
    using that by (induction fs arbitrary: b) auto
  with \<open>0 < folds\<close> show ?thesis by (simp add: best_fold_def Let_def)
qed

definition grouped :: "risk_row list \<Rightarrow> nat \<Rightarrow> string set \<Rightarrow> nat list \<Rightarrow> bool" where
  "grouped rows folds done assigned \<longleftrightarrow> length assigned = length rows \<and> (\<forall>i < length rows. assigned ! i < folds) \<and>
     (\<forall>i < length rows. \<forall>j < length rows. row_group i (rows ! i) = row_group j (rows ! j) \<and> row_group i (rows ! i) \<in> done \<longrightarrow>
        assigned ! i = assigned ! j)"

lemma assign_group_grouped:
  assumes "grouped rows folds done (fst st)" and "0 < folds"
  shows "grouped rows folds (insert k done) (fst (assign_group rows folds st k))"
proof -
  define b where "b = best_fold folds (\<lambda>l. length (filter (\<lambda>i. row_label rows i = l) (group_rows rows k))) (snd st)"
  have b: "b < folds" unfolding b_def by (rule best_fold_less [OF assms(2)])
  have len: "length (fst st) = length rows" using assms(1) by (simp add: grouped_def)
  have eq: "assign_group rows folds st k = foldl (assign_row rows b) st (group_rows rows k)"
    by (simp only: assign_group_def Let_def b_def)
  have at: "fst (assign_group rows folds st k) ! j = (if row_group j (rows ! j) = k then b else fst st ! j)"
    if "j < length rows" for j
  proof -
    have "j \<in> set (group_rows rows k) \<longleftrightarrow> row_group j (rows ! j) = k" using that by (simp add: group_rows_def)
    then show ?thesis unfolding eq using assign_rows(2) [of j st rows b] that len by simp
  qed
  have "length (fst (assign_group rows folds st k)) = length rows" unfolding eq assign_rows(1) by (rule len)
  then show ?thesis using assms(1) b unfolding grouped_def
    by (simp add: at) (metis)
qed

lemma assign_groups_grouped:
  assumes "grouped rows folds done (fst st)" and "0 < folds"
  shows "grouped rows folds (done \<union> set ks) (fst (foldl (assign_group rows folds) st ks))"
  using assms(1)
proof (induction ks arbitrary: "done" st)
  case (Cons k ks)
  from Cons.IH [OF assign_group_grouped [OF Cons.prems assms(2), of k]] show ?case by simp
qed simp

lemma groupedFolds_grouped:
  assumes "\<forall>ks. mset (shuffle seed ks) = mset ks" and "groupedFolds shuffle rows folds seed = (foldOf, n)" and "2 \<le> n"
  shows "n \<le> folds \<and> length foldOf = length rows \<and> (\<forall>i < length rows. foldOf ! i < n) \<and>
    (\<forall>i < length rows. \<forall>j < length rows. row_group i (rows ! i) = row_group j (rows ! j) \<longrightarrow> foldOf ! i = foldOf ! j)"
proof -
  define ks where "ks = shuffle seed (group_keys rows)"
  have "set ks = set (group_keys rows)" unfolding ks_def using assms(1) by (metis set_mset_mset)
  then have cover: "row_group i (rows ! i) \<in> set ks" if "i < length rows" for i
    using that by (auto simp: group_keys_def)
  have n: "n = min folds (min (group_count rows Positive) (group_count rows Negative))"
    and f: "foldOf = fst (foldl (assign_group rows n) (replicate (length rows) 0, \<lambda>_ _. 0) ks)"
    using assms(2,3) by (auto simp: groupedFolds_def Let_def ks_def split: if_splits)
  have "grouped rows n {} (fst (replicate (length rows) 0, \<lambda>_ _. 0 :: nat))" using assms(3) by (simp add: grouped_def)
  from assign_groups_grouped [OF this, of ks] have "grouped rows n (set ks) foldOf" using assms(3) f by simp
  then have g: "length foldOf = length rows" "\<forall>i < length rows. foldOf ! i < n"
    "\<And>i j. i < length rows \<Longrightarrow> j < length rows \<Longrightarrow> row_group i (rows ! i) = row_group j (rows ! j) \<Longrightarrow>
       row_group i (rows ! i) \<in> set ks \<Longrightarrow> foldOf ! i = foldOf ! j"
    unfolding grouped_def by blast+
  have "n \<le> folds" unfolding n by simp
  with g(1,2) show ?thesis using g(3) cover by blast
qed

lemma mset_by_fold:
  "\<forall>i \<in> set is. h i < n \<Longrightarrow> mset (concat (map (\<lambda>k. map (g k) (filter (\<lambda>i. h i = k) is)) [0..<n])) = mset (map (\<lambda>i. g (h i) i) is)"
proof (induction "is")
  case (Cons i js)
  have "mset (concat (map (\<lambda>k. map (g k) (filter (\<lambda>j. h j = k) (i # js))) ks)) =
      mset (concat (map (\<lambda>k. map (g k) (filter (\<lambda>j. h j = k) js)) ks)) + replicate_mset (count_list ks (h i)) (g (h i) i)" for ks
    by (induction ks) auto
  moreover have "count_list [0..<n] x = (if x < n then 1 else 0)" for x by (induction n) auto
  ultimately show ?case using Cons by simp
qed simp

text \<open>
  Held-out rows are held out with their kin. In one pass of cross-validation, if it gives predictions,
  every labelled row is predicted exactly once, by a model trained on rows none of which has its group:
  none of the same host for a finding of the fleet, none of the same technique for one of the range. The
  pass is balanced on groups, so a small set of groups is never spread over more folds than there are
  groups of either class.
\<close>

theorem held_out_with_kin:
  assumes "\<forall>ks. mset (shuffle seed ks) = mset ks" and "crossValidate shuffle feats rows folds seed \<noteq> []"
  shows "\<exists>train. mset (crossValidate shuffle feats rows folds seed) =
      mset (map (\<lambda>i. predict (trainWith (train i) feats) (rows ! i)) [0..<length rows]) \<and>
    (\<forall>i < length rows. \<forall>ob \<in> set (train i). \<exists>j < length rows. ob = rows ! j \<and>
       row_group j (rows ! j) \<noteq> row_group i (rows ! i)) \<and>
    (\<forall>i < length rows. labelled_as Positive (train i) \<noteq> [] \<and> labelled_as Negative (train i) \<noteq> []) \<and>
    2 \<le> group_count rows Positive \<and> 2 \<le> group_count rows Negative"
proof -
  obtain foldOf n where g: "groupedFolds shuffle rows folds seed = (foldOf, n)" by fastforce
  let ?model = "fold_model feats rows foldOf"
  have n: "2 \<le> n" and tr: "\<forall>k < n. Trained (?model k)"
    and cv: "crossValidate shuffle feats rows folds seed = concat (map (\<lambda>k. map (\<lambda>i. predict (?model k) (rows ! i))
        (filter (\<lambda>i. foldOf ! i = k) [0..<length rows])) [0..<n])"
    using assms(2) g by (auto simp: crossValidate_def list_all_iff split: if_splits)
  note kin = groupedFolds_grouped [OF assms(1) g n]
  define train where "train i = map ((!) rows) (filter (\<lambda>j. foldOf ! j \<noteq> foldOf ! i) [0..<length rows])" for i
  have model: "?model (foldOf ! i) = trainWith (train i) feats" for i by (simp add: fold_model_def train_def)
  from kin have less: "\<forall>i < length rows. foldOf ! i < n" by blast
  then have "\<forall>i \<in> set [0..<length rows]. foldOf ! i < n" by simp
  from mset_by_fold [OF this, of "\<lambda>k i. predict (?model k) (rows ! i)"]
  have "mset (crossValidate shuffle feats rows folds seed) =
      mset (map (\<lambda>i. predict (trainWith (train i) feats) (rows ! i)) [0..<length rows])"
    unfolding cv by (simp add: model)
  moreover have "\<exists>j < length rows. ob = rows ! j \<and> row_group j (rows ! j) \<noteq> row_group i (rows ! i)"
    if "i < length rows" "ob \<in> set (train i)" for i ob
  proof -
    from that(2) obtain j where "j < length rows" "ob = rows ! j" "foldOf ! j \<noteq> foldOf ! i" by (auto simp: train_def)
    with that(1) kin show ?thesis by blast
  qed
  moreover have "labelled_as Positive (train i) \<noteq> [] \<and> labelled_as Negative (train i) \<noteq> []" if "i < length rows" for i
    using that tr less model [of i] Trained_iff [of "train i" feats] by metis
  moreover have "n = min folds (min (group_count rows Positive) (group_count rows Negative))"
    using g n by (auto simp: groupedFolds_def Let_def split: if_splits)
  then have "2 \<le> group_count rows Positive" "2 \<le> group_count rows Negative" using n by simp_all
  ultimately show ?thesis by blast
qed

definition demo_row :: "string \<Rightarrow> string \<Rightarrow> risk_row" where
  "demo_row h v = \<lparr>rr_host_id = h, rr_scan_id = [], rr_source = ''ebpf'', rr_rule_id = ''r'', rr_score = 50,
     rr_evidence = [], rr_verdict = v\<rparr>"

definition demo_rows :: "risk_row list" where
  "demo_rows = [demo_row ''a'' ''true_positive'', demo_row ''a'' ''false_positive'',
     demo_row ''b'' ''true_positive'', demo_row ''b'' ''false_positive'']"

theorem held_out_with_kin_witness:
  "\<exists>train. mset (crossValidate (\<lambda>_ ks. ks) Features demo_rows 2 1) =
      mset (map (\<lambda>i. predict (trainWith (train i) Features) (demo_rows ! i)) [0..<4]) \<and>
    (\<forall>ob \<in> set (train 0). \<exists>j < 4. ob = demo_rows ! j \<and> row_group j (demo_rows ! j) \<noteq> ''host:a'')"
proof -
  have g: "groupedFolds (\<lambda>_ ks. ks) demo_rows 2 1 = ([0, 0, 1, 1], 2)" by code_simp
  have rows: "[0..<length demo_rows] = [0, 1, 2, 3]" "[0..<2] = [0, 1 :: nat]"
    by (simp_all add: demo_rows_def upt_rec)
  have "Trained (fold_model Features demo_rows [0, 0, 1, 1] k)" if "k \<in> {0, 1}" for k
    using that unfolding fold_model_def Trained_iff rows
    by (auto simp: labelled_as_def demo_rows_def demo_row_def LabelOf_def)
  then have cv: "crossValidate (\<lambda>_ ks. ks) Features demo_rows 2 1 \<noteq> []"
    unfolding crossValidate_def g by (auto simp: list_all_iff less_Suc_eq numeral_2_eq_2 rows)
  have len: "length demo_rows = 4" and host: "row_group 0 (demo_rows ! 0) = ''host:a''"
    by (simp_all add: demo_rows_def demo_row_def row_group_def sourceLab_def)
  have perm: "\<forall>ks :: string list. mset ((\<lambda>_ ks. ks) (1 :: int) ks) = mset ks" by simp
  from held_out_with_kin [OF perm cv] obtain train where
    m: "mset (crossValidate (\<lambda>_ ks. ks) Features demo_rows 2 1) =
      mset (map (\<lambda>i. predict (trainWith (train i) Features) (demo_rows ! i)) [0..<4])"
    and kin: "\<forall>i < 4. \<forall>ob \<in> set (train i). \<exists>j < 4. ob = demo_rows ! j \<and> row_group j (demo_rows ! j) \<noteq> row_group i (demo_rows ! i)"
    unfolding len by blast
  from kin have "\<forall>ob \<in> set (train 0). \<exists>j < 4. ob = demo_rows ! j \<and> row_group j (demo_rows ! j) \<noteq> ''host:a''"
    unfolding host [symmetric] by simp
  with m show ?thesis by blast
qed

section \<open>The decision\<close>

definition cvRepeats :: nat where "cvRepeats = 7"
definition minPerClass :: nat where "minPerClass = 30"
definition minLabeledTotal :: nat where "minLabeledTotal = 2 * minPerClass"

text \<open>A reason stands for the message the operator sees, with the numbers the message prints.\<close>

datatype reason =
  NoLabels | TooFew nat | OnlyLab | ClassTooSmall nat | FleetTooSmall | NoGroups | WeakRanking |
  Tied nat nat | Unstable real | Enough | FleetOnly reason

record risk_stats =
  ss_fleet_labeled :: nat
  ss_fleet_positives :: nat
  ss_fleet_negatives :: nat
  ss_fleet_auc :: real
  ss_fleet_reason :: "reason option"
  ss_labeled :: nat
  ss_positives :: nat
  ss_negatives :: nat
  ss_base_rate :: real
  ss_accuracy :: real
  ss_balanced :: real
  ss_precision :: real
  ss_recall :: real
  ss_auc :: real
  ss_brier :: real
  ss_repeats :: nat
  ss_auc_stddev :: real
  ss_within_rules :: nat
  ss_within_tied :: nat
  ss_trustworthy :: bool
  ss_reason :: reason

definition withinRuleSeparation :: "risk_row list \<Rightarrow> (risk_row \<Rightarrow> string list) \<Rightarrow> nat \<times> nat" where
  "withinRuleSeparation labeled feats =
     (let m = trainWith labeled feats in
      if \<not> Trained m then (0, 0)
      else let ids = remdups (map rr_rule_id labeled);
               of_rule = (\<lambda>r. filter (\<lambda>ob. rr_rule_id ob = r) labeled);
               both = filter (\<lambda>r. (\<exists>ob \<in> set (of_rule r). LabelOf (rr_verdict ob) = Positive) \<and>
                              (\<exists>ob \<in> set (of_rule r). LabelOf (rr_verdict ob) \<noteq> Positive)) ids
           in (length both, length (filter (\<lambda>r. card ((\<lambda>ob. rs_prob (Score m ob)) ` set (of_rule r)) = 1) both)))"

definition cv_passes ::
  "(int \<Rightarrow> string list \<Rightarrow> string list) \<Rightarrow> (risk_row \<Rightarrow> string list) \<Rightarrow> risk_row list \<Rightarrow> nat \<Rightarrow>
   (real \<times> real \<times> real \<times> real \<times> real \<times> real) list" where
  "cv_passes shuffle feats labeled folds =
     map predictionMetrics (takeWhile (\<lambda>ps. ps \<noteq> [])
       (map (\<lambda>r. crossValidate shuffle feats labeled folds (int r + 1)) [0..<cvRepeats]))"

definition mean_of :: "('a \<Rightarrow> real) \<Rightarrow> 'a list \<Rightarrow> real" where
  "mean_of f xs = (if xs = [] then 0 else (\<Sum>x \<leftarrow> xs. f x) / real (length xs))"

definition judge :: "nat \<Rightarrow> nat \<Rightarrow> nat \<Rightarrow> nat \<Rightarrow> nat \<Rightarrow> real \<Rightarrow> real \<Rightarrow> nat \<Rightarrow> nat \<Rightarrow> bool \<times> reason" where
  "judge labeled lab minClass minFleet repeats auc sd ambiguous tied =
     (if labeled < minLabeledTotal then (False, TooFew labeled)
      else if lab = labeled then (False, OnlyLab)
      else if minClass < minPerClass then (False, ClassTooSmall minClass)
      else if minFleet < minPerClass then (False, FleetTooSmall)
      else if repeats = 0 then (False, NoGroups)
      else if auc < 65 / 100 then (False, WeakRanking)
      else if ambiguous > 0 \<and> tied * 2 > ambiguous then (False, Tied tied ambiguous)
      else if sd > 10 / 100 then (False, Unstable sd)
      else (True, Enough))"

definition labelled :: "risk_row list \<Rightarrow> risk_row list" where
  "labelled rows = filter (\<lambda>ob. LabelOf (rr_verdict ob) \<noteq> Unlabeled) rows"

definition fleet_rows :: "risk_row list \<Rightarrow> risk_row list" where
  "fleet_rows rows = filter (\<lambda>ob. rr_source ob \<noteq> sourceLab) (labelled rows)"

text \<open>The figures of \<open>evaluate\<close> before the part that looks at the fleet alone.\<close>

definition assess ::
  "(int \<Rightarrow> string list \<Rightarrow> string list) \<Rightarrow> (risk_row \<Rightarrow> string list) \<Rightarrow> risk_row list \<Rightarrow> risk_stats" where
  "assess shuffle feats rows =
     (let lbl = labelled rows; fleet = fleet_rows rows;
          pos = length (labelled_as Positive rows); neg = length (labelled_as Negative rows);
          fpos = length (labelled_as Positive fleet); fneg = length (labelled_as Negative fleet);
          minClass = min pos neg;
          passes = (if minClass \<ge> 2 then cv_passes shuffle feats lbl (min 5 minClass) else []);
          sep = (if minClass \<ge> 2 then withinRuleSeparation lbl feats else (0, 0));
          auc = mean_of (\<lambda>(_, _, _, _, a, _). a) passes;
          sd = (if passes = [] then 0 else stdDev (map (\<lambda>(_, _, _, _, a, _). a) passes));
          verdict = judge (length lbl) (length lbl - length fleet) minClass (min fpos fneg) (length passes) auc sd (fst sep) (snd sep)
      in \<lparr>ss_fleet_labeled = length fleet, ss_fleet_positives = fpos, ss_fleet_negatives = fneg,
          ss_fleet_auc = 0, ss_fleet_reason = None, ss_labeled = length lbl, ss_positives = pos, ss_negatives = neg,
          ss_base_rate = (if lbl = [] then 0 else real (max pos neg) / real (length lbl)),
          ss_accuracy = mean_of (\<lambda>(a, _). a) passes, ss_balanced = mean_of (\<lambda>(_, b, _). b) passes,
          ss_precision = mean_of (\<lambda>(_, _, p, _). p) passes, ss_recall = mean_of (\<lambda>(_, _, _, r, _). r) passes,
          ss_auc = auc, ss_brier = mean_of (\<lambda>(_, _, _, _, _, b). b) passes, ss_repeats = length passes,
          ss_auc_stddev = sd, ss_within_rules = fst sep, ss_within_tied = snd sep,
          ss_trustworthy = lbl \<noteq> [] \<and> fst verdict, ss_reason = (if lbl = [] then NoLabels else snd verdict)\<rparr>)"

function evaluate ::
  "(int \<Rightarrow> string list \<Rightarrow> string list) \<Rightarrow> (risk_row \<Rightarrow> string list) \<Rightarrow> risk_row list \<Rightarrow> risk_stats" where
  "evaluate shuffle feats rows =
     (let st = assess shuffle feats rows; fleet = fleet_rows rows; lab = length (labelled rows) - length fleet in
      if labelled rows = [] then st
      else if lab > 0 \<and> fleet \<noteq> []
      then (let fs = evaluate shuffle feats fleet;
                st = st\<lparr>ss_fleet_auc := ss_auc fs, ss_fleet_reason := Some (ss_reason fs)\<rparr>
            in if ss_trustworthy st \<and> \<not> ss_trustworthy fs
               then st\<lparr>ss_trustworthy := False, ss_reason := FleetOnly (ss_reason fs)\<rparr> else st)
      else if lab = 0 then st\<lparr>ss_fleet_auc := ss_auc st, ss_fleet_reason := Some (ss_reason st)\<rparr>
      else st)"
  by pat_completeness auto

lemma fleet_rows_shorter: "length (fleet_rows rows) \<le> length (labelled rows)" "length (labelled rows) \<le> length rows"
  unfolding fleet_rows_def labelled_def by (rule length_filter_le)+

termination evaluate
proof (relation "measure (\<lambda>(shuffle, feats, rows). length rows)")
  fix shuffle :: "int \<Rightarrow> string list \<Rightarrow> string list" and feats :: "risk_row \<Rightarrow> string list" and rows :: "risk_row list"
  and st fleet lab
  assume "fleet = fleet_rows rows" "lab = length (labelled rows) - length fleet" "0 < lab \<and> fleet \<noteq> []"
  then show "((shuffle, feats, fleet), shuffle, feats, rows) \<in> measure (\<lambda>(shuffle, feats, rows). length rows)"
    using fleet_rows_shorter [of rows] by simp
qed simp

declare evaluate.simps [simp del]

definition Evaluate_risk :: "(int \<Rightarrow> string list \<Rightarrow> string list) \<Rightarrow> risk_row list \<Rightarrow> risk_stats" where
  "Evaluate_risk shuffle rows = evaluate shuffle Features rows"

definition EvaluateWithout :: "(int \<Rightarrow> string list \<Rightarrow> string list) \<Rightarrow> risk_row list \<Rightarrow> string list \<Rightarrow> risk_stats" where
  "EvaluateWithout shuffle rows prefixes =
     evaluate shuffle (\<lambda>ob. filter (\<lambda>f. \<not> (\<exists>p \<in> set prefixes. HasPrefix f p)) (Features ob)) rows"


section \<open>When the model is trusted\<close>

text \<open>The ranking separates: some pass succeeded, and its figures meet the three limits.\<close>

definition separates ::
  "(int \<Rightarrow> string list \<Rightarrow> string list) \<Rightarrow> (risk_row \<Rightarrow> string list) \<Rightarrow> risk_row list \<Rightarrow> bool" where
  "separates shuffle feats rows \<longleftrightarrow> (let st = assess shuffle feats rows in
     ss_repeats st > 0 \<and> ss_auc st \<ge> 65 / 100 \<and> ss_within_tied st * 2 \<le> ss_within_rules st \<and> ss_auc_stddev st \<le> 10 / 100)"

lemma labelled_idem [simp]: "labelled (labelled rows) = labelled rows" "labelled (fleet_rows rows) = fleet_rows rows"
  "fleet_rows (labelled rows) = fleet_rows rows" "fleet_rows (fleet_rows rows) = fleet_rows rows"
  by (auto simp: labelled_def fleet_rows_def intro!: filter_cong)

lemma labelled_as_labelled [simp]: "l \<noteq> Unlabeled \<Longrightarrow> labelled_as l (labelled rows) = labelled_as l rows"
  by (auto simp: labelled_as_def labelled_def intro: filter_cong)

lemma assess_labelled: "assess shuffle feats (labelled rows) = assess shuffle feats rows"
  by (simp add: assess_def)

lemma length_labelled: "length (labelled rows) = length (labelled_as Positive rows) + length (labelled_as Negative rows)"
proof (induction rows)
  case (Cons ob rows)
  then show ?case by (cases "LabelOf (rr_verdict ob)") (simp_all add: labelled_def labelled_as_def)
qed (simp add: labelled_def labelled_as_def)

lemma fleet_classes:
  "length (labelled_as l (fleet_rows rows)) \<le> length (labelled_as l rows)"
  "length (fleet_rows rows) = length (labelled_as Positive (fleet_rows rows)) + length (labelled_as Negative (fleet_rows rows))"
proof -
  have "labelled_as l (fleet_rows rows) = filter (\<lambda>ob. rr_source ob \<noteq> sourceLab \<and> LabelOf (rr_verdict ob) \<noteq> Unlabeled) (labelled_as l rows)"
    by (simp add: labelled_as_def fleet_rows_def labelled_def conj_ac)
  then show "length (labelled_as l (fleet_rows rows)) \<le> length (labelled_as l rows)" by (simp add: length_filter_le)
  show "length (fleet_rows rows) = length (labelled_as Positive (fleet_rows rows)) + length (labelled_as Negative (fleet_rows rows))"
    using length_labelled [of "fleet_rows rows"] by simp
qed

lemma within_tied: "snd (withinRuleSeparation rows feats) \<le> fst (withinRuleSeparation rows feats)"
  unfolding withinRuleSeparation_def Let_def by (cases "Trained (trainWith rows feats)") (simp_all only: if_True if_False
    not_False_eq_True not_True_eq_False fst_conv snd_conv length_filter_le order_refl)

lemma tied_le_rules: "ss_within_tied (assess shuffle feats rows) \<le> ss_within_rules (assess shuffle feats rows)"
  by (simp add: assess_def Let_def within_tied)

lemma judge_true:
  "fst (judge n lab minClass minFleet repeats auc sd ambiguous tied) \<longleftrightarrow>
     60 \<le> n \<and> lab \<noteq> n \<and> 30 \<le> minClass \<and> 30 \<le> minFleet \<and> 0 < repeats \<and> 65 / 100 \<le> auc \<and>
     \<not> (0 < ambiguous \<and> ambiguous < tied * 2) \<and> sd \<le> 10 / 100"
  by (simp add: judge_def minPerClass_def minLabeledTotal_def not_less not_le)

lemma assess_trust:
  "ss_trustworthy (assess shuffle feats rows) \<longleftrightarrow>
     30 \<le> length (labelled_as Positive (fleet_rows rows)) \<and> 30 \<le> length (labelled_as Negative (fleet_rows rows)) \<and>
     separates shuffle feats rows"
proof -
  let ?st = "assess shuffle feats rows"
  let ?fp = "length (labelled_as Positive (fleet_rows rows))" and ?fn = "length (labelled_as Negative (fleet_rows rows))"
  have "ss_trustworthy ?st \<longleftrightarrow> labelled rows \<noteq> [] \<and> fst (judge (length (labelled rows))
      (length (labelled rows) - length (fleet_rows rows)) (min (length (labelled_as Positive rows)) (length (labelled_as Negative rows)))
      (min ?fp ?fn) (ss_repeats ?st) (ss_auc ?st) (ss_auc_stddev ?st) (ss_within_rules ?st) (ss_within_tied ?st))"
    by (simp add: assess_def Let_def)
  also have "\<dots> \<longleftrightarrow> 30 \<le> ?fp \<and> 30 \<le> ?fn \<and> separates shuffle feats rows"
  proof -
    have counts: "?fp \<le> length (labelled_as Positive rows)" "?fn \<le> length (labelled_as Negative rows)"
      "length (fleet_rows rows) = ?fp + ?fn" "length (fleet_rows rows) \<le> length (labelled rows)"
      "length (labelled rows) = length (labelled_as Positive rows) + length (labelled_as Negative rows)"
      using fleet_classes fleet_rows_shorter(1) length_labelled by blast+
    have sep: "separates shuffle feats rows \<longleftrightarrow> 0 < ss_repeats ?st \<and> 65 / 100 \<le> ss_auc ?st \<and>
        \<not> (0 < ss_within_rules ?st \<and> ss_within_rules ?st < ss_within_tied ?st * 2) \<and> ss_auc_stddev ?st \<le> 10 / 100"
      using tied_le_rules [of shuffle feats rows] unfolding separates_def Let_def by linarith
    have "labelled rows \<noteq> [] \<and> 60 \<le> length (labelled rows) \<and>
        length (labelled rows) - length (fleet_rows rows) \<noteq> length (labelled rows) \<and>
        30 \<le> min (length (labelled_as Positive rows)) (length (labelled_as Negative rows)) \<and> 30 \<le> min ?fp ?fn \<longleftrightarrow>
        30 \<le> ?fp \<and> 30 \<le> ?fn"
      using counts unfolding length_greater_0_conv [symmetric] by linarith
    then show ?thesis unfolding judge_true sep by blast
  qed
  finally show ?thesis .
qed

text \<open>
  What it takes for the ranking to be called trustworthy. Exactly: thirty findings of each class that
  were assessed on monitored hosts, and a ranking that separates in cross-validation both over all
  labelled rows and over the fleet's rows alone. Rows of the attack range can neither replace the former nor
  carry the latter, however many there are.
\<close>

theorem trust_needs_the_fleet:
  "ss_trustworthy (evaluate shuffle feats rows) \<longleftrightarrow>
     30 \<le> length (labelled_as Positive (fleet_rows rows)) \<and> 30 \<le> length (labelled_as Negative (fleet_rows rows)) \<and>
     separates shuffle feats rows \<and> separates shuffle feats (fleet_rows rows)"
proof -
  have fleet: "ss_trustworthy (assess shuffle feats (fleet_rows rows)) \<longleftrightarrow>
      30 \<le> length (labelled_as Positive (fleet_rows rows)) \<and> 30 \<le> length (labelled_as Negative (fleet_rows rows)) \<and>
      separates shuffle feats (fleet_rows rows)"
    using assess_trust [of shuffle feats "fleet_rows rows"] by simp
  have "ss_trustworthy (evaluate shuffle feats rows) \<longleftrightarrow>
      ss_trustworthy (assess shuffle feats rows) \<and> ss_trustworthy (assess shuffle feats (fleet_rows rows))"
  proof (cases "length (labelled rows) - length (fleet_rows rows) = 0")
    case True
    then have "length (filter (\<lambda>ob. rr_source ob \<noteq> sourceLab) (labelled rows)) = length (labelled rows)"
      by (metis fleet_rows_def diff_is_0_eq le_antisym length_filter_le)
    then have "fleet_rows rows = labelled rows"
      by (metis fleet_rows_def length_filter_less less_irrefl filter_True)
    with True show ?thesis
      by (simp add: evaluate.simps [of shuffle feats rows] Let_def assess_labelled)
  next
    case lab: False
    show ?thesis
    proof (cases "fleet_rows rows = []")
      case True
      then have "\<not> ss_trustworthy (assess shuffle feats rows)" unfolding assess_trust by (simp add: labelled_as_def)
      with lab True show ?thesis by (simp add: evaluate.simps [of shuffle feats rows] Let_def)
    next
      case False
      have "ss_trustworthy (evaluate shuffle feats (fleet_rows rows)) = ss_trustworthy (assess shuffle feats (fleet_rows rows))"
        by (simp add: evaluate.simps [of shuffle feats "fleet_rows rows"] Let_def)
      moreover have "labelled rows \<noteq> []" using lab by auto
      ultimately show ?thesis using lab False
        by (simp add: evaluate.simps [of shuffle feats rows] Let_def) blast
    qed
  qed
  then show ?thesis unfolding fleet unfolding assess_trust by blast
qed

end
