(* ===== verification/RiskDataset.thy ===== *)
theory RiskDataset
  imports RiskModel
begin

text \<open>
  Labelled findings from files, and the balancing of a labelled set (\<open>internal/risk/dataset.go\<close> and
  \<open>internal/risk/augment.go\<close>).

  The file is an argument (what opening it gives), and so are the JSON decoder of a line and the random
  numbers, a function from a generator and a bound to a number below it and the next generator. An error
  is a value that stands for the message, with the path and the line that message starts with.
\<close>

section \<open>Records\<close>

record provenance =
  pv_dataset :: string
  pv_version :: string
  pv_license :: string
  pv_sha256 :: string
  pv_record_id :: string
  pv_group :: string
  pv_label_basis :: string
  pv_reviewed_by :: string
  pv_mapping :: string

record dataset_record =
  dr_provenance :: "provenance option"
  dr_technique :: string
  dr_scene :: string
  dr_rule_id :: string
  dr_category :: string
  dr_severity :: string
  dr_mitre :: "string list"
  dr_source :: string
  dr_label :: string
  dr_evidence :: evidence_map

text \<open>The finding a record becomes: what the model reads, and the four further fields that are set.\<close>

record dataset_row = risk_row +
  rr_category :: string
  rr_severity :: string
  rr_mitre :: "string list"
  rr_status :: string

datatype record_error =
  DecodeRecord string | NeedsProvenance | NoRuleID | NoCategory | NoSeverity | BadLabel string |
  IncompleteProvenance | InvalidSHA256 | NoLabelBasis | DuplicateRecord | ReadRecord string

datatype dataset_error = OpenError string | AtLine string nat record_error

definition is_hex_digit :: "char \<Rightarrow> bool" where
  "is_hex_digit c \<longleftrightarrow> c \<in> set ''0123456789abcdefABCDEF''"

definition label_status :: "string \<Rightarrow> string option" where
  "label_status l = (if l = ''true_positive'' then Some ObsAcknowledged
     else if l = ''false_positive'' then Some ObsFalsePositive else None)"

definition provenance_error :: "provenance \<Rightarrow> record_error option" where
  "provenance_error p =
     (if pv_dataset p = [] \<or> pv_version p = [] \<or> pv_license p = [] \<or> pv_record_id p = [] \<or> pv_group p = [] \<or>
         pv_reviewed_by p = [] \<or> pv_mapping p = [] then Some IncompleteProvenance
      else if length (pv_sha256 p) \<noteq> 64 then Some InvalidSHA256
      else if \<not> list_all is_hex_digit (pv_sha256 p) then Some InvalidSHA256
      else if pv_label_basis p \<noteq> ''event_ground_truth'' \<and> pv_label_basis p \<noteq> ''reviewed_probe_capture'' then Some NoLabelBasis
      else None)"

definition external_key :: "provenance \<Rightarrow> string" where
  "external_key p = pv_dataset p @ [CHR 0x00] @ pv_version p @ [CHR 0x00] @ pv_record_id p"

definition record_group :: "dataset_record \<Rightarrow> string" where
  "record_group r =
     (case dr_provenance r of
        Some p \<Rightarrow> ''external:'' @ pv_dataset p @ '':'' @ pv_group p
      | None \<Rightarrow> if dr_scene r \<noteq> [] then ''scene:'' @ dr_scene r else dr_technique r)"

definition record_row :: "dataset_record \<Rightarrow> string \<Rightarrow> dataset_row" where
  "record_row r status =
     \<lparr>rr_host_id = [], rr_scan_id = record_group r, rr_source = sourceLab, rr_rule_id = dr_rule_id r, rr_score = 0,
      rr_evidence = dr_evidence r, rr_verdict = dr_label r, rr_category = dr_category r, rr_severity = dr_severity r,
      rr_mitre = dr_mitre r, rr_status = status\<rparr>"

definition check_external :: "provenance option \<Rightarrow> string set \<Rightarrow> record_error + string set" where
  "check_external pv seen =
     (case pv of
        None \<Rightarrow> Inr seen
      | Some p \<Rightarrow> (case provenance_error p of
          Some e \<Rightarrow> Inl e
        | None \<Rightarrow> if external_key p \<in> seen then Inl DuplicateRecord else Inr (insert (external_key p) seen)))"

definition read_record :: "bool \<Rightarrow> string set \<Rightarrow> dataset_record \<Rightarrow> record_error + (dataset_row \<times> string set)" where
  "read_record requireProvenance seen r =
     (if requireProvenance \<and> (dr_provenance r = None \<or> dr_evidence r = []) then Inl NeedsProvenance
      else if dr_rule_id r = [] then Inl NoRuleID
      else if dr_category r = [] then Inl NoCategory
      else if dr_severity r = [] then Inl NoSeverity
      else (case label_status (dr_label r) of
          None \<Rightarrow> Inl (BadLabel (dr_label r))
        | Some status \<Rightarrow> (case check_external (dr_provenance r) seen of
            Inl e \<Rightarrow> Inl e
          | Inr seen \<Rightarrow> Inr (record_row r status, seen))))"

section \<open>Files\<close>

text \<open>
  What opening a file gives: that it does not exist, another error, or the bytes read and the error, if
  any, that ended the reading. The scanner's tokens are the lines without their end; a line that does not
  fit the buffer of one mebibyte ends the scan with an error.
\<close>

datatype dataset_file = NotExist | Unreadable string | Contents string "string option"

definition max_line :: nat where "max_line = 1024 * 1024"

definition scan_lines :: "string \<Rightarrow> string list" where
  "scan_lines s = (let ls = Split (CHR 0x0A) s in if last ls = [] then butlast ls else ls)"

fun load_lines ::
  "(string \<Rightarrow> string + dataset_record) \<Rightarrow> string \<Rightarrow> bool \<Rightarrow> string option \<Rightarrow> nat \<Rightarrow> string set \<Rightarrow> string list \<Rightarrow>
   dataset_error + dataset_row list" where
  "load_lines decode path req err n seen [] =
     (case err of None \<Rightarrow> Inr [] | Some e \<Rightarrow> Inl (AtLine path (n + 1) (ReadRecord e)))"
| "load_lines decode path req err n seen (l # ls) =
     (if length l \<ge> max_line then Inl (AtLine path (n + 1) (ReadRecord ''bufio.Scanner: token too long''))
      else let line = TrimSpace (dropCR l) in
        if line = [] then load_lines decode path req err (n + 1) seen ls
        else (case decode line of
            Inl e \<Rightarrow> Inl (AtLine path (n + 1) (DecodeRecord e))
          | Inr r \<Rightarrow> (case read_record req seen r of
              Inl e \<Rightarrow> Inl (AtLine path (n + 1) e)
            | Inr (row, seen) \<Rightarrow> (case load_lines decode path req err (n + 1) seen ls of
                Inl e \<Rightarrow> Inl e
              | Inr rows \<Rightarrow> Inr (row # rows)))))"

definition loadDataset ::
  "(string \<Rightarrow> dataset_file) \<Rightarrow> (string \<Rightarrow> string + dataset_record) \<Rightarrow> string \<Rightarrow> bool \<Rightarrow> dataset_error + dataset_row list" where
  "loadDataset open_file decode path req =
     (if path = [] then Inr []
      else (case open_file path of
          NotExist \<Rightarrow> Inr []
        | Unreadable e \<Rightarrow> Inl (OpenError e)
        | Contents data err \<Rightarrow> load_lines decode path req err 0 {} (scan_lines data)))"

definition LoadDataset ::
  "(string \<Rightarrow> dataset_file) \<Rightarrow> (string \<Rightarrow> string + dataset_record) \<Rightarrow> string \<Rightarrow> dataset_error + dataset_row list" where
  "LoadDataset open_file decode path = loadDataset open_file decode path False"

definition LoadReviewedDataset ::
  "(string \<Rightarrow> dataset_file) \<Rightarrow> (string \<Rightarrow> string + dataset_record) \<Rightarrow> string \<Rightarrow> dataset_error + dataset_row list" where
  "LoadReviewedDataset open_file decode path = loadDataset open_file decode path True"

section \<open>Balancing\<close>

type_synonym 'g rng = "'g \<Rightarrow> nat \<Rightarrow> nat \<times> 'g"

definition path_drop_keys :: "string list" where
  "path_drop_keys = [''path'', ''binary'', ''exec_start'', ''entry'', ''dir'', ''interp'', ''command'']"

definition delete_keys :: "string list \<Rightarrow> evidence_map \<Rightarrow> evidence_map" where
  "delete_keys ks ev = filter (\<lambda>(k, _). k \<notin> set ks) ev"

definition jitter :: "'g rng \<Rightarrow> risk_row \<Rightarrow> 'g \<Rightarrow> risk_row \<times> 'g" where
  "jitter Intn ob g =
     (case Intn g 2 of (coin, g) \<Rightarrow>
        if coin \<noteq> 0 then (ob, g)
        else (case Intn g 3 of (which, g) \<Rightarrow>
          (ob\<lparr>rr_evidence := delete_keys (if which = 0 then [''uid''] else if which = 1 then [''parent'']
             else if which = 2 then path_drop_keys else []) (rr_evidence ob)\<rparr>, g)))"

fun oversample :: "'g rng \<Rightarrow> risk_row list \<Rightarrow> nat \<Rightarrow> 'g \<Rightarrow> risk_row list" where
  "oversample Intn minority 0 g = []"
| "oversample Intn minority (Suc n) g =
     (case Intn g (length minority) of (i, g) \<Rightarrow>
      (case jitter Intn (minority ! i) g of (ob, g) \<Rightarrow> ob # oversample Intn minority n g))"

definition Augment :: "'g rng \<Rightarrow> risk_row list \<Rightarrow> 'g \<Rightarrow> risk_row list" where
  "Augment Intn labeled g =
     (let pos = labelled_as Positive labeled; neg = labelled_as Negative labeled in
      if pos = [] \<or> neg = [] then labeled
      else if length pos < length neg then labeled @ oversample Intn pos (length neg - length pos) g
      else labeled @ oversample Intn neg (length pos - length neg) g)"

section \<open>What loading promises\<close>

definition acceptable :: "bool \<Rightarrow> dataset_record \<Rightarrow> bool" where
  "acceptable req r \<longleftrightarrow> (req \<longrightarrow> dr_provenance r \<noteq> None \<and> dr_evidence r \<noteq> []) \<and>
     dr_rule_id r \<noteq> [] \<and> dr_category r \<noteq> [] \<and> dr_severity r \<noteq> [] \<and>
     dr_label r \<in> {''true_positive'', ''false_positive''} \<and>
     (case dr_provenance r of None \<Rightarrow> True | Some p \<Rightarrow> provenance_error p = None)"

definition record_keys :: "dataset_record list \<Rightarrow> string list" where
  "record_keys rs = List.map_filter (\<lambda>r. map_option external_key (dr_provenance r)) rs"

definition row_of :: "dataset_record \<Rightarrow> dataset_row" where
  "row_of r = record_row r (if dr_label r = ''true_positive'' then ObsAcknowledged else ObsFalsePositive)"

definition record_lines :: "string \<Rightarrow> string list" where
  "record_lines data = filter (\<lambda>l. l \<noteq> []) (map (\<lambda>l. TrimSpace (dropCR l)) (scan_lines data))"

lemma record_keys_simps [simp]:
  "record_keys [] = []"
  "record_keys (r # rs) = (case dr_provenance r of None \<Rightarrow> [] | Some p \<Rightarrow> [external_key p]) @ record_keys rs"
  by (simp_all add: record_keys_def List.map_filter_simps split: option.splits)

lemma label_status_iff:
  "label_status l = Some st \<longleftrightarrow> l \<in> {''true_positive'', ''false_positive''} \<and>
     st = (if l = ''true_positive'' then ObsAcknowledged else ObsFalsePositive)"
  by (auto simp: label_status_def)

lemma check_external_iff:
  "check_external pv seen = Inr seen' \<longleftrightarrow>
     (case pv of None \<Rightarrow> seen' = seen
      | Some p \<Rightarrow> provenance_error p = None \<and> external_key p \<notin> seen \<and> seen' = insert (external_key p) seen)"
  by (auto simp: check_external_def split: option.splits)

lemma read_record_iff:
  "read_record req seen r = Inr (row, seen') \<longleftrightarrow>
     acceptable req r \<and> row = row_of r \<and> set (record_keys [r]) \<inter> seen = {} \<and> seen' = seen \<union> set (record_keys [r])"
proof -
  have "read_record req seen r = Inr (row, seen') \<longleftrightarrow>
     \<not> (req \<and> (dr_provenance r = None \<or> dr_evidence r = [])) \<and> dr_rule_id r \<noteq> [] \<and> dr_category r \<noteq> [] \<and> dr_severity r \<noteq> [] \<and>
     (\<exists>st. label_status (dr_label r) = Some st \<and> row = record_row r st) \<and> check_external (dr_provenance r) seen = Inr seen'"
    by (auto simp: read_record_def split: option.splits sum.splits)
  then show ?thesis unfolding label_status_iff check_external_iff
    by (cases "dr_provenance r") (auto simp: acceptable_def row_of_def)
qed

lemma load_lines_iff:
  "load_lines decode path req err n seen ls = Inr rows \<longleftrightarrow>
     err = None \<and> list_all (\<lambda>l. length l < max_line) ls \<and>
     (\<exists>rs. map decode (filter (\<lambda>l. l \<noteq> []) (map (\<lambda>l. TrimSpace (dropCR l)) ls)) = map Inr rs \<and>
       list_all (acceptable req) rs \<and> distinct (record_keys rs) \<and> set (record_keys rs) \<inter> seen = {} \<and> rows = map row_of rs)"
proof (induction ls arbitrary: n seen rows)
  case Nil
  show ?case by (cases err) auto
next
  case (Cons l ls)
  let ?line = "TrimSpace (dropCR l)"
  show ?case
  proof (cases "max_line \<le> length l \<or> ?line = []")
    case True
    then show ?thesis using Cons.IH [of "n + 1" seen rows] by (auto simp: Let_def)
  next
    case False
    show ?thesis
    proof (cases "decode ?line")
      case (Inl e)
      then show ?thesis using False by (auto simp: Let_def Cons_eq_map_conv)
    next
      case (Inr r)
      have "load_lines decode path req err n seen (l # ls) = Inr rows \<longleftrightarrow>
        (\<exists>row seen' rows'. read_record req seen r = Inr (row, seen') \<and>
           load_lines decode path req err (n + 1) seen' ls = Inr rows' \<and> rows = row # rows')"
        using False Inr by (auto simp: Let_def split: sum.splits)
      also have "\<dots> \<longleftrightarrow> acceptable req r \<and> set (record_keys [r]) \<inter> seen = {} \<and>
          (\<exists>rows'. load_lines decode path req err (n + 1) (seen \<union> set (record_keys [r])) ls = Inr rows' \<and> rows = row_of r # rows')"
        unfolding read_record_iff by blast
      also have "\<dots> \<longleftrightarrow> err = None \<and> list_all (\<lambda>l. length l < max_line) (l # ls) \<and>
          (\<exists>rs. map decode (filter (\<lambda>l. l \<noteq> []) (map (\<lambda>l. TrimSpace (dropCR l)) ls)) = map Inr rs \<and>
             list_all (acceptable req) (r # rs) \<and> distinct (record_keys (r # rs)) \<and> set (record_keys (r # rs)) \<inter> seen = {} \<and>
             rows = map row_of (r # rs))"
        unfolding Cons.IH using False by (cases "dr_provenance r") auto
      also have "\<dots> \<longleftrightarrow> err = None \<and> list_all (\<lambda>l. length l < max_line) (l # ls) \<and>
          (\<exists>rs. map decode (filter (\<lambda>l. l \<noteq> []) (map (\<lambda>l. TrimSpace (dropCR l)) (l # ls))) = map Inr rs \<and>
             list_all (acceptable req) rs \<and> distinct (record_keys rs) \<and> set (record_keys rs) \<inter> seen = {} \<and> rows = map row_of rs)"
        using False Inr by (auto simp: Cons_eq_map_conv)
      finally show ?thesis .
    qed
  qed
qed

lemma acceptable_rows:
  "list_all (acceptable req) rs \<Longrightarrow>
   list_all (\<lambda>row. rr_source row = sourceLab \<and> LabelOf (rr_verdict row) \<noteq> Unlabeled) (map row_of rs)"
  by (induction rs) (auto simp: row_of_def record_row_def acceptable_def LabelOf_def)

text \<open>
  A dataset is taken as a whole or not at all. Loading a file that exists succeeds exactly if it can
  be read, no line is longer than the scanner's buffer, every line that is not blank decodes to an
  acceptable record, and no external record occurs twice; the result is then one finding per record, in
  the order of the file, all with the source of the attack range and a label. So a file cannot
  bring findings that count as assessed on the fleet.
\<close>

theorem dataset_all_or_nothing:
  "loadDataset open_file decode path req = Inr rows \<longleftrightarrow>
     (if path = [] \<or> open_file path = NotExist then rows = []
      else \<exists>data rs. open_file path = Contents data None \<and> list_all (\<lambda>l. length l < max_line) (scan_lines data) \<and>
        map decode (record_lines data) = map Inr rs \<and> list_all (acceptable req) rs \<and> distinct (record_keys rs) \<and>
        rows = map row_of rs \<and> list_all (\<lambda>row. rr_source row = sourceLab \<and> LabelOf (rr_verdict row) \<noteq> Unlabeled) rows)"
proof (cases "path = [] \<or> open_file path = NotExist")
  case True
  then show ?thesis by (auto simp: loadDataset_def)
next
  case False
  then have "loadDataset open_file decode path req = Inr rows \<longleftrightarrow>
      (\<exists>data rs. open_file path = Contents data None \<and> list_all (\<lambda>l. length l < max_line) (scan_lines data) \<and>
        map decode (record_lines data) = map Inr rs \<and> list_all (acceptable req) rs \<and> distinct (record_keys rs) \<and>
        rows = map row_of rs)"
    by (cases "open_file path") (auto simp: loadDataset_def load_lines_iff record_lines_def)
  also have "\<dots> \<longleftrightarrow> (\<exists>data rs. open_file path = Contents data None \<and> list_all (\<lambda>l. length l < max_line) (scan_lines data) \<and>
        map decode (record_lines data) = map Inr rs \<and> list_all (acceptable req) rs \<and> distinct (record_keys rs) \<and>
        rows = map row_of rs \<and> list_all (\<lambda>row. rr_source row = sourceLab \<and> LabelOf (rr_verdict row) \<noteq> Unlabeled) rows)"
    using acceptable_rows by blast
  finally show ?thesis using False by (simp only: if_False)
qed

section \<open>What balancing promises\<close>

text \<open>A copy of a finding: the same in everything but evidence, of which it may have less.\<close>

definition copy_of :: "risk_row \<Rightarrow> risk_row \<Rightarrow> bool" where
  "copy_of ob c \<longleftrightarrow> c = ob\<lparr>rr_evidence := rr_evidence c\<rparr> \<and> set (rr_evidence c) \<subseteq> set (rr_evidence ob)"

lemma jitter_copy: "copy_of ob (fst (jitter Intn ob g))"
  by (auto simp: jitter_def copy_of_def delete_keys_def split: prod.splits)

lemma oversample_copies:
  assumes "\<forall>g n. 0 < n \<longrightarrow> fst (Intn g n) < n" and "minority \<noteq> []"
  shows "length (oversample Intn minority k g) = k \<and>
    (\<forall>c \<in> set (oversample Intn minority k g). \<exists>ob \<in> set minority. copy_of ob c)"
proof (induction k arbitrary: g)
  case (Suc k)
  obtain i g1 where i: "Intn g (length minority) = (i, g1)" by fastforce
  obtain c g2 where c: "jitter Intn (minority ! i) g1 = (c, g2)" by fastforce
  have "i < length minority" using assms i by (metis fst_conv length_greater_0_conv)
  then have "minority ! i \<in> set minority" by simp
  moreover have "copy_of (minority ! i) c" using jitter_copy [of "minority ! i" Intn g1] c by simp
  ultimately show ?case using Suc.IH [of g2] i c by auto
qed simp

lemma labelled_as_append [simp]: "labelled_as l (xs @ ys) = labelled_as l xs @ labelled_as l ys"
  by (simp add: labelled_as_def)

lemma copy_label: "copy_of ob c \<Longrightarrow> rr_verdict c = rr_verdict ob"
  unfolding copy_of_def by (metis risk_row.simps(7) risk_row.surjective risk_row.update_convs(6))

lemma labelled_copies:
  assumes "\<forall>c \<in> set cs. \<exists>ob \<in> set (labelled_as l rows). copy_of ob c"
  shows "labelled_as k cs = (if k = l then cs else [])"
proof -
  have "LabelOf (rr_verdict c) = l" if "c \<in> set cs" for c
    using that assms copy_label by (fastforce simp: labelled_as_def)
  then show ?thesis by (auto simp: labelled_as_def filter_empty_conv)
qed

text \<open>
  Balancing keeps the data and invents no labels. The findings come first, unchanged; what follows are copies
  of findings of the smaller class that differ at most in missing evidence, as many as make the two classes
  equally frequent, and none if a class is empty. The random numbers only choose.
\<close>

theorem augment_balances:
  assumes "\<forall>g n. 0 < n \<longrightarrow> fst (Intn g n) < n"
  shows "\<exists>copies. Augment Intn labeled g = labeled @ copies \<and>
    (\<forall>c \<in> set copies. \<exists>ob \<in> set labeled. copy_of ob c) \<and>
    (let pos = length (labelled_as Positive labeled); neg = length (labelled_as Negative labeled) in
     if pos = 0 \<or> neg = 0 then copies = []
     else length copies = max pos neg - min pos neg \<and>
       length (labelled_as Positive (labeled @ copies)) = max pos neg \<and>
       length (labelled_as Negative (labeled @ copies)) = max pos neg)"
proof -
  let ?pos = "labelled_as Positive labeled" and ?neg = "labelled_as Negative labeled"
  have part: "set (labelled_as l labeled) \<subseteq> set labeled" for l by (auto simp: labelled_as_def)
  consider "?pos = [] \<or> ?neg = []" | "?pos \<noteq> []" "?neg \<noteq> []" "length ?pos < length ?neg"
    | "?pos \<noteq> []" "?neg \<noteq> []" "\<not> length ?pos < length ?neg" by blast
  then show ?thesis
  proof cases
    case 1
    then show ?thesis by (intro exI [of _ "[]"]) (auto simp: Augment_def)
  next
    case 2
    define cs where "cs = oversample Intn ?pos (length ?neg - length ?pos) g"
    have cs: "length cs = length ?neg - length ?pos" "\<forall>c \<in> set cs. \<exists>ob \<in> set ?pos. copy_of ob c"
      using oversample_copies [OF assms 2(1)] unfolding cs_def by blast+
    have "\<forall>c \<in> set cs. \<exists>ob \<in> set labeled. copy_of ob c" using cs(2) part by blast
    moreover have "Augment Intn labeled g = labeled @ cs" using 2 by (simp add: Augment_def cs_def Let_def)
    ultimately show ?thesis using 2 cs(1) labelled_copies [OF cs(2)] by (intro exI [of _ cs]) simp
  next
    case 3
    define cs where "cs = oversample Intn ?neg (length ?pos - length ?neg) g"
    have cs: "length cs = length ?pos - length ?neg" "\<forall>c \<in> set cs. \<exists>ob \<in> set ?neg. copy_of ob c"
      using oversample_copies [OF assms 3(2)] unfolding cs_def by blast+
    have "\<forall>c \<in> set cs. \<exists>ob \<in> set labeled. copy_of ob c" using cs(2) part by blast
    moreover have "Augment Intn labeled g = labeled @ cs" using 3 by (simp add: Augment_def cs_def Let_def)
    ultimately show ?thesis using 3 cs(1) labelled_copies [OF cs(2)] by (intro exI [of _ cs]) simp
  qed
qed

definition demo_finding :: "string \<Rightarrow> string \<Rightarrow> risk_row" where
  "demo_finding h v = \<lparr>rr_host_id = h, rr_scan_id = [], rr_source = ''ebpf'', rr_rule_id = ''r'', rr_score = 50,
     rr_evidence = [(''uid'', EvInt 0)], rr_verdict = v\<rparr>"

theorem augment_balances_witness:
  "let rows = [demo_finding ''a'' ''true_positive'', demo_finding ''b'' ''true_positive'', demo_finding ''c'' ''false_positive'']
   in \<exists>copies. Augment (\<lambda>g _. (0, g)) rows (0 :: nat) = rows @ copies \<and> length copies = 1 \<and>
     length (labelled_as Negative (rows @ copies)) = 2"
proof -
  let ?rows = "[demo_finding ''a'' ''true_positive'', demo_finding ''b'' ''true_positive'', demo_finding ''c'' ''false_positive'']"
  have "length (labelled_as Positive ?rows) = 2" "length (labelled_as Negative ?rows) = 1"
    by (simp_all add: labelled_as_def demo_finding_def LabelOf_def)
  moreover have "\<forall>g n. 0 < n \<longrightarrow> fst ((\<lambda>(g :: nat) _. (0, g)) g n) < n" by simp
  from augment_balances [OF this, of ?rows 0] obtain copies where
    "Augment (\<lambda>g _. (0, g)) ?rows (0 :: nat) = ?rows @ copies"
    "let pos = length (labelled_as Positive ?rows); neg = length (labelled_as Negative ?rows) in
     if pos = 0 \<or> neg = 0 then copies = []
     else length copies = max pos neg - min pos neg \<and>
       length (labelled_as Positive (?rows @ copies)) = max pos neg \<and>
       length (labelled_as Negative (?rows @ copies)) = max pos neg" by blast
  ultimately show ?thesis unfolding Let_def by (intro exI [of _ copies]) (simp del: labelled_as_append append.simps)
qed

text \<open>
  Dropping the path class drops only seven of the twelve fields the class is read from: here the copy is
  not without a class, it has a class no field of the original was meant to give.
\<close>

theorem dropped_path_changes_class:
  "pathClass [(''exec_start'', EvString ''/usr/bin/x''), (''exec_pre'', EvString ''/tmp/y'')] = ''system'' \<and>
   pathClass (delete_keys path_drop_keys [(''exec_start'', EvString ''/usr/bin/x''), (''exec_pre'', EvString ''/tmp/y'')]) = ''tmp''"
  by code_simp

end
