(* ===== verification/ProbeLines.thy ===== *)
theory ProbeLines
  imports StateDigest SensorDeploy
begin

text \<open>
  What the probe looks for in a line of a configuration file or log (the predicates of
  \<open>internal/probe/collect_linux.go\<close> and of \<open>*_parse.go\<close> beside it).
\<close>

section \<open>Commands\<close>

definition looksLikeCradle :: "string \<Rightarrow> bool" where
  "looksLikeCradle line =
     (let t = TrimSpace line in
      if t = [] \<or> HasPrefix t ''#'' then False
      else if contains_any [''/dev/tcp/'', ''bash -i'', ''sh -i'', ''mkfifo'', ''base64 -d'', ''ncat '', ''nc -e''] t then True
      else (Contains t ''curl '' \<or> Contains t ''wget '') \<and>
        (Contains t ''|sh'' \<or> Contains t ''| sh'' \<or> Contains t ''|bash'' \<or> Contains t ''| bash''))"

definition referencesWritableDir :: "string \<Rightarrow> bool" where
  "referencesWritableDir s \<longleftrightarrow> contains_any [''/tmp/'', ''/dev/shm/'', ''/var/tmp/'', ''/home/''] s"

definition aliasHiding :: "string \<Rightarrow> bool" where
  "aliasHiding line =
     (let t = TrimSpace line in
      if \<not> HasPrefix t ''alias '' \<and> \<not> Contains t ''()'' then False
      else Contains t ''grep -v'' \<or> Contains t ''egrep -v'' \<or> Contains t ''/tmp/'' \<or> Contains t ''/dev/shm/'')"

definition promptCommandBackdoor :: "string \<Rightarrow> bool" where
  "promptCommandBackdoor line =
     (let t = TrimSpace line in
      if \<not> HasPrefix t ''PROMPT_COMMAND'' \<and> \<not> Contains t ''PROMPT_COMMAND='' then False
      else Contains t ''curl'' \<or> Contains t ''wget'' \<or> Contains t ''base64'' \<or> Contains t ''/dev/tcp/'' \<or> Contains t ''eval'')"

definition webshellHit :: "string \<Rightarrow> bool" where
  "webshellHit l =
     (let sink = contains_any [''eval('', ''assert('', ''system('', ''exec('', ''passthru('', ''shell_exec('', ''popen('',
            ''proc_open('', ''Runtime.getRuntime().exec''] l;
          tainted = contains_any [''$_POST'', ''$_GET'', ''$_REQUEST'', ''$_COOKIE'',
            ''$_SERVER['' @ [CHR 0x22] @ ''HTTP'', ''getParameter(''] l
      in if sink \<and> tainted then True
         else if Contains l ''base64_decode('' \<and> (Contains l ''eval('' \<or> Contains l ''$_'') then True
         else if Contains l ''preg_replace'' \<and> Contains l ''/e'' then True
         else False)"

definition pthLooksMalicious :: "string \<Rightarrow> bool" where
  "pthLooksMalicious line \<longleftrightarrow> contains_any
     [''os.system'', ''subprocess'', ''.popen'', ''popen('', ''exec('', ''eval('', ''socket.'', ''base64'', ''pty.'', ''/dev/tcp'',
      ''urllib'', ''compile('', ''marshal.loads'', ''requests.'', ''fromhex''] line"

definition quotes :: "char set" where "quotes = {CHR 0x22, CHR 0x27}"

definition cut_prefix :: "string \<Rightarrow> string \<Rightarrow> string option" where
  "cut_prefix s p = (if HasPrefix s p then Some (drop (length p) s) else None)"

definition historyTampering :: "string \<Rightarrow> bool" where
  "historyTampering line =
     (let t = TrimSpace line; low = ToLower t; s = TrimSpace (TrimPrefix low ''export '') in
      if t = [] \<or> HasPrefix t ''#'' then False
      else if Contains low ''set +o history'' then True
      else if HasPrefix low ''unset '' \<and> Contains low ''histfile'' then True
      else if \<exists>(k, v) \<in> set [(''histfile'', ''/dev/null''), (''histsize'', ''0''), (''histfilesize'', ''0'')].
        (case cut_prefix s (k @ ''='') of None \<Rightarrow> False | Some val \<Rightarrow> Trim quotes (TrimSpace val) = v) then True
      else (case cut_prefix s ''histfile='' of
          None \<Rightarrow> False
        | Some v \<Rightarrow> TrimSpace v \<in> {[], [CHR 0x22, CHR 0x22], [CHR 0x27, CHR 0x27]}))"

text \<open>The double-quoted runs of a line, for the commands of APT's hooks.\<close>

fun quoted_loop :: "bool \<Rightarrow> string \<Rightarrow> string \<Rightarrow> string list" where
  "quoted_loop inside w [] = []"
| "quoted_loop False w (c # cs) = (if c = CHR 0x22 then quoted_loop True [] cs else quoted_loop False w cs)"
| "quoted_loop True w (c # cs) =
     (if c = CHR 0x22 then (if TrimSpace w = [] then [] else [TrimSpace w]) @ quoted_loop False [] cs
      else quoted_loop True (w @ [c]) cs)"

definition quotedStrings :: "string \<Rightarrow> string list" where
  "quotedStrings s = quoted_loop False [] s"

definition version_chars :: "char set" where
  "version_chars = set ''0123456789.-''"

definition gtfobinsSuid :: "string list" where
  "gtfobinsSuid =
    [''bash'', ''sh'', ''dash'', ''zsh'', ''ksh'', ''csh'', ''tcsh'', ''fish'', ''rbash'', ''vim'', ''vi'', ''view'', ''rvim'', ''nvim'',
     ''nano'', ''pico'', ''emacs'', ''ed'', ''less'', ''more'', ''man'', ''awk'', ''gawk'', ''mawk'', ''nawk'', ''sed'', ''python'', ''perl'',
     ''ruby'', ''php'', ''lua'', ''node'', ''tclsh'', ''gdb'', ''tar'', ''zip'', ''unzip'', ''cpio'', ''rsync'', ''cp'', ''mv'', ''dd'', ''tee'',
     ''strace'', ''ltrace'', ''nc'', ''ncat'', ''netcat'', ''socat'', ''env'', ''nmap'', ''expect'', ''make'', ''busybox'', ''flock'', ''xargs'',
     ''find'', ''chroot'', ''capsh'', ''nohup'', ''stdbuf'', ''taskset'', ''scp'', ''ssh'', ''wget'', ''curl'', ''git'', ''ftp'',
     ''start-stop-daemon'']"

definition loginInterpreters :: "string list" where
  "loginInterpreters = [''python'', ''perl'', ''ruby'', ''php'', ''lua'', ''node'', ''awk'', ''gawk'', ''tclsh'', ''expect'']"

text \<open>A name of the list, or one followed by a version.\<close>

definition versioned_match :: "string list \<Rightarrow> string \<Rightarrow> bool" where
  "versioned_match names base0 =
     (let base = ToLower base0 in
      base \<in> set names \<or>
      (\<exists>name \<in> set names. case cut_prefix base name of
          None \<Rightarrow> False | Some rest \<Rightarrow> rest \<noteq> [] \<and> Trim version_chars rest = []))"

definition gtfobinsSuidMatch :: "string \<Rightarrow> bool" where
  "gtfobinsSuidMatch base = versioned_match gtfobinsSuid base"

definition loginInterpreterMatch :: "string \<Rightarrow> bool" where
  "loginInterpreterMatch base = versioned_match loginInterpreters base"

definition sudoExtraGtfo :: "string list" where
  "sudoExtraGtfo = [''iptables-save'', ''iptables-restore'', ''ip6tables-save'', ''ip6tables-restore'', ''nft'']"

fun sudo_token_loop :: "string list \<Rightarrow> string" where
  "sudo_token_loop [] = []"
| "sudo_token_loop (tok # toks) =
     (let t = Trim {CHR '',''} tok; b = path_base t in
      if \<not> HasPrefix t ''/'' then sudo_token_loop toks
      else if gtfobinsSuidMatch b \<or> b \<in> set sudoExtraGtfo then b
      else sudo_token_loop toks)"

definition sudoGtfoBin :: "string \<Rightarrow> string" where
  "sudoGtfoBin line = sudo_token_loop (Fields line)"

section \<open>Search paths\<close>

definition path_element_hijack :: "string \<Rightarrow> bool" where
  "path_element_hijack e0 =
     (let e = TrimSpace e0 in
      e = [] \<or> e = ''.'' \<or> (\<exists>w \<in> set [''/tmp'', ''/dev/shm'', ''/var/tmp'', ''/home'']. e = w \<or> HasPrefix e (w @ ''/'')))"

definition pathValueHijack :: "string \<Rightarrow> bool" where
  "pathValueHijack val \<longleftrightarrow> (\<exists>e \<in> set (Split (CHR '':'') val). path_element_hijack e)"

text \<open>What follows the first equals sign, or the whole line when there is none.\<close>

definition pathValue :: "string \<Rightarrow> string" where
  "pathValue line = Trim quotes (TrimSpace (case Cut (CHR ''='') line of None \<Rightarrow> line | Some (_, v) \<Rightarrow> v))"

definition parseLockdown :: "string \<Rightarrow> string" where
  "parseLockdown s =
     (case (Index_of s ''['', Index_of s '']'') of
        (Some i, Some j) \<Rightarrow> if j > i then take (j - (i + 1)) (drop (i + 1) s) else []
      | _ \<Rightarrow> [])"

section \<open>Kernel settings and repositories\<close>

definition hardeningDisableKeys :: "string list" where
  "hardeningDisableKeys = [''kernel.yama.ptrace_scope'', ''kernel.kptr_restrict'', ''kernel.unprivileged_bpf_disabled'',
     ''kernel.dmesg_restrict'']"

definition dotted :: "string \<Rightarrow> string" where
  "dotted s = map (\<lambda>c. if c = CHR ''/'' then CHR ''.'' else c) s"

definition sysctlHardeningDisabled :: "string \<Rightarrow> string" where
  "sysctlHardeningDisabled line =
     (let t = TrimSpace line in
      if t = [] \<or> HasPrefix t ''#'' \<or> HasPrefix t '';'' then []
      else (case Cut (CHR ''='') (TrimPrefix t ''-'') of
          None \<Rightarrow> []
        | Some (k, v) \<Rightarrow> (let key = dotted (TrimSpace k) in
            if key \<in> set hardeningDisableKeys \<and> TrimSpace v = ''0'' then key @ ''=0'' else [])))"

definition aptRepoInsecure :: "string \<Rightarrow> bool" where
  "aptRepoInsecure line =
     (let t = TrimSpace line; low = ToLower t in
      if t = [] \<or> HasPrefix t ''#'' then False
      else if Contains low ''trusted=yes'' \<or> Contains low ''allow-insecure=yes'' \<or>
        Contains low ''allow-downgrade-to-insecure=yes'' then True
      else (case Cut (CHR '':'') low of
          None \<Rightarrow> False | Some (k, v) \<Rightarrow> TrimSpace k = ''trusted'' \<and> TrimSpace v = ''yes''))"

definition yumGpgcheckOff :: "string \<Rightarrow> bool" where
  "yumGpgcheckOff line =
     (let t = TrimSpace line in
      if t = [] \<or> HasPrefix t ''#'' \<or> HasPrefix t '';'' then False
      else (case Cut (CHR ''='') t of
          None \<Rightarrow> False | Some (k, v) \<Rightarrow> ToLower (TrimSpace k) = ''gpgcheck'' \<and> TrimSpace v = ''0''))"

fun selinux_lines :: "string list \<Rightarrow> string" where
  "selinux_lines [] = []"
| "selinux_lines (line # ls) =
     (let t = TrimSpace line in
      if t = [] \<or> HasPrefix t ''#'' then selinux_lines ls
      else (case Cut (CHR ''='') t of
          None \<Rightarrow> selinux_lines ls
        | Some (key, val) \<Rightarrow>
            if TrimSpace key \<noteq> ''SELINUX'' then selinux_lines ls
            else if ToLower (TrimSpace val) = ''disabled'' then ''disabled''
            else if ToLower (TrimSpace val) = ''permissive'' then ''permissive''
            else selinux_lines ls))"

definition selinuxConfigMode :: "string \<Rightarrow> string" where
  "selinuxConfigMode content = selinux_lines (Split (CHR 10) content)"

fun boot_tokens :: "string list \<Rightarrow> string" where
  "boot_tokens [] = []"
| "boot_tokens (tok # toks) =
     (let t = Trim quotes tok in
      if t = ''selinux=0'' then ''selinux=0'' else if t = ''enforcing=0'' then ''enforcing=0'' else boot_tokens toks)"

definition selinuxBootDisable :: "string \<Rightarrow> string" where
  "selinuxBootDisable cmdline = boot_tokens (Fields cmdline)"

end
