(* ===== verification/ProbeProc.thy ===== *)
theory ProbeProc
  imports ProbeLines
begin

text \<open>
  What the probe reads from \<open>/proc\<close> and the kernel log (\<open>collect_linux.go\<close>, \<open>maps_parse.go\<close>,
  \<open>netaddr_parse.go\<close>, \<open>dmesg_parse.go\<close>, \<open>ssh_parse.go\<close>, \<open>process_evidence_linux.go\<close> under
  \<open>internal/probe\<close>). The content of a file, a directory listing and a link's target are arguments.
\<close>

section \<open>Kernel log\<close>

record kernel_log_entry =
  ke_priority :: int
  ke_seq :: int
  ke_timestamp_us :: int
  ke_message :: string

text \<open>A record is \<open>priority,seq,timestamp,flags;message\<close>; a number that does not parse counts as zero.\<close>

definition parseKmsg :: "string \<Rightarrow> kernel_log_entry option" where
  "parseKmsg rec =
     (case Cut (CHR '';'') rec of
        None \<Rightarrow> None
      | Some (head, rest) \<Rightarrow>
          (let msg = TrimSpace (takeWhile (\<lambda>c. c \<noteq> CHR 10) rest);
               fields = Split (CHR '','') head;
               e = (if length fields \<ge> 3
                    then \<lparr>ke_priority = atoi_value (fields ! 0), ke_seq = atoi_value (fields ! 1),
                          ke_timestamp_us = atoi_value (fields ! 2), ke_message = msg\<rparr>
                    else \<lparr>ke_priority = 0, ke_seq = 0, ke_timestamp_us = 0, ke_message = msg\<rparr>)
           in if msg \<noteq> [] then Some e else None))"

text \<open>What a read of the log device gives: a record, that one was overwritten, or the end.\<close>

datatype kmsg_read = Record string | Overwritten | Drained

fun read_kmsg :: "kmsg_read list \<Rightarrow> kernel_log_entry list" where
  "read_kmsg [] = []"
| "read_kmsg (Drained # rs) = []"
| "read_kmsg (Overwritten # rs) = read_kmsg rs"
| "read_kmsg (Record s # rs) = (if s = [] then [] else
     (case parseKmsg s of None \<Rightarrow> [] | Some e \<Rightarrow> [e]) @ read_kmsg rs)"

definition collectKernelLog :: "kmsg_read list \<Rightarrow> kernel_log_entry list" where
  "collectKernelLog reads =
     (let out = read_kmsg reads in if length out > 2000 then drop (length out - 2000) out else out)"

definition virtualIfacePrefixes :: "string list" where
  "virtualIfacePrefixes = [''tap'', ''fwpr'', ''fwln'', ''fwbr'', ''vmbr'', ''veth'', ''virbr'', ''docker'', ''br-'', ''cni'',
     ''cali'', ''cilium'', ''lxcbr'', ''lxdbr'', ''ovs-'', ''genev'', ''vxlan'', ''kube'', ''flannel'', ''weave'', ''antrea'', ''macvtap'']"

definition isVirtualIface :: "string \<Rightarrow> bool" where
  "isVirtualIface name \<longleftrightarrow> (\<exists>p \<in> set virtualIfacePrefixes. HasPrefix (ToLower name) p)"

definition promiscIface :: "string \<Rightarrow> string" where
  "promiscIface msg =
     (case Index_of msg '': entered promiscuous mode'' of
        None \<Rightarrow> []
      | Some i \<Rightarrow> (let fields = Fields (TrimSpace (take i msg)) in if fields = [] then [] else last fields))"

text \<open>A loop that appends what it has not seen yet.\<close>

definition add_new :: "'a list \<Rightarrow> 'a \<Rightarrow> 'a list" where
  "add_new out x = (if x \<in> set out then out else out @ [x])"

definition promiscInterfaces :: "kernel_log_entry list \<Rightarrow> string list" where
  "promiscInterfaces log = foldl (\<lambda>out e.
     if \<not> Contains (ke_message e) ''entered promiscuous mode'' then out
     else let iface = promiscIface (ke_message e) in
       if iface = [] \<or> isVirtualIface iface then out else add_new out iface) [] log"

definition legitOutOfTreeModules :: "string list" where
  "legitOutOfTreeModules = [''spl'', ''zfs'', ''znvpair'', ''zavl'', ''zcommon'', ''zlua'', ''zunicode'', ''zzstd'', ''icp'',
     ''wireguard'', ''v4l2loopback'', ''vmmon'', ''vmnet'', ''vboxdrv'', ''vboxnetflt'', ''vboxnetadp'', ''vboxpci'', ''acpi_call'',
     ''ddcci'', ''zenpower'', ''openrazer'', ''rtl8812au'', ''rtl88x2bu'', ''8812au'', ''lkrg'']"

definition isLegitOutOfTreeModule :: "string \<Rightarrow> bool" where
  "isLegitOutOfTreeModule md \<longleftrightarrow> (\<exists>p \<in> set [''nvidia'', ''vbox'', ''vmw_'', ''zfs'', ''spl'']. HasPrefix (ToLower md) p) \<or>
     ToLower md \<in> set legitOutOfTreeModules"

definition outOfTreeModuleName :: "string \<Rightarrow> string" where
  "outOfTreeModuleName msg =
     (case Cut (CHR '':'') msg of
        None \<Rightarrow> []
      | Some (head, _) \<Rightarrow> (case Fields head of [f] \<Rightarrow> f | _ \<Rightarrow> []))"

definition taint_message :: "string \<Rightarrow> bool" where
  "taint_message m \<longleftrightarrow> contains_any [''loading out-of-tree module'', ''module verification failed'', ''tainting kernel'',
     ''loading test module taints kernel''] m"

definition outOfTreeModules :: "kernel_log_entry list \<Rightarrow> string list" where
  "outOfTreeModules log = foldl (\<lambda>out e. let m = ke_message e; md = outOfTreeModuleName m in
     if \<not> taint_message m then out
     else if md \<noteq> [] \<and> isLegitOutOfTreeModule md then out
     else add_new out m) [] log"

section \<open>Memory maps and environment\<close>

definition maxMappedLibs :: nat where "maxMappedLibs = 8"
definition mapsScanLimit :: nat where "mapsScanLimit = 50000"
definition writableLibRoots :: "string list" where "writableLibRoots = [''/tmp/'', ''/var/tmp/'', ''/dev/shm/'']"
definition systemLibRoots :: "string list" where
  "systemLibRoots = [''/usr/'', ''/lib'', ''/bin/'', ''/sbin/'', ''/opt/'', ''/snap/'', ''/var/lib/'', ''/nix/'']"

definition hasAnyPrefix :: "string \<Rightarrow> string list \<Rightarrow> bool" where
  "hasAnyPrefix s ps \<longleftrightarrow> (\<exists>p \<in> set ps. HasPrefix s p)"

fun SplitN :: "nat \<Rightarrow> char \<Rightarrow> string \<Rightarrow> string list" where
  "SplitN 0 c s = []"
| "SplitN (Suc 0) c s = [s]"
| "SplitN (Suc (Suc n)) c s = (case Cut c s of None \<Rightarrow> [s] | Some (a, b) \<Rightarrow> a # SplitN (Suc n) c b)"

definition deleted_mark :: string where "deleted_mark = '' (deleted)''"

text \<open>The file an executable mapping is of, with whether it is deleted; none for what is not code from a file.\<close>

definition maps_file :: "string \<Rightarrow> (string \<times> bool) option" where
  "maps_file line =
     (let f = SplitN 6 (CHR '' '') line in
      if length f < 6 \<or> length (f ! 1) < 3 \<or> f ! 1 ! 2 \<noteq> CHR ''x'' \<or> f ! 4 = ''0'' then None
      else let path = dropWhile (\<lambda>c. c = CHR '' '') (f ! 5) in
        if \<not> HasPrefix path ''/'' \<or> HasPrefix path ''/memfd:'' then None
        else Some (TrimSuffix path deleted_mark, HasSuffix path deleted_mark))"

definition sample_add :: "bool \<Rightarrow> string list \<Rightarrow> string \<Rightarrow> string list" where
  "sample_add cond out path = (if cond \<and> path \<notin> set out \<and> length out < maxMappedLibs then out @ [path] else out)"

definition maps_step :: "string \<Rightarrow> string list \<times> string list \<Rightarrow> string \<Rightarrow> string list \<times> string list" where
  "maps_step exe st line =
     (case maps_file line of
        None \<Rightarrow> st
      | Some (path, gone) \<Rightarrow>
          if path = exe then st
          else (sample_add (hasAnyPrefix path writableLibRoots) (fst st) path,
                sample_add (gone \<and> \<not> hasAnyPrefix path systemLibRoots) (snd st) path))"

definition scanMaps :: "string \<Rightarrow> string \<Rightarrow> string list \<times> string list" where
  "scanMaps content exe = foldl (maps_step exe) ([], []) (take mapsScanLimit (ScanLines (2 ^ 20) content))"

definition isSystemLibrary :: "string \<Rightarrow> bool" where
  "isSystemLibrary lib =
     (if \<not> Contains lib ''/'' then True
      else hasAnyPrefix lib [''/usr/lib'', ''/usr/local/lib'', ''/lib'', ''/opt/''] \<and> \<not> Contains lib ''..'')"

fun split_at :: "char set \<Rightarrow> string \<Rightarrow> string \<Rightarrow> string list" where
  "split_at cs w [] = (if w = [] then [] else [w])"
| "split_at cs w (x # xs) =
     (if x \<in> cs then (if w = [] then [] else [w]) @ split_at cs [] xs else split_at cs (w @ [x]) xs)"

definition preload_entry :: "string \<Rightarrow> string option" where
  "preload_entry kv =
     (case Cut (CHR ''='') kv of
        None \<Rightarrow> None
      | Some (name, value) \<Rightarrow>
          if (name \<noteq> ''LD_PRELOAD'' \<and> name \<noteq> ''LD_AUDIT'') \<or> TrimSpace value = [] then None
          else if \<exists>lib \<in> set (split_at {CHR '':'', CHR '' ''} [] value). \<not> isSystemLibrary lib
          then Some (name @ ''='' @ value) else None)"

definition preloadFromEnviron :: "string \<Rightarrow> string" where
  "preloadFromEnviron environ = (case List.map_filter preload_entry (Split (CHR 0x00) environ) of [] \<Rightarrow> [] | e # _ \<Rightarrow> e)"

section \<open>Command lines\<close>

definition is_letter :: "char \<Rightarrow> bool" where
  "is_letter c \<longleftrightarrow> (65 \<le> (of_char c :: nat) \<and> (of_char c :: nat) \<le> 90) \<or> (97 \<le> (of_char c :: nat) \<and> (of_char c :: nat) \<le> 122)"

definition option_letters :: "string \<Rightarrow> string" where
  "option_letters tok =
     (if length tok < 2 \<or> tok ! 0 \<noteq> CHR ''-'' \<or> tok ! 1 = CHR ''-'' then [] else takeWhile is_letter (drop 1 tok))"

definition sshTunnelKind :: "string \<Rightarrow> string" where
  "sshTunnelKind cmdline =
     (case Fields cmdline of
        [] \<Rightarrow> []
      | prog # toks \<Rightarrow>
          if path_base prog \<noteq> ''ssh'' \<and> path_base prog \<noteq> ''autossh'' then []
          else let letters = set (concat (map option_letters toks)) in
            if CHR ''D'' \<in> letters then ''dynamic SOCKS proxy (-D)''
            else if CHR ''R'' \<in> letters then ''remote port-forward (-R)''
            else if CHR ''N'' \<in> letters \<and> CHR ''f'' \<in> letters then ''persistent background tunnel (-N -f)''
            else [])"

section \<open>Process identity\<close>

text \<open>The numeric fields of \<open>/proc/PID/stat\<close> after the command's name; a number must parse.\<close>

definition after_last :: "char \<Rightarrow> string \<Rightarrow> string option" where
  "after_last c s = (if c \<in> set s then Some (rev (takeWhile (\<lambda>x. x \<noteq> c) (rev s))) else None)"

definition parse_uint64 :: "string \<Rightarrow> nat option" where
  "parse_uint64 s =
     (if s = [] \<or> \<not> list_all is_digit s then None
      else let v = nat (digits_value s 0) in if v < 2 ^ 64 then Some v else None)"

definition processIdentity :: "string option \<Rightarrow> (string \<times> int \<times> int) option" where
  "processIdentity stat =
     (case stat of
        None \<Rightarrow> None
      | Some b \<Rightarrow> (case after_last (CHR '')'') b of
          None \<Rightarrow> None
        | Some rest \<Rightarrow> (let f = Fields rest in
            if length f < 20 then None
            else (case (Atoi (f ! 1), Atoi (f ! 3), parse_uint64 (f ! 19)) of
                (Some ppid, Some session, Some _) \<Rightarrow> Some (f ! 19, ppid, session)
              | _ \<Rightarrow> None))))"

definition temporaryExecutable :: "string \<Rightarrow> bool" where
  "temporaryExecutable exe \<longleftrightarrow> HasPrefix exe ''/tmp/'' \<or> HasPrefix exe ''/var/tmp/'' \<or> HasPrefix exe ''/dev/shm/''"

section \<open>Hidden processes and modules\<close>

text \<open>
  The brute-force search for processes that \<open>readdir\<close> does not list: \<open>listed\<close> and \<open>after\<close> are the two
  listings, \<open>tgid\<close> and \<open>tgid'\<close> what the status files say when they are read, once per pass.
\<close>

definition max_pid :: "string \<Rightarrow> int" where
  "max_pid content = (case Atoi (TrimSpace content) of Some m \<Rightarrow> if m < 65536 then m else 65536 | None \<Rightarrow> 65536)"

definition collectHiddenPIDs ::
  "string \<Rightarrow> int set \<Rightarrow> (int \<Rightarrow> int option) \<Rightarrow> int set \<Rightarrow> (int \<Rightarrow> int option) \<Rightarrow> int list" where
  "collectHiddenPIDs pid_max listed tgid after tgid' =
     (let candidates = filter (\<lambda>pid. pid \<notin> listed \<and> tgid pid = Some pid) [2..max_pid pid_max]
      in filter (\<lambda>pid. pid \<notin> after \<and> tgid' pid = Some pid) candidates)"

text \<open>The first \<open>Tgid:\<close> line of a status file.\<close>

fun tgid_lines :: "string list \<Rightarrow> int option" where
  "tgid_lines [] = None"
| "tgid_lines (l # ls) =
     (if HasPrefix l ''Tgid:'' then Atoi (TrimSpace (TrimPrefix l ''Tgid:'')) else tgid_lines ls)"

definition readTgid :: "files \<Rightarrow> int \<Rightarrow> int option" where
  "readTgid fs pid = (case fs (''/proc/'' @ Itoa pid @ ''/status'') of
     None \<Rightarrow> None | Some s \<Rightarrow> tgid_lines (ScanLines (64 * 1024) s))"

definition readProcPidSet :: "string list \<Rightarrow> int set" where
  "readProcPidSet names = set (List.map_filter Atoi names)"

text \<open>
  Modules that own kernel symbols or are listed, but are missing elsewhere. The two ranges over maps are
  the lists \<open>procs\<close> and \<open>owners\<close>.
\<close>

definition collectHiddenModules :: "string list \<Rightarrow> string set \<Rightarrow> string list \<Rightarrow> string list" where
  "collectHiddenModules procs sys owners =
     (let add = (\<lambda>out name. if name = [] then out else add_new out name);
          out = foldl add [] (filter (\<lambda>name. name \<notin> sys) procs)
      in foldl add out (filter (\<lambda>name. name \<notin> {''bpf'', ''ftrace''} \<and> \<not> HasPrefix name ''__builtin__'' \<and>
           name \<notin> set procs \<and> name \<notin> sys) owners))"

definition rootkit_patterns :: "string list" where
  "rootkit_patterns = [''diamorphine'', ''kovid'', ''reptile'', ''suterusu'', ''khook'', ''ftrace_hook'', ''rootkit'', ''r00t'',
     ''module_hide'', ''hide_tcp'', ''hook_kill'', ''hacked_'', ''magic_packet'']"

definition kallsyms_line :: "string set \<times> string list \<Rightarrow> string \<Rightarrow> string set \<times> string list" where
  "kallsyms_line st line =
     (let fields = Fields line in
      if length fields < 3 then st
      else (if length fields \<ge> 4 then insert (Trim (set ''[]'') (fields ! 3)) (fst st) else fst st,
            if contains_any rootkit_patterns (ToLower (fields ! 2)) then add_new (snd st) (fields ! 2) else snd st))"

definition collectKallsyms :: "files \<Rightarrow> string set \<times> string list" where
  "collectKallsyms fs = (case fs ''/proc/kallsyms'' of
     None \<Rightarrow> ({}, []) | Some s \<Rightarrow> foldl kallsyms_line ({}, []) (ScanLines (64 * 1024) s))"

section \<open>Sockets\<close>

text \<open>The inodes of the packet sockets: the ninth column after the header.\<close>

definition packetSocketInodes :: "files \<Rightarrow> string set" where
  "packetSocketInodes fs = (case fs ''/proc/net/packet'' of
     None \<Rightarrow> {}
   | Some s \<Rightarrow> set (map (\<lambda>l. Fields l ! 8) (filter (\<lambda>l. length (Fields l) \<ge> 9) (drop 1 (ScanLines (64 * 1024) s)))))"

text \<open>The targets of the descriptors of every process, in the order the directories list them.\<close>

definition socketInodeToPID :: "(int \<times> string list) list \<Rightarrow> (string \<rightharpoonup> int)" where
  "socketInodeToPID procs = foldl (\<lambda>m (pid, targets). foldl (\<lambda>m t.
       if HasPrefix t ''socket:['' then m(TrimSuffix (TrimPrefix t ''socket:['') '']'' \<mapsto> pid) else m) m targets) Map.empty procs"

definition markPacketSniffers :: "string set \<Rightarrow> (string \<rightharpoonup> int) \<Rightarrow> (int \<times> bool) list \<Rightarrow> (int \<times> bool) list" where
  "markPacketSniffers inodes owner procs =
     (if inodes = {} then procs
      else map (\<lambda>(pid, b). (pid, b \<or> (\<exists>ino \<in> inodes. owner ino = Some pid))) procs)"


section \<open>Samples of the memory maps\<close>

lemma add_new_snoc: "foldl add_new [] (xs @ [x]) = add_new (foldl add_new [] xs) x"
  by simp

lemma set_add_new [simp]: "set (add_new out x) = insert x (set out)"
  by (auto simp: add_new_def)

lemma set_foldl_add_new: "set (foldl add_new out xs) = set out \<union> set xs"
  by (induction xs arbitrary: out) auto

lemma distinct_foldl_add_new: "distinct out \<Longrightarrow> distinct (foldl add_new out xs)"
  by (induction xs arbitrary: out) (auto simp: add_new_def)

text \<open>The first occurrences of the elements of a list, in order.\<close>

definition first_seen :: "'a list \<Rightarrow> 'a list" where
  "first_seen xs = rev (remdups (rev xs))"

lemma foldl_add_new: "foldl add_new [] xs = first_seen xs"
proof (induction xs rule: rev_induct)
  case (snoc x xs)
  then show ?case by (simp add: add_new_def first_seen_def)
qed (simp add: first_seen_def)

lemma first_seen_props [simp]: "set (first_seen xs) = set xs" "distinct (first_seen xs)"
  by (simp_all add: first_seen_def)

lemma first_seen_snoc: "first_seen (xs @ [x]) = add_new (first_seen xs) x"
  unfolding foldl_add_new [symmetric] by simp

lemma sample_foldl:
  "foldl (\<lambda>out (b, x). sample_add b out x) [] xs = take maxMappedLibs (first_seen (map snd (filter fst xs)))"
proof (induction xs rule: rev_induct)
  case (snoc p xs)
  obtain b x where p: "p = (b, x)" by fastforce
  let ?seen = "first_seen (map snd (filter fst xs))"
  consider "\<not> b" | "b" "x \<in> set ?seen" | "b" "x \<notin> set ?seen" by blast
  then show ?case
  proof cases
    case 1
    with snoc p show ?thesis by (simp add: sample_add_def)
  next
    case 2
    then have "x \<in> set (take maxMappedLibs ?seen) \<or> \<not> length (take maxMappedLibs ?seen) < maxMappedLibs"
      by (cases "length ?seen \<le> maxMappedLibs") auto
    with snoc p 2 show ?thesis by (auto simp: sample_add_def first_seen_snoc add_new_def)
  next
    case 3
    then have "x \<notin> set (take maxMappedLibs ?seen)" using in_set_takeD by metis
    with snoc p 3 show ?thesis
      by (cases "length ?seen < maxMappedLibs") (auto simp: sample_add_def first_seen_snoc add_new_def)
  qed
qed (simp add: first_seen_def)

lemma maps_foldl:
  "foldl (maps_step exe) (w, d) ls =
     (let ms = filter (\<lambda>(path, _). path \<noteq> exe) (List.map_filter maps_file ls) in
      (foldl (\<lambda>out (b, x). sample_add b out x) w (map (\<lambda>(path, gone). (hasAnyPrefix path writableLibRoots, path)) ms),
       foldl (\<lambda>out (b, x). sample_add b out x) d
         (map (\<lambda>(path, gone). (gone \<and> \<not> hasAnyPrefix path systemLibRoots, path)) ms)))"
proof (induction ls arbitrary: w d)
  case (Cons l ls)
  show ?case
  proof (cases "maps_file l")
    case None
    with Cons show ?thesis by (simp add: maps_step_def List.map_filter_simps)
  next
    case (Some a)
    obtain path gone where a: "a = (path, gone)" by fastforce
    from Some a Cons show ?thesis by (simp add: maps_step_def List.map_filter_simps Let_def)
  qed
qed (simp add: List.map_filter_simps)

text \<open>
  What a process has loaded. The two samples are exactly the first eight different files among the
  executable mappings of the first lines read: those in directories anyone can write to, and those deleted
  outside the system's library directories; the process's own executable is in neither. A file may be in
  both, data mappings and anonymous memory are in none.
\<close>

theorem maps_samples:
  "scanMaps content exe =
     (let ms = filter (\<lambda>(path, _). path \<noteq> exe) (List.map_filter maps_file (take mapsScanLimit (ScanLines (2 ^ 20) content))) in
      (take 8 (first_seen (map fst (filter (\<lambda>(path, _). hasAnyPrefix path writableLibRoots) ms))),
       take 8 (first_seen (map fst (filter (\<lambda>(path, gone). gone \<and> \<not> hasAnyPrefix path systemLibRoots) ms)))))"
proof -
  have "map snd (filter fst (map (\<lambda>(path, gone). (f path gone, path)) ms)) = map fst (filter (\<lambda>(path, gone). f path gone) ms)"
    for f and ms :: "(string \<times> bool) list" by (induction ms) auto
  then show ?thesis
    unfolding scanMaps_def maps_foldl sample_foldl Let_def by (simp add: maxMappedLibs_def)
qed

section \<open>The search for hidden processes\<close>



section \<open>Process identity\<close>

lemma after_last_append: "c \<notin> set rest \<Longrightarrow> after_last c (s @ c # rest) = Some rest"
proof -
  assume "c \<notin> set rest"
  then have "takeWhile (\<lambda>x. x \<noteq> c) (rev rest @ c # rev s) = rev rest" by (subst takeWhile_append2) auto
  then show ?thesis by (simp add: after_last_def)
qed

text \<open>
  A process cannot choose its identity. The name of a command is free text in the middle of
  \<open>/proc/PID/stat\<close>, with any spaces and parentheses; what the probe reads as parent, session and start time are
  the fourth, sixth and twenty-second column the kernel writes, whatever the name is.
\<close>

theorem stat_identity:
  assumes "\<forall>w \<in> set f. word w \<and> CHR '')'' \<notin> set w" and "length f \<ge> 20"
    and "Atoi (f ! 1) = Some ppid" and "Atoi (f ! 3) = Some session" and "parse_uint64 (f ! 19) \<noteq> None"
  shows "processIdentity (Some (Itoa pid @ '' ('' @ comm @ '') '' @ Join '' '' f)) = Some (f ! 19, ppid, session)"
proof -
  have "CHR '')'' \<notin> set (Join '' '' ws)" if "\<forall>w \<in> set ws. CHR '')'' \<notin> set w" for ws
    using that by (induction "'' ''" ws rule: Join.induct) auto
  then have no: "CHR '')'' \<notin> set ('' '' @ Join '' '' f)" using assms(1) by simp
  have "Fields ('' '' @ Join '' '' f) = Fields (Join '' '' f)" by (simp add: Fields_def is_space_def)
  then have "Fields ('' '' @ Join '' '' f) = f" using Fields_Join [of f] assms(1) by simp
  moreover have "after_last CHR '')'' (Itoa pid @ '' ('' @ comm @ '') '' @ Join '' '' f) = Some ('' '' @ Join '' '' f)"
    using after_last_append [OF no, of "Itoa pid @ '' ('' @ comm"] by simp
  moreover obtain t where "parse_uint64 (f ! 19) = Some t" using assms(5) by blast
  ultimately show ?thesis using assms(2,3,4) by (simp only: processIdentity_def option.case Let_def if_False not_less prod.case) simp
qed

theorem stat_identity_witness:
  "processIdentity (Some (Itoa 7 @ '' ('' @ ''x) S 1 1 1'' @ '') '' @ Join '' '' (replicate 20 ''42''))) = Some (''42'', 42, 42)"
proof -
  have f: "replicate 20 ''42'' ! 1 = ''42''" "replicate 20 ''42'' ! 3 = ''42''" "replicate 20 ''42'' ! 19 = ''42''" by simp_all
  have n: "Atoi ''42'' = Some 42" "parse_uint64 ''42'' \<noteq> None" by (simp_all add: Atoi_def parse_uint64_def is_digit_def)
  show ?thesis
    using stat_identity [of "replicate 20 ''42''" 42 42 7 "''x) S 1 1 1''"] n unfolding f
    by (simp add: word_def is_space_def)
qed

section \<open>What the heuristics miss\<close>

text \<open>Options of the command that runs on the other host are taken for options of ssh.\<close>

theorem remote_command_is_tunnel:
  "sshTunnelKind ''ssh host grep -R pattern .'' = ''remote port-forward (-R)''"
  by code_simp

text \<open>
  A socket held by two processes, as after a fork, is attributed to the one whose descriptors are listed
  last; the other keeps sniffing unmarked.
\<close>

theorem shared_packet_socket_one_owner:
  "markPacketSniffers {''77''} (socketInodeToPID [(10, [''socket:[77]'']), (20, [''socket:[77]''])]) [(10, False), (20, False)] =
     [(10, False), (20, True)]"
  by (simp add: socketInodeToPID_def markPacketSniffers_def TrimPrefix_def TrimSuffix_def HasSuffix_def)

end
