(* ===== verification/ProbeFiles.thy ===== *)
theory ProbeFiles
  imports ProbeProc
begin

text \<open>
  The collectors that read configuration files (\<open>internal/probe/collect_linux.go\<close>). The file system is
  an argument: the content of each file that can be read, and what a glob pattern expands to (nothing
  when \<open>filepath.Glob\<close> fails).
\<close>

type_synonym globs = "string \<Rightarrow> string list"

section \<open>Suspicious lines of scripts\<close>

record startup_script =
  ss_path :: string
  ss_lines :: "string list"

text \<open>
  One file, with what is picked from its lines; a file without a hit is not reported. A loop that skips
  the files it has seen goes over their first occurrences.
\<close>

definition script_hits :: "(string \<Rightarrow> string option) \<Rightarrow> files \<Rightarrow> string \<Rightarrow> startup_script option" where
  "script_hits pick fs path =
     (let hits = List.map_filter pick (nonEmptyLines (readFile fs path))
      in if hits = [] then None else Some \<lparr>ss_path = path, ss_lines = hits\<rparr>)"

definition trimmed_if :: "(string \<Rightarrow> bool) \<Rightarrow> string \<Rightarrow> string option" where
  "trimmed_if hit line = (if hit line then Some (TrimSpace line) else None)"

definition home_files :: "string list \<Rightarrow> account list \<Rightarrow> string list" where
  "home_files names accounts =
     concat (map (\<lambda>a. if ac_home a = [] then [] else map (\<lambda>fn. ac_home a @ ''/'' @ fn) names) accounts)"

definition collectShellInit :: "account list \<Rightarrow> files \<Rightarrow> startup_script list" where
  "collectShellInit accounts fs =
     List.map_filter (script_hits (trimmed_if (\<lambda>l. looksLikeCradle l \<or> aliasHiding l \<or> promptCommandBackdoor l)) fs)
       (first_seen ([''/etc/profile'', ''/etc/bash.bashrc'', ''/etc/bashrc''] @
          home_files [''.bashrc'', ''.bash_profile'', ''.profile'', ''.zshrc''] accounts))"

definition collectHistoryTampering :: "account list \<Rightarrow> files \<Rightarrow> startup_script list" where
  "collectHistoryTampering accounts fs =
     List.map_filter (script_hits (trimmed_if historyTampering) fs)
       (first_seen ([''/etc/profile'', ''/etc/bash.bashrc'', ''/etc/bashrc''] @
          home_files [''.bashrc'', ''.bash_profile'', ''.profile'', ''.zshrc'', ''.zshenv''] accounts))"

definition collectStartupScripts :: "globs \<Rightarrow> files \<Rightarrow> startup_script list" where
  "collectStartupScripts glob fs =
     List.map_filter (script_hits (trimmed_if looksLikeCradle) fs)
       ([''/etc/rc.local'', ''/etc/rc.d/rc.local''] @
        concat (map glob [''/etc/grub.d/*'', ''/etc/init.d/*'', ''/etc/profile.d/*'', ''/etc/update-motd.d/*'']))"

definition env_preload_line :: "string \<Rightarrow> string option" where
  "env_preload_line line =
     (let t = TrimSpace line in
      if HasPrefix t ''#'' then None
      else if Contains t ''LD_PRELOAD'' \<or> Contains t ''LD_AUDIT'' then Some t
      else if Contains t ''LD_LIBRARY_PATH'' \<and> referencesWritableDir t then Some t
      else None)"

definition collectEnvPreload :: "globs \<Rightarrow> files \<Rightarrow> startup_script list" where
  "collectEnvPreload glob fs =
     List.map_filter (script_hits env_preload_line fs)
       ([''/etc/environment'', ''/etc/profile'', ''/etc/bash.bashrc''] @ glob ''/etc/profile.d/*'')"

definition xdg_line :: "string \<Rightarrow> string option" where
  "xdg_line line =
     (case cut_prefix (TrimSpace line) ''Exec='' of
        None \<Rightarrow> None
      | Some rest \<Rightarrow> (let cmd = TrimSpace rest in
          if looksLikeCradle cmd \<or> referencesWritableDir cmd then Some cmd else None))"

definition collectXdgAutostart :: "account list \<Rightarrow> globs \<Rightarrow> files \<Rightarrow> startup_script list" where
  "collectXdgAutostart accounts glob fs =
     List.map_filter (script_hits xdg_line fs)
       (first_seen (glob ''/etc/xdg/autostart/*.desktop'' @
          concat (map (\<lambda>a. if ac_home a = [] then [] else glob (ac_home a @ ''/.config/autostart/*.desktop'')) accounts)))"

definition ssh_client_line :: "string \<Rightarrow> string option" where
  "ssh_client_line line =
     (let t = TrimSpace line; low = ToLower t in
      if HasPrefix low ''#'' then None
      else if HasPrefix low ''localcommand'' then Some t
      else if HasPrefix low ''proxycommand'' \<and> (looksLikeCradle t \<or> referencesWritableDir t) then Some t
      else None)"

definition collectSshClientConfig :: "account list \<Rightarrow> globs \<Rightarrow> files \<Rightarrow> startup_script list" where
  "collectSshClientConfig accounts glob fs =
     List.map_filter (script_hits ssh_client_line fs)
       (first_seen ([''/etc/ssh/ssh_config''] @ glob ''/etc/ssh/ssh_config.d/*'' @ home_files [''.ssh/config''] accounts))"

text \<open>The spool directories of \<open>at\<close>, each with the names of its files.\<close>

definition collectAtJobs :: "(string \<Rightarrow> string list) \<Rightarrow> files \<Rightarrow> startup_script list" where
  "collectAtJobs dir_files fs =
     List.map_filter (script_hits (trimmed_if looksLikeCradle) fs)
       (concat (map (\<lambda>d. map (\<lambda>n. d @ ''/'' @ n) (dir_files d))
          [''/var/spool/cron/atjobs'', ''/var/spool/at'', ''/var/spool/atjobs'']))"

text \<open>The regular files found below \<open>/etc/initramfs-tools\<close> are an argument.\<close>

definition collectInitramfsHooks :: "string list \<Rightarrow> globs \<Rightarrow> files \<Rightarrow> startup_script list" where
  "collectInitramfsHooks walked glob fs =
     List.map_filter (script_hits (trimmed_if looksLikeCradle) fs)
       (walked @ concat (map glob [''/usr/share/initramfs-tools/hooks/*'', ''/etc/dracut.conf.d/*'', ''/etc/dracut.conf'']))"

section \<open>Python path files\<close>

record pth_file =
  pt_path :: string
  pt_import_lines :: "string list"

definition pth_line :: "string \<Rightarrow> string option" where
  "pth_line line =
     (let t = TrimSpace line in
      if (HasPrefix t ''import '' \<or> HasPrefix t (''import'' @ [CHR 9])) \<and> pthLooksMalicious t then Some t else None)"

definition collectPythonPth :: "globs \<Rightarrow> files \<Rightarrow> pth_file list" where
  "collectPythonPth glob fs =
     List.map_filter (\<lambda>f. let imports = List.map_filter pth_line (nonEmptyLines (readFile fs f))
         in if imports = [] then None else Some \<lparr>pt_path = f, pt_import_lines = imports\<rparr>)
       (concat (map glob [''/usr/lib/python*/site-packages/*.pth'', ''/usr/lib/python*/dist-packages/*.pth'',
          ''/usr/local/lib/python*/site-packages/*.pth'', ''/usr/local/lib/python*/dist-packages/*.pth'']))"

section \<open>Programs started by other programs\<close>

record supervisor_prog =
  su_path :: string
  su_program :: string
  su_command :: string

fun supervisor_lines :: "string \<Rightarrow> string \<Rightarrow> string list \<Rightarrow> supervisor_prog list" where
  "supervisor_lines f prog [] = []"
| "supervisor_lines f prog (line # ls) =
     (let t = TrimSpace line in
      if HasPrefix t ''[program:'' then supervisor_lines f (TrimSuffix (TrimPrefix t ''[program:'') '']'') ls
      else if HasPrefix t ''command'' \<and> Contains t ''=''
      then \<lparr>su_path = f, su_program = prog,
             su_command = TrimSpace (case Cut (CHR ''='') t of None \<Rightarrow> [] | Some (_, v) \<Rightarrow> v)\<rparr> # supervisor_lines f prog ls
      else supervisor_lines f prog ls)"

definition collectSupervisor :: "globs \<Rightarrow> files \<Rightarrow> supervisor_prog list" where
  "collectSupervisor glob fs =
     concat (map (\<lambda>f. supervisor_lines f [] (nonEmptyLines (readFile fs f)))
       ([''/etc/supervisord.conf''] @ glob ''/etc/supervisor/conf.d/*.conf'' @ glob ''/etc/supervisor/*.conf''))"

record package_hook =
  ph_path :: string
  ph_manager :: string
  ph_directive :: string
  ph_command :: string

definition hookNames :: "string list" where "hookNames = [''Pre-Invoke'', ''Post-Invoke'', ''Pre-Install-Pkgs'']"

text \<open>The directive a line opens, if it names a hook: what stands before the brace, or the whole line.\<close>

definition hook_directive :: "string \<Rightarrow> string \<Rightarrow> string" where
  "hook_directive cur t =
     (if contains_any hookNames t
      then (case Cut (CHR ''{'') t of None \<Rightarrow> t | Some (b, _) \<Rightarrow> TrimSpace b)
      else cur)"

fun hook_lines :: "string \<Rightarrow> string \<Rightarrow> string list \<Rightarrow> package_hook list" where
  "hook_lines f cur0 [] = []"
| "hook_lines f cur0 (line # ls) =
     (let t = TrimSpace line; cur = hook_directive cur0 t in
      if t = [] \<or> HasPrefix t ''//'' \<or> HasPrefix t ''#'' then hook_lines f cur0 ls
      else if cur = [] then hook_lines f [] ls
      else map (\<lambda>cmd. \<lparr>ph_path = f, ph_manager = ''apt'', ph_directive = cur, ph_command = cmd\<rparr>)
             (filter (\<lambda>cmd. looksLikeCradle cmd \<or> referencesWritableDir cmd) (quotedStrings t)) @
           hook_lines f (if Contains t ''}'' then [] else cur) ls)"

definition collectPackageHooks :: "globs \<Rightarrow> files \<Rightarrow> package_hook list" where
  "collectPackageHooks glob fs =
     concat (map (\<lambda>f. hook_lines f [] (Split (CHR 10) (readFile fs f))) ([''/etc/apt/apt.conf''] @ glob ''/etc/apt/apt.conf.d/*''))"

record web_server_module =
  ws_path :: string
  ws_server :: string
  ws_module :: string

definition web_module_line :: "string \<Rightarrow> string \<Rightarrow> string option" where
  "web_module_line server line =
     (let t = TrimSpace line; fields = Fields (TrimRight {CHR '';''} t) in
      if HasPrefix t ''#'' then None
      else if server = ''apache'' \<and> length fields \<ge> 3 \<and> fields ! 0 = ''LoadModule'' then Some (fields ! 2)
      else if server = ''nginx'' \<and> length fields \<ge> 2 \<and> fields ! 0 = ''load_module'' then Some (Trim {CHR 0x22} (fields ! 1))
      else None)"

definition web_sources :: "(string \<times> string list) list" where
  "web_sources =
     [(''apache'', [''/etc/apache2/apache2.conf'', ''/etc/apache2/mods-enabled/*'', ''/etc/apache2/conf-enabled/*'',
        ''/etc/httpd/conf/httpd.conf'', ''/etc/httpd/conf.d/*'', ''/etc/httpd/conf.modules.d/*'']),
      (''nginx'', [''/etc/nginx/nginx.conf'', ''/etc/nginx/conf.d/*'', ''/etc/nginx/modules-enabled/*''])]"

definition collectWebServerModules :: "globs \<Rightarrow> files \<Rightarrow> web_server_module list" where
  "collectWebServerModules glob fs =
     concat (map (\<lambda>(server, gs). concat (map (\<lambda>f.
         map (\<lambda>md. \<lparr>ws_path = f, ws_server = server, ws_module = md\<rparr>)
           (filter referencesWritableDir (List.map_filter (web_module_line server) (nonEmptyLines (readFile fs f)))))
       (concat (map glob gs)))) web_sources)"

record modprobe_command =
  mp_path :: string
  mp_directive :: string
  mp_module :: string
  mp_command :: string

text \<open>A backslash at the end of a line continues it.\<close>

fun join_continued :: "string \<Rightarrow> string" where
  "join_continued (c # d # cs) =
     (if c = CHR 0x5C \<and> d = CHR 10 then CHR '' '' # join_continued cs else c # join_continued (d # cs))"
| "join_continued s = s"

definition modprobe_line :: "string \<Rightarrow> string \<Rightarrow> modprobe_command option" where
  "modprobe_line f line =
     (let t = TrimSpace line; fields = Fields t; cmd = Join '' '' (drop 2 fields) in
      if HasPrefix t ''#'' then None
      else if length fields < 3 \<or> (fields ! 0 \<noteq> ''install'' \<and> fields ! 0 \<noteq> ''remove'') then None
      else if \<not> looksLikeCradle cmd \<and> \<not> referencesWritableDir cmd then None
      else Some \<lparr>mp_path = f, mp_directive = fields ! 0, mp_module = fields ! 1, mp_command = cmd\<rparr>)"

definition collectModprobeCommands :: "globs \<Rightarrow> files \<Rightarrow> modprobe_command list" where
  "collectModprobeCommands glob fs =
     concat (map (\<lambda>f. List.map_filter (modprobe_line f) (nonEmptyLines (join_continued (readFile fs f))))
       (concat (map glob [''/etc/modprobe.d/*.conf'', ''/lib/modprobe.d/*.conf'', ''/usr/lib/modprobe.d/*.conf'',
          ''/run/modprobe.d/*.conf''])))"

section \<open>Search paths\<close>

record ld_conf_entry =
  ld_path :: string
  ld_dir :: string

definition collectLdSoConf :: "globs \<Rightarrow> files \<Rightarrow> ld_conf_entry list" where
  "collectLdSoConf glob fs =
     concat (map (\<lambda>f. List.map_filter (\<lambda>line. let t = TrimSpace line in
         if HasPrefix t ''/'' \<and> referencesWritableDir t then Some \<lparr>ld_path = f, ld_dir = t\<rparr> else None)
       (nonEmptyLines (readFile fs f))) ([''/etc/ld.so.conf''] @ glob ''/etc/ld.so.conf.d/*.conf''))"

definition cron_path_line :: "string \<Rightarrow> string \<Rightarrow> string option" where
  "cron_path_line f line =
     (let t = TrimSpace line in
      (case Cut (CHR ''='') t of
         None \<Rightarrow> None
       | Some (k, v) \<Rightarrow>
           if TrimSpace k \<noteq> ''PATH'' then None
           else if pathValueHijack (TrimSpace v) then Some (f @ '': '' @ t) else None))"

definition collectCronPathHijack :: "globs \<Rightarrow> files \<Rightarrow> string list" where
  "collectCronPathHijack glob fs =
     concat (map (\<lambda>f. List.map_filter (cron_path_line f) (nonEmptyLines (readFile fs f)))
       ([''/etc/crontab''] @ concat (map glob [''/etc/cron.d/*'', ''/var/spool/cron/crontabs/*'', ''/var/spool/cron/*''])))"

text \<open>Directories that exist and that anyone can write to are an argument, \<open>loose\<close>.\<close>

definition path_dir :: "(string \<Rightarrow> bool) \<Rightarrow> string \<Rightarrow> string option" where
  "path_dir loose d = (if d = [] \<or> d = ''.'' then Some ''(cwd in PATH)'' else if loose d then Some d else None)"

definition raw_paths :: "files \<Rightarrow> string list" where
  "raw_paths fs =
     List.map_filter (\<lambda>line. let t = TrimSpace line in if HasPrefix t ''PATH='' then Some (pathValue t) else None)
       (nonEmptyLines (readFile fs ''/etc/environment'')) @
     List.map_filter (\<lambda>line. let t = TrimSpace line in
         if HasPrefix t ''export PATH='' \<or> HasPrefix t ''PATH='' then Some (pathValue t) else None)
       (nonEmptyLines (readFile fs ''/etc/profile''))"

definition collectPathHijack :: "(string \<Rightarrow> bool) \<Rightarrow> files \<Rightarrow> string list" where
  "collectPathHijack loose fs =
     List.map_filter (path_dir loose) (first_seen (map TrimSpace (concat (map (Split (CHR '':'')) (raw_paths fs)))))"


section \<open>What a collector of scripts reports\<close>

text \<open>
  The contract the collectors of suspicious scripts share: go over a list of files, and keep what is picked
  from the lines of each.
\<close>

locale script_collector =
  fixes collect :: "files \<Rightarrow> startup_script list" and pick :: "string \<Rightarrow> string option" and paths :: "string list"
  assumes collects: "collect fs = List.map_filter (script_hits pick fs) paths"
begin

lemma reported:
  "s \<in> set (collect fs) \<longleftrightarrow> ss_path s \<in> set paths \<and> ss_lines s \<noteq> [] \<and>
     ss_lines s = List.map_filter pick (nonEmptyLines (readFile fs (ss_path s)))"
  unfolding collects
  by (cases s) (auto simp: List.map_filter_def script_hits_def Let_def image_iff split: if_splits)

lemma reported_line:
  "(\<exists>s \<in> set (collect fs). ss_path s = p \<and> h \<in> set (ss_lines s)) \<longleftrightarrow>
     p \<in> set paths \<and> (\<exists>l. l \<in> set (nonEmptyLines (readFile fs p)) \<and> pick l = Some h)"
proof -
  have "h \<in> set (List.map_filter pick ls) \<longleftrightarrow> (\<exists>l. l \<in> set ls \<and> pick l = Some h)" for ls
    by (auto simp: List.map_filter_def image_iff)
  moreover have "(\<exists>s \<in> set (collect fs). ss_path s = p \<and> h \<in> set (ss_lines s)) \<longleftrightarrow>
      p \<in> set paths \<and> h \<in> set (List.map_filter pick (nonEmptyLines (readFile fs p)))"
    unfolding Bex_def reported
    by (auto intro: exI [of _ "\<lparr>ss_path = p, ss_lines = List.map_filter pick (nonEmptyLines (readFile fs p))\<rparr>"])
  ultimately show ?thesis by simp
qed

lemma other_files:
  "\<forall>p \<in> set paths. fs p = fs' p \<Longrightarrow> collect fs = collect fs'"
proof -
  assume eq: "\<forall>p \<in> set paths. fs p = fs' p"
  have "List.map_filter (script_hits pick fs) ps = List.map_filter (script_hits pick fs') ps" if "set ps \<subseteq> set paths" for ps
    using that
  proof (induction ps)
    case (Cons p ps)
    then have "script_hits pick fs p = script_hits pick fs' p" using eq by (simp add: script_hits_def readFile_def)
    with Cons show ?case by (simp add: List.map_filter_simps split: option.split)
  qed (simp add: List.map_filter_simps)
  then show ?thesis unfolding collects by simp
qed

end

definition shell_files :: "string list \<Rightarrow> account list \<Rightarrow> string list" where
  "shell_files names accounts = first_seen ([''/etc/profile'', ''/etc/bash.bashrc'', ''/etc/bashrc''] @ home_files names accounts)"

interpretation shell_init: script_collector "collectShellInit accounts"
    "trimmed_if (\<lambda>l. looksLikeCradle l \<or> aliasHiding l \<or> promptCommandBackdoor l)"
    "shell_files [''.bashrc'', ''.bash_profile'', ''.profile'', ''.zshrc''] accounts" for accounts
  by unfold_locales (simp only: collectShellInit_def shell_files_def)

interpretation history: script_collector "collectHistoryTampering accounts" "trimmed_if historyTampering"
    "shell_files [''.bashrc'', ''.bash_profile'', ''.profile'', ''.zshrc'', ''.zshenv''] accounts" for accounts
  by unfold_locales (simp only: collectHistoryTampering_def shell_files_def)

interpretation startup: script_collector "collectStartupScripts glob" "trimmed_if looksLikeCradle"
    "[''/etc/rc.local'', ''/etc/rc.d/rc.local''] @
     concat (map glob [''/etc/grub.d/*'', ''/etc/init.d/*'', ''/etc/profile.d/*'', ''/etc/update-motd.d/*''])" for glob
  by unfold_locales (simp only: collectStartupScripts_def)

interpretation env_preload: script_collector "collectEnvPreload glob" env_preload_line
    "[''/etc/environment'', ''/etc/profile'', ''/etc/bash.bashrc''] @ glob ''/etc/profile.d/*''" for glob
  by unfold_locales (simp only: collectEnvPreload_def)

interpretation xdg: script_collector "collectXdgAutostart accounts glob" xdg_line
    "first_seen (glob ''/etc/xdg/autostart/*.desktop'' @
       concat (map (\<lambda>a. if ac_home a = [] then [] else glob (ac_home a @ ''/.config/autostart/*.desktop'')) accounts))"
    for accounts glob
  by unfold_locales (simp only: collectXdgAutostart_def)

interpretation ssh_client: script_collector "collectSshClientConfig accounts glob" ssh_client_line
    "first_seen ([''/etc/ssh/ssh_config''] @ glob ''/etc/ssh/ssh_config.d/*'' @ home_files [''.ssh/config''] accounts)"
    for accounts glob
  by unfold_locales (simp only: collectSshClientConfig_def)

interpretation at_jobs: script_collector "collectAtJobs dir_files" "trimmed_if looksLikeCradle"
    "concat (map (\<lambda>d. map (\<lambda>n. d @ ''/'' @ n) (dir_files d)) [''/var/spool/cron/atjobs'', ''/var/spool/at'', ''/var/spool/atjobs''])"
    for dir_files
  by unfold_locales (simp only: collectAtJobs_def)

interpretation initramfs: script_collector "collectInitramfsHooks walked glob" "trimmed_if looksLikeCradle"
    "walked @ concat (map glob [''/usr/share/initramfs-tools/hooks/*'', ''/etc/dracut.conf.d/*'', ''/etc/dracut.conf''])"
    for walked glob
  by unfold_locales (simp only: collectInitramfsHooks_def)

lemma trimmed_if_Some: "(\<exists>l. l \<in> A \<and> trimmed_if hit l = Some h) \<longleftrightarrow> (\<exists>l. l \<in> A \<and> hit l \<and> TrimSpace l = h)"
  by (auto simp: trimmed_if_def split: if_splits)

text \<open>
  A suspicious line in a shell's start-up file is reported, and nothing else is. For the three system
  files and the files in the home of every account that has one, whatever their order and however many
  accounts share a home: a line is in the report on a file exactly if it is one of the file's lines, less
  white space around it, and a cradle, a hiding alias or a prompt hook; the same for lines that
  disable the shell's history.
\<close>

theorem shell_lines_reported:
  "((\<exists>s \<in> set (collectShellInit accounts fs). ss_path s = p \<and> h \<in> set (ss_lines s)) \<longleftrightarrow>
      p \<in> set (shell_files [''.bashrc'', ''.bash_profile'', ''.profile'', ''.zshrc''] accounts) \<and>
      (\<exists>l. l \<in> set (nonEmptyLines (readFile fs p)) \<and> (looksLikeCradle l \<or> aliasHiding l \<or> promptCommandBackdoor l) \<and>
         TrimSpace l = h)) \<and>
   ((\<exists>s \<in> set (collectHistoryTampering accounts fs). ss_path s = p \<and> h \<in> set (ss_lines s)) \<longleftrightarrow>
      p \<in> set (shell_files [''.bashrc'', ''.bash_profile'', ''.profile'', ''.zshrc'', ''.zshenv''] accounts) \<and>
      (\<exists>l. l \<in> set (nonEmptyLines (readFile fs p)) \<and> historyTampering l \<and> TrimSpace l = h)) \<and>
   (p \<in> set (shell_files names accounts) \<longleftrightarrow> p \<in> {''/etc/profile'', ''/etc/bash.bashrc'', ''/etc/bashrc''} \<or>
      (\<exists>a n. a \<in> set accounts \<and> ac_home a \<noteq> [] \<and> n \<in> set names \<and> p = ac_home a @ ''/'' @ n))"
proof -
  have "p \<in> set (shell_files names accounts) \<longleftrightarrow> p \<in> {''/etc/profile'', ''/etc/bash.bashrc'', ''/etc/bashrc''} \<or>
      (\<exists>a n. a \<in> set accounts \<and> ac_home a \<noteq> [] \<and> n \<in> set names \<and> p = ac_home a @ ''/'' @ n)"
    by (auto simp: shell_files_def home_files_def split: if_splits)
  then show ?thesis unfolding shell_init.reported_line history.reported_line trimmed_if_Some by blast
qed

section \<open>What the readers misread\<close>

text \<open>A hook without braces stays open: later quoted strings of the file count as its commands.\<close>

theorem hook_without_braces_stays_open:
  "hook_lines ''f'' [] [''DPkg::Post-Invoke '' @ dquoted ''true'' @ '';'', ''Dir::Cache '' @ dquoted ''/var/tmp/apt'' @ '';''] =
     [\<lparr>ph_path = ''f'', ph_manager = ''apt'', ph_directive = ''DPkg::Post-Invoke '' @ dquoted ''true'' @ '';'',
       ph_command = ''/var/tmp/apt''\<rparr>]"
  by code_simp

text \<open>The value of \<open>PATH\<close> in a crontab may be quoted; then its first and last element are not recognised.\<close>

theorem quoted_cron_path_missed:
  "cron_path_line ''f'' (''PATH='' @ dquoted ''/tmp:/usr/bin'') = None \<and>
   cron_path_line ''f'' ''PATH=/tmp:/usr/bin'' = Some ''f: PATH=/tmp:/usr/bin''"
  by code_simp

end
