(* ===== verification/ProbeBits.thy ===== *)
theory ProbeBits
  imports ProbeLines "HOL-Library.Word"
begin

unbundle bit_operations_syntax

text \<open>
  Numbers the probe decodes from text (\<open>internal/probe/netaddr_parse.go\<close> and parts of
  \<open>collect_linux.go\<close>): socket addresses, file capabilities, permission bits, taint flags. The byte order
  of the machine is an argument, so is \<open>net.IP.String\<close>.
\<close>

section \<open>Hexadecimal\<close>

definition hex_digit_value :: "char \<Rightarrow> nat option" where
  "hex_digit_value c =
     (let n = of_char c in
      if 48 \<le> n \<and> n \<le> 57 then Some (n - 48)
      else if 65 \<le> n \<and> n \<le> 70 then Some (n - 55)
      else if 97 \<le> n \<and> n \<le> 102 then Some (n - 87)
      else None)"

fun hex_fold :: "nat \<Rightarrow> string \<Rightarrow> nat option" where
  "hex_fold acc [] = Some acc"
| "hex_fold acc (c # cs) = (case hex_digit_value c of None \<Rightarrow> None | Some d \<Rightarrow> hex_fold (16 * acc + d) cs)"

text \<open>\<open>strconv.ParseUint\<close> to the base 16 for at most eight digits, which always fit 32 bits.\<close>

definition parse_hex32 :: "string \<Rightarrow> 32 word option" where
  "parse_hex32 s = (if s = [] then None else map_option word_of_nat (hex_fold 0 s))"

text \<open>
  \<open>strconv.ParseInt\<close> to the base 16 in 32 bits, without its error: zero, or the nearest number in range. It
  stops at the digit that overflows, and what follows is not looked at.
\<close>

definition parse_hex_int32 :: "string \<Rightarrow> int" where
  "parse_hex_int32 s =
     (let neg = (case s of c # _ \<Rightarrow> c = CHR ''-'' | [] \<Rightarrow> False);
          ds = (case s of c # cs \<Rightarrow> if c = CHR ''-'' \<or> c = CHR ''+'' then cs else s | [] \<Rightarrow> []);
          run = takeWhile (\<lambda>c. hex_digit_value c \<noteq> None) ds
      in (case hex_fold 0 run of
            None \<Rightarrow> 0
          | Some v \<Rightarrow>
              if ds = [] \<or> (run \<noteq> ds \<and> v < 2 ^ 32) then 0
              else if neg then max (- int v) (- (2 ^ 31)) else min (int v) (2 ^ 31 - 1)))"

lemma hex_fold_run: "hex_fold acc s = Some v \<Longrightarrow> takeWhile (\<lambda>c. hex_digit_value c \<noteq> None) s = s"
  by (induction s arbitrary: acc) (auto split: option.splits)

text \<open>A word as the machine stores it, and the word it loads from four bytes.\<close>

definition put_word :: "bool \<Rightarrow> 32 word \<Rightarrow> 8 word list" where
  "put_word little w =
     (let bs = [ucast w, ucast (drop_bit 8 w), ucast (drop_bit 16 w), ucast (drop_bit 24 w)]
      in if little then bs else rev bs)"

definition load_word :: "bool \<Rightarrow> 8 word list \<Rightarrow> 32 word" where
  "load_word little bytes =
     (case (if little then bytes else rev bytes) of
        [a, b, c, d] \<Rightarrow> ucast a OR push_bit 8 (ucast b) OR push_bit 16 (ucast c) OR push_bit 24 (ucast d)
      | _ \<Rightarrow> 0)"

section \<open>Socket tables\<close>

fun hex_words :: "bool \<Rightarrow> string \<Rightarrow> 8 word list option" where
  "hex_words little [] = Some []"
| "hex_words little (c # cs) =
     (case parse_hex32 (take 8 (c # cs)) of
        None \<Rightarrow> None
      | Some w \<Rightarrow> map_option ((@) (put_word little w)) (hex_words little (drop 7 cs)))"

definition parseHexAddr :: "bool \<Rightarrow> (8 word list \<Rightarrow> string) \<Rightarrow> string \<Rightarrow> string \<times> int" where
  "parseHexAddr little ip_String s =
     (case Cut (CHR '':'') s of
        None \<Rightarrow> ([], 0)
      | Some (host, portHex) \<Rightarrow>
          (let port = parse_hex_int32 portHex in
           if length host \<noteq> 8 \<and> length host \<noteq> 32 then ([], port)
           else (case hex_words little host of None \<Rightarrow> ([], port) | Some ip \<Rightarrow> (ip_String ip, port))))"

definition listen_line :: "bool \<Rightarrow> (8 word list \<Rightarrow> string) \<Rightarrow> string \<Rightarrow> string \<Rightarrow> socket option" where
  "listen_line little ip_String proto line =
     (let fields = Fields line in
      if length fields < 4 \<or> fields ! 3 \<noteq> ''0A'' then None
      else (case parseHexAddr little ip_String (fields ! 1) of (ip, port) \<Rightarrow>
        Some \<lparr>so_proto = proto, so_laddr = ip, so_lport = port, so_pid = 0, so_comm = []\<rparr>))"

definition parseProcNet :: "bool \<Rightarrow> (8 word list \<Rightarrow> string) \<Rightarrow> files \<Rightarrow> string \<Rightarrow> string \<Rightarrow> socket list" where
  "parseProcNet little ip_String fs path proto =
     (case fs path of
        None \<Rightarrow> []
      | Some s \<Rightarrow> List.map_filter (listen_line little ip_String proto) (drop 1 (ScanLines (64 * 1024) s)))"

definition collectListeners :: "bool \<Rightarrow> (8 word list \<Rightarrow> string) \<Rightarrow> files \<Rightarrow> socket list" where
  "collectListeners little ip_String fs =
     parseProcNet little ip_String fs ''/proc/net/tcp'' ''tcp'' @ parseProcNet little ip_String fs ''/proc/net/tcp6'' ''tcp''"

record conn =
  co_proto :: string
  co_raddr :: string
  co_rport :: int

definition suspiciousRemotePorts :: "int list" where
  "suspiciousRemotePorts = [3333, 4444, 5555, 7777, 9999, 14444, 3032, 5790, 1337, 31337, 6666, 45700]"

definition outbound_line :: "bool \<Rightarrow> (8 word list \<Rightarrow> string) \<Rightarrow> string \<Rightarrow> conn option" where
  "outbound_line little ip_String line =
     (let fields = Fields line in
      if length fields < 4 \<or> fields ! 3 \<noteq> ''01'' then None
      else (case parseHexAddr little ip_String (fields ! 2) of (ip, port) \<Rightarrow>
        if port \<in> set suspiciousRemotePorts then Some \<lparr>co_proto = ''tcp'', co_raddr = ip, co_rport = port\<rparr> else None))"

definition collectOutboundConns :: "bool \<Rightarrow> (8 word list \<Rightarrow> string) \<Rightarrow> files \<Rightarrow> conn list" where
  "collectOutboundConns little ip_String fs =
     concat (map (\<lambda>path. case fs path of
        None \<Rightarrow> []
      | Some s \<Rightarrow> List.map_filter (outbound_line little ip_String) (drop 1 (ScanLines (64 * 1024) s)))
       [''/proc/net/tcp'', ''/proc/net/tcp6''])"

section \<open>File capabilities and modes\<close>

fun hex_bytes :: "string \<Rightarrow> 8 word list option" where
  "hex_bytes [] = Some []"
| "hex_bytes [c] = None"
| "hex_bytes (c # d # cs) =
     (case (hex_digit_value c, hex_digit_value d) of
        (Some x, Some y) \<Rightarrow> map_option ((#) (word_of_nat (16 * x + y))) (hex_bytes cs)
      | _ \<Rightarrow> None)"

definition capBitNames :: "(nat \<times> string) list" where
  "capBitNames = [(0, ''cap_chown''), (1, ''cap_dac_override''), (2, ''cap_dac_read_search''), (3, ''cap_fowner''),
     (6, ''cap_setgid''), (7, ''cap_setuid''), (16, ''cap_sys_module''), (17, ''cap_sys_rawio''),
     (19, ''cap_sys_ptrace''), (21, ''cap_sys_admin'')]"

definition dangerousCapBits :: "nat list" where
  "dangerousCapBits = [0, 1, 2, 3, 6, 7, 16, 17, 19, 21]"

definition decodeDangerousCaps :: "string \<Rightarrow> string list" where
  "decodeDangerousCaps hexstr =
     (case hex_bytes hexstr of
        None \<Rightarrow> []
      | Some b \<Rightarrow>
          if length b < 8 then []
          else let permitted = load_word True (take 4 (drop 4 b)) in
            map (\<lambda>k. case map_of capBitNames k of None \<Rightarrow> [] | Some n \<Rightarrow> n)
              (filter (\<lambda>k. permitted AND push_bit k 1 \<noteq> 0 \<and> k \<in> set dangerousCapBits) [0..<32]))"

text \<open>The bits of Go's \<open>os.FileMode\<close> that are used.\<close>

definition ModeSetuid :: "32 word" where "ModeSetuid = push_bit 23 1"
definition ModeSetgid :: "32 word" where "ModeSetgid = push_bit 22 1"
definition ModeSticky :: "32 word" where "ModeSticky = push_bit 20 1"

definition Perm :: "32 word \<Rightarrow> 32 word" where "Perm m = m AND 0x1FF"

fun octal_digits :: "nat \<Rightarrow> string" where
  "octal_digits n = (if n < 8 then [char_of (48 + n)] else octal_digits (n div 8) @ [char_of (48 + n mod 8)])"

declare octal_digits.simps [simp del]

definition octalMode :: "32 word \<Rightarrow> string" where
  "octalMode m =
     (let v = Perm m OR (if m AND ModeSetuid \<noteq> 0 then 0x800 else 0) OR (if m AND ModeSetgid \<noteq> 0 then 0x400 else 0) OR
          (if m AND ModeSticky \<noteq> 0 then 0x200 else 0);
          ds = octal_digits (unat v)
      in replicate (4 - length ds) CHR ''0'' @ ds)"

text \<open>The group of a file, if the system tells it.\<close>

definition writableVia :: "32 word \<Rightarrow> nat option \<Rightarrow> string \<times> nat" where
  "writableVia m gid =
     (if Perm m AND 2 \<noteq> 0 then (''other'', 0)
      else (case gid of
          None \<Rightarrow> ([], 0)
        | Some g \<Rightarrow> if Perm m AND 0x10 \<noteq> 0 \<and> g \<noteq> 0 then (''group'', g) else ([], 0)))"

definition nonRootWritable :: "32 word \<Rightarrow> nat option \<Rightarrow> bool" where
  "nonRootWritable m gid \<longleftrightarrow> fst (writableVia m gid) \<noteq> []"

definition nonRootReadable :: "32 word \<Rightarrow> nat option \<Rightarrow> bool" where
  "nonRootReadable m gid \<longleftrightarrow> Perm m AND 4 \<noteq> 0 \<or>
     (case gid of None \<Rightarrow> False | Some g \<Rightarrow> Perm m AND 0x20 \<noteq> 0 \<and> g \<noteq> 0)"

text \<open>The taint flags, in the order the range over the table of flags meets them.\<close>

definition taint_flags :: "nat \<rightharpoonup> char" where
  "taint_flags = [0 \<mapsto> CHR ''P'', 1 \<mapsto> CHR ''F'', 12 \<mapsto> CHR ''O'', 13 \<mapsto> CHR ''E'']"

definition collectTaint :: "nat list \<Rightarrow> files \<Rightarrow> int \<times> string" where
  "collectTaint bits fs =
     (let n = atoi_value (TrimSpace (readFile fs ''/proc/sys/kernel/tainted''))
      in (n, map (\<lambda>k. the (taint_flags k)) (filter (\<lambda>k. bit n k) bits)))"


section \<open>What the kernel prints is read back\<close>

definition hex_digit :: "nat \<Rightarrow> char" where
  "hex_digit d = char_of (if d < 10 then 48 + d else 55 + d)"

text \<open>\<open>%0kX\<close> of a number below \<open>16 ^ k\<close>.\<close>

definition hex_pad :: "nat \<Rightarrow> nat \<Rightarrow> string" where
  "hex_pad k n = map (\<lambda>i. hex_digit (n div 16 ^ i mod 16)) (rev [0..<k])"

lemma hex_digit_value [simp]: "d < 16 \<Longrightarrow> hex_digit_value (hex_digit d) = Some d"
  by (simp add: hex_digit_value_def hex_digit_def)

lemma hex_fold_digits:
  "\<forall>d \<in> set ds. d < 16 \<Longrightarrow> hex_fold acc (map hex_digit ds) = Some (foldl (\<lambda>v d. 16 * v + d) acc ds)"
  by (induction ds arbitrary: acc) simp_all

lemma hex_horner: "foldl (\<lambda>v d. 16 * v + d) (acc :: nat) (map (\<lambda>i. (n :: nat) div 16 ^ i mod 16) (rev [0..<k])) = acc * 16 ^ k + n mod 16 ^ k"
proof (induction k arbitrary: acc)
  case (Suc k)
  have "n mod 16 ^ Suc k = 16 ^ k * (n div 16 ^ k mod 16) + n mod 16 ^ k"
    using mod_mult2_eq [of n "16 ^ k" 16] by (simp add: mult.commute)
  with Suc show ?case by (simp add: algebra_simps)
qed simp

lemma hex_fold_pad:
  assumes "n < 16 ^ k"
  shows "hex_fold 0 (hex_pad k n) = Some n"
proof -
  define ds where "ds = map (\<lambda>i. n div 16 ^ i mod 16) (rev [0..<k])"
  have "\<forall>d \<in> set ds. d < 16" by (simp add: ds_def)
  then have "hex_fold 0 (map hex_digit ds) = Some (foldl (\<lambda>v d. 16 * v + d) 0 ds)" by (rule hex_fold_digits)
  moreover have "foldl (\<lambda>v d. 16 * v + d) 0 ds = n" unfolding ds_def hex_horner using assms by simp
  moreover have "hex_pad k n = map hex_digit ds" by (simp add: hex_pad_def ds_def)
  ultimately show ?thesis by simp
qed

lemma length_hex_pad [simp]: "length (hex_pad k n) = k"
  by (simp add: hex_pad_def)

lemma hex_pad_chars:
  assumes "c \<in> set (hex_pad k n)"
  shows "c \<noteq> CHR '':'' \<and> \<not> is_space c \<and> c \<noteq> CHR ''-'' \<and> c \<noteq> CHR ''+''"
proof -
  obtain i where "c = hex_digit (n div 16 ^ i mod 16)" using assms by (auto simp: hex_pad_def)
  moreover define d where "d = n div 16 ^ i mod 16"
  ultimately have c: "c = hex_digit d" and d: "d < 16" by simp_all
  have "(of_char c :: nat) = (if d < 10 then 48 + d else 55 + d)" using d unfolding c by (simp add: hex_digit_def)
  with d have "(of_char c :: nat) \<notin> {58, 45, 43} \<union> {9, 10, 11, 12, 13, 32}" by auto
  then show ?thesis by (auto simp: is_space_def)
qed

lemma put_load:
  assumes "length bs = 4"
  shows "put_word little (load_word little bs) = bs"
proof -
  obtain a b c d where bs: "bs = [a, b, c, d]" using assms by (auto simp: length_Suc_conv eval_nat_numeral)
  define w where "w x y z t = (ucast x OR push_bit 8 (ucast y) OR push_bit 16 (ucast z) OR push_bit 24 (ucast t) :: 32 word)"
    for x y z t :: "8 word"
  have "ucast (w x y z t) = x" "ucast (drop_bit 8 (w x y z t)) = y" "ucast (drop_bit 16 (w x y z t)) = z"
    "ucast (drop_bit 24 (w x y z t)) = t" for x y z t
    unfolding w_def by (rule bit_word_eqI; auto simp: bit_simps dest: bit_imp_le_length)+
  then show ?thesis by (simp add: bs put_word_def load_word_def Let_def w_def [symmetric])
qed

fun kernel_addr :: "bool \<Rightarrow> 8 word list \<Rightarrow> string" where
  "kernel_addr little (a # b # c # d # bs) = hex_pad 8 (unat (load_word little [a, b, c, d])) @ kernel_addr little bs"
| "kernel_addr little _ = []"

lemma hex_words_append:
  assumes "length h = 8" and "parse_hex32 h = Some w"
  shows "hex_words little (h @ s) = map_option ((@) (put_word little w)) (hex_words little s)"
proof -
  obtain c h' where "h = c # h'" "length h' = 7" using assms(1) by (cases h) auto
  with assms(2) show ?thesis by simp
qed

lemma dvd4: "4 dvd Suc (Suc (Suc (Suc n))) \<longleftrightarrow> 4 dvd n" "\<not> 4 dvd Suc 0" "\<not> 4 dvd Suc (Suc 0)" "\<not> 4 dvd Suc (Suc (Suc 0))"
  by presburger+

lemma hex_words_kernel: "4 dvd length bs \<Longrightarrow> hex_words little (kernel_addr little bs) = Some bs"
proof (induction little bs rule: kernel_addr.induct)
  case (1 little a b c d bs)
  let ?w = "load_word little [a, b, c, d]"
  have "unat ?w < 16 ^ 8" using unsigned_less [of ?w, where ?'a = nat] by simp
  then have p: "parse_hex32 (hex_pad 8 (unat ?w)) = Some ?w"
    using length_hex_pad [of 8 "unat ?w"] by (simp add: parse_hex32_def hex_fold_pad del: length_hex_pad) (metis length_hex_pad list.size(3) zero_neq_numeral)
  have "put_word little ?w = [a, b, c, d]" by (simp add: put_load)
  moreover have "hex_words little (kernel_addr little bs) = Some bs" using 1 by (simp add: dvd4)
  ultimately show ?case by (simp add: hex_words_append [OF length_hex_pad p])
qed (simp_all add: dvd4)

lemma length_kernel_addr: "4 dvd length bs \<Longrightarrow> length (kernel_addr little bs) = 2 * length bs"
  by (induction little bs rule: kernel_addr.induct) (simp_all add: dvd4)

lemma kernel_addr_chars: "c \<in> set (kernel_addr little bs) \<Longrightarrow> c \<noteq> CHR '':'' \<and> \<not> is_space c"
  by (induction little bs rule: kernel_addr.induct) (auto dest: hex_pad_chars)

definition kernel_socket :: "bool \<Rightarrow> 8 word list \<times> nat \<Rightarrow> string" where
  "kernel_socket little a = kernel_addr little (fst a) @ CHR '':'' # hex_pad 4 (snd a)"

definition socket_address :: "8 word list \<times> nat \<Rightarrow> bool" where
  "socket_address a \<longleftrightarrow> length (fst a) \<in> {4, 16} \<and> snd a < 2 ^ 16"

lemma hex_addr_roundtrip:
  assumes "socket_address a"
  shows "parseHexAddr little ip_String (kernel_socket little a) = (ip_String (fst a), int (snd a))"
proof -
  have dvd: "4 dvd length (fst a)" and len: "length (fst a) \<in> {4, 16}" and port: "snd a < 16 ^ 4"
    using assms by (auto simp: socket_address_def)
  obtain c h where h: "hex_pad 4 (snd a) = c # h" by (cases "hex_pad 4 (snd a)") (auto dest: arg_cong [of _ _ length])
  then have "c \<noteq> CHR ''-'' \<and> c \<noteq> CHR ''+''" using hex_pad_chars [of c 4 "snd a"] by simp
  with h hex_fold_pad [OF port] hex_fold_run [OF hex_fold_pad [OF port]] port have "parse_hex_int32 (hex_pad 4 (snd a)) = int (snd a)" by (simp add: parse_hex_int32_def)
  moreover have "Cut CHR '':'' (kernel_socket little a) = Some (kernel_addr little (fst a), hex_pad 4 (snd a))"
    unfolding kernel_socket_def using kernel_addr_chars by (intro Cut_append) blast
  ultimately show ?thesis using length_kernel_addr [OF dvd, of little] hex_words_kernel [OF dvd, of little] len
    by (auto simp: parseHexAddr_def)
qed


section \<open>Socket tables are read completely\<close>

record net_row =
  nr_slot :: string
  nr_local :: "8 word list \<times> nat"
  nr_remote :: "8 word list \<times> nat"
  nr_state :: string
  nr_rest :: "string list"

definition net_words :: "bool \<Rightarrow> net_row \<Rightarrow> string list" where
  "net_words little r = [nr_slot r, kernel_socket little (nr_local r), kernel_socket little (nr_remote r), nr_state r] @ nr_rest r"

definition net_row_ok :: "bool \<Rightarrow> net_row \<Rightarrow> bool" where
  "net_row_ok little r \<longleftrightarrow> socket_address (nr_local r) \<and> socket_address (nr_remote r) \<and>
     list_all word ([nr_slot r, nr_state r] @ nr_rest r) \<and> length (Join '' '' (net_words little r)) < 64 * 1024"

text \<open>The file: a header, then one line for each socket.\<close>

definition net_table :: "bool \<Rightarrow> string \<Rightarrow> net_row list \<Rightarrow> string" where
  "net_table little header rows = concat (map (\<lambda>l. l @ [CHR 10]) (header # map (\<lambda>r. Join '' '' (net_words little r)) rows))"

lemma Split_lines: "\<forall>l \<in> set ls. c \<notin> set l \<Longrightarrow> Split c (concat (map (\<lambda>l. l @ [c]) ls)) = ls @ [[]]"
proof (induction ls)
  case (Cons l ls)
  then show ?case using Split_append [of c l "concat (map (\<lambda>l. l @ [c]) ls)"] by simp
qed simp

lemma ScanLines_lines:
  assumes "\<forall>l \<in> set ls. CHR 10 \<notin> set l \<and> CHR 13 \<notin> set l \<and> length l < n"
  shows "ScanLines n (concat (map (\<lambda>l. l @ [CHR 10]) ls)) = ls"
proof -
  have "map dropCR ls = ls" using assms by (intro map_idI) (metis dropCR_def last_in_set)
  moreover have "takeWhile (\<lambda>l. length l < n) ls = ls" using assms by (simp add: takeWhile_eq_all_conv)
  moreover have "ScanLines n (concat (map (\<lambda>l. l @ [CHR 10]) ls)) = map dropCR (takeWhile (\<lambda>l. length l < n) ls)"
    using assms by (simp add: ScanLines_def Split_lines)
  ultimately show ?thesis by (simp only:)
qed

lemma word_chars: "word w \<Longrightarrow> x \<in> set w \<Longrightarrow> x \<noteq> CHR 10 \<and> x \<noteq> CHR 13"
  by (auto simp: word_def is_space_def)

lemma kernel_socket_word: "word (kernel_socket little a)"
proof -
  have "\<not> is_space CHR '':''" by (simp add: is_space_def)
  then show ?thesis using kernel_addr_chars hex_pad_chars
    unfolding word_def kernel_socket_def by (auto; blast)
qed

lemma net_row_words: "net_row_ok little r \<Longrightarrow> \<forall>w \<in> set (net_words little r). word w"
  by (simp add: net_row_ok_def net_words_def kernel_socket_word list_all_iff)

lemma net_row_fields: "net_row_ok little r \<Longrightarrow> Fields (Join '' '' (net_words little r)) = net_words little r"
  using net_row_words by (rule Fields_Join)

lemma net_table_lines:
  assumes "list_all (net_row_ok little) rows" and "CHR 10 \<notin> set header" "CHR 13 \<notin> set header" "length header < 64 * 1024"
  shows "drop 1 (ScanLines (64 * 1024) (net_table little header rows)) = map (\<lambda>r. Join '' '' (net_words little r)) rows"
proof -
  have "CHR 10 \<notin> set (Join '' '' (net_words little r)) \<and> CHR 13 \<notin> set (Join '' '' (net_words little r))"
    if "net_row_ok little r" for r
    using net_row_words [OF that] word_chars Join_chars [of _ "'' ''" "net_words little r"] by fastforce
  then have "\<forall>l \<in> set (header # map (\<lambda>r. Join '' '' (net_words little r)) rows). CHR 10 \<notin> set l \<and> CHR 13 \<notin> set l \<and> length l < 64 * 1024"
    using assms by (auto simp: list_all_iff net_row_ok_def)
  from ScanLines_lines [OF this] show ?thesis unfolding net_table_def by simp
qed


definition demo_net_row :: net_row where
  "demo_net_row = \<lparr>nr_slot = ''0:'', nr_local = ([127, 0, 0, 1], 8080), nr_remote = ([0, 0, 0, 0], 0),
     nr_state = ''0A'', nr_rest = []\<rparr>"


section \<open>Capabilities\<close>

text \<open>
  Which capabilities of a file are reported. Exactly the ten on the list whose bit is set in the
  permitted set of the extended attribute, in the order of their numbers: capability \<open>k\<close> is bit
  \<open>k mod 8\<close> of byte \<open>4 + k div 8\<close>. An attribute that is not hexadecimal or too short gives none, and the
  inheritable set and the flags play no role.
\<close>

theorem caps_exact:
  "decodeDangerousCaps s =
     (case hex_bytes s of
        None \<Rightarrow> []
      | Some b \<Rightarrow> if length b < 8 then []
                   else map snd (filter (\<lambda>(k, _). bit (b ! (4 + k div 8)) (k mod 8)) capBitNames))"
proof (cases "hex_bytes s")
  case (Some b)
  show ?thesis
  proof (cases "length b < 8")
    case False
    define w where "w = load_word True (take 4 (drop 4 b))"
    have "8 \<le> length b" using False by simp
    then obtain b0 b1 b2 b3 b4 b5 b6 b7 bs where "b = [b0, b1, b2, b3, b4, b5, b6, b7] @ bs"
      by (auto simp: eval_nat_numeral Suc_le_length_iff)
    then have "take 4 (drop 4 b) = [b ! 4, b ! 5, b ! 6, b ! 7]" by simp
    then have w: "w = ucast (b ! 4) OR push_bit 8 (ucast (b ! 5)) OR push_bit 16 (ucast (b ! 6)) OR push_bit 24 (ucast (b ! 7))"
      by (simp add: w_def load_word_def)
    have wk: "w AND push_bit k 1 \<noteq> 0 \<longleftrightarrow> bit w k" for k
      using and_exp_eq_0_iff_not_bit [of w k] by (simp add: push_bit_eq_mult)
    have "bit w k = bit (b ! (4 + k div 8)) (k mod 8)" if "k \<in> {0, 1, 2, 3, 6, 7, 16, 17, 19, 21}" for k
      using that unfolding w by - (elim insertE emptyE; auto simp: bit_simps dest: bit_imp_le_length)
    then have bits: "w AND push_bit k 1 \<noteq> 0 \<longleftrightarrow> bit (b ! (4 + k div 8)) (k mod 8)" if "k \<in> set dangerousCapBits" for k
      using that wk by (simp add: dangerousCapBits_def)
    have "filter (\<lambda>k. w AND push_bit k 1 \<noteq> 0 \<and> k \<in> set dangerousCapBits) [0..<32] =
        filter (\<lambda>k. bit (b ! (4 + k div 8)) (k mod 8)) (filter (\<lambda>k. k \<in> set dangerousCapBits) [0..<32])"
      using bits by (simp add: conj_commute cong: conj_cong)
    also have "filter (\<lambda>k. k \<in> set dangerousCapBits) [0..<32] = dangerousCapBits" by code_simp
    finally have "decodeDangerousCaps s = map (\<lambda>k. case map_of capBitNames k of None \<Rightarrow> [] | Some n \<Rightarrow> n)
        (filter (\<lambda>k. bit (b ! (4 + k div 8)) (k mod 8)) dangerousCapBits)"
      using Some False by (simp add: decodeDangerousCaps_def w_def Let_def)
    also have "\<dots> = map snd (filter (\<lambda>(k, _). bit (b ! (4 + k div 8)) (k mod 8)) capBitNames)"
      by (simp add: dangerousCapBits_def capBitNames_def)
    finally show ?thesis using Some False by simp
  qed (simp add: decodeDangerousCaps_def Some)
qed (simp add: decodeDangerousCaps_def)

end
