(* ===== verification/ProbeSystem.thy ===== *)
theory ProbeSystem
  imports ProbeFiles ProbeBits
begin

text \<open>
  The collectors that read who may do what and what the system runs: accounts and groups, sudoers, PAM,
  name services, units and timers, kernel settings, repositories, permissions
  (\<open>internal/probe/collect_linux.go\<close>). Metadata of files is an argument.
\<close>

section \<open>Privileges\<close>

record sudo_rule =
  sr_path :: string
  sr_line :: string
  sr_gtfo_bin :: string

definition sudo_line :: "string \<Rightarrow> string \<Rightarrow> sudo_rule option" where
  "sudo_line f line =
     (let t = TrimSpace line; gtfo = sudoGtfoBin t; envKeepLD = (Contains t ''env_keep'' \<and> Contains t ''LD_'') in
      if t = [] \<or> HasPrefix t ''#'' \<or> HasPrefix t ''@includedir'' then None
      else if gtfo \<noteq> [] \<or> envKeepLD \<or> Contains t ''NOPASSWD'' \<or> Contains t ''SETENV'' \<or>
        Contains t ''/tmp/'' \<or> Contains t ''/dev/shm/'' \<or> Contains t ''/home/''
      then Some \<lparr>sr_path = f, sr_line = t, sr_gtfo_bin = gtfo\<rparr> else None)"

definition collectSudoers :: "globs \<Rightarrow> files \<Rightarrow> sudo_rule list" where
  "collectSudoers glob fs =
     concat (map (\<lambda>f. List.map_filter (sudo_line f) (nonEmptyLines (readFile fs f))) ([''/etc/sudoers''] @ glob ''/etc/sudoers.d/*''))"

record pam_entry =
  pa_service :: string
  pa_type :: string
  pa_module :: string
  pa_args :: string
  pa_path :: string

definition pam_line :: "string \<Rightarrow> string \<Rightarrow> pam_entry option" where
  "pam_line svc line =
     (let t = TrimSpace line; fields = Fields t; md = fields ! 2 in
      if t = [] \<or> HasPrefix t ''#'' \<or> HasPrefix t ''@'' then None
      else if length fields < 3 then None
      else Some \<lparr>pa_service = svc, pa_type = TrimPrefix (fields ! 0) ''-'', pa_module = path_base md,
             pa_args = (if length fields > 3 then Join '' '' (drop 3 fields) else []),
             pa_path = (if HasPrefix md ''/'' then md else [])\<rparr>)"

definition collectPAM :: "globs \<Rightarrow> files \<Rightarrow> pam_entry list" where
  "collectPAM glob fs =
     concat (map (\<lambda>f. List.map_filter (pam_line (path_base f)) (nonEmptyLines (readFile fs f))) (glob ''/etc/pam.d/*''))"

definition nsswitchStdModules :: "string list" where
  "nsswitchStdModules =
     [''files'', ''compat'', ''dns'', ''db'', ''nis'', ''nisplus'', ''hesiod'', ''mymachines'', ''systemd'', ''sss'', ''ldap'',
      ''winbind'', ''resolve'', ''myhostname'', ''cache'', ''mdns'', ''mdns4'', ''mdns6'', ''mdns_minimal'', ''mdns4_minimal'',
      ''mdns6_minimal'', ''wins'', ''gw_name'', ''role'']"

definition nsswitch_line :: "string \<Rightarrow> string list" where
  "nsswitch_line line =
     (let t = TrimSpace line in
      if t = [] \<or> HasPrefix t ''#'' then []
      else (case Cut (CHR '':'') t of
          None \<Rightarrow> []
        | Some (db, mods) \<Rightarrow> map (\<lambda>tok. TrimSpace db @ '': '' @ tok)
            (filter (\<lambda>tok. \<not> HasPrefix tok ''['' \<and> \<not> HasSuffix tok '']'' \<and> ToLower tok \<notin> set nsswitchStdModules) (Fields mods))))"

definition collectNsswitchModules :: "files \<Rightarrow> string list" where
  "collectNsswitchModules fs = concat (map nsswitch_line (nonEmptyLines (readFile fs ''/etc/nsswitch.conf'')))"

definition collectSuspiciousShells :: "account list \<Rightarrow> string list" where
  "collectSuspiciousShells accounts =
     List.map_filter (\<lambda>a. let sh = TrimSpace (ac_shell a) in
       if sh = [] then None
       else if referencesWritableDir sh \<or> loginInterpreterMatch (path_base sh) then Some (ac_name a @ '': '' @ sh)
       else None) accounts"

text \<open>\<open>tunnels\<close>: the command lines of the processes.\<close>

definition collectSshTunnels :: "string list \<Rightarrow> string list" where
  "collectSshTunnels cmdlines =
     List.map_filter (\<lambda>c. let k = sshTunnelKind c in if k \<noteq> [] then Some (k @ '': '' @ c) else None) cmdlines"

definition plain_line :: "string \<Rightarrow> string option" where
  "plain_line line = (let t = TrimSpace line in if t = [] \<or> HasPrefix t ''#'' then None else Some t)"

definition collectNfsExports :: "files \<Rightarrow> string list" where
  "collectNfsExports fs = List.map_filter plain_line (nonEmptyLines (readFile fs ''/etc/exports''))"

record udev_rule =
  ur_path :: string
  ur_rule :: string

definition collectUdev :: "globs \<Rightarrow> files \<Rightarrow> udev_rule list" where
  "collectUdev glob fs =
     concat (map (\<lambda>dir. concat (map (\<lambda>f.
         map (\<lambda>t. \<lparr>ur_path = f, ur_rule = t\<rparr>)
           (filter (\<lambda>t. Contains t ''RUN'' \<or> Contains t ''IMPORT{program}'')
             (List.map_filter plain_line (nonEmptyLines (readFile fs f)))))
       (glob (dir @ ''/*.rules'')))) [''/etc/udev/rules.d'', ''/run/udev/rules.d''])"

record binfmt_entry =
  bf_name :: string
  bf_interpreter :: string

text \<open>\<open>names\<close>: the entries of the directory, none when it cannot be read.\<close>

definition collectBinfmt :: "string list \<Rightarrow> files \<Rightarrow> binfmt_entry list" where
  "collectBinfmt names fs =
     concat (map (\<lambda>name. List.map_filter (\<lambda>line.
         (case cut_prefix line ''interpreter '' of
            None \<Rightarrow> None | Some rest \<Rightarrow> Some \<lparr>bf_name = name, bf_interpreter = TrimSpace rest\<rparr>))
       (nonEmptyLines (readFile fs (''/proc/sys/fs/binfmt_misc/'' @ name))))
       (filter (\<lambda>name. name \<noteq> ''register'' \<and> name \<noteq> ''status'') names))"

section \<open>Units and timers\<close>

record unit_state =
  us_start :: string
  us_pre :: "string list"
  us_env :: "string list"

definition after_equals :: "string \<Rightarrow> string" where
  "after_equals t = TrimSpace (case Cut (CHR ''='') t of None \<Rightarrow> t | Some (_, v) \<Rightarrow> v)"

definition unit_line :: "unit_state \<Rightarrow> string \<Rightarrow> unit_state" where
  "unit_line u line =
     (let t = TrimSpace line in
      if HasPrefix t ''ExecStart='' then u\<lparr>us_start := after_equals t\<rparr>
      else if HasPrefix t ''ExecStartPre='' \<or> HasPrefix t ''ExecStartPost='' \<or> HasPrefix t ''ExecReload=''
      then u\<lparr>us_pre := us_pre u @ [after_equals t]\<rparr>
      else if HasPrefix t ''Environment='' then u\<lparr>us_env := us_env u @ [after_equals t]\<rparr>
      else u)"

definition unit_file :: "files \<Rightarrow> string \<Rightarrow> systemd_unit option" where
  "unit_file fs f =
     (let u = foldl unit_line \<lparr>us_start = [], us_pre = [], us_env = []\<rparr> (nonEmptyLines (readFile fs f));
          r = \<lparr>sy_name = path_base f, sy_exec_start = us_start u, sy_enabled = False,
               sy_exec_pre = Join '' | '' (us_pre u), sy_environment = Join '' '' (us_env u)\<rparr>
      in if sy_exec_start r \<noteq> [] \<or> sy_exec_pre r \<noteq> [] \<or> sy_environment r \<noteq> [] then Some r else None)"

definition unit_dirs :: "string list" where
  "unit_dirs = [''/etc/systemd/system'', ''/run/systemd/system'', ''/usr/lib/systemd/system'', ''/lib/systemd/system'']"

definition collectSystemdUnits :: "globs \<Rightarrow> files \<Rightarrow> systemd_unit list" where
  "collectSystemdUnits glob fs = List.map_filter (unit_file fs) (concat (map (\<lambda>d. glob (d @ ''/*.service'')) unit_dirs))"

text \<open>\<open>names\<close> is the order in which the range over the accounts' homes meets their names.\<close>

definition collectPersistence ::
  "(string \<Rightarrow> string) \<Rightarrow> string list \<Rightarrow> account list \<Rightarrow> globs \<Rightarrow> files \<Rightarrow> string list \<times> persistence" where
  "collectPersistence sha names accounts glob fs =
     (map TrimSpace (nonEmptyLines (readFile fs ''/etc/ld.so.preload'')),
      \<lparr>pe_cron = parseCronFile fs ''/etc/crontab'' @ concat (map (parseCronFile fs) (glob ''/etc/cron.d/*'')),
       pe_systemd_units = collectSystemdUnits glob fs,
       pe_authorized_keys = collectAuthorizedKeys sha fs names accounts\<rparr>)"

record systemd_timer =
  st_name :: string
  st_unit :: string
  st_on_calendar :: string
  st_exec_start :: string

fun first_exec :: "string list \<Rightarrow> string option" where
  "first_exec [] = None"
| "first_exec (line # ls) =
     (case cut_prefix (TrimSpace line) ''ExecStart='' of None \<Rightarrow> first_exec ls | Some v \<Rightarrow> Some (TrimSpace v))"

definition exec_by_unit :: "globs \<Rightarrow> files \<Rightarrow> (string \<rightharpoonup> string)" where
  "exec_by_unit glob fs =
     foldl (\<lambda>m f. if m (path_base f) \<noteq> None then m
        else (case first_exec (nonEmptyLines (readFile fs f)) of None \<Rightarrow> m | Some e \<Rightarrow> m(path_base f \<mapsto> e)))
       Map.empty (concat (map (\<lambda>d. glob (d @ ''/*.service'')) unit_dirs))"

definition timer_line :: "string \<times> string list \<Rightarrow> string \<Rightarrow> string \<times> string list" where
  "timer_line st line =
     (let t = TrimSpace line in
      if HasPrefix t ''Unit='' then (TrimSpace (TrimPrefix t ''Unit=''), snd st)
      else if HasPrefix t ''OnCalendar='' \<or> HasPrefix t ''OnBootSec='' \<or> HasPrefix t ''OnUnitActiveSec='' \<or>
        HasPrefix t ''OnStartupSec='' then (fst st, snd st @ [t])
      else st)"

definition timer_file :: "(string \<rightharpoonup> string) \<Rightarrow> files \<Rightarrow> string \<Rightarrow> systemd_timer" where
  "timer_file execs fs f =
     (let name = path_base f;
          st = foldl timer_line (TrimSuffix name ''.timer'' @ ''.service'', []) (nonEmptyLines (readFile fs f))
      in \<lparr>st_name = name, st_unit = fst st, st_on_calendar = Join '' '' (snd st),
          st_exec_start = (case execs (fst st) of None \<Rightarrow> [] | Some e \<Rightarrow> e)\<rparr>)"

text \<open>The first file of each name.\<close>

fun first_by_name :: "string list \<Rightarrow> string set \<Rightarrow> string list" where
  "first_by_name [] seen = []"
| "first_by_name (f # fs) seen =
     (if path_base f \<in> seen then first_by_name fs seen else f # first_by_name fs (insert (path_base f) seen))"

definition collectSystemdTimers :: "globs \<Rightarrow> files \<Rightarrow> systemd_timer list" where
  "collectSystemdTimers glob fs =
     map (timer_file (exec_by_unit glob fs) fs) (first_by_name (concat (map (\<lambda>d. glob (d @ ''/*.timer'')) unit_dirs)) {})"

section \<open>Kernel settings and repositories\<close>

definition collectSysctlHardening :: "globs \<Rightarrow> files \<Rightarrow> string list" where
  "collectSysctlHardening glob fs =
     first_seen (concat (map (\<lambda>f. List.map_filter (\<lambda>line. let kv = sysctlHardeningDisabled line in
         if kv \<noteq> [] then Some (f @ '': '' @ kv) else None) (nonEmptyLines (readFile fs f)))
       ([''/etc/sysctl.conf''] @ concat (map glob [''/etc/sysctl.d/*.conf'', ''/run/sysctl.d/*.conf'']))))"

definition yama_line :: "int \<Rightarrow> string \<Rightarrow> int" where
  "yama_line def line =
     (case Cut (CHR ''='') (TrimSpace (TrimPrefix (TrimSpace line) ''-'')) of
        None \<Rightarrow> def
      | Some (k, v) \<Rightarrow>
          if dotted (TrimSpace k) \<noteq> ''kernel.yama.ptrace_scope'' then def
          else (case Atoi (TrimSpace v) of None \<Rightarrow> def | Some n \<Rightarrow> n))"

definition yamaVendorDefault :: "globs \<Rightarrow> files \<Rightarrow> int" where
  "yamaVendorDefault glob fs =
     foldl yama_line (- 1) (concat (map (\<lambda>f. nonEmptyLines (readFile fs f))
       (concat (map glob [''/usr/lib/sysctl.d/*.conf'', ''/lib/sysctl.d/*.conf'']))))"

text \<open>The fact about the running kernel: present unless the value is the vendor's own zero.\<close>

definition yama_fact :: "globs \<Rightarrow> files \<Rightarrow> int option" where
  "yama_fact glob fs =
     (case Atoi (TrimSpace (readFile fs ''/proc/sys/kernel/yama/ptrace_scope'')) of
        None \<Rightarrow> None | Some v \<Rightarrow> if \<not> (v = 0 \<and> yamaVendorDefault glob fs = 0) then Some v else None)"

definition collectUnverifiedRepos :: "globs \<Rightarrow> files \<Rightarrow> string list" where
  "collectUnverifiedRepos glob fs =
     (let found = (\<lambda>hit f. List.map_filter (\<lambda>line. if hit line then Some (f @ '': '' @ TrimSpace line) else None)
                    (nonEmptyLines (readFile fs f)));
          aptFiles = [''/etc/apt/sources.list''] @ glob ''/etc/apt/sources.list.d/*'';
          yumFiles = [''/etc/dnf/dnf.conf'', ''/etc/yum.conf''] @ concat (map glob [''/etc/yum.repos.d/*.repo'', ''/etc/dnf/*.conf''])
      in first_seen (concat (map (found aptRepoInsecure) aptFiles) @ concat (map (found yumGpgcheckOff) yumFiles)))"

definition grub_line :: "string \<Rightarrow> string option" where
  "grub_line line =
     (let t = TrimSpace line in
      if HasPrefix t ''GRUB_CMDLINE_LINUX'' then map_option snd (Cut (CHR ''='') t) else None)"

definition collectSelinux :: "files \<Rightarrow> string list" where
  "collectSelinux fs =
     (let mode = selinuxConfigMode (readFile fs ''/etc/selinux/config'');
          cmdlines = readFile fs ''/proc/cmdline'' # List.map_filter grub_line (nonEmptyLines (readFile fs ''/etc/default/grub''));
          toks = filter (\<lambda>tok. tok \<noteq> []) (map selinuxBootDisable cmdlines)
      in (if mode \<noteq> [] then [''/etc/selinux/config: SELINUX='' @ mode] else []) @
         (case toks of [] \<Rightarrow> [] | tok # _ \<Rightarrow> [''kernel cmdline: '' @ tok]))"

definition collectProcMountHides :: "files \<Rightarrow> string list" where
  "collectProcMountHides fs =
     List.map_filter (\<lambda>line. let f = Fields line in
       if length f < 5 then None
       else (case cut_prefix (f ! 4) ''/proc/'' of
           None \<Rightarrow> None | Some rest \<Rightarrow> if Atoi rest \<noteq> None then Some (f ! 4) else None))
       (nonEmptyLines (readFile fs ''/proc/self/mountinfo''))"

text \<open>The first value of a directive of the SSH server, over its files; names compare without case.\<close>

definition sshd_line :: "string \<Rightarrow> string \<Rightarrow> string option" where
  "sshd_line key line =
     (let t = TrimSpace line; fields = Fields t in
      if t = [] \<or> HasPrefix t ''#'' then None
      else if length fields \<ge> 2 \<and> ToLower (fields ! 0) = ToLower key then Some (Join '' '' (drop 1 fields)) else None)"

definition sshd_get :: "globs \<Rightarrow> files \<Rightarrow> string \<Rightarrow> string" where
  "sshd_get glob fs key =
     (case List.map_filter (sshd_line key) (concat (map (\<lambda>f. nonEmptyLines (readFile fs f))
        ([''/etc/ssh/sshd_config''] @ glob ''/etc/ssh/sshd_config.d/*.conf''))) of
        [] \<Rightarrow> [] | v # _ \<Rightarrow> v)"

definition collectSSHDFacts :: "globs \<Rightarrow> files \<Rightarrow> (string \<times> string) list" where
  "collectSSHDFacts glob fs =
     [(''sshd_force_command'', sshd_get glob fs ''ForceCommand''),
      (''sshd_authorized_keys_command'', sshd_get glob fs ''AuthorizedKeysCommand''),
      (''sshd_permit_root_login'', sshd_get glob fs ''PermitRootLogin'')]"

section \<open>Permissions\<close>

text \<open>What \<open>os.Stat\<close> tells of a path: whether it is a directory, its mode, its group.\<close>

record file_info =
  fi_dir :: bool
  fi_mode :: "32 word"
  fi_gid :: "nat option"

type_synonym stats = "string \<rightharpoonup> file_info"

record writable_entry =
  we_path :: string
  we_via :: string
  we_group :: string
  we_mode :: string
  we_dir :: bool

definition parse_uint32 :: "string \<Rightarrow> nat option" where
  "parse_uint32 s = (case parse_uint64 s of None \<Rightarrow> None | Some v \<Rightarrow> if v < 2 ^ 32 then Some v else None)"

definition group_name_line :: "(nat \<rightharpoonup> string) \<Rightarrow> string \<Rightarrow> (nat \<rightharpoonup> string)" where
  "group_name_line m line =
     (let f = Split (CHR '':'') (TrimSpace line) in
      if length f < 3 then m else (case parse_uint32 (f ! 2) of None \<Rightarrow> m | Some gid \<Rightarrow> m(gid \<mapsto> f ! 0)))"

definition groupNames :: "files \<Rightarrow> (nat \<rightharpoonup> string)" where
  "groupNames fs = foldl group_name_line Map.empty (nonEmptyLines (readFile fs ''/etc/group''))"

definition writable_entry_of :: "(nat \<rightharpoonup> string) \<Rightarrow> stats \<Rightarrow> bool \<Rightarrow> string \<Rightarrow> writable_entry option" where
  "writable_entry_of groups stat dir p =
     (case stat p of
        None \<Rightarrow> None
      | Some fi \<Rightarrow>
          if fi_dir fi \<noteq> dir then None
          else (case writableVia (fi_mode fi) (fi_gid fi) of (via, gid) \<Rightarrow>
            if via = [] then None
            else Some \<lparr>we_path = p, we_via = via,
                   we_group = (if via = ''group'' then (case groups gid of None \<Rightarrow> [] | Some n \<Rightarrow> n) else []),
                   we_mode = octalMode (fi_mode fi), we_dir = dir\<rparr>))"

definition persistence_files :: "globs \<Rightarrow> string list" where
  "persistence_files glob =
     [''/etc/crontab'', ''/etc/rc.local'', ''/etc/ld.so.preload''] @
     concat (map glob [''/etc/systemd/system/*.service'', ''/etc/systemd/system/*.timer'', ''/etc/cron.d/*'',
       ''/etc/cron.hourly/*'', ''/etc/cron.daily/*'', ''/etc/cron.weekly/*'', ''/etc/cron.monthly/*'',
       ''/etc/sudoers.d/*'', ''/etc/init.d/*''])"

definition persistence_dirs :: "string list" where
  "persistence_dirs =
     [''/etc/systemd/system'', ''/etc/cron.d'', ''/etc/cron.hourly'', ''/etc/cron.daily'', ''/etc/cron.weekly'',
      ''/etc/cron.monthly'', ''/etc/sudoers.d'', ''/etc/init.d'', ''/etc/profile.d'', ''/etc/update-motd.d'', ''/etc/ld.so.conf.d'']"

definition collectWritablePersistence :: "globs \<Rightarrow> files \<Rightarrow> stats \<Rightarrow> writable_entry list" where
  "collectWritablePersistence glob fs stat =
     List.map_filter (writable_entry_of (groupNames fs) stat False) (persistence_files glob) @
     List.map_filter (writable_entry_of (groupNames fs) stat True) persistence_dirs"

definition collectWorldWritableSensitive :: "stats \<Rightarrow> string list" where
  "collectWorldWritableSensitive stat =
     filter (\<lambda>p. case stat p of None \<Rightarrow> False | Some fi \<Rightarrow> \<not> fi_dir fi \<and> Perm (fi_mode fi) AND 2 \<noteq> 0)
       [''/etc/passwd'', ''/etc/shadow'', ''/etc/group'', ''/etc/sudoers'', ''/etc/ssh/sshd_config'', ''/etc/crontab'',
        ''/etc/ld.so.preload'']"

definition dockerSockExposed :: "stats \<Rightarrow> bool" where
  "dockerSockExposed stat \<longleftrightarrow> (\<exists>p \<in> set [''/var/run/docker.sock'', ''/run/docker.sock''].
     case stat p of None \<Rightarrow> False | Some fi \<Rightarrow> fi_mode fi AND 6 \<noteq> 0)"

text \<open>\<open>lstat\<close> does not follow links and tells regular files.\<close>

record dnf_plugin =
  dp_path :: string
  dp_plugin :: string

definition collectDnfPlugins :: "globs \<Rightarrow> (string \<Rightarrow> bool) \<Rightarrow> stats \<Rightarrow> dnf_plugin list" where
  "collectDnfPlugins glob regular lstat =
     map (\<lambda>p. \<lparr>dp_path = p, dp_plugin = TrimSuffix (path_base p) ''.py''\<rparr>)
       (first_seen (filter (\<lambda>p. case lstat p of None \<Rightarrow> False
           | Some fi \<Rightarrow> regular p \<and> nonRootWritable (fi_mode fi) (fi_gid fi))
         (concat (map (\<lambda>base. glob (base @ ''/*.py''))
           [''/usr/lib/python3*/site-packages/dnf-plugins'', ''/usr/lib/python3*/dist-packages/dnf-plugins'', ''/usr/lib/yum-plugins'']))))"

text \<open>\<open>links\<close>: the targets of symbolic links.\<close>

definition collectTamperedLogs :: "(string \<rightharpoonup> string) \<Rightarrow> string list" where
  "collectTamperedLogs links =
     List.map_filter (\<lambda>p. map_option (\<lambda>target. p @ '' -> '' @ target) (links p))
       [''/var/log/auth.log'', ''/var/log/syslog'', ''/var/log/messages'', ''/var/log/secure'', ''/var/log/wtmp'', ''/var/log/btmp'',
        ''/var/log/lastlog'', ''/var/log/audit/audit.log'', ''/var/log/kern.log'', ''/var/log/cron'', ''/var/log/faillog'']"

definition collectExposedKubeconfig :: "globs \<Rightarrow> files \<Rightarrow> stats \<Rightarrow> string list" where
  "collectExposedKubeconfig glob fs stat =
     filter (\<lambda>f. (case stat f of None \<Rightarrow> False
           | Some fi \<Rightarrow> \<not> fi_dir fi \<and> nonRootReadable (fi_mode fi) (fi_gid fi)) \<and>
         contains_any [''client-key-data'', ''client-certificate-data'', ''token:''] (readFile fs f))
       (first_seen (concat (map glob [''/etc/kubernetes/*.conf'', ''/root/.kube/config'', ''/home/*/.kube/config''])))"

definition pod_hits :: "string \<Rightarrow> string list" where
  "pod_hits data =
     (let noSpace = filter (\<lambda>c. c \<noteq> CHR '' '') (ToLower data) in
      filter (Contains noSpace) [''privileged:true'', ''hostpid:true'', ''hostnetwork:true'', ''hostipc:true''] @
      (if Contains noSpace ''hostpath:'' then [''hostPath mount''] else []) @
      map (\<lambda>s. ''runtime socket: '' @ s) (filter (Contains noSpace) [''docker.sock'', ''containerd.sock'', ''crio.sock'']) @
      List.map_filter (trimmed_if looksLikeCradle) (nonEmptyLines data))"

definition collectK8sStaticPods :: "globs \<Rightarrow> files \<Rightarrow> startup_script list" where
  "collectK8sStaticPods glob fs =
     List.map_filter (\<lambda>f. let base = TrimSuffix (TrimSuffix (path_base f) ''.yaml'') ''.yml''; hits = pod_hits (readFile fs f) in
       if base \<in> {''kube-apiserver'', ''kube-controller-manager'', ''kube-scheduler'', ''etcd'', ''kube-proxy''} then None
       else if hits = [] then None
       else Some \<lparr>ss_path = f, ss_lines = sortedUnique hits\<rparr>) (glob ''/etc/kubernetes/manifests/*'')"


section \<open>Who can change what runs as root\<close>

lemma Perm_bits: "Perm m AND 2 \<noteq> 0 \<longleftrightarrow> bit m 1" "Perm m AND 0x10 \<noteq> 0 \<longleftrightarrow> bit m 4"
proof -
  have "bit (0x1FF :: 32 word) 1" "bit (0x1FF :: 32 word) 4" by code_simp+
  then show "Perm m AND 2 \<noteq> 0 \<longleftrightarrow> bit m 1" "Perm m AND 0x10 \<noteq> 0 \<longleftrightarrow> bit m 4"
    using and_exp_eq_0_iff_not_bit [of "Perm m" 1] and_exp_eq_0_iff_not_bit [of "Perm m" 4]
    by (simp_all add: Perm_def bit_and_iff)
qed

lemma writableVia_iff: "fst (writableVia m gid) \<noteq> [] \<longleftrightarrow> bit m 1 \<or> (bit m 4 \<and> (\<exists>g. gid = Some g \<and> g \<noteq> 0))"
  unfolding writableVia_def Perm_bits by (auto split: option.split)

lemma writable_entry_of_Some:
  "(\<exists>e. writable_entry_of groups stat d q = Some e \<and> we_path e = p \<and> we_dir e = d') \<longleftrightarrow>
     q = p \<and> d' = d \<and> (\<exists>fi. stat p = Some fi \<and> fi_dir fi = d \<and> fst (writableVia (fi_mode fi) (fi_gid fi)) \<noteq> [])"
proof (cases "stat q")
  case (Some fi)
  obtain via gid where v: "writableVia (fi_mode fi) (fi_gid fi) = (via, gid)" by fastforce
  define e0 where "e0 = \<lparr>we_path = q, we_via = via,
    we_group = (if via = ''group'' then (case groups gid of None \<Rightarrow> [] | Some n \<Rightarrow> n) else []),
    we_mode = octalMode (fi_mode fi), we_dir = d\<rparr>"
  have e0: "writable_entry_of groups stat d q = (if fi_dir fi \<noteq> d \<or> via = [] then None else Some e0)"
    "we_path e0 = q" "we_dir e0 = d" by (simp_all add: e0_def writable_entry_of_def Some v)
  show ?thesis unfolding e0(1) using e0(2,3) Some v by auto
qed (auto simp: writable_entry_of_def)

lemma map_filter_Bex: "(\<exists>e \<in> set (List.map_filter f xs). P e) \<longleftrightarrow> (\<exists>x \<in> set xs. \<exists>e. f x = Some e \<and> P e)"
  by (auto simp: List.map_filter_def image_iff) force

text \<open>
  Which persistence locations are reported as writable. Exactly the files, and the directories, on the
  lists that exist as such and whose mode lets everyone write, or lets their group write and that group
  is not root's: bits one and four of the mode.
\<close>

theorem writable_persistence_exact:
  "(\<exists>e \<in> set (collectWritablePersistence glob fs stat). we_path e = p \<and> we_dir e = d) \<longleftrightarrow>
     p \<in> set (if d then persistence_dirs else persistence_files glob) \<and>
     (\<exists>fi. stat p = Some fi \<and> fi_dir fi = d \<and>
        (bit (fi_mode fi) 1 \<or> (bit (fi_mode fi) 4 \<and> (\<exists>g. fi_gid fi = Some g \<and> g \<noteq> 0))))"
  unfolding collectWritablePersistence_def set_append bex_Un map_filter_Bex writable_entry_of_Some writableVia_iff
  by (cases d) auto

section \<open>What the readers misread\<close>

text \<open>A control in brackets holds spaces, so a part of it is taken for the module, and its path is lost.\<close>

theorem pam_control_hides_module:
  "pam_line ''sshd'' ''auth [success=done default=ignore] /tmp/evil.so'' =
     Some \<lparr>pa_service = ''sshd'', pa_type = ''auth'', pa_module = ''default=ignore]'', pa_args = ''/tmp/evil.so'', pa_path = []\<rparr>"
  by code_simp

text \<open>A line of sudoers that names the user by number starts like a comment.\<close>

theorem sudo_uid_grant_skipped:
  "sudo_line ''f'' ''#1000 ALL=(ALL) NOPASSWD: ALL'' = None \<and> sudo_line ''f'' ''bob ALL=(ALL) NOPASSWD: ALL'' \<noteq> None"
  by code_simp

text \<open>The words of a comment at the end of a line count as modules.\<close>

theorem nss_comment_reported:
  "nsswitch_line ''hosts: files dns # local'' = [''hosts: #'', ''hosts: local'']"
  by code_simp

text \<open>A unit may start several commands; only the last is reported.\<close>

theorem earlier_exec_start_lost:
  "map_option sy_exec_start (unit_file [''u.service'' \<mapsto> ''ExecStart=/tmp/evil'' @ [CHR 10] @ ''ExecStart=/bin/true''] ''u.service'') =
     Some ''/bin/true''"
  by code_simp

end
