(* ===== verification/ProbeWalk.thy ===== *)
theory ProbeWalk
  imports ProbeSystem
begin

text \<open>
  The collectors that walk directory trees: setuid programs, file capabilities, files in writable places,
  web shells (\<open>internal/probe/collect_linux.go\<close>).

  A tree is what the walk can see: an entry whose metadata cannot be read is absent, a directory that
  cannot be listed is empty, and a link counts as a file that is not regular.
\<close>

section \<open>Walking\<close>

record file_meta =
  fm_regular :: bool
  fm_mode :: "32 word"
  fm_uid :: int
  fm_size :: int
  fm_caps :: string
  fm_head :: string
  fm_real :: string

datatype 'i node = FileNode string 'i | DirNode string "'i node list"

definition path_join :: "string \<Rightarrow> string \<Rightarrow> string" where
  "path_join d n = d @ ''/'' @ n"

fun walk_nodes :: "nat \<Rightarrow> string \<Rightarrow> 'i node list \<Rightarrow> (string \<times> 'i) list" where
  "walk_nodes n d [] = []"
| "walk_nodes n d (FileNode name i # ns) = (path_join d name, i) # walk_nodes n d ns"
| "walk_nodes n d (DirNode name cs # ns) =
     (if n > 0 then walk_nodes (n - 1) (path_join d name) cs else []) @ walk_nodes n d ns"

type_synonym trees = "string \<Rightarrow> file_meta node list"

definition walkDirBounded :: "trees \<Rightarrow> nat \<Rightarrow> string \<Rightarrow> (string \<times> file_meta) list" where
  "walkDirBounded ts maxDepth dir = walk_nodes maxDepth dir (ts dir)"

text \<open>The first entry for each key.\<close>

fun first_by :: "('a \<Rightarrow> 'k) \<Rightarrow> 'a list \<Rightarrow> 'k set \<Rightarrow> 'a list" where
  "first_by key [] seen = []"
| "first_by key (x # xs) seen = (if key x \<in> seen then first_by key xs seen else x # first_by key xs (insert (key x) seen))"

section \<open>Collectors\<close>

record file_entry =
  fe_path :: string
  fe_mode :: string
  fe_uid :: int
  fe_suid :: bool
  fe_sha256 :: string
  fe_hidden :: bool
  fe_caps :: string
  fe_tool :: string

definition setuid :: "file_meta \<Rightarrow> bool" where "setuid i \<longleftrightarrow> fm_mode i AND ModeSetuid \<noteq> 0"

definition collectSuidBinaries :: "trees \<Rightarrow> file_entry list" where
  "collectSuidBinaries ts =
     map (\<lambda>(path, i). \<lparr>fe_path = path, fe_mode = octalMode (fm_mode i), fe_uid = fm_uid i, fe_suid = True, fe_sha256 = [],
            fe_hidden = False, fe_caps = [], fe_tool = []\<rparr>)
       (first_by fst (filter (\<lambda>(path, i). fm_regular i \<and> setuid i \<and> gtfobinsSuidMatch (path_base path))
          (concat (map (walkDirBounded ts 4)
            [''/usr/bin'', ''/usr/sbin'', ''/bin'', ''/sbin'', ''/usr/local/bin'', ''/usr/local/sbin'', ''/opt'', ''/usr/lib'']))) {})"

definition capScanDirs :: "string list" where
  "capScanDirs = [''/usr/bin'', ''/usr/sbin'', ''/bin'', ''/sbin'', ''/usr/local/bin'', ''/usr/local/sbin'', ''/opt'',
     ''/usr/lib'', ''/usr/lib64'', ''/lib'', ''/lib64'']"

definition collectDangerousCapabilities :: "trees \<Rightarrow> file_entry list" where
  "collectDangerousCapabilities ts =
     map (\<lambda>(path, i). \<lparr>fe_path = path, fe_mode = octalMode (fm_mode i), fe_uid = fm_uid i, fe_suid = False, fe_sha256 = [],
            fe_hidden = False, fe_caps = Join '','' (decodeDangerousCaps (fm_caps i)), fe_tool = []\<rparr>)
       (first_by (\<lambda>(_, i). fm_real i)
         (filter (\<lambda>(path, i). fm_regular i \<and> path_base path \<notin> {''snap-confine'', ''newuidmap'', ''newgidmap''} \<and>
              fm_caps i \<noteq> [] \<and> decodeDangerousCaps (fm_caps i) \<noteq> [])
            (concat (map (walkDirBounded ts 6) capScanDirs))) {})"

definition collectWritableSuid :: "trees \<Rightarrow> file_entry list" where
  "collectWritableSuid ts =
     map (\<lambda>(path, i). \<lparr>fe_path = path, fe_mode = octalMode (fm_mode i), fe_uid = fm_uid i, fe_suid = setuid i, fe_sha256 = [],
            fe_hidden = False, fe_caps = [], fe_tool = []\<rparr>)
       (first_by (\<lambda>(_, i). fm_real i)
         (filter (\<lambda>(path, i). fm_regular i \<and> fm_mode i AND (ModeSetuid OR ModeSetgid) \<noteq> 0 \<and> Perm (fm_mode i) AND 0x12 \<noteq> 0)
            (concat (map (walkDirBounded ts 6) (capScanDirs @ [''/etc''])))) {})"

definition underContainerdMountScratch :: "string \<Rightarrow> bool" where
  "underContainerdMountScratch path \<longleftrightarrow> (\<exists>part \<in> set (Split (CHR ''/'') path). HasPrefix part ''containerd-mount'')"

text \<open>The strings that mark a tool, and its label; the range over the map meets them in some order.\<close>

definition toolMarkers :: "(string \<times> string) list" where
  "toolMarkers =
    [(''PEASS-ng'', ''linpeas''), (''linpeas'', ''linpeas''), (''DominicBreuker/pspy'', ''pspy''),
     (''jpillora/chisel'', ''chisel''), (''github.com/bishopfox/sliver'', ''sliver''),
     (''fatedier/frp'', ''frp''), (''nicocha30/ligolo-ng'', ''ligolo-ng''), (''ligolo-ng'', ''ligolo-ng''),
     (''ginuerzh/gost'', ''gost''), (''go-gost/'', ''gost''), (''cloudflare/cloudflared'', ''cloudflared''),
     (''ehang-io/nps'', ''nps''), (''EddieIvan01/iox'', ''iox''), (''esrrhs/pingtunnel'', ''pingtunnel''),
     (''kost/revsocks'', ''revsocks''), (''sshuttle'', ''sshuttle''), (''Ne0nd0g/merlin'', ''merlin''),
     (''jm33-m0/emp3r0r'', ''emp3r0r''), (''emp3r0r'', ''emp3r0r''),
     (''github.com/Ne0nd0g/merlin'', ''merlin''), (''nelhage/reptyr'', ''reptyr''), (''xmrig'', ''xmrig''),
     (''github.com/xmrig'', ''xmrig''), (''dnscat'', ''dnscat2''), (''iodine'', ''iodine''),
     (''ngrok.com'', ''ngrok''), (''gsocket'', ''gsocket'')]"

text \<open>The label of the first marker, in the order the range over the table meets them.\<close>

definition fileToolMarker :: "(string \<times> string) list \<Rightarrow> file_meta \<Rightarrow> string" where
  "fileToolMarker markers i =
     (if fm_size i \<le> 0 \<or> fm_size i > 100 * 2 ^ 20 then []
      else (case filter (\<lambda>(marker, _). Contains (take (256 * 2 ^ 10) (fm_head i)) marker) markers of
          [] \<Rightarrow> [] | (_, label) # _ \<Rightarrow> label))"

definition suspicious_entry :: "(string \<times> string) list \<Rightarrow> string \<times> file_meta \<Rightarrow> file_entry option" where
  "suspicious_entry markers f =
     (case f of (path, i) \<Rightarrow>
        let hidden = HasPrefix (path_base path) ''.''; execable = (Perm (fm_mode i) AND 0x49 \<noteq> 0);
            tool = fileToolMarker markers i
        in if underContainerdMountScratch path \<or> \<not> fm_regular i then None
           else if \<not> setuid i \<and> \<not> (hidden \<and> execable) \<and> fm_caps i = [] \<and> tool = [] then None
           else Some \<lparr>fe_path = path, fe_mode = octalMode (fm_mode i), fe_uid = fm_uid i, fe_suid = setuid i, fe_sha256 = [],
                  fe_hidden = hidden, fe_caps = fm_caps i, fe_tool = tool\<rparr>)"

definition collectSuspiciousFiles :: "(string \<times> string) list \<Rightarrow> trees \<Rightarrow> file_entry list" where
  "collectSuspiciousFiles markers ts =
     List.map_filter (suspicious_entry markers)
       (concat (map (walkDirBounded ts 3) [''/tmp'', ''/var/tmp'', ''/dev/shm'', ''/dev'']))"

text \<open>\<open>filepath.Ext\<close>: from the last dot of the last element.\<close>

definition path_ext :: "string \<Rightarrow> string" where
  "path_ext p =
     (let b = rev (takeWhile (\<lambda>c. c \<noteq> CHR ''/'') (rev p)) in
      if CHR ''.'' \<in> set b then CHR ''.'' # rev (takeWhile (\<lambda>c. c \<noteq> CHR ''.'') (rev b)) else [])"

definition web_exts :: "string list" where
  "web_exts = [''.php'', ''.phtml'', ''.php5'', ''.php7'', ''.inc'', ''.jsp'', ''.jspx'', ''.asp'', ''.aspx'']"

definition webshell_file :: "files \<Rightarrow> string \<Rightarrow> startup_script option" where
  "webshell_file fs path =
     (let hits = take 5 (List.map_filter (trimmed_if webshellHit) (nonEmptyLines (readFile fs path)))
      in if hits = [] then None else Some \<lparr>ss_path = path, ss_lines = hits\<rparr>)"

definition collectWebShells :: "trees \<Rightarrow> files \<Rightarrow> startup_script list" where
  "collectWebShells ts fs =
     List.map_filter (\<lambda>(path, _). webshell_file fs path)
       (first_by fst (filter (\<lambda>(path, i). fm_regular i \<and> \<not> fm_size i > 2 * 2 ^ 20 \<and> ToLower (path_ext path) \<in> set web_exts)
          (concat (map (walkDirBounded ts 6)
            [''/var/www'', ''/var/www/html'', ''/usr/share/nginx/html'', ''/srv/www'', ''/srv/http'', ''/var/www/localhost/htdocs'']))) {})"

section \<open>What the walk visits\<close>

text \<open>A file below a list of nodes: the names on the way to it, the file's own last.\<close>

inductive file_at :: "'i node list \<Rightarrow> string list \<Rightarrow> 'i \<Rightarrow> bool" where
  here: "FileNode name i \<in> set ns \<Longrightarrow> file_at ns [name] i"
| below: "DirNode name cs \<in> set ns \<Longrightarrow> file_at cs names i \<Longrightarrow> file_at ns (name # names) i"

inductive_cases file_at_Nil [elim!]: "file_at ns [] i"
inductive_simps file_at_simps: "file_at ns (name # names) i"

definition join_names :: "string \<Rightarrow> string list \<Rightarrow> string" where
  "join_names d names = foldl path_join d names"

lemma file_at_empty [simp]: "\<not> file_at [] names i"
  by (cases names) (auto simp: file_at_simps)

lemma file_at_Cons:
  "file_at (x # ns) names i \<longleftrightarrow> file_at ns names i \<or>
     (\<exists>name. x = FileNode name i \<and> names = [name]) \<or> (\<exists>name cs rest. x = DirNode name cs \<and> names = name # rest \<and> file_at cs rest i)"
  by (cases names) (auto simp: file_at_simps)

lemma file_at_names: "file_at ns names i \<Longrightarrow> names \<noteq> []"
  by (cases names) auto

lemma walk_nodes_iff:
  "(p, i) \<in> set (walk_nodes n d ns) \<longleftrightarrow> (\<exists>names. file_at ns names i \<and> length names \<le> n + 1 \<and> p = join_names d names)"
proof (induction n d ns arbitrary: p rule: walk_nodes.induct)
  case (2 n d name j ns)
  have "(\<exists>names. file_at (FileNode name j # ns) names i \<and> length names \<le> n + 1 \<and> p = join_names d names) \<longleftrightarrow>
      (\<exists>names. file_at ns names i \<and> length names \<le> n + 1 \<and> p = join_names d names) \<or> (i = j \<and> p = path_join d name)"
    unfolding file_at_Cons by (auto simp: join_names_def)
  with 2 show ?case by auto
next
  case (3 n d name cs ns)
  let ?deep = "if n > 0 then walk_nodes (n - 1) (path_join d name) cs else []"
  have shape: "(\<exists>names. file_at (DirNode name cs # ns) names i \<and> length names \<le> n + 1 \<and> p = join_names d names) \<longleftrightarrow>
      (\<exists>names. file_at ns names i \<and> length names \<le> n + 1 \<and> p = join_names d names) \<or>
      (\<exists>rest. file_at cs rest i \<and> length rest \<le> n \<and> p = join_names (path_join d name) rest)"
    unfolding file_at_Cons by (auto simp: join_names_def)
  have deep: "(p, i) \<in> set ?deep \<longleftrightarrow>
      (\<exists>rest. file_at cs rest i \<and> length rest \<le> n \<and> p = join_names (path_join d name) rest)"
  proof (cases "n > 0")
    case True
    then have le: "n - 1 + 1 = n" by simp
    show ?thesis using 3(1) [OF True, of p] unfolding le if_P [OF True] .
  next
    case False
    then have "n = 0" by simp
    moreover have "\<not> (file_at cs rest i \<and> length rest \<le> 0)" for rest using file_at_names [of cs rest i] by auto
    ultimately show ?thesis by auto
  qed
  have "walk_nodes n d (DirNode name cs # ns) = ?deep @ walk_nodes n d ns" by simp
  then have "(p, i) \<in> set (walk_nodes n d (DirNode name cs # ns)) \<longleftrightarrow> (p, i) \<in> set ?deep \<or> (p, i) \<in> set (walk_nodes n d ns)"
    by (simp only: set_append Un_iff)
  then show ?case unfolding deep 3(2) shape by (rule trans [OF _ disj_commute])
qed simp

lemma first_by_key: "(\<exists>y \<in> set (first_by key xs seen). key y = k) \<longleftrightarrow> k \<notin> seen \<and> (\<exists>x \<in> set xs. key x = k)"
proof (induction xs arbitrary: seen)
  case (Cons a xs)
  show ?case
  proof (cases "key a \<in> seen")
    case True
    then have "key a = k \<longrightarrow> k \<in> seen" by blast
    with True Cons [of seen] show ?thesis by (simp only: first_by.simps if_True list.set bex_simps) blast
  next
    case False
    with Cons [of "insert (key a) seen"] show ?thesis
      by (simp only: first_by.simps if_False list.set bex_simps insert_iff) blast
  qed
qed simp

lemma first_by_subset: "set (first_by key xs seen) \<subseteq> set xs"
  by (induction xs arbitrary: seen) auto

definition suid_dirs :: "string list" where
  "suid_dirs = [''/usr/bin'', ''/usr/sbin'', ''/bin'', ''/sbin'', ''/usr/local/bin'', ''/usr/local/sbin'', ''/opt'', ''/usr/lib'']"

text \<open>
  Which setuid programs are reported. A path is reported exactly if it is a regular file with the
  setuid bit and the name of a program that gives a shell, with or without a version, at most four
  directories below one of the eight program directories: the walk misses nothing at that depth, and goes no
  deeper. Each path is reported once.
\<close>

theorem suid_report_exact:
  "(\<exists>e \<in> set (collectSuidBinaries ts). fe_path e = p) \<longleftrightarrow>
     gtfobinsSuidMatch (path_base p) \<and>
     (\<exists>dir names i. dir \<in> set suid_dirs \<and> file_at (ts dir) names i \<and> length names \<le> 5 \<and> p = join_names dir names \<and>
        fm_regular i \<and> bit (fm_mode i) 23)"
proof -
  let ?all = "concat (map (walkDirBounded ts 4) suid_dirs)"
  have bit: "setuid i \<longleftrightarrow> bit (fm_mode i) 23" for i
    using and_exp_eq_0_iff_not_bit [of "fm_mode i" 23] by (simp add: setuid_def ModeSetuid_def push_bit_eq_mult)
  have "(\<exists>e \<in> set (collectSuidBinaries ts). fe_path e = p) \<longleftrightarrow>
      (\<exists>x \<in> set (filter (\<lambda>(path, i). fm_regular i \<and> setuid i \<and> gtfobinsSuidMatch (path_base path)) ?all). fst x = p)"
    unfolding collectSuidBinaries_def suid_dirs_def [symmetric]
    using first_by_key [of fst "filter (\<lambda>(path, i). fm_regular i \<and> setuid i \<and> gtfobinsSuidMatch (path_base path)) ?all" "{}" p]
    by (simp add: case_prod_unfold)
  also have "\<dots> \<longleftrightarrow> gtfobinsSuidMatch (path_base p) \<and> (\<exists>i. (p, i) \<in> set ?all \<and> fm_regular i \<and> setuid i)" by auto
  also have "\<dots> \<longleftrightarrow> gtfobinsSuidMatch (path_base p) \<and>
     (\<exists>dir names i. dir \<in> set suid_dirs \<and> file_at (ts dir) names i \<and> length names \<le> 5 \<and> p = join_names dir names \<and>
        fm_regular i \<and> bit (fm_mode i) 23)"
    by (auto simp: walkDirBounded_def walk_nodes_iff bit; blast)
  finally show ?thesis .
qed

text \<open>
  Anyone can make a directory with the name containerd uses below \<open>/tmp\<close>; what is in it is not looked at.
\<close>

theorem scratch_name_hides_files:
  "collectSuspiciousFiles markers (\<lambda>d. if d = ''/tmp'' then [DirNode ''containerd-mount-x'' [FileNode ''su'' i]] else []) = []"
proof -
  have "underContainerdMountScratch (path_join (path_join ''/tmp'' ''containerd-mount-x'') ''su'')" by code_simp
  then show ?thesis
    by (simp add: collectSuspiciousFiles_def walkDirBounded_def suspicious_entry_def List.map_filter_simps)
qed

end
