(* ===== verification/ScanRetries.thy ===== *)
theory ScanRetries
  imports ScanQueue
begin

text \<open>
  How often a scan job is attempted: rounds of claiming a job and reporting its failure
  (\<open>ClaimScanJob\<close> of the store, \<open>Queue.fail\<close> of \<open>internal/scan/queue.go\<close>), and rounds in which the
  worker dies before it reports.
\<close>

text \<open>A worker claims a job, its scan fails, and the worker gives the job back.\<close>

definition failed_round :: "queue_env \<Rightarrow> string \<Rightarrow> memory \<Rightarrow> memory" where
  "failed_round q cause m =
     (case ClaimScanJob (qe_job_keys q) (qe_worker q) (qe_claim_at q) (qe_lease q) m of
        (m, Inl e) \<Rightarrow> m
      | (m, Inr job) \<Rightarrow> fst (queue_fail q job cause m))"

text \<open>A worker claims a job and is never heard of again.\<close>

definition crashed_round :: "queue_env \<Rightarrow> memory \<Rightarrow> memory" where
  "crashed_round q m = fst (ClaimScanJob (qe_job_keys q) (qe_worker q) (qe_claim_at q) (qe_lease q) m)"

primrec rounds :: "(nat \<Rightarrow> memory \<Rightarrow> memory) \<Rightarrow> nat \<Rightarrow> memory \<Rightarrow> memory" where
  "rounds f 0 m = m"
| "rounds f (Suc n) m = f n (rounds f n m)"

text \<open>The store has this one scan job.\<close>

definition only_job :: "string \<Rightarrow> memory \<Rightarrow> scan_job \<Rightarrow> bool" where
  "only_job k m j \<longleftrightarrow> scanJobs m = [k \<mapsto> j] \<and> sj_id j = k"

lemma claim_single:
  assumes "only_job k m j" and "job_waiting now j \<or> job_expired now j"
  shows "ClaimScanJob [k] w now l m = (m\<lparr>scanJobs := [k \<mapsto> claimed_job w now l j]\<rparr>, Inr (claimed_job w now l j))"
  using assms by (simp add: only_job_def ClaimScanJob_def entries_def List.map_filter_simps claimed_job_def Let_def)

lemma claim_none:
  assumes "only_job k m j" and "\<not> job_waiting now j" and "\<not> job_expired now j"
  shows "ClaimScanJob ks w now l m = (m, Inl (ErrNotFound ''scan job'' ''claimable''))"
proof -
  have none: "filter (\<lambda>e. job_waiting now (snd e) \<or> job_expired now (snd e)) (entries ks [k \<mapsto> j]) = []"
    using assms(2,3) by (auto simp: filter_empty_conv set_entries split: if_splits)
  have "scanJobs m = [k \<mapsto> j]" using assms(1) by (simp add: only_job_def)
  then show ?thesis unfolding ClaimScanJob_def by (simp only: none sort_key_simps list.case)
qed

lemma failed_round_single:
  assumes "only_job k m j" and "qe_job_keys q = [k]" and "job_waiting (qe_claim_at q) j"
  shows "\<exists>j'. only_job k (failed_round q cause m) j' \<and> sj_attempts j' = sj_attempts j + 1 \<and>
    sj_max_attempts j' = sj_max_attempts j \<and> sj_lease_until j' = None \<and>
    (if sj_attempts j + 1 \<ge> sj_max_attempts j then sj_status j' = ScanJobFailed
     else sj_status j' = ScanJobQueued \<and> sj_next_attempt_at j' = qe_retry_from q + scan_backoff (sj_attempts j + 1))"
proof -
  define c where "c = claimed_job (qe_worker q) (qe_claim_at q) (qe_lease q) j"
  have c: "sj_id c = k" "sj_attempts c = sj_attempts j + 1" "sj_max_attempts c = sj_max_attempts j"
    "sj_status c = ScanJobRunning" "sj_worker_id c = qe_worker q"
    using assms(1) by (simp_all add: c_def only_job_def)
  have "ClaimScanJob (qe_job_keys q) (qe_worker q) (qe_claim_at q) (qe_lease q) m = (m\<lparr>scanJobs := [k \<mapsto> c]\<rparr>, Inr c)"
    unfolding c_def assms(2) by (rule claim_single) (use assms in auto)
  then have r: "failed_round q cause m = fst (queue_fail q c cause (m\<lparr>scanJobs := [k \<mapsto> c]\<rparr>))"
    by (simp add: failed_round_def)
  define given where "given = (if sj_attempts j + 1 \<ge> sj_max_attempts j then c\<lparr>sj_status := ScanJobFailed\<rparr>
    else c\<lparr>sj_status := ScanJobQueued, sj_next_attempt_at := qe_retry_from q + scan_backoff (sj_attempts j + 1)\<rparr>)"
  define j' where "j' = given\<lparr>sj_error := cause, sj_worker_id := [], sj_lease_until := None, sj_updated_at := qe_finish_at q\<rparr>"
  have "owned_job (sj_id c) (qe_worker q) (m\<lparr>scanJobs := [k \<mapsto> c]\<rparr>) = Some c" using c by (simp add: owned_job_def)
  then have "scanJobs (failed_round q cause m) = [k \<mapsto> j']" unfolding r
    by (simp add: queue_fail_def FailScanJob_def Let_def c j'_def given_def)
  then show ?thesis by (intro exI [of _ j']) (simp add: only_job_def j'_def given_def c)
qed

text \<open>
  C38. A scan that keeps failing is given up. A job with \<open>n\<close> attempts left, claimed whenever its backoff is
  over and failed each time, is queued again after every attempt but the last, is failed after exactly
  \<open>n\<close> attempts, and nobody can claim it from then on.
\<close>

theorem failing_scan_ends:
  assumes "only_job k m j" and "sj_status j = ScanJobQueued"
    and "sj_max_attempts j = sj_attempts j + int n" and "0 < n"
    and "\<forall>i. qe_job_keys (q i) = [k]" and "sj_next_attempt_at j \<le> qe_claim_at (q 0)"
    and "\<forall>i. qe_retry_from (q i) + scan_backoff (sj_attempts j + int i + 1) \<le> qe_claim_at (q (Suc i))"
  shows "(\<forall>i < n. \<exists>j'. scanJobs (rounds (\<lambda>i. failed_round (q i) cause) i m) k = Some j' \<and> sj_status j' = ScanJobQueued) \<and>
    (\<exists>j'. scanJobs (rounds (\<lambda>i. failed_round (q i) cause) n m) k = Some j' \<and> sj_status j' = ScanJobFailed \<and>
       sj_attempts j' = sj_max_attempts j) \<and>
    (\<forall>ks w t l. \<exists>e. ClaimScanJob ks w t l (rounds (\<lambda>i. failed_round (q i) cause) n m) =
       (rounds (\<lambda>i. failed_round (q i) cause) n m, Inl e))"
proof -
  let ?after = "\<lambda>i. rounds (\<lambda>i. failed_round (q i) cause) i m"
  have inv: "\<exists>j'. only_job k (?after i) j' \<and> sj_attempts j' = sj_attempts j + int i \<and> sj_max_attempts j' = sj_max_attempts j \<and>
      (if i = n then sj_status j' = ScanJobFailed
       else sj_status j' = ScanJobQueued \<and> sj_next_attempt_at j' \<le> qe_claim_at (q i))" if "i \<le> n" for i
    using that
  proof (induction i)
    case 0
    then show ?case using assms(1,2,4,6) by auto
  next
    case (Suc i)
    then have le: "i \<le> n" and ne: "i \<noteq> n" by simp_all
    from Suc.IH [OF le] obtain j' where j': "only_job k (?after i) j'" "sj_attempts j' = sj_attempts j + int i"
      "sj_max_attempts j' = sj_max_attempts j" "sj_status j' = ScanJobQueued" "sj_next_attempt_at j' \<le> qe_claim_at (q i)"
      unfolding if_not_P [OF ne] by blast
    then have "job_waiting (qe_claim_at (q i)) j'" by (simp add: job_waiting_def)
    with failed_round_single [OF j'(1), of "q i" cause] assms(5) obtain j1 where
      j1: "only_job k (failed_round (q i) cause (?after i)) j1" "sj_attempts j1 = sj_attempts j' + 1"
      "sj_max_attempts j1 = sj_max_attempts j'"
      "if sj_attempts j' + 1 \<ge> sj_max_attempts j' then sj_status j1 = ScanJobFailed
       else sj_status j1 = ScanJobQueued \<and> sj_next_attempt_at j1 = qe_retry_from (q i) + scan_backoff (sj_attempts j' + 1)"
      by blast
    have "sj_attempts j' + 1 \<ge> sj_max_attempts j' \<longleftrightarrow> Suc i = n" using j'(2,3) assms(3) Suc.prems by auto
    moreover have "qe_retry_from (q i) + scan_backoff (sj_attempts j' + 1) \<le> qe_claim_at (q (Suc i))"
      using assms(7) by (simp add: j'(2))
    ultimately show ?case using j1 j'(2,3) by (intro exI [of _ j1]) (simp split: if_splits)
  qed
  from inv [of n] obtain j' where fin: "only_job k (?after n) j'" "sj_status j' = ScanJobFailed"
    "sj_attempts j' = sj_attempts j + int n" by auto
  have "\<exists>e. ClaimScanJob ks w t l (?after n) = (?after n, Inl e)" for ks w t l
    using claim_none [OF fin(1)] fin(2) by (simp add: job_waiting_def job_expired_def)
  moreover have "\<exists>j'. scanJobs (?after i) k = Some j' \<and> sj_status j' = ScanJobQueued" if "i < n" for i
    using inv [of i] that unfolding only_job_def by (metis fun_upd_same less_imp_le nat_neq_iff)
  moreover have "scanJobs (?after n) k = Some j'" using fin(1) by (simp add: only_job_def)
  ultimately show ?thesis using fin assms(3) by auto
qed

definition demo_attempt :: "nat \<Rightarrow> queue_env" where
  "demo_attempt i = demo_queue\<lparr>qe_claim_at := 100 + int i * Hour, qe_retry_from := 100 + int i * Hour\<rparr>"

theorem failing_scan_ends_witness:
  "\<exists>j'. scanJobs (rounds (\<lambda>i. failed_round (demo_attempt i) ''timeout'') 3 demo_queued) ''j'' = Some j' \<and>
     sj_status j' = ScanJobFailed \<and> sj_attempts j' = 3"
proof -
  have b: "scan_backoff (int i + 1) \<le> Hour" for i
  proof -
    have "min (int i) 6 \<in> {0, 1, 2, 3, 4, 5, 6}" by auto
    show ?thesis by (auto simp: scan_backoff_def Let_def)
  qed
  have "sj_max_attempts waiting_job = sj_attempts waiting_job + int 3" "sj_status waiting_job = ScanJobQueued"
    "sj_next_attempt_at waiting_job \<le> qe_claim_at (demo_attempt 0)" "only_job ''j'' demo_queued waiting_job"
    by (simp_all add: only_job_def waiting_job_def demo_attempt_def demo_queue_def demo_queued_def)
  moreover have "\<forall>i. qe_job_keys (demo_attempt i) = [''j'']" by (simp add: demo_attempt_def demo_queue_def)
  moreover have "\<forall>i. qe_retry_from (demo_attempt i) + scan_backoff (sj_attempts waiting_job + int i + 1) \<le> qe_claim_at (demo_attempt (Suc i))"
    using b by (simp add: demo_attempt_def waiting_job_def algebra_simps)
  ultimately show ?thesis
    using failing_scan_ends [of "''j''" demo_queued waiting_job 3 demo_attempt "''timeout''"] by (simp add: waiting_job_def)
qed

text \<open>
  A worker that dies while it scans leaves the job running; when the lease is over the job is claimed again,
  whatever its limit of attempts says: there is no last attempt.
\<close>

theorem crashing_scan_never_ends:
  assumes "only_job k m j" and "sj_status j = ScanJobQueued" and "\<forall>i. qe_job_keys (q i) = [k]"
    and "sj_next_attempt_at j \<le> qe_claim_at (q 0)" and "\<forall>i. qe_claim_at (q i) + qe_lease (q i) \<le> qe_claim_at (q (Suc i))"
  shows "\<exists>j'. only_job k (rounds (\<lambda>i. crashed_round (q i)) (Suc n) m) j' \<and> sj_status j' = ScanJobRunning \<and>
    sj_attempts j' = sj_attempts j + int (Suc n) \<and> sj_max_attempts j' = sj_max_attempts j \<and>
    sj_lease_until j' = Some (qe_claim_at (q n) + qe_lease (q n))"
proof (induction n)
  case 0
  let ?c = "claimed_job (qe_worker (q 0)) (qe_claim_at (q 0)) (qe_lease (q 0)) j"
  have "job_waiting (qe_claim_at (q 0)) j" using assms(2,4) by (simp add: job_waiting_def)
  then have "crashed_round (q 0) m = m\<lparr>scanJobs := [k \<mapsto> ?c]\<rparr>"
    using claim_single [OF assms(1), of "qe_claim_at (q 0)"] assms(3) by (simp add: crashed_round_def)
  with assms(1) show ?case by (intro exI [of _ ?c]) (simp add: only_job_def)
next
  case (Suc n)
  let ?m = "rounds (\<lambda>i. crashed_round (q i)) (Suc n) m"
  from Suc obtain j' where j': "only_job k ?m j'" "sj_status j' = ScanJobRunning"
    "sj_attempts j' = sj_attempts j + int (Suc n)" "sj_max_attempts j' = sj_max_attempts j"
    "sj_lease_until j' = Some (qe_claim_at (q n) + qe_lease (q n))" by blast
  let ?c = "claimed_job (qe_worker (q (Suc n))) (qe_claim_at (q (Suc n))) (qe_lease (q (Suc n))) j'"
  have "job_expired (qe_claim_at (q (Suc n))) j'" using assms(5) j'(2,5) by (simp add: job_expired_def not_less)
  then have "crashed_round (q (Suc n)) ?m = ?m\<lparr>scanJobs := [k \<mapsto> ?c]\<rparr>"
    using claim_single [OF j'(1), of "qe_claim_at (q (Suc n))"] assms(3) by (simp add: crashed_round_def del: rounds.simps)
  then have "rounds (\<lambda>i. crashed_round (q i)) (Suc (Suc n)) m = ?m\<lparr>scanJobs := [k \<mapsto> ?c]\<rparr>" by (simp only: rounds.simps(2))
  with j' show ?case by (intro exI [of _ ?c]) (simp add: only_job_def del: rounds.simps)
qed

end
