(* ===== verification/HostApi.thy ===== *)
theory HostApi
  imports Scheduling Text
begin

text \<open>
  The handlers of \<open>internal/api/api.go\<close> for hosts, scans, baselines, credentials and collections.

  A handler that writes is a function of the store that returns the new store and its answer; one that only
  reads returns the answer. A body that does not decode carries the answer \<open>decode\<close> has already written.
  Identifiers, the clock and the order of the maps are arguments, so is the sealing of secrets (\<open>crypto\<close>).
\<close>

section \<open>Answers\<close>

datatype 'a answer = Fail int string | Body int 'a | Empty int

definition answer_err :: "store_error \<Rightarrow> 'a answer" where
  "answer_err e = (case writeErr e of Err code msg \<Rightarrow> Fail code msg | _ \<Rightarrow> Fail 500 [])"

definition answer_of :: "int \<Rightarrow> store_error + 'a \<Rightarrow> 'a answer" where
  "answer_of code r = (case r of Inl e \<Rightarrow> answer_err e | Inr v \<Rightarrow> Body code v)"

text \<open>A call whose result is not shown.\<close>

definition done_with :: "int \<Rightarrow> unit outcome \<Rightarrow> memory \<times> 'a answer" where
  "done_with code r = (case r of (m, Inl e) \<Rightarrow> (m, answer_err e) | (m, Inr _) \<Rightarrow> (m, Empty code))"

definition shown_with :: "int \<Rightarrow> 'a outcome \<Rightarrow> memory \<times> 'a answer" where
  "shown_with code r = (case r of (m, Inl e) \<Rightarrow> (m, answer_err e) | (m, Inr v) \<Rightarrow> (m, Body code v))"

section \<open>Hosts\<close>

abbreviation ModeScanOnly :: string where "ModeScanOnly \<equiv> ''scan_only''"
abbreviation ModeScanPlusSensor :: string where "ModeScanPlusSensor \<equiv> ''scan_plus_sensor''"

definition put_tag :: "string_map \<Rightarrow> string \<times> string \<Rightarrow> string_map" where
  "put_tag tags kv = kv # filter (\<lambda>e. fst e \<noteq> fst kv) tags"

text \<open>\<open>?tag=key=value\<close>, repeated; of two for one key the later counts.\<close>

definition want_tags :: "string list \<Rightarrow> string_map" where
  "want_tags ts = foldl put_tag [] (List.map_filter (Cut (CHR ''='')) ts)"

definition hostHasTags :: "string_map \<Rightarrow> string_map \<Rightarrow> bool" where
  "hostHasTags have want \<longleftrightarrow> (\<forall>(k, v) \<in> set want. lookup_str have k = v)"

definition listHosts :: "string list \<Rightarrow> string list \<Rightarrow> memory \<Rightarrow> host list answer" where
  "listHosts ks tags m =
     (let hs = ListHosts ks m in
      Body 200 (if tags = [] then hs else filter (\<lambda>h. hostHasTags (h_tags h) (want_tags tags)) hs))"

record host_patch =
  hp_hostname :: "string option"
  hp_mode :: "string option"
  hp_tags :: "string_map option"

text \<open>A tag with an empty value deletes its key.\<close>

definition patch_tag :: "string_map \<Rightarrow> string \<times> string \<Rightarrow> string_map" where
  "patch_tag tags kv = (if snd kv = [] then filter (\<lambda>e. fst e \<noteq> fst kv) tags else put_tag tags kv)"

definition patchHost :: "string \<Rightarrow> host_patch body \<Rightarrow> memory \<Rightarrow> memory \<times> host answer" where
  "patchHost hid body m =
     (case GetHost hid m of
        Inl e \<Rightarrow> (m, answer_err e)
      | Inr h \<Rightarrow> (case body of
          Inl (code, msg) \<Rightarrow> (m, Fail code msg)
        | Inr p \<Rightarrow>
            (let h = (case hp_hostname p of None \<Rightarrow> h | Some n \<Rightarrow> h\<lparr>h_hostname := n\<rparr>) in
             if (case hp_mode p of None \<Rightarrow> False | Some md \<Rightarrow> md \<noteq> ModeScanOnly \<and> md \<noteq> ModeScanPlusSensor)
             then (m, Fail 400 ''invalid mode'')
             else
               (let h = (case hp_mode p of None \<Rightarrow> h | Some md \<Rightarrow> h\<lparr>h_mode := md\<rparr>);
                    h = (case hp_tags p of None \<Rightarrow> h | Some ts \<Rightarrow> h\<lparr>h_tags := foldl patch_tag (h_tags h) ts\<rparr>)
                in (case UpdateHost h m of (m, Inl e) \<Rightarrow> (m, answer_err e) | (m, Inr _) \<Rightarrow> (m, Body 200 h))))))"

definition createHost :: "string \<Rightarrow> go_time \<Rightarrow> host body \<Rightarrow> memory \<Rightarrow> memory \<times> host answer" where
  "createHost uuid now body m =
     (case body of
        Inl (code, msg) \<Rightarrow> (m, Fail code msg)
      | Inr h \<Rightarrow>
          if h_hostname h = [] \<and> h_primary_ip h = [] then (m, Fail 400 ''hostname or primary_ip required'')
          else shown_with 201 (CreateHost uuid now
            (h\<lparr>h_ssh_port := (if h_ssh_port h = 0 then 22 else h_ssh_port h),
               h_mode := or_default (h_mode h) ModeScanOnly, h_status := StatusPending\<rparr>) m))"

definition getHost :: "string \<Rightarrow> memory \<Rightarrow> host answer" where
  "getHost hid m = answer_of 200 (GetHost hid m)"

definition deleteHost :: "string \<Rightarrow> memory \<Rightarrow> memory \<times> unit answer" where
  "deleteHost hid m = done_with 204 (DeleteHost hid m)"

section \<open>Scans and baselines\<close>

definition triggerScan ::
  "bool \<Rightarrow> string list \<Rightarrow> string \<Rightarrow> go_time \<Rightarrow> string \<Rightarrow> memory \<Rightarrow> memory \<times> scan_job answer" where
  "triggerScan has_queue jk uuid now hid m =
     (case GetHost hid m of
        Inl e \<Rightarrow> (m, answer_err e)
      | Inr h \<Rightarrow>
          if \<not> has_queue then (m, Fail 503 ''scan queue unavailable'')
          else shown_with 202 (Enqueue jk uuid now h ''api'' m))"

definition getScanJob :: "string \<Rightarrow> memory \<Rightarrow> scan_job answer" where
  "getScanJob i m = answer_of 200 (GetScanJob i m)"

text \<open>\<open>limit\<close> as \<open>strconv.Atoi\<close> leaves it: zero for what is no number.\<close>

definition listScanJobs :: "string list \<Rightarrow> string \<Rightarrow> int \<Rightarrow> memory \<Rightarrow> scan_job list answer" where
  "listScanJobs ks hid limit m = Body 200 (ListScanJobs ks hid limit m)"

definition listScans :: "string list \<Rightarrow> string \<Rightarrow> memory \<Rightarrow> scan list answer" where
  "listScans ks hid m = Body 200 (ListScansByHost ks hid m)"

definition getScan :: "string \<Rightarrow> memory \<Rightarrow> scan answer" where
  "getScan i m = answer_of 200 (GetScan i m)"

definition getBaseline :: "string \<Rightarrow> memory \<Rightarrow> baseline answer" where
  "getBaseline hid m = answer_of 200 (GetBaseline hid m)"

definition resetBaseline :: "string \<Rightarrow> memory \<Rightarrow> memory \<times> unit answer" where
  "resetBaseline hid m = done_with 204 (DeleteBaseline hid m)"

section \<open>Credentials\<close>

abbreviation AuthSSHKey :: string where "AuthSSHKey \<equiv> ''ssh_key''"
abbreviation AuthPassword :: string where "AuthPassword \<equiv> ''password''"
abbreviation AuthSSHAgent :: string where "AuthSSHAgent \<equiv> ''ssh_agent''"

text \<open>What JSON shows of a credential: the sealed secrets carry the tag \<open>-\<close>.\<close>

definition shown_credential :: "credential \<Rightarrow> credential" where
  "shown_credential c = c\<lparr>cr_secret_enc := [], cr_sudo_secret_enc := []\<rparr>"

definition listCredentials :: "string list \<Rightarrow> memory \<Rightarrow> credential list answer" where
  "listCredentials ks m = Body 200 (map shown_credential (ListCredentials ks m))"

record credential_body =
  cb_name :: string
  cb_username :: string
  cb_auth_type :: string
  cb_secret :: string
  cb_sudo_password :: string

definition credential_auth_type :: "string \<Rightarrow> string + string" where
  "credential_auth_type t =
     (if t = AuthSSHKey \<or> t = AuthPassword then Inr t
      else if t = [] then Inr AuthSSHKey
      else if t = AuthSSHAgent then Inl ''ssh_agent auth is not implemented for scans yet; use ssh_key or password''
      else Inl ''invalid auth_type'')"

text \<open>\<open>sealErr\<close> is the text of a sealing that fails. The sudo password is sealed if there is one; a credential without it has an empty field.\<close>

definition seal_optional :: "crypto \<Rightarrow> string \<Rightarrow> bytes option" where
  "seal_optional k pw = (if pw = [] then Some [] else sealSecret k pw)"

definition createCredential ::
  "crypto option \<Rightarrow> string \<Rightarrow> string \<Rightarrow> go_time \<Rightarrow> credential_body body \<Rightarrow> memory \<Rightarrow> memory \<times> credential answer" where
  "createCredential crypt sealErr uuid now body m =
     (case crypt of
        None \<Rightarrow> (m, Fail 503 ''credential sealing disabled: no node key configured'')
      | Some k \<Rightarrow> (case body of
          Inl (code, msg) \<Rightarrow> (m, Fail code msg)
        | Inr b \<Rightarrow>
            if cb_username b = [] \<or> cb_secret b = [] then (m, Fail 400 ''username and secret required'')
            else (case credential_auth_type (cb_auth_type b) of
                Inl msg \<Rightarrow> (m, Fail 400 msg)
              | Inr t \<Rightarrow> (case sealSecret k (cb_secret b) of
                  None \<Rightarrow> (m, Fail 500 sealErr)
                | Some sealed \<Rightarrow> (case seal_optional k (cb_sudo_password b) of
                    None \<Rightarrow> (m, Fail 500 sealErr)
                  | Some sudo \<Rightarrow>
                      (case CreateCredential uuid now
                         \<lparr>cr_id = [], cr_name = cb_name b, cr_username = cb_username b, cr_auth_type = t,
                          cr_secret_enc = sealed, cr_sudo_secret_enc = sudo, cr_created_at = 0\<rparr> m of
                         (m, Inl e) \<Rightarrow> (m, answer_err e)
                       | (m, Inr c) \<Rightarrow> (m, Body 201 (shown_credential c))))))))"

definition deleteCredential :: "string \<Rightarrow> memory \<Rightarrow> memory \<times> unit answer" where
  "deleteCredential i m = done_with 204 (DeleteCredential i m)"

section \<open>Collections\<close>

definition listCollections :: "string list \<Rightarrow> memory \<Rightarrow> collection list answer" where
  "listCollections ks m = Body 200 (ListCollections ks m)"

definition createCollection :: "string \<Rightarrow> go_time \<Rightarrow> collection body \<Rightarrow> memory \<Rightarrow> memory \<times> collection answer" where
  "createCollection uuid now body m =
     (case body of
        Inl (code, msg) \<Rightarrow> (m, Fail code msg)
      | Inr c \<Rightarrow>
          if co_name c = [] then (m, Fail 400 ''name required'')
          else if co_dynamic c \<and> co_match_tags c = [] then (m, Fail 400 ''dynamic collection requires match_tags'')
          else shown_with 201 (CreateCollection uuid now c m))"

definition getCollection :: "string \<Rightarrow> memory \<Rightarrow> collection answer" where
  "getCollection i m = answer_of 200 (GetCollection i m)"

record collection_patch =
  cp_name :: "string option"
  cp_description :: "string option"
  cp_match_tags :: "string_map option"

definition patchCollection :: "string \<Rightarrow> collection_patch body \<Rightarrow> memory \<Rightarrow> memory \<times> collection answer" where
  "patchCollection i body m =
     (case GetCollection i m of
        Inl e \<Rightarrow> (m, answer_err e)
      | Inr c \<Rightarrow> (case body of
          Inl (code, msg) \<Rightarrow> (m, Fail code msg)
        | Inr p \<Rightarrow>
            (let c = (case cp_name p of None \<Rightarrow> c | Some n \<Rightarrow> c\<lparr>co_name := n\<rparr>);
                 c = (case cp_description p of None \<Rightarrow> c | Some d \<Rightarrow> c\<lparr>co_description := d\<rparr>);
                 c = (case cp_match_tags p of None \<Rightarrow> c | Some ts \<Rightarrow> c\<lparr>co_match_tags := ts\<rparr>)
             in (case UpdateCollection c m of (m, Inl e) \<Rightarrow> (m, answer_err e) | (m, Inr _) \<Rightarrow> (m, Body 200 c)))))"

definition deleteCollection :: "string \<Rightarrow> memory \<Rightarrow> memory \<times> unit answer" where
  "deleteCollection i m = done_with 204 (DeleteCollection i m)"

definition collectionHosts :: "string list \<Rightarrow> string \<Rightarrow> memory \<Rightarrow> host list answer" where
  "collectionHosts ks i m = answer_of 200 (CollectionHosts ks i m)"

definition addCollectionMember :: "string \<Rightarrow> string \<Rightarrow> memory \<Rightarrow> memory \<times> unit answer" where
  "addCollectionMember i hid m = done_with 204 (AddCollectionMember i hid m)"

definition removeCollectionMember :: "string \<Rightarrow> string \<Rightarrow> memory \<Rightarrow> memory \<times> unit answer" where
  "removeCollectionMember i hid m = done_with 204 (RemoveCollectionMember i hid m)"

end
