(* ===== verification/Secrets.thy ===== *)
theory Secrets
  imports HostApi
begin

text \<open>
  Sealing of credentials (\<open>internal/secrets/secrets.go\<close>): secrets are sealed to a public key and
  opened with the private one, which a server may do without.

  The sealed boxes of NaCl, the derivation of a public key on Curve25519 and base64 are arguments; what
  is relied on of them is named below.
\<close>

section \<open>Keys\<close>

text \<open>
  \<open>bx_seal\<close> takes the randomness it uses as its first argument and fails when there is none to be had;
  \<open>bx_open\<close> takes the ciphertext and both keys.
\<close>

record nacl =
  bx_generate :: "string + string \<times> string"
  bx_derive :: "string \<Rightarrow> string + string"
  bx_seal :: "string \<Rightarrow> string \<Rightarrow> string \<Rightarrow> string + bytes"
  bx_open :: "bytes \<Rightarrow> string \<Rightarrow> string \<Rightarrow> string option"
  b64_encode :: "string \<Rightarrow> string"
  b64_decode :: "string \<Rightarrow> string + string"

record key_holder =
  cx_pub :: string
  cx_priv :: "string option"

definition decodeKey :: "nacl \<Rightarrow> string \<Rightarrow> string + string" where
  "decodeKey n s =
     (case b64_decode n s of
        Inl e \<Rightarrow> Inl e
      | Inr raw \<Rightarrow> if length raw \<noteq> 32 then Inl (''expected 32-byte key, got '' @ Itoa (int (length raw))) else Inr raw)"

definition GenerateKeyPair :: "nacl \<Rightarrow> string + string \<times> string" where
  "GenerateKeyPair n =
     (case bx_generate n of Inl e \<Rightarrow> Inl e | Inr (pub, priv) \<Rightarrow> Inr (b64_encode n pub, b64_encode n priv))"

text \<open>The derived key is copied into 32 bytes.\<close>

definition copy32 :: "string \<Rightarrow> string" where
  "copy32 b = take 32 b @ replicate (32 - length b) (CHR 0x00)"

definition FromNodeKey :: "nacl \<Rightarrow> string \<Rightarrow> string + key_holder" where
  "FromNodeKey n privB64 =
     (case decodeKey n privB64 of
        Inl e \<Rightarrow> Inl (''node key: '' @ e)
      | Inr priv \<Rightarrow> (case bx_derive n priv of
          Inl e \<Rightarrow> Inl (''derive public key: '' @ e)
        | Inr pub \<Rightarrow> Inr \<lparr>cx_pub = copy32 pub, cx_priv = Some priv\<rparr>))"

definition FromPublicKey :: "nacl \<Rightarrow> string \<Rightarrow> string + key_holder" where
  "FromPublicKey n pubB64 =
     (case decodeKey n pubB64 of
        Inl e \<Rightarrow> Inl (''public key: '' @ e)
      | Inr pub \<Rightarrow> Inr \<lparr>cx_pub = pub, cx_priv = None\<rparr>)"

definition PublicKey :: "nacl \<Rightarrow> key_holder \<Rightarrow> string" where
  "PublicKey n c = b64_encode n (cx_pub c)"

definition CanOpen :: "key_holder \<Rightarrow> bool" where
  "CanOpen c \<longleftrightarrow> cx_priv c \<noteq> None"

definition Seal :: "nacl \<Rightarrow> string \<Rightarrow> key_holder \<Rightarrow> string \<Rightarrow> string + bytes" where
  "Seal n rnd c plaintext = bx_seal n rnd (cx_pub c) plaintext"

definition Open :: "nacl \<Rightarrow> key_holder \<Rightarrow> bytes \<Rightarrow> string + string" where
  "Open n c ciphertext =
     (case cx_priv c of
        None \<Rightarrow> Inl ''cannot open: no private key loaded''
      | Some priv \<Rightarrow> (case bx_open n ciphertext (cx_pub c) priv of
          None \<Rightarrow> Inl ''decrypt failed (wrong key or corrupt ciphertext)''
        | Some out \<Rightarrow> Inr out))"

text \<open>
  \<open>openCrypto\<close> of the server: the key of the environment, or a fresh one that does not survive a
  restart. \<open>Inl\<close> is a start that fails.
\<close>

definition openCrypto :: "nacl \<Rightarrow> string \<Rightarrow> string + key_holder" where
  "openCrypto n env =
     (if env \<noteq> [] then (case FromNodeKey n env of Inl e \<Rightarrow> Inl (''BLADEDR_NODE_KEY: '' @ e) | Inr c \<Rightarrow> Inr c)
      else (case GenerateKeyPair n of
          Inl e \<Rightarrow> Inl (''generate node key: '' @ e)
        | Inr (pub, priv) \<Rightarrow> FromNodeKey n priv))"

text \<open>The same as the rest of the server sees it.\<close>

definition crypto_of :: "nacl \<Rightarrow> string \<Rightarrow> key_holder \<Rightarrow> crypto" where
  "crypto_of n rnd c =
     \<lparr>canOpen = CanOpen c,
      openSecret = (\<lambda>b. case Open n c b of Inl _ \<Rightarrow> None | Inr s \<Rightarrow> Some s),
      sealSecret = (\<lambda>s. case Seal n rnd c s of Inl _ \<Rightarrow> None | Inr b \<Rightarrow> Some b)\<rparr>"

section \<open>Split trust\<close>

text \<open>
  What is relied on: base64 gives back what it was given, keys are 32 bytes, and a box sealed to the public
  key derived from a private key is opened with the two.
\<close>

definition nacl_laws :: "nacl \<Rightarrow> bool" where
  "nacl_laws n \<longleftrightarrow> (\<forall>b. b64_decode n (b64_encode n b) = Inr b) \<and>
     (\<forall>priv pub. bx_derive n priv = Inr pub \<longrightarrow> length pub = 32 \<and>
        (\<forall>rnd s b. bx_seal n rnd pub s = Inr b \<longrightarrow> bx_open n b pub priv = Some s))"

lemma copy32_id [simp]: "length b = 32 \<Longrightarrow> copy32 b = b"
  by (simp add: copy32_def)

lemma FromNodeKey_keys:
  assumes "nacl_laws n" and "FromNodeKey n k = Inr c"
  shows "\<exists>priv. cx_priv c = Some priv \<and> bx_derive n priv = Inr (cx_pub c) \<and> length (cx_pub c) = 32"
  using assms unfolding FromNodeKey_def nacl_laws_def by (auto split: sum.splits)

text \<open>
  Split trust. From a node key and the public key it shows, two processes can be set up: the one with
  the public key alone seals to the same key, says it cannot open and opens nothing whatever it is given; what it
  seals, the node opens to the text that was sealed.
\<close>

theorem split_trust:
  assumes laws: "nacl_laws n" and node: "FromNodeKey n k = Inr node"
  shows "\<exists>server. FromPublicKey n (PublicKey n node) = Inr server \<and> PublicKey n server = PublicKey n node \<and>
     CanOpen node \<and> \<not> CanOpen server \<and>
     (\<forall>ct. openSecret (crypto_of n rnd server) ct = None) \<and>
     (\<forall>s ct. sealSecret (crypto_of n rnd server) s = Some ct \<longrightarrow> openSecret (crypto_of n rnd' node) ct = Some s)"
proof -
  from FromNodeKey_keys [OF laws node] obtain priv where p: "cx_priv node = Some priv"
    "bx_derive n priv = Inr (cx_pub node)" "length (cx_pub node) = 32" by blast
  have b: "b64_decode n (b64_encode n (cx_pub node)) = Inr (cx_pub node)" using laws by (simp add: nacl_laws_def)
  have s: "FromPublicKey n (PublicKey n node) = Inr \<lparr>cx_pub = cx_pub node, cx_priv = None\<rparr>"
    by (simp add: FromPublicKey_def PublicKey_def decodeKey_def b p(3))
  have "bx_open n ct (cx_pub node) priv = Some t" if "bx_seal n rnd (cx_pub node) t = Inr ct" for t ct
    using laws p(2) that unfolding nacl_laws_def by blast
  then have "sealSecret (crypto_of n rnd \<lparr>cx_pub = cx_pub node, cx_priv = None\<rparr>) t = Some ct \<longrightarrow>
      openSecret (crypto_of n rnd' node) ct = Some t" for t ct
    by (auto simp: crypto_of_def Open_def Seal_def p(1) split: sum.splits)
  moreover have "openSecret (crypto_of n rnd \<lparr>cx_pub = cx_pub node, cx_priv = None\<rparr>) ct = None" for ct
    by (simp add: crypto_of_def Open_def)
  ultimately show ?thesis
    by (intro exI [of _ "\<lparr>cx_pub = cx_pub node, cx_priv = None\<rparr>"]) (simp add: s [unfolded PublicKey_def] PublicKey_def CanOpen_def p(1))
qed

text \<open>A box with a readable seal: the keys are 32 bytes and equal, the ciphertext carries the key.\<close>

definition demo_nacl :: nacl where
  "demo_nacl = \<lparr>bx_generate = Inr (replicate 32 (CHR ''k''), replicate 32 (CHR ''k'')),
     bx_derive = (\<lambda>k. if length k = 32 then Inr k else Inl ''bad''),
     bx_seal = (\<lambda>r pub s. Inr (pub @ s)), bx_open = (\<lambda>c pub priv. if take 32 c = priv then Some (drop 32 c) else None),
     b64_encode = (\<lambda>b. b), b64_decode = (\<lambda>b. Inr b)\<rparr>"

lemma demo_nacl_laws: "nacl_laws demo_nacl"
  by (auto simp: nacl_laws_def demo_nacl_def split: if_splits)

theorem split_trust_witness:
  "\<exists>node server. FromNodeKey demo_nacl (replicate 32 (CHR ''k'')) = Inr node \<and>
     FromPublicKey demo_nacl (PublicKey demo_nacl node) = Inr server \<and> CanOpen node \<and> \<not> CanOpen server"
proof -
  obtain node where n: "FromNodeKey demo_nacl (replicate 32 (CHR ''k'')) = Inr node"
    by (simp add: FromNodeKey_def decodeKey_def demo_nacl_def)
  from split_trust [OF demo_nacl_laws n] n show ?thesis by blast
qed

end
