(* ===== verification/RulesApi.thy ===== *)
theory RulesApi
  imports HostApi RuleSet
begin

text \<open>
  The rule handlers of \<open>internal/api/api.go\<close> and the active rule set the server makes of the builtin rules
  and the store (\<open>loadActiveRules\<close> in \<open>cmd/bladedr-server/main.go\<close>).

  The YAML documents of a body, the CEL compiler and the JSON a definition is kept as are arguments. A store
  lists its rules in the order \<open>ks\<close> gives before it sorts them.
\<close>

section \<open>The active rules\<close>

definition stored_rule :: "(string \<Rightarrow> rule option) \<Rightarrow> rule_record \<Rightarrow> rule option" where
  "stored_rule unmarshal rec = map_option (\<lambda>ru. ru\<lparr>ru_enabled := Some (r_enabled rec)\<rparr>) (unmarshal (r_definition rec))"

definition loadActiveRules :: "(string \<Rightarrow> rule option) \<Rightarrow> rule list \<Rightarrow> string list \<Rightarrow> memory \<Rightarrow> rule list" where
  "loadActiveRules unmarshal base ks m = Merge [base, List.map_filter (stored_rule unmarshal) (ListRules ks m)]"

section \<open>Handlers\<close>

definition listRules :: "string list \<Rightarrow> memory \<Rightarrow> rule_record list answer" where
  "listRules ks m = Body 200 (ListRules ks m)"

text \<open>\<open>ActiveRules\<close> of the API is a field that may be nil, and a function of the store that may fail.\<close>

definition listActiveRules :: "(memory \<Rightarrow> store_error + rule list) option \<Rightarrow> memory \<Rightarrow> rule list answer" where
  "listActiveRules active m =
     (case active of
        None \<Rightarrow> Fail 501 ''active rule set not available''
      | Some load \<Rightarrow> (case load m of Inl e \<Rightarrow> answer_err e | Inr rs \<Rightarrow> Body 200 (filter IsEnabled rs)))"

definition record_of :: "string \<Rightarrow> rule \<Rightarrow> bool \<Rightarrow> string \<Rightarrow> rule_record" where
  "record_of i ru enabled def =
     \<lparr>r_id = i, r_source = ''user'', r_category = ru_category ru, r_severity = ru_severity ru, r_mitre = ru_mitre ru,
      r_enabled = enabled, r_definition = def\<rparr>"

text \<open>The body has been read up to its limit (\<open>Inl\<close>: reading failed) and decoded into documents.\<close>

definition createRule ::
  "(string \<Rightarrow> string + cel_program) \<Rightarrow> (rule \<Rightarrow> string + string) \<Rightarrow> string + (string + rule) list \<Rightarrow> memory \<Rightarrow>
   memory \<times> rule_record answer" where
  "createRule celc marshal body m =
     (case body of
        Inl e \<Rightarrow> (m, Fail 400 (''read body: '' @ e))
      | Inr docs \<Rightarrow> (case ParseRules docs of
          Inl e \<Rightarrow> (m, Fail 400 e)
        | Inr parsed \<Rightarrow> (case parsed of
            [ru] \<Rightarrow> (case ValidateRule celc ru of
                Some e \<Rightarrow> (m, Fail 400 (''invalid rule: '' @ e))
              | None \<Rightarrow> (case marshal ru of
                  Inl e \<Rightarrow> (m, Fail 500 e)
                | Inr def \<Rightarrow>
                    (let rec = record_of (ru_id ru) ru (IsEnabled ru) def in
                     case UpsertRule rec m of (m, Inl e) \<Rightarrow> (m, answer_err e) | (m, Inr _) \<Rightarrow> (m, Body 201 rec))))
          | _ \<Rightarrow> (m, Fail 400 ''expected exactly one rule''))))"

definition activeRule :: "(memory \<Rightarrow> store_error + rule list) option \<Rightarrow> string \<Rightarrow> memory \<Rightarrow> rule option" where
  "activeRule active i m =
     (case active of
        None \<Rightarrow> None
      | Some load \<Rightarrow> (case load m of Inl e \<Rightarrow> None | Inr rs \<Rightarrow> find (\<lambda>ru. ru_id ru = i) rs))"

text \<open>A definition that does not marshal is stored empty: the error is dropped.\<close>

definition patchRule ::
  "(memory \<Rightarrow> store_error + rule list) option \<Rightarrow> (rule \<Rightarrow> string + string) \<Rightarrow> string \<Rightarrow> bool option body \<Rightarrow> memory \<Rightarrow>
   memory \<times> unit answer" where
  "patchRule active marshal i body m =
     (case body of
        Inl (code, msg) \<Rightarrow> (m, Fail code msg)
      | Inr None \<Rightarrow> (m, Fail 400 ''enabled required'')
      | Inr (Some enabled) \<Rightarrow>
          done_with 204
            (case SetRuleEnabled i enabled m of
               (m, Inl (ErrNotFound k j)) \<Rightarrow>
                 (case activeRule active i m of
                    None \<Rightarrow> (m, Inl (ErrNotFound k j))
                  | Some ru \<Rightarrow> UpsertRule (record_of i ru enabled (case marshal ru of Inl _ \<Rightarrow> [] | Inr def \<Rightarrow> def)) m)
             | r \<Rightarrow> r))"

definition deleteRule :: "string \<Rightarrow> memory \<Rightarrow> memory \<times> unit answer" where
  "deleteRule i m = done_with 204 (DeleteRule i m)"

section \<open>Switching a rule\<close>

text \<open>Every row of the table holds the definition of a rule of its own id.\<close>

definition rules_decode :: "(string \<Rightarrow> rule option) \<Rightarrow> memory \<Rightarrow> bool" where
  "rules_decode unmarshal m \<longleftrightarrow>
     (\<forall>i rec. rules m i = Some rec \<longrightarrow> r_id rec = i \<and> (\<exists>ru. unmarshal (r_definition rec) = Some ru \<and> ru_id ru = i))"

text \<open>JSON gives the builtin rules back as they were.\<close>

definition codec :: "rule list \<Rightarrow> (rule \<Rightarrow> string + string) \<Rightarrow> (string \<Rightarrow> rule option) \<Rightarrow> bool" where
  "codec base marshal unmarshal \<longleftrightarrow> (\<forall>ru \<in> set base. \<exists>def. marshal ru = Inr def \<and> unmarshal def = Some ru)"


definition stored_map :: "(string \<Rightarrow> rule option) \<Rightarrow> memory \<Rightarrow> string \<rightharpoonup> rule" where
  "stored_map unmarshal m i = (case rules m i of None \<Rightarrow> None | Some rec \<Rightarrow> stored_rule unmarshal rec)"

lemma map_r_id_vals:
  "rules_decode unmarshal m \<Longrightarrow> set ks \<subseteq> dom (rules m) \<Longrightarrow> map r_id (vals ks (rules m)) = ks"
  by (induction ks) (auto simp: rules_decode_def)

lemma stored_rule_decoded:
  "rules_decode unmarshal m \<Longrightarrow> rules m i = Some rec \<Longrightarrow> \<exists>ru. stored_rule unmarshal rec = Some ru \<and> ru_id ru = i"
  unfolding rules_decode_def stored_rule_def by fastforce

lemma set_stored: "set (List.map_filter f xs) = {y. \<exists>x \<in> set xs. f x = Some y}"
  by (induction xs) (auto simp: map_filter_simps split: option.splits)

lemma map_filter_ids:
  assumes "\<And>rec. rec \<in> set recs \<Longrightarrow> \<exists>ru. f rec = Some ru \<and> ru_id ru = r_id rec"
  shows "map ru_id (List.map_filter f recs) = map r_id recs"
  using assms
proof (induction recs)
  case (Cons rec recs)
  then obtain ru where "f rec = Some ru" "ru_id ru = r_id rec" by (metis list.set_intros(1))
  then show ?case using Cons by (simp add: map_filter_simps)
qed (simp add: map_filter_simps)

lemma Index_Merge:
  "distinct (map ru_id (Merge layers))" "Index (Merge layers) Map.empty = Index (concat layers) Map.empty"
proof -
  have "positions [] Map.empty" by (simp add: positions_def)
  from merge_loop_spec [OF this, of "concat layers"]
  have "distinct (map ru_id (merge_loop [] Map.empty (concat layers)))"
    and "Index (merge_loop [] Map.empty (concat layers)) Map.empty = Index (concat layers) Map.empty" by simp_all
  then show "distinct (map ru_id (Merge layers))" "Index (Merge layers) Map.empty = Index (concat layers) Map.empty"
    using sorted_by_id by (simp_all add: Merge_def)
qed

lemma Index_stored:
  assumes dec: "rules_decode unmarshal m" and ks: "iterates ks (rules m)"
  shows "Index (List.map_filter (stored_rule unmarshal) (ListRules ks m)) Map.empty = stored_map unmarshal m"
proof -
  have mem: "rec \<in> set (ListRules ks m) \<longleftrightarrow> (\<exists>i. rules m i = Some rec)" for rec
    using iterates_vals [OF ks] by (simp add: ListRules_def ran_def)
  have own: "\<exists>ru. stored_rule unmarshal rec = Some ru \<and> ru_id ru = r_id rec" if r: "rec \<in> set (ListRules ks m)" for rec
  proof -
    obtain i where i: "rules m i = Some rec" using r mem by blast
    then have "r_id rec = i" using dec by (simp add: rules_decode_def)
    then show ?thesis using stored_rule_decoded [OF dec i] by simp
  qed
  have "map ru_id (List.map_filter (stored_rule unmarshal) (ListRules ks m)) = map r_id (ListRules ks m)"
    using own by (rule map_filter_ids)
  moreover have "mset (map r_id (ListRules ks m)) = mset ks"
  proof -
    have "mset (map r_id (ListRules ks m)) = mset (map r_id (vals ks (rules m)))"
      by (simp add: ListRules_def)
    then show ?thesis using map_r_id_vals [OF dec, of ks] ks by (simp only: iterates_def)
  qed
  moreover have "distinct ks" using ks by (simp add: iterates_def)
  ultimately have d: "distinct (map ru_id (List.map_filter (stored_rule unmarshal) (ListRules ks m)))"
    by (metis mset_eq_imp_distinct_iff)
  show ?thesis
  proof
    fix i
    have "Index (List.map_filter (stored_rule unmarshal) (ListRules ks m)) Map.empty i = Some ru \<longleftrightarrow>
        stored_map unmarshal m i = Some ru" for ru
    proof -
      have "Index (List.map_filter (stored_rule unmarshal) (ListRules ks m)) Map.empty i = Some ru \<longleftrightarrow>
          (\<exists>j rec. rules m j = Some rec \<and> stored_rule unmarshal rec = Some ru) \<and> ru_id ru = i"
        unfolding Index_distinct [OF d] set_stored using mem by blast
      also have "\<dots> \<longleftrightarrow> stored_map unmarshal m i = Some ru"
        using stored_rule_decoded [OF dec] by (fastforce simp: stored_map_def split: option.splits)
      finally show ?thesis .
    qed
    then show "Index (List.map_filter (stored_rule unmarshal) (ListRules ks m)) Map.empty i = stored_map unmarshal m i"
      by (metis option.exhaust)
  qed
qed

lemma active_index:
  assumes "rules_decode unmarshal m" and "iterates ks (rules m)"
  shows "distinct (map ru_id (loadActiveRules unmarshal base ks m))"
    and "Index (loadActiveRules unmarshal base ks m) Map.empty = Index base Map.empty ++ stored_map unmarshal m"
proof -
  let ?db = "List.map_filter (stored_rule unmarshal) (ListRules ks m)"
  show "distinct (map ru_id (loadActiveRules unmarshal base ks m))" unfolding loadActiveRules_def by (rule Index_Merge)
  have "Index (loadActiveRules unmarshal base ks m) Map.empty = Index ?db (Index base Map.empty)"
    unfolding loadActiveRules_def Index_Merge by (simp add: Index_append)
  then show "Index (loadActiveRules unmarshal base ks m) Map.empty = Index base Map.empty ++ stored_map unmarshal m"
    using Index_override [of ?db "Index base Map.empty"] Index_stored [OF assms] by simp
qed

lemma find_Index:
  assumes "distinct (map ru_id rs)"
  shows "find (\<lambda>ru. ru_id ru = i) rs = Index rs Map.empty i"
proof (cases "find (\<lambda>ru. ru_id ru = i) rs")
  case None
  then have "\<not> (\<exists>r. Index rs Map.empty i = Some r)" using Index_distinct [OF assms] by (auto simp: find_None_iff)
  then show ?thesis using None by simp
next
  case (Some r)
  then have "r \<in> set rs" "ru_id r = i" by (auto simp: find_Some_iff)
  then show ?thesis using Some Index_distinct [OF assms, of i r] by simp
qed


text \<open>What a listing keyed by id gives: the rule the server runs under that id.\<close>

definition active_rule :: "(string \<Rightarrow> rule option) \<Rightarrow> rule list \<Rightarrow> string list \<Rightarrow> memory \<Rightarrow> string \<Rightarrow> rule option" where
  "active_rule unmarshal base ks m i = find (\<lambda>ru. ru_id ru = i) (loadActiveRules unmarshal base ks m)"

lemma Index_mem: "Index rs m i = Some r \<Longrightarrow> r \<in> set rs \<or> m i = Some r"
  by (induction rs arbitrary: m) (fastforce split: if_splits)+

lemma active_rule_map:
  assumes "rules_decode unmarshal m" and "iterates ks (rules m)"
  shows "active_rule unmarshal base ks m i = (Index base Map.empty ++ stored_map unmarshal m) i"
  using active_index [OF assms] by (simp add: active_rule_def find_Index)

lemma switched_row:
  assumes dec: "rules_decode unmarshal m" and row: "unmarshal (r_definition rec) = Some ru" "ru_id ru = i" "r_id rec = i"
    and m': "m' = m\<lparr>rules := (rules m)(i \<mapsto> rec)\<rparr>"
  shows "rules_decode unmarshal m'"
    and "stored_map unmarshal m' = (stored_map unmarshal m)(i \<mapsto> ru\<lparr>ru_enabled := Some (r_enabled rec)\<rparr>)"
  using assms by (auto simp: rules_decode_def stored_map_def stored_rule_def fun_eq_iff)

text \<open>
  C23. Switching a rule takes effect, and on that rule alone. \<open>PATCH /api/v1/rules/{id}\<close> succeeds exactly
  for the rules in force, builtin or stored, and answers 404 without touching the store for any other id.
  Afterwards the rule in force under that id is the one that was, switched as asked; the rules in force
  under other ids are the same, and every stored row still decodes to a rule of its id.
\<close>

theorem switched_rule_in_force:
  assumes codec: "codec base marshal unmarshal" and dec: "rules_decode unmarshal m" and ks: "iterates ks (rules m)"
    and active: "active = Some (\<lambda>m. Inr (loadActiveRules unmarshal base ks m))"
  shows "case patchRule active marshal i (Inr (Some b)) m of (m', reply) \<Rightarrow>
    rules_decode unmarshal m' \<and>
    (case active_rule unmarshal base ks m i of
       None \<Rightarrow> m' = m \<and> (\<exists>msg. reply = Fail 404 msg)
     | Some ru \<Rightarrow> reply = Empty 204 \<and>
         (\<forall>ks'. iterates ks' (rules m') \<longrightarrow>
            active_rule unmarshal base ks' m' = (active_rule unmarshal base ks m)(i \<mapsto> ru\<lparr>ru_enabled := Some b\<rparr>)))"
proof (cases "rules m i")
  case (Some rec)
  obtain ru0 where row: "unmarshal (r_definition rec) = Some ru0" "ru_id ru0 = i" "r_id rec = i"
    using dec Some unfolding rules_decode_def by blast
  define m' where "m' = m\<lparr>rules := (rules m)(i \<mapsto> rec\<lparr>r_enabled := b\<rparr>)\<rparr>"
  have p: "patchRule active marshal i (Inr (Some b)) m = (m', Empty 204)"
    by (simp add: patchRule_def SetRuleEnabled_def Some done_with_def m'_def)
  note sw = switched_row [OF dec _ _ _ m'_def, of ru0, simplified, OF row(1,2,3)]
  have now: "active_rule unmarshal base ks m i = Some (ru0\<lparr>ru_enabled := Some (r_enabled rec)\<rparr>)"
    by (simp add: active_rule_map [OF dec ks] stored_map_def stored_rule_def Some row map_add_def)
  have "active_rule unmarshal base ks' m' =
      (active_rule unmarshal base ks m)(i \<mapsto> ru0\<lparr>ru_enabled := Some (r_enabled rec)\<rparr>\<lparr>ru_enabled := Some b\<rparr>)"
    if "iterates ks' (rules m')" for ks'
    using that by (auto simp: fun_eq_iff active_rule_map [OF dec ks] active_rule_map [OF sw(1)] sw(2) map_add_def)
  then show ?thesis using sw(1) by (simp add: p now)
next
  case None
  have load: "activeRule active i m = active_rule unmarshal base ks m i"
    by (simp add: activeRule_def active active_rule_def)
  show ?thesis
  proof (cases "active_rule unmarshal base ks m i")
    case None': None
    have "patchRule active marshal i (Inr (Some b)) m = (m, answer_err (ErrNotFound ''rule'' i))"
      by (simp add: patchRule_def SetRuleEnabled_def None load None' done_with_def)
    then show ?thesis using dec None' by (simp add: answer_err_def writeErr_def)
  next
    case (Some ru)
    have "Index base Map.empty i = Some ru"
      using Some None by (simp add: active_rule_map [OF dec ks] stored_map_def map_add_def)
    then have "ru \<in> set base" using Index_mem by fastforce
    then obtain def where def: "marshal ru = Inr def" "unmarshal def = Some ru" using codec by (auto simp: codec_def)
    have id: "ru_id ru = i" using Some by (auto simp: active_rule_def find_Some_iff)
    define m' where "m' = m\<lparr>rules := (rules m)(i \<mapsto> record_of i ru b def)\<rparr>"
    have p: "patchRule active marshal i (Inr (Some b)) m = (m', Empty 204)"
      by (simp add: patchRule_def SetRuleEnabled_def None load Some def done_with_def UpsertRule_def record_of_def m'_def)
    note sw = switched_row [OF dec _ _ _ m'_def, of ru, unfolded record_of_def rule_record.simps, OF def(2) id refl]
    have "active_rule unmarshal base ks' m' = (active_rule unmarshal base ks m)(i \<mapsto> ru\<lparr>ru_enabled := Some b\<rparr>)"
      if "iterates ks' (rules m')" for ks'
      using that by (auto simp: fun_eq_iff active_rule_map [OF dec ks] active_rule_map [OF sw(1)] sw(2) map_add_def)
    then show ?thesis using sw(1) by (simp add: p Some)
  qed
qed


definition demo_rule :: rule where
  "demo_rule = \<lparr>ru_id = ''r1'', ru_title = ''t'', ru_category = ''process'', ru_severity = ''high'', ru_score = 70, ru_mitre = [],
     ru_enabled = None, ru_foreach = [], ru_when = ''true'', ru_evidence = [], ru_dedup = []\<rparr>"

theorem switched_rule_in_force_witness:
  "\<exists>m'. patchRule (Some (\<lambda>m. Inr (loadActiveRules (\<lambda>_. Some demo_rule) [demo_rule] [] m))) (\<lambda>_. Inr ''d'') ''r1''
       (Inr (Some False)) NewMemory = (m', Empty 204) \<and>
     active_rule (\<lambda>_. Some demo_rule) [demo_rule] [''r1''] m' ''r1'' = Some (demo_rule\<lparr>ru_enabled := Some False\<rparr>)"
proof -
  let ?un = "\<lambda>_. Some demo_rule" and ?act = "Some (\<lambda>m. Inr (loadActiveRules (\<lambda>_. Some demo_rule) [demo_rule] [] m))"
  have c: "codec [demo_rule] (\<lambda>_. Inr ''d'') ?un" and d: "rules_decode ?un NewMemory" and k: "iterates [] (rules NewMemory)"
    by (simp_all add: codec_def rules_decode_def iterates_def NewMemory_def)
  have a: "active_rule ?un [demo_rule] [] NewMemory ''r1'' = Some demo_rule"
    unfolding active_rule_map [OF d k] by (simp add: map_add_def stored_map_def NewMemory_def demo_rule_def)
  obtain m' r where p: "patchRule ?act (\<lambda>_. Inr ''d'') ''r1'' (Inr (Some False)) NewMemory = (m', r)"
    by (cases "patchRule ?act (\<lambda>_. Inr ''d'') ''r1'' (Inr (Some False)) NewMemory")
  then have "iterates [''r1''] (rules m')"
    by (auto simp: patchRule_def SetRuleEnabled_def NewMemory_def activeRule_def loadActiveRules_def Merge_def ListRules_def
        map_filter_simps demo_rule_def done_with_def UpsertRule_def record_of_def iterates_def dom_def split: if_splits)
  with switched_rule_in_force [OF c d k refl, of "''r1''" False] p a show ?thesis by (simp add: fun_upd_def)
qed

end
