(* ===== verification/ReviewApi.thy ===== *)
theory ReviewApi
  imports HostApi Observations Responses Retention Playbooks SensorDeploy
begin

text \<open>
  The handlers of \<open>internal/api/api.go\<close> for findings, the audit log, response actions, retention and the
  sensor of a host.

  \<open>usr\<close> is the account the middleware put into the request, \<open>c\<close> the call with its clock and
  identifiers, \<open>aid\<close> the identifier of the audit event a handler writes. The encoding of a cursor
  (\<open>base64\<close> of JSON) is an argument.
\<close>

section \<open>Pages\<close>

text \<open>The argument is the number \<open>strconv.Atoi\<close> reads, if it reads one.\<close>

definition pageLimit :: "int option \<Rightarrow> int \<Rightarrow> int" where
  "pageLimit raw fallback =
     (case raw of
        None \<Rightarrow> fallback
      | Some n \<Rightarrow> if n \<le> 0 then fallback else if n > 500 then 500 else n)"

record cursor_codec =
  cu_encode :: "go_time \<times> string \<Rightarrow> string"
  cu_decode :: "string \<Rightarrow> (go_time \<times> string) option"

definition encodeCursor :: "cursor_codec \<Rightarrow> go_time \<Rightarrow> string \<Rightarrow> string" where
  "encodeCursor cc t i = cu_encode cc (t, i)"

definition decodeCursor :: "cursor_codec \<Rightarrow> string \<Rightarrow> (go_time \<times> string) option" where
  "decodeCursor cc raw =
     (case cu_decode cc raw of
        None \<Rightarrow> None
      | Some (t, i) \<Rightarrow> if IsZero t \<or> i = [] then None else Some (t, i))"

section \<open>Findings\<close>

record obs_query =
  oq_filter :: observation_filter
  oq_limit :: "int option"
  oq_cursor :: string

text \<open>A page and the cursor of the next one, if there is more.\<close>

definition listObservations :: "cursor_codec \<Rightarrow> string list \<Rightarrow> obs_query \<Rightarrow> memory \<Rightarrow> (observation list \<times> string option) answer" where
  "listObservations cc ks q m =
     (let limit = pageLimit (oq_limit q) 100;
          start = (if oq_cursor q = [] then Some (0, []) else decodeCursor cc (oq_cursor q))
      in case start of
           None \<Rightarrow> Fail 400 ''invalid cursor''
         | Some (t, i) \<Rightarrow>
             (let found = ListObservations ks
                    ((oq_filter q)\<lparr>f_verdict := [], f_before_time := t, f_before_id := i, f_limit := limit + 1\<rparr>) m
              in if int (length found) > limit
                 then (let page = take (nat limit) found;
                           lst = last page
                       in Body 200 (page, Some (encodeCursor cc (o_last_seen lst) (o_id lst))))
                 else Body 200 (found, None)))"

definition getObservation :: "string \<Rightarrow> memory \<Rightarrow> observation answer" where
  "getObservation i m = answer_of 200 (GetObservation i m)"

definition audit_by :: "call \<Rightarrow> string \<Rightarrow> user option \<Rightarrow> string \<Rightarrow> string \<Rightarrow> string \<Rightarrow> string \<Rightarrow> memory \<Rightarrow> memory" where
  "audit_by c aid usr action target result detail m =
     auditAs aid (c_now c) (c_ip c) (case usr of None \<Rightarrow> [] | Some u \<Rightarrow> u_username u) action target result detail m"

definition workflow_action :: "string \<Rightarrow> string" where
  "workflow_action status =
     (if status = ObsOpen then ''reopen''
      else if status = ObsAcknowledged then ''take_ownership''
      else if status = ObsResolved then ''resolve''
      else if status = ObsFalsePositive then ''close_false_positive'' else [])"

definition applyWorkflowStatus :: "call \<Rightarrow> string \<Rightarrow> user option \<Rightarrow> string \<Rightarrow> string \<Rightarrow> memory \<Rightarrow> unit outcome" where
  "applyWorkflowStatus c aid usr i status m =
     (if workflow_action status = [] then (m, Inl ErrDisposition)
      else (case ApplyObservationAction i (workflow_action status) m of
          (m, Inl e) \<Rightarrow> (m, Inl e)
        | (m, Inr _) \<Rightarrow>
            (audit_by c aid usr ''observation.disposition'' i ''ok'' (''action='' @ workflow_action status) m, Inr ())))"

definition known_status :: "string \<Rightarrow> bool" where
  "known_status s \<longleftrightarrow> s = ObsOpen \<or> s = ObsAcknowledged \<or> s = ObsResolved \<or> s = ObsFalsePositive"

text \<open>The loop over the identifiers; \<open>aids\<close> names the audit events it may write.\<close>

fun bulk_loop :: "call \<Rightarrow> (nat \<Rightarrow> string) \<Rightarrow> user option \<Rightarrow> string \<Rightarrow> string list \<Rightarrow> nat \<Rightarrow> memory \<Rightarrow> memory \<times> nat" where
  "bulk_loop c aids usr status [] n m = (m, n)"
| "bulk_loop c aids usr status (i # ids) n m =
     (case applyWorkflowStatus c (aids n) usr i status m of
        (m, Inl e) \<Rightarrow> bulk_loop c aids usr status ids n m
      | (m, Inr _) \<Rightarrow> bulk_loop c aids usr status ids (Suc n) m)"

record bulk_body =
  bb_ids :: "string list"
  bb_status :: string

definition bulkObservations ::
  "call \<Rightarrow> (nat \<Rightarrow> string) \<Rightarrow> user option \<Rightarrow> bulk_body body \<Rightarrow> memory \<Rightarrow> memory \<times> nat answer" where
  "bulkObservations c aids usr body m =
     (case body of
        Inl (code, msg) \<Rightarrow> (m, Fail code msg)
      | Inr b \<Rightarrow>
          if \<not> known_status (bb_status b) then (m, Fail 400 ''invalid status'')
          else (case bulk_loop c aids usr (bb_status b) (bb_ids b) 0 m of (m, n) \<Rightarrow> (m, Body 200 n)))"

record observation_patch =
  op_action :: string
  op_status :: string
  op_verdict :: "string option"

definition disposition_err :: "store_error \<Rightarrow> 'a answer" where
  "disposition_err e = (if e = ErrDisposition then Fail 409 (store_error_text e) else answer_err e)"

definition patchObservation ::
  "call \<Rightarrow> string \<Rightarrow> user option \<Rightarrow> string \<Rightarrow> observation_patch body \<Rightarrow> memory \<Rightarrow> memory \<times> unit answer" where
  "patchObservation c aid usr i body m =
     (case body of
        Inl (code, msg) \<Rightarrow> (m, Fail code msg)
      | Inr p \<Rightarrow>
          if op_action p \<noteq> [] then
            (if op_status p \<noteq> [] \<or> op_verdict p \<noteq> None
             then (m, Fail 400 ''action cannot be combined with status or verdict'')
             else (case ObservationDisposition (op_action p) of
                 Inl _ \<Rightarrow> (m, Fail 400 ''invalid action'')
               | Inr _ \<Rightarrow> (case ApplyObservationAction i (op_action p) m of
                   (m, Inl e) \<Rightarrow> (m, disposition_err e)
                 | (m, Inr _) \<Rightarrow>
                     (audit_by c aid usr ''observation.disposition'' i ''ok'' (''action='' @ op_action p) m, Empty 204))))
          else (case op_verdict p of
              Some v \<Rightarrow>
                if op_status p \<noteq> [] then (m, Fail 400 ''change status and verdict separately'')
                else if v \<noteq> ''unknown'' \<and> v \<noteq> ''true_positive'' \<and> v \<noteq> ''false_positive''
                then (m, Fail 400 ''invalid verdict'')
                else (case SetObservationVerdict i v m of
                    (m, Inl e) \<Rightarrow> (m, answer_err e)
                  | (m, Inr _) \<Rightarrow> (audit_by c aid usr ''observation.verdict'' i ''ok'' (''verdict='' @ v) m, Empty 204))
            | None \<Rightarrow>
                if \<not> known_status (op_status p) then (m, Fail 400 ''invalid status'')
                else (case applyWorkflowStatus c aid usr i (op_status p) m of
                    (m, Inl e) \<Rightarrow> (m, disposition_err e)
                  | (m, Inr _) \<Rightarrow> (m, Empty 204))))"


section \<open>The audit log, retention and the archive\<close>

definition listAudit :: "cursor_codec \<Rightarrow> int option \<Rightarrow> string \<Rightarrow> memory \<Rightarrow> (audit_event list \<times> string option) answer" where
  "listAudit cc lim cursor m =
     (let limit = pageLimit lim 100;
          start = (if cursor = [] then Some (0, []) else decodeCursor cc cursor)
      in case start of
           None \<Rightarrow> Fail 400 ''invalid cursor''
         | Some (t, i) \<Rightarrow>
             (let evs = ListAuditPage \<lparr>af_limit = limit + 1, af_before_time = t, af_before_id = i\<rparr> m
              in if int (length evs) > limit
                 then (let page = take (nat limit) evs;
                           lst = last page
                       in Body 200 (page, Some (encodeCursor cc (a_time lst) (a_id lst))))
                 else Body 200 (evs, None)))"

definition listArchive :: "string \<Rightarrow> int option \<Rightarrow> memory \<Rightarrow> archived_record list answer" where
  "listArchive kind lim m =
     (if kind \<noteq> [] \<and> kind \<noteq> ''observation'' \<and> kind \<noteq> ''scan'' \<and> kind \<noteq> ''audit''
      then Fail 400 ''kind must be observation, scan, or audit''
      else Body 200 (ListArchive kind (pageLimit lim 100) m))"

definition runRetention ::
  "call \<Rightarrow> string \<Rightarrow> user option \<Rightarrow> string list \<Rightarrow> string list \<Rightarrow> (nat \<Rightarrow> string) \<Rightarrow> retention_policy \<Rightarrow> memory \<Rightarrow>
   memory \<times> retention_result answer" where
  "runRetention c aid usr obsKs scanKs uuids policy m =
     (case ApplyRetention obsKs scanKs uuids (c_now c) policy m of (m, r) \<Rightarrow>
        (audit_by c aid usr ''retention.run'' [] ''ok''
           (''observations='' @ Itoa (rr_observations r) @ '' scans='' @ Itoa (rr_scans r) @
            '' audit='' @ Itoa (rr_audit r) @ '' archive='' @ Itoa (rr_archive r)) m, Body 200 r))"

section \<open>Response actions\<close>

definition listResponses :: "string list \<Rightarrow> string \<Rightarrow> int option \<Rightarrow> memory \<Rightarrow> response_action list answer" where
  "listResponses ks hid lim m = Body 200 (ListResponseActions ks hid (pageLimit lim 100) m)"

definition getResponse :: "string \<Rightarrow> memory \<Rightarrow> response_action answer" where
  "getResponse i m = answer_of 200 (GetResponseAction i m)"

record response_body =
  rs_host_id :: string
  rs_playbook :: string
  rs_params :: string_map
  rs_dry_run :: "bool option"

definition createResponse ::
  "(string \<Rightarrow> bool) \<Rightarrow> call \<Rightarrow> string \<Rightarrow> user option \<Rightarrow> response_body body \<Rightarrow> memory \<Rightarrow> memory \<times> response_action answer" where
  "createResponse parseIP c aid usr body m =
     (case body of
        Inl (code, msg) \<Rightarrow> (m, Fail code msg)
      | Inr b \<Rightarrow> (case GetHost (rs_host_id b) m of
          Inl e \<Rightarrow> (m, answer_err e)
        | Inr _ \<Rightarrow> (case ValidateResponseRequest parseIP (rs_playbook b) (rs_params b) of
            Some msg \<Rightarrow> (m, Fail 400 msg)
          | None \<Rightarrow> (case usr of
              None \<Rightarrow> (m, Fail 401 ''authentication required'')
            | Some actor \<Rightarrow>
                (let dry = (case rs_dry_run b of None \<Rightarrow> True | Some d \<Rightarrow> d) in
                 case CreateResponseAction (c_uuid c) (c_now c)
                   \<lparr>ra_id = [], ra_host_id = rs_host_id b, ra_playbook = rs_playbook b, ra_params = rs_params b,
                    ra_dry_run = dry, ra_status = ResponsePending, ra_requested_by = u_username actor,
                    ra_approved_by = [], ra_rejected_by = [], ra_reject_reason = [], ra_worker_id = [], ra_lease_until = None,
                    ra_output = [], ra_error = [], ra_created_at = 0, ra_approved_at = None, ra_rejected_at = None,
                    ra_started_at = None, ra_finished_at = None, ra_updated_at = 0\<rparr> m of
                   (m, Inl e) \<Rightarrow> (m, answer_err e)
                 | (m, Inr a) \<Rightarrow>
                     (audit_by c aid usr ''response.request'' (ra_id a) ''ok''
                        (''playbook='' @ ra_playbook a @ '' dry_run='' @ (if ra_dry_run a then ''true'' else ''false'')) m,
                      Body 201 a))))))"

text \<open>\<open>None\<close> in the body of an answer is the JSON \<open>null\<close> of an action that is gone by then.\<close>

definition approveResponse ::
  "call \<Rightarrow> string \<Rightarrow> user option \<Rightarrow> string \<Rightarrow> memory \<Rightarrow> memory \<times> response_action option answer" where
  "approveResponse c aid usr i m =
     (case usr of
        None \<Rightarrow> (m, Fail 401 ''authentication required'')
      | Some actor \<Rightarrow> (case ApproveResponseAction (c_now c) i (u_username actor) m of
          (m, Inl e) \<Rightarrow>
            ((case e of
                ErrSelfApproval _ _ \<Rightarrow> audit_by c aid usr ''response.approve'' i ''denied'' ''self-approval blocked'' m
              | _ \<Rightarrow> m), answer_err e)
        | (m, Inr _) \<Rightarrow>
            (let m = audit_by c aid usr ''response.approve'' i ''ok'' [] m
             in (m, Body 202 (responses m i)))))"

text \<open>\<open>body\<close> is \<open>None\<close> for a request without content.\<close>

definition rejectResponse ::
  "call \<Rightarrow> string \<Rightarrow> user option \<Rightarrow> string \<Rightarrow> string body option \<Rightarrow> memory \<Rightarrow> memory \<times> response_action option answer" where
  "rejectResponse c aid usr i body m =
     (case usr of
        None \<Rightarrow> (m, Fail 401 ''authentication required'')
      | Some actor \<Rightarrow> (case (case body of None \<Rightarrow> Inr [] | Some b \<Rightarrow> b) of
          Inl (code, msg) \<Rightarrow> (m, Fail code msg)
        | Inr reason \<Rightarrow>
            if length reason > 1000 then (m, Fail 400 ''reason must be at most 1000 characters'')
            else (case RejectResponseAction (c_now c) i (u_username actor) reason m of
                (m, Inl e) \<Rightarrow> (m, answer_err e)
              | (m, Inr _) \<Rightarrow>
                  (let m = audit_by c aid usr ''response.reject'' i ''ok'' reason m
                   in (m, Body 200 (responses m i))))))"

section \<open>The sensor of a host\<close>

text \<open>\<open>enable\<close> and \<open>disable\<close> are the runner's operations on the row that was read.\<close>

definition hostSensor ::
  "(host \<Rightarrow> memory \<Rightarrow> memory \<times> sensor_error option) \<Rightarrow> (host \<Rightarrow> memory \<Rightarrow> memory \<times> sensor_error option) \<Rightarrow>
   call \<Rightarrow> string \<Rightarrow> user option \<Rightarrow> string \<Rightarrow> string body \<Rightarrow> memory \<Rightarrow> memory \<times> string answer" where
  "hostSensor enable disable c aid usr hid body m =
     (case GetHost hid m of
        Inl e \<Rightarrow> (m, answer_err e)
      | Inr h \<Rightarrow> (case body of
          Inl (code, msg) \<Rightarrow> (m, Fail code msg)
        | Inr action \<Rightarrow>
            if action \<noteq> ''enable'' \<and> action \<noteq> ''disable'' then (m, Fail 400 ''action must be enable or disable'')
            else (case (if action = ''enable'' then enable h m else disable h m) of
                (m, Some e) \<Rightarrow>
                  (audit_by c aid usr (''sensor.'' @ action) (h_id h) ''fail''
                     (case e of NotConfigured msg \<Rightarrow> msg | SensorFailed msg \<Rightarrow> msg) m,
                   case e of NotConfigured msg \<Rightarrow> Fail 503 msg | SensorFailed msg \<Rightarrow> Fail 502 msg)
              | (m, None) \<Rightarrow>
                  (audit_by c aid usr (''sensor.'' @ action) (h_id h) ''ok'' [] m,
                   Body 200 (if action = ''enable'' then ModeScanPlusSensor else ModeScanOnly)))))"


section \<open>Approving over HTTP\<close>

text \<open>\<open>POST /api/v1/responses/{id}/approve\<close> behind the middleware; \<open>None\<close> is a request the handler never sees.\<close>

definition approve_request ::
  "(string \<Rightarrow> string) \<Rightarrow> call \<Rightarrow> string \<Rightarrow> string \<Rightarrow> request \<Rightarrow> string \<Rightarrow> memory \<Rightarrow>
   memory \<times> response_action option answer option" where
  "approve_request digest c gid aid r i m =
     (case authMiddleware digest gid (c_now c) (c_ip c) r m of
        (m, Serve usr) \<Rightarrow> (case approveResponse c aid usr i m of (m, rep) \<Rightarrow> (m, Some rep))
      | (m, _) \<Rightarrow> (m, None))"

lemma approve_path:
  fixes i :: string
  defines "p \<equiv> ''/api/v1/responses/'' @ i @ ''/approve''"
  shows "\<not> publicPath p" "\<not> is_event_path p" "adminOnly p" "\<not> selfService p" "\<not> passwordChangePath p"
proof -
  have suf: "HasSuffix (x @ ''/approve'') ''/approve''" for x by (simp add: HasSuffix_def)
  show "\<not> publicPath p" "\<not> is_event_path p" "\<not> selfService p" "\<not> passwordChangePath p"
    by (simp_all add: p_def publicPath_def is_event_path_def selfService_def passwordChangePath_def)
  show "adminOnly p" using suf [of "''/api/v1/responses/'' @ i"] by (simp add: p_def adminOnly_def)
qed

lemma gate_serves_admin:
  assumes gate: "authMiddleware digest gid now ip r m = (m', Serve usr)"
    and path: "rq_path r = ''/api/v1/responses/'' @ i @ ''/approve''"
  shows "m' = m \<and> (\<exists>v. usr = Some v \<and> userFromRequest digest now r m = Some v \<and> \<not> u_disabled v \<and>
     u_role v = RoleAdmin \<and> \<not> u_must_change_password v)"
proof -
  note p = approve_path [of i, folded path]
  from gate p(1,2) obtain v where v: "userFromRequest digest now r m = Some v" "usr = Some v" "m' = m" "\<not> u_disabled v"
    "Allowed (u_role v) (rq_method r) (rq_path r)" "u_must_change_password v \<longrightarrow> passwordChangePath (rq_path r)"
    unfolding authMiddleware_def Let_def by (simp split: option.splits if_splits)
  then show ?thesis using Allowed_admin_route [OF v(5) p(3,4)] p(5) by blast
qed


lemma audit_by_eq:
  fixes c :: call and usr :: "user option" and m :: memory and aid action target result detail :: string
  defines "after \<equiv> audit_by c aid usr action target result detail m"
  shows "after = m\<lparr>audit := audit after\<rparr>" and "audit after \<noteq> []"
    and "last (audit after) = \<lparr>a_id = or_default [] aid, a_time = or_default_time 0 (c_now c),
       a_actor = (case usr of None \<Rightarrow> [] | Some u \<Rightarrow> u_username u), a_actor_ip = c_ip c, a_action = action,
       a_target = target, a_result = result, a_detail = detail\<rparr>"
  by (simp_all add: after_def audit_by_def auditAs_def AppendAudit_def Let_def)

lemma audit_by_tables: "responses (audit_by c aid usr action target result detail m) = responses m"
  by (subst audit_by_eq(1)) simp

definition approved_by :: "string \<Rightarrow> go_time \<Rightarrow> response_action \<Rightarrow> response_action" where
  "approved_by who now a = a\<lparr>ra_status := ResponseApproved, ra_approved_by := who, ra_approved_at := Some now,
     ra_updated_at := now\<rparr>"

lemma gate_refuses: "authMiddleware digest gid now ip r m = (m1, g) \<Longrightarrow> responses m1 = responses m"
  unfolding authMiddleware_def Let_def
  by (auto simp: auditAs_def AppendAudit_def Let_def split: if_splits option.splits)

lemma approve_cases:
  assumes "approveResponse c aid usr i m = (m', rep)"
  obtains (refused) "responses m' = responses m" "\<not> (\<exists>b. rep = Body 202 b)"
    | (approved) v a log where "usr = Some v" "responses m i = Some a" "ra_status a = ResponsePending"
        "ra_requested_by a = u_username v \<longrightarrow> AllowSelfApproval m"
        "m' = m\<lparr>responses := (responses m)(i \<mapsto> approved_by (u_username v) (c_now c) a), audit := log\<rparr>"
        "log \<noteq> []" "a_actor (last log) = u_username v" "a_action (last log) = ''response.approve''"
        "a_target (last log) = i" "a_result (last log) = ''ok''"
        "rep = Body 202 (Some (approved_by (u_username v) (c_now c) a))"
proof (cases usr)
  case None
  then show ?thesis using assms refused by (auto simp: approveResponse_def)
next
  case (Some v)
  show ?thesis
  proof (cases "ApproveResponseAction (c_now c) i (u_username v) m")
    case (Pair m1 res)
    show ?thesis
    proof (cases res)
      case (Inl e)
      have "m1 = m" using Pair Inl by (auto simp: ApproveResponseAction_def split: option.splits if_splits)
      then have "responses m' = responses m" "rep = answer_err e"
        using assms Some Pair Inl by (auto simp: approveResponse_def audit_by_tables split: store_error.splits)
      then show ?thesis using refused by (auto simp: answer_err_def split: reply.splits)
    next
      case (Inr u)
      obtain a where a: "responses m i = Some a" "ra_status a = ResponsePending"
          "ra_requested_by a = u_username v \<longrightarrow> AllowSelfApproval m"
          "m1 = m\<lparr>responses := (responses m)(i \<mapsto> approved_by (u_username v) (c_now c) a)\<rparr>"
        using Pair Inr by (auto simp: ApproveResponseAction_def pending_action_def approved_by_def split: option.splits if_splits)
      define after where "after = audit_by c aid usr ''response.approve'' i ''ok'' [] m1"
      have m': "m' = after" "rep = Body 202 (responses after i)"
        using assms Some Pair Inr by (auto simp: approveResponse_def after_def Let_def)
      note ev = audit_by_eq [of c aid usr "''response.approve''" i "''ok''" "[]" m1, folded after_def]
      show ?thesis
        by (rule approved [of v a "audit after"])
          (use Some a ev m' in \<open>simp_all add: after_def audit_by_tables\<close>)
    qed
  qed
qed


text \<open>
  C3. Two-person control over HTTP, gate and handler together. When a request to approve a response action is
  answered with 202, or changes any response action at all, it carried the token of a live session of an
  enabled administrator who is not held to a password change and, unless self-approval is allowed, is not
  the one who asked for the action. The action was pending; what changes is that row, approved in
  the name of that administrator, and the audit log, which ends with the approval. Any other request
  changes no response action.
\<close>

theorem approval_over_http:
  assumes req: "approve_request digest c gid aid r i m = (m', rep)"
    and path: "rq_path r = ''/api/v1/responses/'' @ i @ ''/approve''"
    and act: "responses m' \<noteq> responses m \<or> rep = Some (Body 202 b)"
  shows "\<exists>v tok s a. tok \<noteq> [] \<and> (tok = bearerToken r \<or> rq_cookie r = Some tok) \<and>
    sessions m (digest tok) = Some s \<and> c_now c \<le> ss_expires_at s \<and> users m (ss_user_id s) = Some v \<and>
    \<not> u_disabled v \<and> u_role v = RoleAdmin \<and> \<not> u_must_change_password v \<and>
    responses m i = Some a \<and> ra_status a = ResponsePending \<and> (ra_requested_by a \<noteq> u_username v \<or> AllowSelfApproval m) \<and>
    m' = m\<lparr>responses := (responses m)(i \<mapsto> approved_by (u_username v) (c_now c) a), audit := audit m'\<rparr> \<and>
    audit m' \<noteq> [] \<and> a_actor (last (audit m')) = u_username v \<and> a_action (last (audit m')) = ''response.approve'' \<and>
    a_target (last (audit m')) = i \<and> a_result (last (audit m')) = ''ok''"
proof -
  obtain m1 g where gate: "authMiddleware digest gid (c_now c) (c_ip c) r m = (m1, g)"
    by (cases "authMiddleware digest gid (c_now c) (c_ip c) r m")
  show ?thesis
  proof (cases g)
    case (Serve usr)
    from gate_serves_admin [OF gate [unfolded Serve] path] obtain v where v: "m1 = m" "usr = Some v"
      "userFromRequest digest (c_now c) r m = Some v" "\<not> u_disabled v" "u_role v = RoleAdmin" "\<not> u_must_change_password v"
      by blast
    obtain rep' where ar: "approveResponse c aid usr i m = (m', rep')" "rep = Some rep'"
      using req gate Serve v(1) by (auto simp: approve_request_def split: prod.splits)
    from ar(1) show ?thesis
    proof (cases rule: approve_cases)
      case refused
      then show ?thesis using act ar(2) by blast
    next
      case (approved w a log)
      have w: "w = v" using approved(1) v(2) by simp
      have log: "audit m' = log" unfolding approved(5) by simp
      have m': "m' = m\<lparr>responses := (responses m)(i \<mapsto> approved_by (u_username v) (c_now c) a), audit := audit m'\<rparr>"
        unfolding log using approved(5) by (simp only: w)
      have ok: "ra_requested_by a \<noteq> u_username v \<or> AllowSelfApproval m" using approved(4) w by blast
      from userFromRequest_Some [OF v(3)] obtain tok s where tok: "tok \<noteq> []" "tok = bearerToken r \<or> rq_cookie r = Some tok"
        "sessions m (digest tok) = Some s" "c_now c \<le> ss_expires_at s" "users m (ss_user_id s) = Some v" by blast
      show ?thesis
        using tok v(4-6) approved(2,3) ok m' approved(6-10) unfolding log w
        by (intro exI [of _ v] exI [of _ tok] exI [of _ s] exI [of _ a]) blast
    qed
  next
    case (Redirect l)
    then show ?thesis using gate req act gate_refuses [OF gate] by (auto simp: approve_request_def)
  next
    case (Refuse code msg)
    then show ?thesis using gate req act gate_refuses [OF gate] by (auto simp: approve_request_def)
  qed
qed


definition demo_pending :: response_action where
  "demo_pending = \<lparr>ra_id = ''a1'', ra_host_id = ''h1'', ra_playbook = ''kill_process'', ra_params = [], ra_dry_run = True,
     ra_status = ResponsePending, ra_requested_by = ''alice'', ra_approved_by = [], ra_rejected_by = [], ra_reject_reason = [],
     ra_worker_id = [], ra_lease_until = None, ra_output = [], ra_error = [], ra_created_at = 1, ra_approved_at = None,
     ra_rejected_at = None, ra_started_at = None, ra_finished_at = None, ra_updated_at = 1\<rparr>"

definition demo_desk :: memory where
  "demo_desk = demo_accounts\<lparr>users := [''u2'' \<mapsto> demo_viewer\<lparr>u_role := RoleAdmin\<rparr>],
     responses := [''a1'' \<mapsto> demo_pending]\<rparr>"

definition demo_visit :: call where
  "demo_visit = \<lparr>c_ip = [], c_start = 9, c_now = 9, c_audit_id = ''e1'', c_token = [], c_uuid = [], c_users = []\<rparr>"

lemma demo_approve:
  "\<exists>m' b. approve_request (\<lambda>t. CHR ''#'' # t) demo_visit [] ''e1'' (demo_request MethodPost ''/api/v1/responses/a1/approve'')
     ''a1'' demo_desk = (m', Some (Body 202 b))"
proof -
  let ?r = "demo_request MethodPost ''/api/v1/responses/a1/approve''"
  have u: "userFromRequest (\<lambda>t. CHR ''#'' # t) 9 ?r demo_desk = Some (demo_viewer\<lparr>u_role := RoleAdmin\<rparr>)"
    by (simp add: userFromRequest_def demo_request_def demo_desk_def demo_accounts_def SessionUser_def bearerToken_def Let_def)
  note p = approve_path [of "''a1''", simplified]
  have "authMiddleware (\<lambda>t. CHR ''#'' # t) [] 9 [] ?r demo_desk = (demo_desk, Serve (Some (demo_viewer\<lparr>u_role := RoleAdmin\<rparr>)))"
    using p unfolding authMiddleware_def u
    by (simp add: demo_request_def demo_viewer_def Allowed_def)
  moreover have "approveResponse demo_visit ''e1'' (Some (demo_viewer\<lparr>u_role := RoleAdmin\<rparr>)) ''a1'' demo_desk =
      (audit_by demo_visit ''e1'' (Some (demo_viewer\<lparr>u_role := RoleAdmin\<rparr>)) ''response.approve'' ''a1'' ''ok'' []
         (demo_desk\<lparr>responses := [''a1'' \<mapsto> approved_by ''vera'' 9 demo_pending]\<rparr>),
       Body 202 (Some (approved_by ''vera'' 9 demo_pending)))"
    by (simp add: approveResponse_def ApproveResponseAction_def pending_action_def demo_desk_def demo_pending_def
        demo_viewer_def demo_visit_def approved_by_def audit_by_tables Let_def)
  ultimately show ?thesis by (simp add: approve_request_def demo_visit_def)
qed

theorem approval_over_http_witness:
  "\<exists>m' b (v :: user). approve_request (\<lambda>t. CHR ''#'' # t) demo_visit [] ''e1''
       (demo_request MethodPost ''/api/v1/responses/a1/approve'') ''a1'' demo_desk = (m', Some (Body 202 b)) \<and>
     u_role v = RoleAdmin \<and> ra_requested_by demo_pending \<noteq> u_username v \<and> a_actor (last (audit m')) = u_username v"
proof -
  obtain m' b where r: "approve_request (\<lambda>t. CHR ''#'' # t) demo_visit [] ''e1''
       (demo_request MethodPost ''/api/v1/responses/a1/approve'') ''a1'' demo_desk = (m', Some (Body 202 b))"
    using demo_approve by blast
  have p: "rq_path (demo_request MethodPost ''/api/v1/responses/a1/approve'') = ''/api/v1/responses/'' @ ''a1'' @ ''/approve''"
    by (simp add: demo_request_def)
  have d: "responses demo_desk ''a1'' = Some demo_pending" "\<not> AllowSelfApproval demo_desk"
    by (simp_all add: demo_desk_def demo_accounts_def NewMemory_def)
  from approval_over_http [OF r p disjI2 [OF refl]] obtain v :: user and a where v: "u_role v = RoleAdmin"
    "responses demo_desk ''a1'' = Some a" "ra_requested_by a \<noteq> u_username v \<or> AllowSelfApproval demo_desk"
    "a_actor (last (audit m')) = u_username v" by blast
  have "ra_requested_by demo_pending \<noteq> u_username v" using v(2,3) d by simp
  then show ?thesis using r v(1,4) by blast
qed

end
