(* ===== verification/ExportApi.thy ===== *)
theory ExportApi
  imports ReviewApi ExportWorker
begin

text \<open>
  The export handlers of \<open>internal/api/api.go\<close>: the targets, the dead deliveries, and the findings
  as ECS documents. The parsers of addresses are those of the export worker's environment.
\<close>

section \<open>Targets\<close>

record export_request =
  xq_name :: string
  xq_type :: string
  xq_config :: "string_map option"
  xq_secret :: "string option"
  xq_enabled :: "bool option"

definition secret_key :: "string \<Rightarrow> bool" where
  "secret_key key \<longleftrightarrow>
     (let lower = ToLower key in
      Contains lower ''secret'' \<or> Contains lower ''password'' \<or> Contains lower ''token'' \<or> Contains lower ''api_key'')"

definition request_config :: "export_request \<Rightarrow> string_map" where
  "request_config req = (case xq_config req of None \<Rightarrow> [] | Some c \<Rightarrow> c)"

text \<open>The error text, when there is one; of several forbidden keys the first in the order of the map is named.\<close>

definition validateExportTarget :: "export_env \<Rightarrow> export_request \<Rightarrow> string option" where
  "validateExportTarget env req =
     (let config = request_config req in
      if TrimSpace (xq_name req) = [] then Some ''name is required''
      else (case find (\<lambda>(k, v). secret_key k) config of
          Some (k, v) \<Rightarrow> Some (''secret configuration must use the write-only secret field, not config.'' @ k)
        | None \<Rightarrow>
            if xq_type req = ExportWebhook \<or> xq_type req = ExportElasticsearch then
              (case xe_parse_uri env (lookup_str config ''url'') of
                 None \<Rightarrow> Some ''config.url must be an absolute http or https URL''
               | Some (scheme, h, u) \<Rightarrow>
                   if h = [] \<or> (scheme \<noteq> ''http'' \<and> scheme \<noteq> ''https'')
                   then Some ''config.url must be an absolute http or https URL'' else None)
            else if xq_type req = ExportSyslog then
              (let network = lookup_str config ''network'' in
               if network \<noteq> [] \<and> network \<noteq> ''tcp'' \<and> network \<noteq> ''udp'' then Some ''config.network must be tcp or udp''
               else if xe_split_host_port env (lookup_str config ''address'') \<noteq> None
               then Some ''config.address must be host:port'' else None)
            else Some ''type must be webhook, elasticsearch, or syslog''))"

definition sealExportSecret :: "crypto option \<Rightarrow> string \<Rightarrow> string option \<Rightarrow> bytes \<Rightarrow> string + bytes" where
  "sealExportSecret crypt sealErr secret current =
     (case secret of
        None \<Rightarrow> Inr current
      | Some s \<Rightarrow>
          if s = [] then Inr []
          else (case crypt of
              None \<Rightarrow> Inl ''secret encryption unavailable''
            | Some k \<Rightarrow> (case sealSecret k s of None \<Rightarrow> Inl sealErr | Some b \<Rightarrow> Inr b)))"

text \<open>What JSON shows of a target.\<close>

definition shown_target :: "export_target \<Rightarrow> export_target" where
  "shown_target t = t\<lparr>et_secret_enc := []\<rparr>"

definition listExportTargets :: "string list \<Rightarrow> memory \<Rightarrow> export_target list answer" where
  "listExportTargets ks m = Body 200 (map shown_target (ListExportTargets ks m))"

definition getExportTarget :: "string \<Rightarrow> memory \<Rightarrow> export_target answer" where
  "getExportTarget i m = answer_of 200 (map_sum id shown_target (GetExportTarget i m))"

definition createExportTarget ::
  "export_env \<Rightarrow> crypto option \<Rightarrow> string \<Rightarrow> call \<Rightarrow> string \<Rightarrow> user option \<Rightarrow> export_request body \<Rightarrow> memory \<Rightarrow>
   memory \<times> export_target answer" where
  "createExportTarget env crypt sealErr c aid usr body m =
     (case body of
        Inl (code, msg) \<Rightarrow> (m, Fail code msg)
      | Inr req \<Rightarrow> (case validateExportTarget env req of
          Some msg \<Rightarrow> (m, Fail 400 msg)
        | None \<Rightarrow> (case sealExportSecret crypt sealErr (xq_secret req) [] of
            Inl msg \<Rightarrow> (m, Fail 503 msg)
          | Inr secret \<Rightarrow>
              (case CreateExportTarget (c_uuid c) (c_now c)
                 \<lparr>et_id = [], et_name = TrimSpace (xq_name req), et_type = xq_type req, et_config = request_config req,
                  et_secret_enc = secret, et_enabled = (case xq_enabled req of None \<Rightarrow> True | Some b \<Rightarrow> b),
                  et_created_at = 0, et_updated_at = 0\<rparr> m of
                 (m, Inl e) \<Rightarrow> (m, answer_err e)
               | (m, Inr t) \<Rightarrow>
                   (audit_by c aid usr ''export_target.create'' (et_id t) ''ok'' (''type='' @ et_type t) m,
                    Body 201 (shown_target t))))))"

definition patched_target :: "export_request \<Rightarrow> export_target \<Rightarrow> export_target" where
  "patched_target req t =
     (let t = (if xq_name req = [] then t else t\<lparr>et_name := TrimSpace (xq_name req)\<rparr>);
          t = (if xq_type req = [] then t else t\<lparr>et_type := xq_type req\<rparr>);
          t = (case xq_config req of None \<Rightarrow> t | Some c \<Rightarrow> t\<lparr>et_config := c\<rparr>)
      in (case xq_enabled req of None \<Rightarrow> t | Some b \<Rightarrow> t\<lparr>et_enabled := b\<rparr>))"

definition request_of :: "export_target \<Rightarrow> export_request" where
  "request_of t = \<lparr>xq_name = et_name t, xq_type = et_type t, xq_config = Some (et_config t), xq_secret = None, xq_enabled = None\<rparr>"

definition patchExportTarget ::
  "export_env \<Rightarrow> crypto option \<Rightarrow> string \<Rightarrow> call \<Rightarrow> string \<Rightarrow> user option \<Rightarrow> string \<Rightarrow> export_request body \<Rightarrow> memory \<Rightarrow>
   memory \<times> export_target answer" where
  "patchExportTarget env crypt sealErr c aid usr i body m =
     (case GetExportTarget i m of
        Inl e \<Rightarrow> (m, answer_err e)
      | Inr t \<Rightarrow> (case body of
          Inl (code, msg) \<Rightarrow> (m, Fail code msg)
        | Inr req \<Rightarrow>
            (let t = patched_target req t in
             case validateExportTarget env (request_of t) of
               Some msg \<Rightarrow> (m, Fail 400 msg)
             | None \<Rightarrow> (case sealExportSecret crypt sealErr (xq_secret req) (et_secret_enc t) of
                 Inl msg \<Rightarrow> (m, Fail 503 msg)
               | Inr secret \<Rightarrow>
                   (let t = t\<lparr>et_secret_enc := secret\<rparr> in
                    case UpdateExportTarget (c_now c) t m of
                      (m, Inl e) \<Rightarrow> (m, answer_err e)
                    | (m, Inr _) \<Rightarrow>
                        (audit_by c aid usr ''export_target.update'' (et_id t) ''ok'' [] m, Body 200 (shown_target t)))))))"

definition deleteExportTarget :: "call \<Rightarrow> string \<Rightarrow> user option \<Rightarrow> string \<Rightarrow> memory \<Rightarrow> memory \<times> unit answer" where
  "deleteExportTarget c aid usr i m =
     (case DeleteExportTarget i m of
        (m, Inl e) \<Rightarrow> (m, answer_err e)
      | (m, Inr _) \<Rightarrow> (audit_by c aid usr ''export_target.delete'' i ''ok'' [] m, Empty 204))"

section \<open>Deliveries and documents\<close>

definition listExportDLQ :: "string list \<Rightarrow> int \<Rightarrow> memory \<Rightarrow> export_delivery list answer" where
  "listExportDLQ ks limit m = Body 200 (ListDeadExportDeliveries ks limit m)"

definition retryExportDelivery ::
  "call \<Rightarrow> string \<Rightarrow> user option \<Rightarrow> go_time \<Rightarrow> string \<Rightarrow> memory \<Rightarrow> memory \<times> unit answer" where
  "retryExportDelivery c aid usr now2 i m =
     (case RetryExportDelivery (c_now c) now2 i m of
        (m, Inl e) \<Rightarrow> (m, answer_err e)
      | (m, Inr _) \<Rightarrow> (audit_by c aid usr ''export_delivery.retry'' i ''ok'' [] m, Empty 202))"

text \<open>\<open>limit\<close> is what \<open>strconv.Atoi\<close> leaves of the parameter, if it is there. The stream stops when the client is
  gone, which is not modelled: these are the documents of a client that stays.\<close>

definition exportECS ::
  "string list \<Rightarrow> string list \<Rightarrow> observation_filter \<Rightarrow> int option \<Rightarrow> memory \<Rightarrow> (string \<times> ecs) list list" where
  "exportECS obsKs hostKs f limit m =
     (let f = f\<lparr>f_verdict := [], f_before_time := 0, f_before_id := [], f_limit := (case limit of None \<Rightarrow> 0 | Some n \<Rightarrow> n)\<rparr>;
          hs = ListHosts hostKs m
      in map (\<lambda>ob. ToECS ob (find (\<lambda>h. h_id h = o_host_id ob) (rev hs))) (ListObservations obsKs f m))"

section \<open>Accepted targets can be delivered to\<close>

definition targets_ok :: "export_env \<Rightarrow> memory \<Rightarrow> bool" where
  "targets_ok env m \<longleftrightarrow>
     (\<forall>k t. exports m k = Some t \<longrightarrow> et_id t = k \<and> validateExportTarget env (request_of t) = None)"

lemma exports_audit [simp]: "exports (audit_by c aid usr a t r d m) = exports m"
  by (subst audit_by_eq(1)) simp


lemma dropWhile_keeps: "c \<in> set xs \<Longrightarrow> \<not> P c \<Longrightarrow> c \<in> set (dropWhile P xs)"
  by (metis Un_iff set_append set_takeWhileD takeWhile_dropWhile_id)

lemma TrimSpace_keeps: "c \<in> set s \<Longrightarrow> \<not> is_space c \<Longrightarrow> c \<in> set (TrimSpace s)"
  unfolding TrimSpace_def by (simp add: dropWhile_keeps)

lemma TrimSpace_Nil: "TrimSpace s = [] \<longleftrightarrow> (\<forall>c \<in> set s. is_space c)"
proof
  assume "TrimSpace s = []"
  then show "\<forall>c \<in> set s. is_space c" using TrimSpace_keeps by fastforce
qed (auto simp: TrimSpace_def dest: set_dropWhileD)

lemma TrimSpace_twice: "TrimSpace (TrimSpace s) = [] \<longleftrightarrow> TrimSpace s = []"
  using TrimSpace_keeps [of _ s] set_dropWhileD unfolding TrimSpace_Nil [of "TrimSpace s"] TrimSpace_Nil [of s]
  by (metis (no_types, lifting) TrimSpace_def set_rev)

lemma validate_depends:
  assumes "request_config r = request_config r'" and "xq_type r = xq_type r'"
    and "TrimSpace (xq_name r) = [] \<longleftrightarrow> TrimSpace (xq_name r') = []"
  shows "validateExportTarget env r = validateExportTarget env r'"
  unfolding validateExportTarget_def assms ..

lemma validated_name:
  assumes "validateExportTarget env req = None"
  shows "validateExportTarget env (request_of \<lparr>et_id = i, et_name = TrimSpace (xq_name req), et_type = xq_type req,
      et_config = request_config req, et_secret_enc = s, et_enabled = b, et_created_at = t, et_updated_at = u\<rparr>) = None"
proof -
  have c: "request_config (request_of \<lparr>et_id = i, et_name = TrimSpace (xq_name req), et_type = xq_type req,
      et_config = request_config req, et_secret_enc = s, et_enabled = b, et_created_at = t, et_updated_at = u\<rparr>) =
      request_config req"
    by (simp add: request_of_def) (simp add: request_config_def)
  show ?thesis
    by (subst validate_depends [OF c]) (simp_all add: request_of_def TrimSpace_twice assms)
qed

lemma targets_ok_put:
  "targets_ok env m \<Longrightarrow> validateExportTarget env (request_of t) = None \<Longrightarrow> exports m' = (exports m)(et_id t \<mapsto> t) \<Longrightarrow>
   targets_ok env m'"
  by (auto simp: targets_ok_def)

lemma request_of_update [simp]:
  "request_of (t\<lparr>et_secret_enc := s\<rparr>) = request_of t" "request_of (t\<lparr>et_updated_at := u\<rparr>) = request_of t"
  by (simp_all add: request_of_def)

lemma create_target_ok:
  assumes "createExportTarget env crypt sealErr c aid usr body m = (m', rep)" and "targets_ok env m"
  shows "targets_ok env m'"
proof (cases body)
  case (Inl e)
  then show ?thesis using assms by (cases e) (simp add: createExportTarget_def)
next
  case (Inr req)
  show ?thesis
  proof (cases "validateExportTarget env req = None \<and> (\<exists>secret. sealExportSecret crypt sealErr (xq_secret req) [] = Inr secret)")
    case True
    then obtain secret where v: "validateExportTarget env req = None"
      and s: "sealExportSecret crypt sealErr (xq_secret req) [] = Inr secret" by blast
    show ?thesis
      using assms(1)
      by (intro targets_ok_put [OF assms(2) validated_name [OF v, of "c_uuid c" secret
              "case xq_enabled req of None \<Rightarrow> True | Some b \<Rightarrow> b" "c_now c" "c_now c"]])
        (auto simp: createExportTarget_def Inr v s CreateExportTarget_def Let_def)
  next
    case False
    then show ?thesis using assms by (auto simp: createExportTarget_def Inr split: option.splits sum.splits)
  qed
qed

lemma patched_id [simp]: "et_id (patched_target req t) = et_id t"
  by (simp add: patched_target_def Let_def split: option.split)

lemma patch_target_ok:
  assumes "patchExportTarget env crypt sealErr c aid usr i body m = (m', rep)" and "targets_ok env m"
  shows "targets_ok env m'"
proof (cases "\<exists>t req secret. exports m i = Some t \<and> body = Inr req \<and>
    validateExportTarget env (request_of (patched_target req t)) = None \<and>
    sealExportSecret crypt sealErr (xq_secret req) (et_secret_enc (patched_target req t)) = Inr secret")
  case True
  then obtain t req secret where t: "exports m i = Some t" "body = Inr req"
    and v: "validateExportTarget env (request_of (patched_target req t)) = None"
    and s: "sealExportSecret crypt sealErr (xq_secret req) (et_secret_enc (patched_target req t)) = Inr secret" by blast
  have "et_id t = i" using assms(2) t(1) by (simp add: targets_ok_def)
  then show ?thesis
    using assms(1) v t
    by (intro targets_ok_put [OF assms(2), of "patched_target req t\<lparr>et_secret_enc := secret, et_updated_at := c_now c\<rparr>"])
      (auto simp: patchExportTarget_def GetExportTarget_def get_or_def s UpdateExportTarget_def Let_def)
next
  case False
  then show ?thesis using assms
    by (auto simp: patchExportTarget_def GetExportTarget_def get_or_def Let_def split: option.splits sum.splits)
qed

lemma deliver_ok_target:
  assumes ok: "targets_ok env m" and t: "exports m (d_target_id d) = Some t"
    and o: "GetObservation (d_observation_id d) m = Inr ob"
    and j: "xe_json env (ToECS ob (case GetHost (o_host_id ob) m of Inl _ \<Rightarrow> None | Inr h \<Rightarrow> Some h)) = Inr payload"
    and s: "target_secret env t = Inr secret" and failed: "deliver env d m = Some (Permanent msg)"
    and elastic: "et_type t \<noteq> ExportElasticsearch"
  shows "et_type t = ExportWebhook \<and> (\<exists>req code. xe_http env req = Inr code \<and> 400 \<le> code \<and> code < 500 \<and> code \<noteq> 429)"
proof -
  have v: "validateExportTarget env (request_of t) = None" using ok t by (simp add: targets_ok_def)
  have d: "deliver env d m =
      (if et_type t = ExportWebhook
       then sendHTTP env ''POST'' (lookup_str (et_config t) ''url'') [] secret payload (d_id d)
       else if et_type t = ExportSyslog then sendSyslog env (et_config t) payload
       else Some (Permanent (''unsupported export target type '' @ dquoted (et_type t))))"
    using elastic by (simp add: deliver_def GetExportTarget_def get_or_def t o j s)
  show ?thesis
  proof (cases "et_type t = ExportWebhook")
    case True
    then obtain scheme h u where p: "xe_parse_uri env (lookup_str (et_config t) ''url'') = Some (scheme, h, u)"
      "h \<noteq> []" "scheme = ''http'' \<or> scheme = ''https''"
      using v by (auto simp: validateExportTarget_def request_of_def request_config_def Let_def split: option.splits if_splits)
    then show ?thesis using failed True
      by (auto simp: d sendHTTP_def Let_def split: sum.splits if_splits)
  next
    case False
    then have "et_type t = ExportSyslog" "xe_split_host_port env (lookup_str (et_config t) ''address'') = None"
      "lookup_str (et_config t) ''network'' \<in> {[], ''tcp'', ''udp''}"
      using v elastic by (auto simp: validateExportTarget_def request_of_def request_config_def Let_def split: option.splits if_splits)
    then show ?thesis using failed by (auto simp: d sendSyslog_def Let_def)
  qed
qed



lemma demo_outbox_ok: "targets_ok (demo_export_env code) demo_outbox"
  by (simp add: targets_ok_def demo_outbox_def validateExportTarget_def request_of_def request_config_def Let_def
      demo_export_env_def TrimSpace_def is_space_def secret_key_def ToLower_def lower_char_def)


end
