(* ===== verification/UiPages.thy ===== *)
theory UiPages
  imports HostApi Observations RuleSet SensorEvents Scheduling
begin

text \<open>
  The pages of \<open>internal/api/ui.go\<close>: what a page shows is the data its template is given.

  The templates, the format of times and durations and Go's \<open>%v\<close> are arguments. A panic is \<open>None\<close>; the
  server turns it into an aborted request. Where the store's answer has an error the handler drops, there is
  none: the listings of the memory store do not fail.
\<close>

section \<open>Strings on the pages\<close>

definition hostDisplay :: "host option \<Rightarrow> string option" where
  "hostDisplay h =
     (case h of
        None \<Rightarrow> Some ''(unknown)''
      | Some h \<Rightarrow>
          if h_hostname h \<noteq> [] then Some (h_hostname h)
          else if h_primary_ip h \<noteq> [] then Some (h_primary_ip h)
          else if length (h_id h) < 8 then None else Some (take 8 (h_id h)))"

text \<open>The ellipsis is three bytes of UTF-8.\<close>

definition evidenceString :: "(any_value \<Rightarrow> string) \<Rightarrow> (string \<times> any_value) list \<Rightarrow> string" where
  "evidenceString sprint ev =
     (let s = Join '', '' (map (\<lambda>(k, v). k @ ''='' @ sprint v) (sort_key fst ev))
      in if length s > 400 then take 400 s @ [CHR 0xE2, CHR 0x80, CHR 0xA6] else s)"

definition tagPairs :: "string_map \<Rightarrow> string list" where
  "tagPairs tags = sort (map (\<lambda>(k, v). k @ ''='' @ v) tags)"

section \<open>The dashboard\<close>

record bar =
  ba_label :: string
  ba_count :: int
  ba_pct :: int
  ba_class :: string

text \<open>A Go map from labels to counts, as the labels in the order they first came up with their counts.\<close>

definition tally :: "string list \<Rightarrow> (string \<times> int) list" where
  "tally ls = map (\<lambda>l. (l, int (length (filter ((=) l) ls)))) (remdups ls)"

definition max_count :: "int list \<Rightarrow> int" where
  "max_count cs = foldl max 0 cs"

definition topBars :: "(string \<times> int) list \<Rightarrow> int \<Rightarrow> bar list" where
  "topBars m n =
     (let bars = sort_key (\<lambda>(l, c). (- c, l)) m;
          bars = (if n > 0 \<and> int (length bars) > n then take (nat n) bars else bars);
          top = max_count (map snd bars)
      in map (\<lambda>(l, c). \<lparr>ba_label = l, ba_count = c, ba_pct = (if top > 0 then c * 100 sdiv top else 0), ba_class = []\<rparr>) bars)"

definition sevBars :: "string list \<Rightarrow> bar list" where
  "sevBars sevs =
     (let levels = [''critical'', ''high'', ''medium'', ''low''];
          n = (\<lambda>s. int (length (filter ((=) s) sevs)));
          top = max_count (map n levels)
      in map (\<lambda>s. \<lparr>ba_label = s, ba_count = n s, ba_pct = (if top > 0 then n s * 100 sdiv top else 0),
           ba_class = ''sev-'' @ s\<rparr>) levels)"

record dashboard =
  da_hosts :: int
  da_open :: int
  da_crit_high :: int
  da_resolved :: int
  da_false_positive :: int
  da_acknowledged :: int
  da_sev :: "bar list"
  da_rules :: "bar list"
  da_mitre :: "bar list"
  da_by_host :: "bar list"

text \<open>The names of the hosts by id; \<open>None\<close> when one of them cannot be displayed.\<close>

fun display_names :: "host list \<Rightarrow> (string \<times> string) list option" where
  "display_names [] = Some []"
| "display_names (h # hs) =
     (case hostDisplay (Some h) of
        None \<Rightarrow> None
      | Some d \<Rightarrow> map_option (\<lambda>ns. ns @ [(h_id h, d)]) (display_names hs))"

definition all_observations :: observation_filter where
  "all_observations = \<lparr>f_verdict = [], f_host_id = [], f_severity = [], f_status = [], f_source = [], f_rule_id = [], f_query = [],
     f_limit = 0, f_before_time = 0, f_before_id = []\<rparr>"

definition uiDashboard :: "string list \<Rightarrow> string list \<Rightarrow> memory \<Rightarrow> dashboard option" where
  "uiDashboard hostKs obsKs m =
     (let hs = ListHosts hostKs m in
      case display_names hs of
        None \<Rightarrow> None
      | Some names \<Rightarrow>
          (let found = ListObservations obsKs (all_observations\<lparr>f_limit := 10000\<rparr>) m;
               opened = filter (\<lambda>ob. o_status ob = ObsOpen) found;
               with = (\<lambda>s. int (length (filter (\<lambda>ob. o_status ob = s) found)))
           in Some \<lparr>da_hosts = int (length hs), da_open = int (length opened),
                da_crit_high = int (length (filter (\<lambda>ob. o_severity ob = ''critical'' \<or> o_severity ob = ''high'') opened)),
                da_resolved = with ObsResolved, da_false_positive = with ObsFalsePositive, da_acknowledged = with ObsAcknowledged,
                da_sev = sevBars (map o_severity opened), da_rules = topBars (tally (map o_rule_id opened)) 10,
                da_mitre = topBars (tally (concat (map o_mitre opened))) 10,
                da_by_host = topBars (tally (map (\<lambda>ob. lookup_str names (o_host_id ob)) opened)) 8\<rparr>))"

section \<open>Tables of the pages\<close>

text \<open>\<open>fmt\<close> formats a time; the zero time is shown as nothing.\<close>

definition humanTime :: "(go_time \<Rightarrow> string) \<Rightarrow> go_time \<Rightarrow> string" where
  "humanTime fmt t = (if t = 0 then [] else fmt t)"

definition lastSeen :: "(go_time \<Rightarrow> string) \<Rightarrow> go_time option \<Rightarrow> string" where
  "lastSeen fmt t = (case t of None \<Rightarrow> ''never'' | Some t \<Rightarrow> humanTime fmt t)"

record host_row =
  hr_host :: host
  hr_tag_pairs :: "string list"
  hr_open :: int
  hr_last_seen :: string
  hr_sensor_on :: bool
  hr_ebpf :: int

definition tag_filter :: "string \<Rightarrow> host \<Rightarrow> bool" where
  "tag_filter q h = (case Cut (CHR ''='') q of None \<Rightarrow> True | Some (k, v) \<Rightarrow> lookup_str (h_tags h) k = v)"

definition uiHosts :: "(go_time \<Rightarrow> string) \<Rightarrow> string list \<Rightarrow> string list \<Rightarrow> string \<Rightarrow> memory \<Rightarrow> host_row list" where
  "uiHosts fmt hostKs obsKs tagFilter m =
     map (\<lambda>h. \<lparr>hr_host = h, hr_tag_pairs = tagPairs (h_tags h),
          hr_open = int (length (ListObservations obsKs (all_observations\<lparr>f_host_id := h_id h, f_status := ObsOpen\<rparr>) m)),
          hr_last_seen = lastSeen fmt (h_last_seen h), hr_sensor_on = (h_mode h = ''scan_plus_sensor''),
          hr_ebpf = int (length (ListObservations obsKs (all_observations\<lparr>f_host_id := h_id h, f_source := SourceEBPFSensor\<rparr>) m))\<rparr>)
       (filter (tag_filter tagFilter) (ListHosts hostKs m))"

record obs_row =
  or_observation :: observation
  or_hostname :: string
  or_evidence :: string
  or_last_seen :: string

text \<open>The query of the findings page: host, severity, status and a text to look for.\<close>

definition page_filter :: "(string \<Rightarrow> string) \<Rightarrow> observation_filter" where
  "page_filter q =
     all_observations\<lparr>f_host_id := q ''host'', f_severity := q ''severity'', f_status := q ''status'', f_query := q ''q'', f_limit := 500\<rparr>"

definition uiObservations ::
  "(any_value \<Rightarrow> string) \<Rightarrow> (go_time \<Rightarrow> string) \<Rightarrow> string list \<Rightarrow> string list \<Rightarrow> (string \<Rightarrow> string) \<Rightarrow> memory \<Rightarrow>
   (obs_row list \<times> (string \<times> string) list) option" where
  "uiObservations sprint fmt hostKs obsKs q m =
     (let hs = ListHosts hostKs m;
          byID = map_of (rev (map (\<lambda>h. (h_id h, h)) hs));
          rows = those (map (\<lambda>ob. map_option
             (\<lambda>d. \<lparr>or_observation = ob, or_hostname = d, or_evidence = evidenceString sprint (o_evidence ob),
                  or_last_seen = humanTime fmt (o_last_seen ob)\<rparr>) (hostDisplay (byID (o_host_id ob))))
             (ListObservations obsKs (page_filter q) m));
          opts = those (map (\<lambda>h. map_option (Pair (h_id h)) (hostDisplay (Some h))) hs)
      in (case (rows, opts) of (Some rows, Some opts) \<Rightarrow> Some (rows, opts) | _ \<Rightarrow> None))"

record sched_row =
  sr_schedule :: schedule
  sr_target :: string
  sr_interval :: string
  sr_last_run :: string
  sr_next_run :: string

text \<open>\<open>dur\<close> is the text of a duration; the seconds of a schedule become nanoseconds in 64 bits.\<close>

definition sched_target :: "(string \<times> string) list \<Rightarrow> (string \<times> string) list \<Rightarrow> schedule \<Rightarrow> string" where
  "sched_target hostName collName sc =
     (if sc_host_id sc \<noteq> [] then ''host: '' @ lookup_str hostName (sc_host_id sc)
      else if sc_collection_id sc \<noteq> [] then ''collection: '' @ lookup_str collName (sc_collection_id sc)
      else ''all hosts'')"

definition uiSchedules ::
  "(duration \<Rightarrow> string) \<Rightarrow> (go_time \<Rightarrow> string) \<Rightarrow> string list \<Rightarrow> string list \<Rightarrow> string list \<Rightarrow> memory \<Rightarrow>
   (sched_row list \<times> (string \<times> string) list \<times> (string \<times> string) list) option" where
  "uiSchedules dur fmt schedKs hostKs collKs m =
     (case display_names (ListHosts hostKs m) of
        None \<Rightarrow> None
      | Some hostName \<Rightarrow>
          (let colls = map (\<lambda>c. (co_id c, co_name c)) (ListCollections collKs m) in
           Some (map (\<lambda>sc. \<lparr>sr_schedule = sc, sr_target = sched_target hostName (rev colls) sc,
               sr_interval = dur (wrap64 (sc_interval_s sc * Second)), sr_last_run = lastSeen fmt (sc_last_run sc),
               sr_next_run = humanTime fmt (sc_next_run sc)\<rparr>) (ListSchedules schedKs m), rev hostName, colls)))"

record rule_row =
  rr_id :: string
  rr_title :: string
  rr_category :: string
  rr_severity :: string
  rr_mitre :: "string list"
  rr_enabled :: bool
  rr_is_user :: bool

text \<open>The rows, how many rules there are and how many are switched on. A bundle that does not load is shown empty.\<close>

definition uiRules ::
  "(memory \<Rightarrow> store_error + rule list) option \<Rightarrow> string list \<Rightarrow> memory \<Rightarrow> rule_row list \<times> int \<times> int" where
  "uiRules active ks m =
     (let rs = (case active of None \<Rightarrow> [] | Some load \<Rightarrow> (case load m of Inl _ \<Rightarrow> [] | Inr rs \<Rightarrow> rs));
          own = set (map r_id (ListRules ks m));
          rows = map (\<lambda>ru. \<lparr>rr_id = ru_id ru, rr_title = ru_title ru, rr_category = ru_category ru, rr_severity = ru_severity ru,
            rr_mitre = ru_mitre ru, rr_enabled = IsEnabled ru, rr_is_user = (ru_id ru \<in> own)\<rparr>) rs
      in (sort_key (\<lambda>row. (rr_category row, rr_id row)) rows, int (length rs), int (length (filter IsEnabled rs))))"

text \<open>A severity the page does not know sorts with the critical ones: the map of ranks answers 0.\<close>

definition severity_rank :: "string \<Rightarrow> int" where
  "severity_rank s = (if s = ''high'' then 1 else if s = ''medium'' then 2 else if s = ''low'' then 3 else 0)"

definition uiPolicies :: "policy_meta list \<Rightarrow> policy_meta list" where
  "uiPolicies pols = sort_key (\<lambda>p. (severity_rank (pm_severity p), pm_name p)) pols"


section \<open>What the figures say\<close>

lemma length_ListObservations:
  "f_limit f = 0 \<Longrightarrow> length (ListObservations ks f m) = length (filter (obs_selected f) (vals ks (obs m)))"
  by (simp add: ListObservations_def limited_def)

lemma sum_list_int: "int (sum_list (map f xs)) = sum_list (map (\<lambda>x. int (f x)) xs)"
  by (induction xs) simp_all

lemma ids_of_vals:
  assumes "iterates ks t" and "\<And>k v. t k = Some v \<Longrightarrow> f v = k"
  shows "map f (vals ks t) = ks"
proof -
  have "map f (vals ks t) = map fst (entries ks t)"
    using assms(2) by (auto simp: vals_def set_entries)
  then show ?thesis using map_fst_entries [OF assms(1)] by simp
qed

lemma length_filter_sum:
  assumes "distinct (map f hs)" and "\<forall>x \<in> set xs. P x \<longrightarrow> g x \<in> f ` set hs"
  shows "sum_list (map (\<lambda>h. length (filter (\<lambda>x. g x = f h \<and> P x) xs)) hs) = length (filter P xs)"
  using assms(2)
proof (induction xs)
  case (Cons x xs)
  have one: "sum_list (map (\<lambda>h. if f h = y then 1 else 0 :: nat) hs) = (if y \<in> f ` set hs then 1 else 0)" for y
    using assms(1) by (induction hs) auto
  have "sum_list (map (\<lambda>h. length (filter (\<lambda>x. g x = f h \<and> P x) (x # xs))) hs) =
      sum_list (map (\<lambda>h. (if P x then if f h = g x then 1 else 0 else 0) + length (filter (\<lambda>x. g x = f h \<and> P x) xs)) hs)"
    by (intro arg_cong [of _ _ sum_list] map_cong) auto
  also have "\<dots> = (if P x then 1 else 0) + length (filter P xs)"
    using Cons one [of "g x"] by (simp add: sum_list_addf)
  finally show ?case by simp
qed simp

text \<open>The open findings of the overview are the ones the rows of the hosts page add up to, while there are few.\<close>

lemma open_findings_add_up:
  assumes page: "uiDashboard hostKs obsKs m = Some d" and few: "length (vals obsKs (obs m)) \<le> 10000"
    and hosts: "iterates hostKs (hosts m)" "hosts m [] = None" "\<And>k h. hosts m k = Some h \<Longrightarrow> h_id h = k"
    and known: "\<And>ob. ob \<in> set (vals obsKs (obs m)) \<Longrightarrow> hosts m (o_host_id ob) \<noteq> None"
  shows "da_open d = sum_list (map hr_open (uiHosts fmt hostKs obsKs [] m))"
proof -
  let ?obs = "vals obsKs (obs m)" and ?hs = "ListHosts hostKs m"
  have sel: "obs_selected (all_observations\<lparr>f_limit := 10000\<rparr>) ob" for ob
    by (simp add: obs_selected_def obs_matches_def before_cursor_def all_observations_def)
  have L: "ListObservations obsKs (all_observations\<lparr>f_limit := 10000\<rparr>) m = rev (sort_key obs_key ?obs)"
    using few by (simp add: ListObservations_def limited_def sel)
  have "da_open d = int (length (filter (\<lambda>ob. o_status ob = ObsOpen) (rev (sort_key obs_key ?obs))))"
    using page by (auto simp: uiDashboard_def Let_def L split: option.splits)
  also have "\<dots> = int (length (filter (\<lambda>ob. o_status ob = ObsOpen) ?obs))"
    by (simp add: rev_filter [symmetric] filter_sort)
  finally have d: "da_open d = int (length (filter (\<lambda>ob. o_status ob = ObsOpen) ?obs))" .
  have hs: "set ?hs = ran (hosts m)" using hosts(1) by (auto simp: ListHosts_def iterates_vals)
  have n: "length (ListObservations obsKs (all_observations\<lparr>f_host_id := h_id h, f_status := ObsOpen\<rparr>) m) =
      length (filter (\<lambda>ob. o_host_id ob = h_id h \<and> o_status ob = ObsOpen) ?obs)" if "h \<in> set ?hs" for h
  proof -
    have "h_id h \<noteq> []" using that hosts by (force simp: hs ran_def)
    then show ?thesis
      by (simp add: length_ListObservations obs_selected_def [abs_def] obs_matches_def before_cursor_def all_observations_def)
  qed
  have "map h_id (vals hostKs (hosts m)) = hostKs" by (rule ids_of_vals [OF hosts(1) hosts(3)])
  then have "distinct (map h_id (vals hostKs (hosts m)))" using hosts(1) by (simp add: iterates_def)
  then have "distinct (map h_id ?hs)" by (simp add: ListHosts_def distinct_map)
  moreover have "\<forall>ob \<in> set ?obs. o_status ob = ObsOpen \<longrightarrow> o_host_id ob \<in> h_id ` set ?hs"
    using known hosts(3) unfolding hs ran_def by (fastforce simp: image_iff)
  ultimately have "sum_list (map (\<lambda>h. length (filter (\<lambda>ob. o_host_id ob = h_id h \<and> o_status ob = ObsOpen) ?obs)) ?hs) =
      length (filter (\<lambda>ob. o_status ob = ObsOpen) ?obs)" by (rule length_filter_sum)
  moreover have "map hr_open (uiHosts fmt hostKs obsKs [] m) =
      map (\<lambda>h. int (length (filter (\<lambda>ob. o_host_id ob = h_id h \<and> o_status ob = ObsOpen) ?obs))) ?hs"
    using n by (simp add: uiHosts_def tag_filter_def Cut_def)
  ultimately show ?thesis
    by (simp add: d sum_list_int [symmetric])
qed


text \<open>The bars: a width is a share of the longest bar, and the longest comes first.\<close>

lemma max_count_upper: "c \<in> set cs \<Longrightarrow> c \<le> max_count cs"
proof -
  have "a \<le> foldl max a cs \<and> (\<forall>c \<in> set cs. c \<le> foldl max a cs)" for a :: int
    by (induction cs arbitrary: a) (simp_all, meson max.cobounded1 max.cobounded2 order_trans)
  then show "c \<in> set cs \<Longrightarrow> c \<le> max_count cs" by (simp add: max_count_def)
qed

lemma share_in_range:
  assumes "0 \<le> c" and "c \<le> mx" and "0 < mx"
  shows "0 \<le> c * 100 sdiv mx \<and> c * 100 sdiv mx \<le> (100 :: int)"
proof -
  have "c * 100 sdiv mx = c * 100 div mx" using assms by (simp add: signed_divide_int_def sgn_if)
  moreover have "c * 100 div mx \<le> 100 * mx div mx" using assms by (intro zdiv_mono1) simp_all
  ultimately show ?thesis using assms by (simp add: pos_imp_zdiv_nonneg_iff)
qed

lemma topBars_widths:
  assumes "\<forall>(l, c) \<in> set t. 0 \<le> c" and "b \<in> set (topBars t n)"
  shows "0 \<le> ba_pct b \<and> ba_pct b \<le> 100 \<and> (ba_label b, ba_count b) \<in> set t"
proof -
  define bars where "bars = (let bars = sort_key (\<lambda>(l, c). (- c, l)) t in if n > 0 \<and> int (length bars) > n then take (nat n) bars else bars)"
  define mx where "mx = max_count (map snd bars)"
  have sub: "set bars \<subseteq> set t" by (auto simp: bars_def Let_def dest: in_set_takeD)
  from assms(2) obtain l c where lc: "(l, c) \<in> set bars"
    and b: "b = \<lparr>ba_label = l, ba_count = c, ba_pct = (if mx > 0 then c * 100 sdiv mx else 0), ba_class = []\<rparr>"
    unfolding topBars_def Let_def bars_def [unfolded Let_def, symmetric] mx_def by auto
  have "c \<le> mx" unfolding mx_def using lc by (intro max_count_upper) force
  moreover have "0 \<le> c" using assms(1) sub lc by auto
  ultimately show ?thesis using sub lc share_in_range [of c mx] by (auto simp: b)
qed

text \<open>
  \<open>hostDisplay\<close> cuts the identifier without a look at its length. A client can choose the identifier of a
  host it creates, and empty its name afterwards.
\<close>

lemma display_names_None: "display_names hs = None \<longleftrightarrow> (\<exists>h \<in> set hs. hostDisplay (Some h) = None)"
  by (induction hs) (auto split: option.splits)

lemma nameless_host_stops_pages:
  assumes "hosts m k = Some h" and "k \<in> set hostKs"
    and "h_hostname h = []" and "h_primary_ip h = []" and "length (h_id h) < 8"
  shows "uiDashboard hostKs obsKs m = None" and "uiSchedules dur fmt schedKs hostKs collKs m = None"
    and "uiObservations sprint fmt hostKs obsKs q m = None"
proof -
  have h: "h \<in> set (ListHosts hostKs m)" using assms(1,2) by (auto simp: ListHosts_def set_vals)
  have d: "hostDisplay (Some h) = None" using assms(3-5) by (simp add: hostDisplay_def)
  then have n: "display_names (ListHosts hostKs m) = None" using h by (auto simp: display_names_None)
  show "uiDashboard hostKs obsKs m = None" by (simp add: uiDashboard_def Let_def n)
  show "uiSchedules dur fmt schedKs hostKs collKs m = None" by (simp add: uiSchedules_def n)
  have "those (map (\<lambda>h. map_option (Pair (h_id h)) (hostDisplay (Some h))) hs) = None" if "h \<in> set hs" for hs
    using that by (induction hs) (auto simp: d split: option.splits)
  then show "uiObservations sprint fmt hostKs obsKs q m = None"
    using h by (auto simp: uiObservations_def Let_def split: option.splits)
qed

definition short_host :: host where
  "short_host = \<lparr>h_id = ''h1'', h_hostname = ''a'', h_primary_ip = [], h_ssh_port = 22, h_credential_id = [], h_ssh_host_key = [],
     h_os_name = [], h_os_version = [], h_kernel = [], h_arch = [], h_mode = [], h_status = [], h_tags = [], h_last_seen = None,
     h_created_at = 0\<rparr>"

lemma analyst_stops_pages:
  "\<exists>m h. snd (createHost ''u'' 5 (Inr short_host) NewMemory) = Body 201 h \<and>
     patchHost ''h1'' (Inr \<lparr>hp_hostname = Some [], hp_mode = None, hp_tags = None\<rparr>)
       (fst (createHost ''u'' 5 (Inr short_host) NewMemory)) = (m, Body 200 (h\<lparr>h_hostname := []\<rparr>)) \<and>
     uiDashboard [''h1''] [] m = None"
proof -
  let ?h = "short_host\<lparr>h_mode := ModeScanOnly, h_status := StatusPending, h_created_at := 5\<rparr>"
  have c: "createHost ''u'' 5 (Inr short_host) NewMemory = (NewMemory\<lparr>hosts := [''h1'' \<mapsto> ?h]\<rparr>, Body 201 ?h)"
    by (simp add: createHost_def shown_with_def CreateHost_def Let_def short_host_def or_default_def or_default_time_def NewMemory_def)
  let ?m = "NewMemory\<lparr>hosts := [''h1'' \<mapsto> ?h\<lparr>h_hostname := []\<rparr>]\<rparr>"
  have "patchHost ''h1'' (Inr \<lparr>hp_hostname = Some [], hp_mode = None, hp_tags = None\<rparr>) (NewMemory\<lparr>hosts := [''h1'' \<mapsto> ?h]\<rparr>) =
      (?m, Body 200 (?h\<lparr>h_hostname := []\<rparr>))"
    by (simp add: patchHost_def GetHost_def get_or_def UpdateHost_def short_host_def Let_def)
  moreover have "uiDashboard [''h1''] [] ?m = None"
    by (rule nameless_host_stops_pages(1) [where k = "''h1''" and h = "?h\<lparr>h_hostname := []\<rparr>"]) (simp_all add: short_host_def)
  ultimately show ?thesis using c by auto
qed

end
