(* ===== verification/Transport.thy ===== *)
theory Transport
  imports HostApi SensorDeploy Playbooks
begin

text \<open>
  How the server reaches a host: the choice of a transport with its credential
  (\<open>transportFactory\<close> and \<open>sensorTransportFactory\<close> in \<open>cmd/bladedr-server/main.go\<close>) and the SSH
  session of a scan or of a sensor deployment (\<open>internal/scan/ssh.go\<close>).

  A session is the list of the commands it sends, each with what is piped into it. What the host answers
  to the \<open>n\<close>-th command is an argument, so are the parser of private keys, SHA-256 in hexadecimal, the random
  names and the JSON of the rule bundle. The deployment script is an argument too.
\<close>

section \<open>Authentication and host keys\<close>

datatype 's auth_method = PublicKeys 's | PasswordAuth string | KeyboardInteractive "string list \<Rightarrow> string list"

definition AuthFor :: "(string \<Rightarrow> 's option) \<Rightarrow> string \<Rightarrow> string \<Rightarrow> string + 's auth_method list" where
  "AuthFor parse authType secret =
     (if authType = ''ssh_key'' then
        (case parse secret of None \<Rightarrow> Inl ''parse private key'' | Some signer \<Rightarrow> Inr [PublicKeys signer])
      else if authType = ''password'' then
        Inr [PasswordAuth secret, KeyboardInteractive (map (\<lambda>_. secret))]
      else Inl (''unsupported auth type '' @ dquoted authType @ '' over SSH''))"

text \<open>\<open>tp_learn\<close> is the host whose row takes a key seen for the first time.\<close>

record 's ssh_transport =
  tp_addr :: string
  tp_user :: string
  tp_auth :: "'s auth_method list"
  tp_expected :: string
  tp_learn :: "string option"
  tp_binary :: string
  tp_sudo :: string

definition hostKeyCallback :: "'s ssh_transport \<Rightarrow> string \<Rightarrow> memory \<Rightarrow> memory \<times> string option" where
  "hostKeyCallback t key m =
     (let line = TrimSpace key in
      if tp_expected t = []
      then ((case tp_learn t of None \<Rightarrow> m | Some hid \<Rightarrow> fst (SetHostSSHHostKey hid line m)), None)
      else if line = tp_expected t then (m, None)
      else (m, Some (''host key mismatch for '' @ tp_addr t @ '' (possible MITM); pinned='' @ dquoted (tp_expected t) @
               '' got='' @ dquoted line)))"

section \<open>The choice of a transport\<close>

definition JoinHostPort :: "string \<Rightarrow> string \<Rightarrow> string" where
  "JoinHostPort h port = (if CHR '':'' \<in> set h then ''['' @ h @ '']:'' @ port else h @ '':'' @ port)"

definition sudoPasswordFor :: "crypto \<Rightarrow> credential \<Rightarrow> string \<Rightarrow> string" where
  "sudoPasswordFor k cred loginSecret =
     (case (if cr_sudo_secret_enc cred = [] then None else openSecret k (cr_sudo_secret_enc cred)) of
        Some pw \<Rightarrow> pw
      | None \<Rightarrow> if cr_auth_type cred = ''password'' then loginSecret else [])"

text \<open>What both factories do first: the credential of the host, decrypted.\<close>

definition open_login ::
  "crypto option \<Rightarrow> (string \<Rightarrow> 's option) \<Rightarrow> host \<Rightarrow> memory \<Rightarrow> string + credential \<times> string \<times> 's auth_method list" where
  "open_login crypt parse h m =
     (case crypt of
        None \<Rightarrow> Inl ''cannot decrypt credential: no node key loaded''
      | Some k \<Rightarrow>
          if \<not> canOpen k then Inl ''cannot decrypt credential: no node key loaded''
          else (case GetCredential (h_credential_id h) m of
              Inl e \<Rightarrow> Inl (store_error_text e)
            | Inr cred \<Rightarrow> (case openSecret k (cr_secret_enc cred) of
                None \<Rightarrow> Inl ''decrypt credential''
              | Some secret \<Rightarrow> (case AuthFor parse (cr_auth_type cred) secret of
                  Inl e \<Rightarrow> Inl e
                | Inr auth \<Rightarrow> Inr (cred, secret, auth)))))"

definition ssh_to :: "crypto \<Rightarrow> host \<Rightarrow> credential \<times> string \<times> 's auth_method list \<Rightarrow> string \<Rightarrow> 's ssh_transport" where
  "ssh_to k h lg bin =
     (case lg of (cred, secret, auth) \<Rightarrow>
        \<lparr>tp_addr = JoinHostPort (h_primary_ip h) (Itoa (h_ssh_port h)), tp_user = cr_username cred, tp_auth = auth,
         tp_expected = h_ssh_host_key h, tp_learn = Some (h_id h), tp_binary = bin,
         tp_sudo = sudoPasswordFor k cred secret\<rparr>)"

definition host_arch :: "host \<Rightarrow> string" where
  "host_arch h = (if h_arch h = [] then ''amd64'' else h_arch h)"

datatype 's transport = LocalTransport string "string list" | SSHTransport "'s ssh_transport"

definition transportFactory ::
  "crypto option \<Rightarrow> (string \<Rightarrow> 's option) \<Rightarrow> (string \<rightharpoonup> string) \<Rightarrow> string \<Rightarrow> string list \<Rightarrow> host \<Rightarrow> memory \<Rightarrow>
   string + 's transport" where
  "transportFactory crypt parse probeBins localProbe extra h m =
     (if h_credential_id h = [] \<or> h_primary_ip h = [] then
        (if localProbe = [] then Inl ''host has no credential/IP and local probe is disabled''
         else Inr (LocalTransport localProbe extra))
      else (case open_login crypt parse h m of
          Inl e \<Rightarrow> Inl e
        | Inr lg \<Rightarrow> (case probeBins (host_arch h) of
            None \<Rightarrow> Inl (''no probe binary configured for arch '' @ dquoted (host_arch h) @
                      '' (set BLADEDR_PROBE_LINUX_'' @ ToUpper (host_arch h) @ '')'')
          | Some bin \<Rightarrow> Inr (SSHTransport (ssh_to (the crypt) h lg bin)))))"

text \<open>The deployment's transport carries no sudo password of its own; it is handed out beside it.\<close>

definition sensorTransportFactory ::
  "crypto option \<Rightarrow> (string \<Rightarrow> 's option) \<Rightarrow> (string \<rightharpoonup> string) \<Rightarrow> host \<Rightarrow> memory \<Rightarrow>
   string + 's ssh_transport \<times> string" where
  "sensorTransportFactory crypt parse probeBins h m =
     (if h_credential_id h = [] \<or> h_primary_ip h = [] then Inl ''host has no SSH credential/IP''
      else (case open_login crypt parse h m of
          Inl e \<Rightarrow> Inl e
        | Inr lg \<Rightarrow>
            (let t = ssh_to (the crypt) h lg (case probeBins (host_arch h) of None \<Rightarrow> [] | Some bin \<Rightarrow> bin)
             in Inr (t\<lparr>tp_sudo := []\<rparr>, tp_sudo t))))"

section \<open>What a command's output may hold\<close>

record captured_output =
  cap_buf :: string
  cap_limit :: nat
  cap_written :: nat
  cap_truncated :: bool

definition capture_write :: "captured_output \<Rightarrow> string \<Rightarrow> captured_output" where
  "capture_write c p =
     (let c = c\<lparr>cap_written := cap_written c + length p\<rparr>;
          c = (if cap_written c > cap_limit c then c\<lparr>cap_truncated := True\<rparr> else c);
          room = cap_limit c - length (cap_buf c)
      in (if room > 0 then c\<lparr>cap_buf := cap_buf c @ take room p\<rparr> else c))"

definition maxRemoteOutputBytes :: nat where "maxRemoteOutputBytes = 64 * 2 ^ 20"

definition captured :: "nat \<Rightarrow> string list \<Rightarrow> captured_output" where
  "captured limit ps = foldl capture_write \<lparr>cap_buf = [], cap_limit = limit, cap_written = 0, cap_truncated = False\<rparr> ps"

text \<open>
  The end of \<open>run\<close>: the pieces written to standard output and standard error, and how the command ended.
  With an error the output is still returned beside it.
\<close>

definition run_finish :: "nat \<Rightarrow> string list \<Rightarrow> string list \<Rightarrow> string option \<Rightarrow> string \<times> string option" where
  "run_finish limit outs errs runErr =
     (let out = captured limit outs; errb = captured limit errs in
      if cap_truncated out \<or> cap_truncated errb
      then ([], Some (''remote command output exceeded '' @ Itoa (int limit) @ '' bytes; refusing a truncated result''))
      else (cap_buf out, map_option (\<lambda>e. e @ '': '' @ TrimSpace (cap_buf errb)) runErr))"


section \<open>Facts\<close>

lemma capture_writes:
  "cap_buf c = take (cap_limit c) w \<Longrightarrow> cap_written c = length w \<Longrightarrow> cap_truncated c = (cap_limit c < length w) \<Longrightarrow>
   foldl capture_write c ps =
     c\<lparr>cap_buf := take (cap_limit c) (w @ concat ps), cap_written := length (w @ concat ps),
       cap_truncated := (cap_limit c < length (w @ concat ps))\<rparr>"
proof (induction ps arbitrary: c w)
  case Nil
  then show ?case by simp
next
  case (Cons p ps)
  have "capture_write c p =
      c\<lparr>cap_buf := take (cap_limit c) (w @ p), cap_written := length (w @ p), cap_truncated := (cap_limit c < length (w @ p))\<rparr>"
    using Cons.prems by (auto simp: capture_write_def Let_def min_def)
  then show ?case using Cons.IH [of "capture_write c p" "w @ p"] by simp
qed

text \<open>
  A command's output is taken whole or not at all. However it arrives in pieces, the collector
  holds the first \<open>limit\<close> bytes of what was written and nothing more, counts every byte, and says it was
  cut exactly when more was written; a command succeeds with exactly the text the host wrote to
  its standard output, and only if neither stream went over the limit.
\<close>

theorem output_whole_or_refused:
  "captured limit ps =
     \<lparr>cap_buf = take limit (concat ps), cap_limit = limit, cap_written = length (concat ps),
      cap_truncated = (limit < length (concat ps))\<rparr> \<and>
   (run_finish limit outs errs ended = (out, None)) =
     (out = concat outs \<and> length (concat outs) \<le> limit \<and> length (concat errs) \<le> limit \<and> ended = None)"
proof -
  have cap: "captured limit qs =
     \<lparr>cap_buf = take limit (concat qs), cap_limit = limit, cap_written = length (concat qs),
      cap_truncated = (limit < length (concat qs))\<rparr>" for qs
    unfolding captured_def by (subst capture_writes [of _ "[]"]) simp_all
  show ?thesis unfolding run_finish_def cap Let_def by auto
qed

lemma hostKeyCallback_pinned:
  "tp_expected t \<noteq> [] \<Longrightarrow> hostKeyCallback t key m =
     (m, if TrimSpace key = tp_expected t then None else snd (hostKeyCallback t key m))"
  "tp_expected t \<noteq> [] \<Longrightarrow> snd (hostKeyCallback t key m) = None \<longleftrightarrow> TrimSpace key = tp_expected t"
  by (auto simp: hostKeyCallback_def Let_def)

lemma ssh_to_simps [simp]:
  "tp_addr (ssh_to k h lg b) = JoinHostPort (h_primary_ip h) (Itoa (h_ssh_port h))"
  "tp_expected (ssh_to k h lg b) = h_ssh_host_key h" "tp_learn (ssh_to k h lg b) = Some (h_id h)"
  by (simp_all add: ssh_to_def split: prod.splits)

lemma transportFactory_ssh:
  assumes "transportFactory crypt parse bins local extra h m = Inr (SSHTransport t)"
  shows "tp_addr t = JoinHostPort (h_primary_ip h) (Itoa (h_ssh_port h)) \<and> tp_expected t = h_ssh_host_key h \<and>
     tp_learn t = Some (h_id h) \<and> h_credential_id h \<noteq> [] \<and> h_primary_ip h \<noteq> []"
  using assms unfolding transportFactory_def by (auto split: if_splits sum.splits option.splits)

end
