(* ===== verification/SshSession.thy ===== *)
theory SshSession
  imports Transport ScanRunner
begin

text \<open>
  The SSH sessions of \<open>internal/scan/ssh.go\<close>: the scripts they send, a scan (\<open>RunProbe\<close>), the
  installation of the sensor and its removal.

  The host is an adversary: what it answers to a command may depend on everything it was sent before,
  standard input included. A session is the list of the commands it sent, each with its standard
  input. A backslash is written \<open>CHR 92\<close> and a single quote at the end of a piece \<open>CHR 39\<close>.
\<close>

section \<open>Scripts\<close>

abbreviation probeCacheDir :: string where "probeCacheDir \<equiv> ''/tmp/.bladedr''"

definition cacheDirScript :: "string \<Rightarrow> string" where
  \<open>cacheDirScript dir =
     Join [CHR 10]
     [''set -u'',
      ''d='' @ shellArg dir,
      ''mkdir -p -m 0700 "$d" 2>/dev/null || true'',
      ''[ -e "$d" ] || { echo "staging dir $d could not be created" >&2; exit 1; }'',
      ''set -- $(ls -ldn "$d")'',
      ''case "$1" in'',
      ''  drwx------|drwx------[.+]) ;;'',
      ''  *) echo "staging dir $d has unsafe mode $1; refusing" >&2; exit 1 ;;'',
      ''esac'',
      ''[ "$3" = "$(id -u)" ] || { echo "staging dir $d is owned by uid $3, not $(id -u); refusing" >&2; exit 1; }'']\<close>

definition pruneStaleProbes :: "string \<Rightarrow> string \<Rightarrow> string" where
  "pruneStaleProbes dir keep =
     ''find '' @ shellArg dir @ '' -maxdepth 1 -type f -mmin +60 '' @
     [CHR 92] @ ''( -name 'probe-*' -o -name 'rules-*.json' '' @ [CHR 92] @ '') ! -name '' @ shellArg keep @
     '' -delete 2>/dev/null || true''"

definition lockedProbeScript :: "string \<Rightarrow> string \<Rightarrow> string" where
  \<open>lockedProbeScript dir command =
     cacheDirScript dir @ [CHR 10] @
     Join [CHR 10]
     [''[ ! -L "$d/scan.lock" ] && { [ ! -e "$d/scan.lock" ] || [ -f "$d/scan.lock" ]; } || { echo "unsafe scan lock" >&2; exit 1; }'',
      ''exec 9>>"$d/scan.lock"'',
      ''i=0'',
      ''while ! flock -n 9; do'',
      ''  i=$((i + 1))'',
      ''  [ "$i" -ge 300 ] && { echo "probe lock unavailable" >&2; exit 75; }'',
      ''  sleep 0.1'',
      ''done'',
      ''` + command'',
      command]\<close>

definition privilegedProbeScript :: "string \<Rightarrow> string \<Rightarrow> string \<Rightarrow> string \<Rightarrow> string \<Rightarrow> string" where
  \<open>privilegedProbeScript probePath probeDigest bundlePath bundleDigest args =
     lockedProbeScript ''/run/bladedr-probe'' (Join [CHR 10]
     [''d=$(mktemp -d) || exit 1'',
      ''trap 'rm -rf "$d"' EXIT'',
      ''cp '' @ probePath @ '' "$d/probe" && cp '' @ bundlePath @ '' "$d/rules.json" || exit 1'',
      ''[ "$(sha256sum "$d/probe" "$d/rules.json" | cut -d' ' -f1 | tr '' @ [CHR 39] @ [CHR 92] @ ''n' ' ')" = "'' @
        probeDigest @ '' '' @ bundleDigest @ '' " ] || { echo "probe or rule bundle changed after upload; refusing to run it as root" >&2; exit 1; }'',
      ''"$d/probe" --rules "$d/rules.json"'' @ args])\<close>

text \<open>The command that runs the probe, and its standard input.\<close>

definition probeCommand ::
  "string \<Rightarrow> string \<Rightarrow> string \<Rightarrow> string \<Rightarrow> string \<Rightarrow> string \<Rightarrow> bool \<Rightarrow> string \<times> string option" where
  \<open>probeCommand user sudoPW probePath probeDigest bundlePath bundleDigest emitSnapshot =
     (let args = (if emitSnapshot then '' --emit-snapshot'' else []);
          direct = probePath @ '' --rules '' @ bundlePath @ args
      in if user = ''root'' then (''sh -c '' @ shellArg (lockedProbeScript ''/run/bladedr-probe'' direct), None)
      else
        (let direct = ''sh -c '' @ shellArg (lockedProbeScript (probeCacheDir @ ''/scan-lock'') direct);
             priv = shellArg (privilegedProbeScript probePath probeDigest bundlePath bundleDigest args)
         in if sudoPW = []
            then (''if sudo -n -l sh >/dev/null 2>&1; then sudo -n sh -c '' @ priv @ ''; else '' @ direct @ ''; fi'', None)
            else
              (let script = Join [CHR 10]
                 [''read -r PW'',
                  ''feed() { printf '%s'' @ [CHR 92] @ ''n' "$PW"; }'',
                  ''if feed | sudo -S -p '' @ [CHR 39, CHR 39] @ '' -l sh >/dev/null 2>&1; then feed | sudo -S -p '' @
                    [CHR 39, CHR 39] @ '' sh -c '' @ priv @ ''; else '' @ direct @ ''; fi'']
               in (''sh -c '' @ shellArg script, Some (sudoPW @ [CHR 10])))))\<close>

definition verifyDigestScript :: "string \<Rightarrow> string \<Rightarrow> string \<Rightarrow> string" where
  \<open>verifyDigestScript fileExpr digestExpr what =
     ''[ "$(sha256sum '' @ fileExpr @ '' | cut -d' ' -f1)" = '' @ digestExpr @ '' ] || { echo "'' @ what @
     '' changed after upload; refusing to use it" >&2; exit 1; }''\<close>

definition sensorDeployScript :: string where
  \<open>sensorDeployScript =
     Join [CHR 10]
     [''#!/bin/sh'',
      ''set -u'',
      ''SERVER="${1:?server url}"; HOSTID="${2:?host id}"; SENSOR_DIGEST="${3:?sensor digest}"; POLICY_DIGEST="${4:?policy digest}"'',
      ''SRC=/tmp/.bladedr; B=/opt/bladedr'',
      ''TOKEN=$(cat "$SRC/sensor-token") || { echo "sensor credential missing"; exit 1; }'',
      ''rm -f "$SRC/sensor-token"'',
      verifyDigestScript ''"$SRC/policies.tgz"'' ''"$POLICY_DIGEST"'' ''policy bundle'',
      ''mkdir -p "$B/policies" "$B/off" "$B/export"'',
      ''cp "$SRC/sensor" "$B/sensor"'',
      verifyDigestScript ''"$B/sensor"'' ''"$SENSOR_DIGEST"'' ''sensor binary'',
      ''chmod 0755 "$B/sensor"'',
      ''rm -rf "$B/policies"/* "$B/off"/*'',
      ''tar xzf "$SRC/policies.tgz" -C "$B/policies" 2>/dev/null || { echo "untar failed"; exit 1; }'',
      ''cd "$B/policies" || exit 1'',
      ''rm -f *.backup'',
      ''for f in *.yml *.yaml; do'',
      ''  [ -f "$f" ] || continue'',
      ''  case "$f" in *cve-*|*dirtyfrag*|*iouring*|*userfaultfd*) mv "$f" "$B/off/"; continue;; esac'',
      ''  for s in $(grep -E "^['' @ ''[:space:]'' @ '']*-?['' @ ''[:space:]'' @ '']*call:" "$f" | sed -E 's/.*call:['' @ ''[:space:]'' @ '']*"?([^"]+)"?.*/'' @ [CHR 92] @ ''1/'); do'',
      ''    case "$s" in sys_*|__*) continue;; esac'',
      ''    grep -qw "$s" /proc/kallsyms || { mv "$f" "$B/off/"; break; }'',
      ''  done'',
      ''done'',
      ''docker rm -f bladedr-tetragon >/dev/null 2>&1'',
      ''docker run -d --name bladedr-tetragon --restart unless-stopped --privileged --pid=host --cgroupns=host '' @ [CHR 92],
      ''  -v /sys/kernel/btf/vmlinux:/var/lib/tetragon/btf:ro -v /sys/fs/bpf:/sys/fs/bpf:rw '' @ [CHR 92],
      ''  -v "$B/policies":/etc/tetragon/tetragon.tp.d:ro -v "$B/export":/var/log/tetragon:rw '' @ [CHR 92],
      ''  quay.io/cilium/tetragon:v1.7.0 --export-filename /var/log/tetragon/tetragon.log '' @ [CHR 92],
      ''  --tracing-policy-dir /etc/tetragon/tetragon.tp.d >/dev/null || { echo "tetragon start failed"; exit 1; }'',
      ''printf 'BLADEDR_INGEST_TOKEN=%s'' @ [CHR 92] @ ''n' "$TOKEN" > "$B/sensor.env"; chmod 0600 "$B/sensor.env"'',
      ''ARGS="--export-file $B/export/tetragon.log --policy-dir $B/policies --server $SERVER --host-id $HOSTID"'',
      ''if command -v systemctl >/dev/null 2>&1; then'',
      ''  cat > /etc/systemd/system/bladedr-sensor.service <<UNIT'',
      ''[Unit]'',
      ''Description=bladedr eBPF sensor (Tetragon -> control plane)'',
      ''After=docker.service network-online.target'',
      ''Wants=network-online.target'',
      ''[Service]'',
      ''EnvironmentFile=$B/sensor.env'',
      ''ExecStart=$B/sensor $ARGS'',
      ''Restart=always'',
      ''RestartSec=5'',
      ''[Install]'',
      ''WantedBy=multi-user.target'',
      ''UNIT'',
      ''  systemctl daemon-reload'',
      ''  systemctl enable bladedr-sensor >/dev/null 2>&1'',
      ''  # restart (not enable --now, a no-op when already active) so a re-deploy picks up'',
      ''  # the new binary/policies/unit even if the sensor is already running.'',
      ''  systemctl restart bladedr-sensor >/dev/null 2>&1'',
      ''  echo "sensor deployed (systemd): policies=$(ls "$B/policies"/*.y*ml 2>/dev/null | wc -l) skipped=$(ls "$B/off" 2>/dev/null | wc -l)"'',
      ''else'',
      ''  pkill -f '[/]opt/bladedr/sensor' 2>/dev/null; sleep 3'',
      ''  BLADEDR_INGEST_TOKEN="$TOKEN" setsid nohup "$B/sensor" $ARGS >"$B/sensor.log" 2>&1 &'',
      ''  echo "sensor deployed (nohup; no systemd): policies=$(ls "$B/policies"/*.y*ml 2>/dev/null | wc -l)"'',
      ''fi'',
      []]\<close>

definition sensorStopScript :: string where
  \<open>sensorStopScript =
     Join [CHR 10]
     [''docker stop bladedr-tetragon >/dev/null 2>&1 || true'',
      ''docker rm -f bladedr-tetragon >/dev/null 2>&1 || true'',
      ''if command -v systemctl >/dev/null 2>&1; then'',
      ''  systemctl disable --now bladedr-sensor >/dev/null 2>&1 || true'',
      ''  rm -f /etc/systemd/system/bladedr-sensor.service'',
      ''  systemctl daemon-reload >/dev/null 2>&1 || true'',
      ''fi'',
      ''pkill -f '[/]opt/bladedr/sensor' 2>/dev/null || true'',
      ''pkill -f '[/]tmp/.bladedr/sensor' 2>/dev/null || true'',
      ''echo "left=$(docker ps -q -f name=bladedr-tetragon | wc -l)"'']\<close>

section \<open>The host\<close>

type_synonym command = "string \<times> string option"

text \<open>What becomes of a command: its session could not be had, or it ran, wrote its output and ended.\<close>

datatype reply = Refused string | Ran "string list" "string list" "string option"

text \<open>What becomes of the key exchange: it failed, or a key was shown and the handshake went on with the verdict on it.\<close>

datatype handshake = NoKey string | Presented string "string option \<Rightarrow> string option"

record target =
  tg_dial :: "string option"
  tg_handshake :: handshake
  tg_answer :: "command list \<Rightarrow> command \<Rightarrow> reply"

definition dial :: "target \<Rightarrow> 's ssh_transport \<Rightarrow> memory \<Rightarrow> memory \<times> string option" where
  "dial w t m =
     (case tg_dial w of
        Some e \<Rightarrow> (m, Some (''dial '' @ tp_addr t @ '': '' @ e))
      | None \<Rightarrow> (case tg_handshake w of
          NoKey e \<Rightarrow> (m, Some (''ssh handshake: '' @ e))
        | Presented key f \<Rightarrow>
            (case hostKeyCallback t key m of (m, verdict) \<Rightarrow> (m, map_option (\<lambda>e. ''ssh handshake: '' @ e) (f verdict)))))"

definition run_command :: "target \<Rightarrow> command \<Rightarrow> command list \<Rightarrow> command list \<times> string \<times> string option" where
  "run_command w c sent =
     (sent @ [c],
      (case tg_answer w sent c of
         Refused e \<Rightarrow> ([], Some e)
       | Ran outs errs ended \<Rightarrow> run_finish maxRemoteOutputBytes outs errs ended))"

section \<open>A scan\<close>

text \<open>SHA-256 in hexadecimal, the two random names, the bundle as JSON and the parser of the probe's output.\<close>

record ssh_env =
  se_hexsum :: "string \<Rightarrow> string"
  se_rand8 :: string
  se_rand6 :: string
  se_marshal :: "rule_bundle \<Rightarrow> string + string"
  se_unmarshal :: "string \<Rightarrow> string + scan_result"

definition probeCached :: "target \<Rightarrow> string \<Rightarrow> string \<Rightarrow> command list \<Rightarrow> command list \<times> bool" where
  "probeCached w path digest sent =
     (case run_command w (''sha256sum '' @ path @ '' 2>/dev/null'', None) sent of
        (sent, out, Some e) \<Rightarrow> (sent, False)
      | (sent, out, None) \<Rightarrow> (sent, case Fields out of [] \<Rightarrow> False | f # _ \<Rightarrow> f = digest))"

definition installProbe :: "target \<Rightarrow> string \<Rightarrow> string \<Rightarrow> string \<Rightarrow> command list \<Rightarrow> command list \<times> string option" where
  "installProbe w binary probePath staging sent =
     (case run_command w (''cat > '' @ staging @ '' && chmod 0700 '' @ staging @ '' && mv -f '' @ staging @ '' '' @
             probePath, Some binary) sent of
        (sent, out, Some e) \<Rightarrow>
          (fst (run_command w (''rm -f '' @ staging, None) sent), Some (''upload probe: '' @ e))
      | (sent, out, None) \<Rightarrow> (sent, None))"

text \<open>The first steps of a scan: the staging directory, and the probe in it.\<close>

definition place_probe :: "ssh_env \<Rightarrow> target \<Rightarrow> 's ssh_transport \<Rightarrow> command list \<times> string option" where
  "place_probe env w t =
     (let digest = se_hexsum env (tp_binary t);
          probePath = probeCacheDir @ ''/probe-'' @ take 12 digest
      in case run_command w (cacheDirScript probeCacheDir, None) [] of
        (sent, out, Some e) \<Rightarrow> (sent, Some (''prepare probe cache: '' @ e @ '' ('' @ TrimSpace out @ '')''))
      | (sent, out, None) \<Rightarrow>
         (case run_command w (pruneStaleProbes probeCacheDir (''probe-'' @ take 12 digest), None) sent of (sent, _) \<Rightarrow>
          case probeCached w probePath digest sent of (sent, cached) \<Rightarrow>
            if cached then (sent, None)
            else installProbe w (tp_binary t) probePath (probePath @ ''.tmp.'' @ se_rand6 env) sent))"

text \<open>The rest: the rule bundle is sent and the probe is run.\<close>

definition use_probe ::
  "ssh_env \<Rightarrow> target \<Rightarrow> 's ssh_transport \<Rightarrow> rule_bundle \<Rightarrow> bool \<Rightarrow> command list \<Rightarrow> command list \<times> (string + scan_result)" where
  "use_probe env w t bundle emit sent =
     (let digest = se_hexsum env (tp_binary t);
          probePath = probeCacheDir @ ''/probe-'' @ take 12 digest;
          bundlePath = probeCacheDir @ ''/rules-'' @ se_rand8 env @ ''.json''
      in case se_marshal env bundle of
           Inl e \<Rightarrow> (sent, Inl e)
         | Inr bundleJSON \<Rightarrow>
           (case run_command w (''cat > '' @ bundlePath, Some bundleJSON) sent of
              (sent, out, Some e) \<Rightarrow> (sent, Inl (''upload bundle: '' @ e))
            | (sent, out, None) \<Rightarrow>
              (case run_command w (probeCommand (tp_user t) (tp_sudo t) probePath digest bundlePath
                      (se_hexsum env bundleJSON) emit) sent of
                 (sent, out, Some e) \<Rightarrow> (sent, Inl (''run probe: '' @ e))
               | (sent, out, None) \<Rightarrow> (case se_unmarshal env out of
                   Inl e \<Rightarrow> (sent, Inl (''parse probe output: '' @ e))
                 | Inr res \<Rightarrow> (sent, Inr res)))))"

definition probe_steps ::
  "ssh_env \<Rightarrow> target \<Rightarrow> 's ssh_transport \<Rightarrow> rule_bundle \<Rightarrow> bool \<Rightarrow> command list \<times> (string + scan_result)" where
  "probe_steps env w t bundle emit =
     (case place_probe env w t of
        (sent, Some e) \<Rightarrow> (sent, Inl e)
      | (sent, None) \<Rightarrow> use_probe env w t bundle emit sent)"

definition RunProbe ::
  "ssh_env \<Rightarrow> target \<Rightarrow> 's ssh_transport \<Rightarrow> rule_bundle \<Rightarrow> bool \<Rightarrow> memory \<Rightarrow>
   memory \<times> command list \<times> (string + scan_result)" where
  "RunProbe env w t bundle emit m =
     (case dial w t m of
        (m, Some e) \<Rightarrow> (m, [], Inl e)
      | (m, None) \<Rightarrow>
          (case probe_steps env w t bundle emit of (sent, r) \<Rightarrow>
            (m, fst (run_command w (''rm -f '' @ probeCacheDir @ ''/rules-'' @ se_rand8 env @ ''.json'', None) sent), r)))"

section \<open>The sensor\<close>

definition DeploySensor ::
  "ssh_env \<Rightarrow> target \<Rightarrow> 's ssh_transport \<Rightarrow> string \<Rightarrow> string \<Rightarrow> string \<Rightarrow> string \<Rightarrow> string \<Rightarrow> string \<Rightarrow> memory \<Rightarrow>
   memory \<times> command list \<times> string option" where
  "DeploySensor env w t sensorBin policyTar serverURL hostID ingestToken sudoPW m =
     (case dial w t m of
        (m, Some e) \<Rightarrow> (m, [], Some e)
      | (m, None) \<Rightarrow>
     (case run_command w (cacheDirScript probeCacheDir, None) [] of
        (sent, out, Some e) \<Rightarrow> (m, sent, Some (''prepare staging dir: '' @ e @ '' ('' @ TrimSpace out @ '')''))
      | (sent, out, None) \<Rightarrow>
     (case run_command w (''cat > /tmp/.bladedr/sensor && chmod +x /tmp/.bladedr/sensor'', Some sensorBin) sent of
        (sent, out, Some e) \<Rightarrow> (m, sent, Some (''upload sensor: '' @ e))
      | (sent, out, None) \<Rightarrow>
     (case run_command w (''cat > /tmp/.bladedr/policies.tgz'', Some policyTar) sent of
        (sent, out, Some e) \<Rightarrow> (m, sent, Some (''upload policies: '' @ e))
      | (sent, out, None) \<Rightarrow>
     (case run_command w (''umask 077; cat > /tmp/.bladedr/sensor-token'', Some ingestToken) sent of
        (sent, out, Some e) \<Rightarrow> (m, sent, Some (''upload sensor credential: '' @ e))
      | (sent, out, None) \<Rightarrow>
     (case run_command w (''cat > /tmp/.bladedr/deploy.sh'', Some sensorDeployScript) sent of
        (sent, out, Some e) \<Rightarrow> (m, sent, Some (''upload script: '' @ e))
      | (sent, out, None) \<Rightarrow>
     (case run_command w (wrapSudo sudoPW (''sh /tmp/.bladedr/deploy.sh '' @ shellArg serverURL @ '' '' @ shellArg hostID @
             '' '' @ shellArg (se_hexsum env sensorBin) @ '' '' @ shellArg (se_hexsum env policyTar))) sent of
        (sent, out, Some e) \<Rightarrow> (m, sent, Some (''deploy: '' @ e @ '' ('' @ TrimSpace out @ '')''))
      | (sent, out, None) \<Rightarrow> (m, sent, None))))))))"

definition StopSensor :: "target \<Rightarrow> 's ssh_transport \<Rightarrow> string \<Rightarrow> memory \<Rightarrow> memory \<times> command list \<times> string option" where
  "StopSensor w t sudoPW m =
     (case dial w t m of
        (m, Some e) \<Rightarrow> (m, [], Some e)
      | (m, None) \<Rightarrow>
          (case run_command w (wrapSudo sudoPW sensorStopScript) [] of
             (sent, out, Some e) \<Rightarrow> (m, sent, Some (''stop sensor: '' @ e @ '' ('' @ TrimSpace out @ '')''))
           | (sent, out, None) \<Rightarrow>
               if Contains out ''left=0'' then (m, sent, None)
               else (m, sent, Some (''sensor teardown incomplete: '' @ TrimSpace out))))"


section \<open>What a session sends\<close>

lemma fst_run_command [simp]: "fst (run_command w c sent) = sent @ [c]"
  by (simp add: run_command_def)

lemma run_command_cases:
  obtains (failed) out e where "run_command w c sent = (sent @ [c], out, Some e)"
    | (ran) out where "run_command w c sent = (sent @ [c], out, None)"
  by (cases "snd (snd (run_command w c sent))"; cases "run_command w c sent")
    (auto simp: run_command_def split: reply.splits)

text \<open>The commands of a scan before its bundle is sent, of a scan that goes through, and of a deployment.\<close>

definition prepare_commands :: "ssh_env \<Rightarrow> 's ssh_transport \<Rightarrow> command list" where
  "prepare_commands env t =
     (let digest = se_hexsum env (tp_binary t) in
      [(cacheDirScript probeCacheDir, None),
       (pruneStaleProbes probeCacheDir (''probe-'' @ take 12 digest), None),
       (''sha256sum '' @ probeCacheDir @ ''/probe-'' @ take 12 digest @ '' 2>/dev/null'', None)])"

definition install_command :: "ssh_env \<Rightarrow> 's ssh_transport \<Rightarrow> command" where
  "install_command env t =
     (let probePath = probeCacheDir @ ''/probe-'' @ take 12 (se_hexsum env (tp_binary t));
          staging = probePath @ ''.tmp.'' @ se_rand6 env
      in (''cat > '' @ staging @ '' && chmod 0700 '' @ staging @ '' && mv -f '' @ staging @ '' '' @ probePath,
          Some (tp_binary t)))"

definition probe_command :: "ssh_env \<Rightarrow> 's ssh_transport \<Rightarrow> string \<Rightarrow> bool \<Rightarrow> command" where
  "probe_command env t json emit =
     (let digest = se_hexsum env (tp_binary t)
      in probeCommand (tp_user t) (tp_sudo t) (probeCacheDir @ ''/probe-'' @ take 12 digest) digest
           (probeCacheDir @ ''/rules-'' @ se_rand8 env @ ''.json'') (se_hexsum env json) emit)"

definition bundle_command :: "ssh_env \<Rightarrow> string \<Rightarrow> command" where
  "bundle_command env json = (''cat > '' @ probeCacheDir @ ''/rules-'' @ se_rand8 env @ ''.json'', Some json)"

definition cleanup_command :: "ssh_env \<Rightarrow> command" where
  "cleanup_command env = (''rm -f '' @ probeCacheDir @ ''/rules-'' @ se_rand8 env @ ''.json'', None)"

definition unstage_command :: "ssh_env \<Rightarrow> 's ssh_transport \<Rightarrow> command" where
  "unstage_command env t =
     (''rm -f '' @ probeCacheDir @ ''/probe-'' @ take 12 (se_hexsum env (tp_binary t)) @ ''.tmp.'' @ se_rand6 env, None)"

text \<open>The probe on the host is the server's: its digest was read there, or it has just been put there.\<close>

definition probe_in_place :: "ssh_env \<Rightarrow> target \<Rightarrow> 's ssh_transport \<Rightarrow> command list \<Rightarrow> bool" where
  "probe_in_place env w t mid \<longleftrightarrow>
     (mid = [] \<and> (\<exists>out rest. snd (run_command w (last (prepare_commands env t)) (butlast (prepare_commands env t))) = (out, None) \<and>
        Fields out = se_hexsum env (tp_binary t) # rest)) \<or>
     (mid = [install_command env t] \<and>
        snd (snd (run_command w (install_command env t) (prepare_commands env t))) = None)"

lemma place_probe_cases:
  obtains (refused) e where "place_probe env w t = (take 1 (prepare_commands env t), Some e)"
    | (failed) e where "place_probe env w t =
        (prepare_commands env t @ [install_command env t, unstage_command env t], Some e)"
    | (placed) mid where "place_probe env w t = (prepare_commands env t @ mid, None)" "probe_in_place env w t mid"
proof -
  define path where "path = probeCacheDir @ ''/probe-'' @ take 12 (se_hexsum env (tp_binary t))"
  define stg where "stg = path @ ''.tmp.'' @ se_rand6 env"
  define c0 where "c0 = (cacheDirScript probeCacheDir, None :: string option)"
  define c1 where "c1 = (pruneStaleProbes probeCacheDir (''probe-'' @ take 12 (se_hexsum env (tp_binary t))), None :: string option)"
  define c2 where "c2 = (''sha256sum '' @ path @ '' 2>/dev/null'', None :: string option)"
  have prep: "prepare_commands env t = [c0, c1, c2]"
    by (simp add: prepare_commands_def Let_def c0_def c1_def c2_def path_def)
  have inst: "install_command env t = (''cat > '' @ stg @ '' && chmod 0700 '' @
      stg @ '' && mv -f '' @ stg @ '' '' @ path, Some (tp_binary t))"
    by (simp only: install_command_def Let_def path_def stg_def append_assoc)
  have unst: "unstage_command env t = (''rm -f '' @ stg, None)"
    by (simp only: unstage_command_def path_def stg_def append_assoc)
  have place: "place_probe env w t =
      (case run_command w c0 [] of
         (sent, out, Some e) \<Rightarrow> (sent, Some (''prepare probe cache: '' @ e @ '' ('' @ TrimSpace out @ '')''))
       | (sent, out, None) \<Rightarrow>
          (case run_command w c1 sent of (sent, _) \<Rightarrow>
           case probeCached w path (se_hexsum env (tp_binary t)) sent of (sent, cached) \<Rightarrow>
           if cached then (sent, None) else installProbe w (tp_binary t) path stg sent))"
    unfolding place_probe_def Let_def by (simp only: c0_def c1_def path_def stg_def append_assoc)
  have chk0: "probeCached w path d sent = (case run_command w c2 sent of (sent, out, Some e) \<Rightarrow> (sent, False)
      | (sent, out, None) \<Rightarrow> (sent, case Fields out of [] \<Rightarrow> False | f # _ \<Rightarrow> f = d))" for d sent
    unfolding probeCached_def c2_def ..
  obtain b where chk: "probeCached w path (se_hexsum env (tp_binary t)) [c0, c1] = ([c0, c1, c2], b)"
      and yes: "b \<Longrightarrow> probe_in_place env w t []"
    by (cases rule: run_command_cases [of w c2 "[c0, c1]"])
      (auto simp: chk0 probe_in_place_def prep split: list.splits)
  have ins0: "installProbe w (tp_binary t) path stg sent =
      (case run_command w (install_command env t) sent of
         (sent, out, Some e) \<Rightarrow> (fst (run_command w (unstage_command env t) sent), Some (''upload probe: '' @ e))
       | (sent, out, None) \<Rightarrow> (sent, None))" for sent
    unfolding installProbe_def inst unst ..
  obtain o' e' where ins: "installProbe w (tp_binary t) path stg [c0, c1, c2] = (o', e')"
      and no: "e' = None \<Longrightarrow> o' = [c0, c1, c2, install_command env t] \<and> probe_in_place env w t [install_command env t]"
        "e' \<noteq> None \<Longrightarrow> o' = [c0, c1, c2, install_command env t, unstage_command env t]"
    by (cases rule: run_command_cases [of w "install_command env t" "[c0, c1, c2]"])
      (auto simp: ins0 probe_in_place_def prep)
  show ?thesis
  proof (cases rule: run_command_cases [of w c0 "[]"])
    case (failed out e)
    then show ?thesis using that(1) by (simp add: place prep)
  next
    case (ran out)
    obtain r1 where r1: "run_command w c1 [c0] = ([c0, c1], r1)"
      using fst_run_command [of w c1 "[c0]"] by (cases "run_command w c1 [c0]") simp
    show ?thesis
    proof (cases b)
      case True
      then show ?thesis using that(3) [of "[]"] yes by (simp add: place prep ran r1 chk)
    next
      case False
      then show ?thesis
        using that(2,3) no by (cases e') (auto simp: place prep ran r1 chk ins)
    qed
  qed
qed

lemma use_probe_alt:
  "use_probe env w t bundle emit sent =
     (case se_marshal env bundle of
        Inl e \<Rightarrow> (sent, Inl e)
      | Inr json \<Rightarrow> (case run_command w (bundle_command env json) sent of
          (sent, out, Some e) \<Rightarrow> (sent, Inl (''upload bundle: '' @ e))
        | (sent, out, None) \<Rightarrow> (case run_command w (probe_command env t json emit) sent of
            (sent, out, Some e) \<Rightarrow> (sent, Inl (''run probe: '' @ e))
          | (sent, out, None) \<Rightarrow> (case se_unmarshal env out of
              Inl e \<Rightarrow> (sent, Inl (''parse probe output: '' @ e)) | Inr res \<Rightarrow> (sent, Inr res)))))"
  by (simp only: use_probe_def Let_def bundle_command_def probe_command_def append_assoc)

lemma use_probe_cases:
  obtains (marshal) e where "se_marshal env bundle = Inl e" "use_probe env w t bundle emit sent = (sent, Inl e)"
    | (upload) json e where "se_marshal env bundle = Inr json"
        "use_probe env w t bundle emit sent = (sent @ [bundle_command env json], Inl e)"
    | (used) json r where "se_marshal env bundle = Inr json"
        "use_probe env w t bundle emit sent = (sent @ [bundle_command env json, probe_command env t json emit], r)"
        "\<And>res. r = Inr res \<Longrightarrow> \<exists>out. snd (run_command w (probe_command env t json emit)
            (sent @ [bundle_command env json])) = (out, None) \<and> se_unmarshal env out = Inr res"
proof (cases "se_marshal env bundle")
  case (Inl e)
  then show ?thesis using that(1) by (simp add: use_probe_def)
next
  case (Inr json)
  note use = use_probe_alt [of env w t "bundle" emit sent, unfolded Inr sum.case]
  show ?thesis
  proof (cases rule: run_command_cases [of w "bundle_command env json" sent])
    case (failed out e)
    then show ?thesis using that(2) [OF Inr] by (simp add: use)
  next
    case (ran out)
    then show ?thesis using that(3) [OF Inr]
      by (cases rule: run_command_cases [of w "probe_command env t json emit" "sent @ [bundle_command env json]"])
        (cases "se_unmarshal env (fst (snd (run_command w (probe_command env t json emit) (sent @ [bundle_command env json]))))";
          fastforce simp: use)+
  qed
qed


lemma scan_course:
  assumes "RunProbe env w t bundle emit m = (m', sent, r)"
  shows "sent = [] \<and> (\<exists>e. r = Inl e) \<or>
    (\<exists>steps. sent = steps @ [cleanup_command env] \<and>
      (steps = take 1 (prepare_commands env t) \<and> (\<exists>e. r = Inl e) \<or>
       steps = prepare_commands env t @ [install_command env t, unstage_command env t] \<and> (\<exists>e. r = Inl e) \<or>
       (\<exists>mid. probe_in_place env w t mid \<and>
         (steps = prepare_commands env t @ mid \<and> (\<exists>e. se_marshal env bundle = Inl e \<and> r = Inl e) \<or>
          (\<exists>json. se_marshal env bundle = Inr json \<and>
            (steps = prepare_commands env t @ mid @ [bundle_command env json] \<and> (\<exists>e. r = Inl e) \<or>
             steps = prepare_commands env t @ mid @ [bundle_command env json, probe_command env t json emit] \<and>
             ((\<exists>e. r = Inl e) \<or> (\<exists>out res. r = Inr res \<and> se_unmarshal env out = Inr res \<and>
                snd (run_command w (probe_command env t json emit)
                  (prepare_commands env t @ mid @ [bundle_command env json])) = (out, None)))))))))"
proof (cases "snd (dial w t m)")
  case (Some e)
  then show ?thesis using assms by (cases "dial w t m") (auto simp: RunProbe_def)
next
  case None
  obtain steps where ps: "probe_steps env w t bundle emit = (steps, r)" and sent: "sent = steps @ [cleanup_command env]"
    using assms None by (cases "dial w t m") (auto simp: RunProbe_def cleanup_command_def split: prod.splits)
  show ?thesis
  proof (cases rule: place_probe_cases [of env w t])
    case (refused e)
    then have "steps = take 1 (prepare_commands env t) \<and> r = Inl e" using ps by (simp add: probe_steps_def)
    then show ?thesis using sent by blast
  next
    case (failed e)
    then have "steps = prepare_commands env t @ [install_command env t, unstage_command env t] \<and> r = Inl e"
      using ps by (simp add: probe_steps_def)
    then show ?thesis using sent by blast
  next
    case (placed mid)
    then have up: "use_probe env w t bundle emit (prepare_commands env t @ mid) = (steps, r)"
      using ps by (simp add: probe_steps_def)
    show ?thesis
    proof (cases rule: use_probe_cases [of env "bundle" w t emit "prepare_commands env t @ mid"])
      case (marshal e)
      then have "steps = prepare_commands env t @ mid \<and> r = Inl e" using up by simp
      then show ?thesis using sent placed(2) marshal(1) by blast
    next
      case (upload json e)
      then have "steps = prepare_commands env t @ mid @ [bundle_command env json] \<and> r = Inl e" using up by simp
      then show ?thesis using sent placed(2) upload(1) by blast
    next
      case (used json r')
      then have "steps = prepare_commands env t @ mid @ [bundle_command env json, probe_command env t json emit] \<and> r' = r"
        using up by simp
      moreover have "(\<exists>e. r = Inl e) \<or> (\<exists>out res. r = Inr res \<and> se_unmarshal env out = Inr res \<and>
          snd (run_command w (probe_command env t json emit)
            (prepare_commands env t @ mid @ [bundle_command env json])) = (out, None))"
        using used(3) calculation by (cases r) force+
      ultimately show ?thesis using sent placed(2) used(1) by blast
    qed
  qed
qed


section \<open>Secrets\<close>

definition privileged_text :: "bool \<Rightarrow> string \<Rightarrow> string" where
  "privileged_text has_password cmd = (if has_password then ''sh -c '' @ shellArg (sudo_script cmd) else cmd)"

lemma fst_wrapSudo: "fst (wrapSudo pw cmd) = privileged_text (pw \<noteq> []) cmd"
  by (simp add: wrapSudo_def privileged_text_def)

text \<open>What a deployment sends, in order; neither the ingest token nor the password is an argument.\<close>

definition deploy_texts :: "ssh_env \<Rightarrow> bool \<Rightarrow> string \<Rightarrow> string \<Rightarrow> string \<Rightarrow> string \<Rightarrow> string list" where
  "deploy_texts env has_password sensorBin policyTar serverURL hostID =
     [cacheDirScript probeCacheDir,
      ''cat > /tmp/.bladedr/sensor && chmod +x /tmp/.bladedr/sensor'',
      ''cat > /tmp/.bladedr/policies.tgz'',
      ''umask 077; cat > /tmp/.bladedr/sensor-token'',
      ''cat > /tmp/.bladedr/deploy.sh'',
      privileged_text has_password (''sh /tmp/.bladedr/deploy.sh '' @ shellArg serverURL @ '' '' @ shellArg hostID @
        '' '' @ shellArg (se_hexsum env sensorBin) @ '' '' @ shellArg (se_hexsum env policyTar))]"

lemma probeCommand_text: "fst (probeCommand u (c # p) a b d e f) = fst (probeCommand u (c' # p') a b d e f)"
  by (simp add: probeCommand_def Let_def)

lemma dial_sudo [simp]: "dial w (t\<lparr>tp_sudo := p\<rparr>) m = dial w t m"
  by (cases "tg_dial w"; cases "tg_handshake w"; cases "tp_learn t") (simp_all add: dial_def hostKeyCallback_def Let_def)

lemma place_probe_sudo [simp]: "place_probe env w (t\<lparr>tp_sudo := p\<rparr>) = place_probe env w t"
proof -
  have t: "tp_binary (t\<lparr>tp_sudo := p\<rparr>) = tp_binary t" by simp
  show ?thesis unfolding place_probe_def t ..
qed

lemma use_probe_text:
  "map fst (fst (use_probe env w (t\<lparr>tp_sudo := c # p\<rparr>) bundle emit sent)) =
   map fst (fst (use_probe env w (t\<lparr>tp_sudo := c' # p'\<rparr>) bundle emit sent))"
proof -
  have cmd: "fst (probe_command env (t\<lparr>tp_sudo := c # p\<rparr>) json emit) = fst (probe_command env (t\<lparr>tp_sudo := c' # p'\<rparr>) json emit)" for json
    by (simp add: probe_command_def Let_def probeCommand_text [where c = c and p = p and c' = c' and p' = p'])
  have use: "fst (use_probe env w u bundle emit sent) =
      (case se_marshal env bundle of Inl e \<Rightarrow> sent
       | Inr json \<Rightarrow> (case snd (snd (run_command w (bundle_command env json) sent)) of
            Some e \<Rightarrow> sent @ [bundle_command env json]
          | None \<Rightarrow> sent @ [bundle_command env json, probe_command env u json emit]))" for u :: "'a ssh_transport"
  proof (cases "se_marshal env bundle")
    case (Inr json)
    then show ?thesis
      by (cases rule: run_command_cases [of w "bundle_command env json" sent];
          cases rule: run_command_cases [of w "probe_command env u json emit" "sent @ [bundle_command env json]"])
        (simp_all add: use_probe_alt split: sum.split)
  qed (simp add: use_probe_alt)
  show ?thesis by (simp add: use cmd split: sum.split option.split)
qed


lemma run_probe_text:
  "map fst (fst (snd (RunProbe env w (t\<lparr>tp_sudo := c # p\<rparr>) bundle emit m))) =
   map fst (fst (snd (RunProbe env w (t\<lparr>tp_sudo := c' # p'\<rparr>) bundle emit m)))"
proof -
  have steps: "map fst (fst (probe_steps env w (t\<lparr>tp_sudo := c # p\<rparr>) bundle emit)) =
      map fst (fst (probe_steps env w (t\<lparr>tp_sudo := c' # p'\<rparr>) bundle emit))"
    by (simp add: probe_steps_def use_probe_text [where c = c and p = p and c' = c' and p' = p'] split: prod.split option.split)
  have run: "map fst (fst (snd (RunProbe env w u bundle emit m))) =
      (case snd (dial w u m) of Some e \<Rightarrow> [] | None \<Rightarrow> map fst (fst (probe_steps env w u bundle emit)) @ [fst (cleanup_command env)])"
    for u :: "'a ssh_transport"
    by (simp add: RunProbe_def cleanup_command_def split: prod.split option.split)
  show ?thesis unfolding run dial_sudo steps ..
qed

lemma one_more_sent:
  assumes "(case run_command w c sent of (sent, out, Some e) \<Rightarrow> (m, sent, f e out) | (sent, out, None) \<Rightarrow> rest sent) =
      (m', sent', r)"
  obtains "sent' = sent @ [c]" | "rest (sent @ [c]) = (m', sent', r)"
  using assms by (cases rule: run_command_cases [of w c sent]) auto

lemma deploy_sent:
  assumes "DeploySensor env w t sensorBin policyTar serverURL hostID ingestToken sudoPW m = (m', sent, e)"
  shows "map fst sent = take (length sent) (deploy_texts env (sudoPW \<noteq> []) sensorBin policyTar serverURL hostID)"
proof (cases "snd (dial w t m)")
  case (Some e)
  then show ?thesis using assms by (cases "dial w t m") (auto simp: DeploySensor_def)
next
  case None
  have d: "DeploySensor env w t sensorBin policyTar serverURL hostID ingestToken sudoPW m = (m', sent, e)" by (fact assms)
  obtain m1 where "dial w t m = (m1, None)" using None by (cases "dial w t m") simp
  note d = d [unfolded DeploySensor_def this prod.case option.case]
  show ?thesis
    using d by (elim one_more_sent) (auto simp: deploy_texts_def fst_wrapSudo)
qed

lemma stop_sent:
  "map fst (fst (snd (StopSensor w t sudoPW m))) =
   (if snd (dial w t m) = None then [privileged_text (sudoPW \<noteq> []) sensorStopScript] else [])"
  by (cases "dial w t m"; cases "snd (dial w t m)";
      cases rule: run_command_cases [of w "wrapSudo sudoPW sensorStopScript" "[]"])
    (simp_all add: StopSensor_def fst_wrapSudo)


text \<open>
  The script a deployment runs as root is read from the scan account's staging directory, and its digest is
  never taken: what is sent depends on SHA-256 only at the sensor and the policies.
\<close>

lemma deploy_script_unchecked:
  assumes "h sensorBin = se_hexsum env sensorBin" and "h policyTar = se_hexsum env policyTar"
  shows "DeploySensor (env\<lparr>se_hexsum := h\<rparr>) w t sensorBin policyTar serverURL hostID ingestToken sudoPW m =
     DeploySensor env w t sensorBin policyTar serverURL hostID ingestToken sudoPW m"
proof -
  have h: "se_hexsum (env\<lparr>se_hexsum := h\<rparr>) sensorBin = se_hexsum env sensorBin"
    "se_hexsum (env\<lparr>se_hexsum := h\<rparr>) policyTar = se_hexsum env policyTar" using assms by simp_all
  show ?thesis unfolding DeploySensor_def h ..
qed

section \<open>Host keys\<close>

text \<open>The library keeps its promise: a key the callback refuses ends the handshake.\<close>

definition honoured :: "target \<Rightarrow> bool" where
  "honoured w \<longleftrightarrow> (case tg_handshake w of NoKey _ \<Rightarrow> True | Presented key f \<Rightarrow> \<forall>e. f (Some e) \<noteq> None)"

lemma dial_connected:
  assumes "dial w t m = (m', None)" and "honoured w"
  obtains key f where "tg_handshake w = Presented key f" "hostKeyCallback t key m = (m', None)"
proof (cases "tg_handshake w")
  case (NoKey e)
  then show ?thesis using assms(1) by (simp add: dial_def split: option.splits)
next
  case (Presented key f)
  obtain m1 v where cb: "hostKeyCallback t key m = (m1, v)" by (cases "hostKeyCallback t key m")
  then have "m1 = m'" and v: "f v = None" using assms(1) Presented by (auto simp: dial_def split: option.splits)
  moreover have "v = None"
  proof (cases v)
    case (Some e)
    moreover have "f (Some e) \<noteq> None" using assms(2) unfolding honoured_def Presented handshake.case by blast
    ultimately show ?thesis using v by blast
  qed
  ultimately show ?thesis using that [OF Presented] cb by simp
qed

lemma run_probe_dial:
  assumes "RunProbe env w t bundle emit m = (m', sent, r)"
  shows "m' = fst (dial w t m)" and "sent \<noteq> [] \<longleftrightarrow> snd (dial w t m) = None"
  using assms by (cases "dial w t m"; cases "snd (dial w t m)"; auto simp: RunProbe_def split: prod.splits)+

lemma talked_to:
  assumes run: "RunProbe env w t bundle emit m = (m', sent, r)" and talked: "sent \<noteq> []" and hon: "honoured w"
  obtains key f where "tg_handshake w = Presented key f"
    "tp_expected t \<noteq> [] \<Longrightarrow> TrimSpace key = tp_expected t \<and> m' = m"
    "tp_expected t = [] \<Longrightarrow>
       m' = (case tp_learn t of None \<Rightarrow> m | Some hid \<Rightarrow> fst (SetHostSSHHostKey hid (TrimSpace key) m))"
proof -
  have "dial w t m = (m', None)" using run_probe_dial [OF run] talked by (cases "dial w t m") simp
  then obtain key f where k: "tg_handshake w = Presented key f" "hostKeyCallback t key m = (m', None)"
    using hon by (rule dial_connected)
  then show ?thesis using that [OF k(1)] by (simp add: hostKeyCallback_def Let_def split: if_splits)
qed



definition demo_env :: ssh_env where
  "demo_env = \<lparr>se_hexsum = (\<lambda>_. ''00''), se_rand8 = ''a'', se_rand6 = ''b'', se_marshal = (\<lambda>_. Inr ''{}''),
     se_unmarshal = (\<lambda>_. Inl ''no result'')\<rparr>"

definition demo_target :: "string \<Rightarrow> target" where
  "demo_target key = \<lparr>tg_dial = None, tg_handshake = Presented key (\<lambda>v. v), tg_answer = (\<lambda>_ _. Refused ''no'')\<rparr>"

definition demo_remote :: "host" where
  "demo_remote = demo_host\<lparr>h_id := ''h1'', h_credential_id := ''c1'', h_ssh_host_key := []\<rparr>"

definition demo_login :: memory where
  "demo_login = NewMemory\<lparr>hosts := [''h1'' \<mapsto> demo_remote],
     creds := [''c1'' \<mapsto> \<lparr>cr_id = ''c1'', cr_name = ''n'', cr_username = ''root'', cr_auth_type = ''password'',
       cr_secret_enc = ''enc'', cr_sudo_secret_enc = [], cr_created_at = 0\<rparr>]\<rparr>"

definition demo_crypto :: crypto where
  "demo_crypto = \<lparr>canOpen = True, openSecret = (\<lambda>_. Some ''pw''), sealSecret = (\<lambda>_. None)\<rparr>"


end
