(* ===== verification/RemoteAccess.thy ===== *)
theory RemoteAccess
  imports SshSession
begin

text \<open>
  Credentials from the API to the wire: what \<open>createCredential\<close> seals is what the transport of a host
  logs in with, and who can choose where it is sent.
\<close>

section \<open>From the handler to the transport\<close>

definition sealing_laws :: "crypto \<Rightarrow> bool" where
  "sealing_laws k \<longleftrightarrow> canOpen k \<and> (\<forall>s b. sealSecret k s = Some b \<longrightarrow> b \<noteq> [] \<and> openSecret k b = Some s)"

text \<open>How a login with the secret looks; a private key has to parse.\<close>

definition login_methods :: "(string \<Rightarrow> 's option) \<Rightarrow> string \<Rightarrow> string \<Rightarrow> 's auth_method list" where
  "login_methods parse t secret =
     (if t = AuthPassword then [PasswordAuth secret, KeyboardInteractive (map (\<lambda>_. secret))]
      else [PublicKeys (the (parse secret))])"

lemma createCredential_created:
  assumes "createCredential (Some k) sealErr uuid now (Inr b) m = (m', Body 201 c)"
  obtains t sealed sudo where "credential_auth_type (cb_auth_type b) = Inr t" "t = AuthSSHKey \<or> t = AuthPassword"
    "sealSecret k (cb_secret b) = Some sealed" "seal_optional k (cb_sudo_password b) = Some sudo"
    "c = shown_credential \<lparr>cr_id = uuid, cr_name = cb_name b, cr_username = cb_username b, cr_auth_type = t,
       cr_secret_enc = sealed, cr_sudo_secret_enc = sudo, cr_created_at = or_default_time 0 now\<rparr>"
    "m' = m\<lparr>creds := (creds m)(uuid \<mapsto> \<lparr>cr_id = uuid, cr_name = cb_name b, cr_username = cb_username b, cr_auth_type = t,
       cr_secret_enc = sealed, cr_sudo_secret_enc = sudo, cr_created_at = or_default_time 0 now\<rparr>)\<rparr>"
proof -
  have nu: "\<not> (cb_username b = [] \<or> cb_secret b = [])" using assms by (auto simp: createCredential_def)
  obtain t where t: "credential_auth_type (cb_auth_type b) = Inr t"
    using assms nu by (auto simp: createCredential_def split: sum.splits)
  obtain sealed where s: "sealSecret k (cb_secret b) = Some sealed"
    using assms nu by (auto simp: createCredential_def t split: option.splits)
  obtain sudo where u: "seal_optional k (cb_sudo_password b) = Some sudo"
    using assms nu by (auto simp: createCredential_def t s split: option.splits)
  have "t = AuthSSHKey \<or> t = AuthPassword" using t by (auto simp: credential_auth_type_def split: if_splits)
  then show ?thesis
    using assms nu that [OF t _ s u] by (simp add: createCredential_def t s u CreateCredential_def Let_def)
qed

text \<open>
  C10. A credential made over the API is the one a scan logs in with. The answer carries no secret, sealed or
  not. A host that names the credential, with an address and a probe for its architecture, gets an SSH
  transport to that address, as the user given, authenticating with exactly the secret given; the
  password tried for \<open>sudo\<close> is the one given for it, or the login password, or none. No credential
  the API makes is refused as unsupported.
\<close>

theorem credential_reaches_the_wire:
  assumes laws: "sealing_laws k" and created: "createCredential (Some k) sealErr uuid now (Inr b) m = (m', Body 201 c)"
    and host: "h_credential_id h = uuid" "uuid \<noteq> []" "h_primary_ip h \<noteq> []" and bin: "bins (host_arch h) = Some elf"
    and key: "cr_auth_type c = AuthSSHKey \<longrightarrow> parse (cb_secret b) \<noteq> None"
  shows "cr_id c = uuid \<and> cr_secret_enc c = [] \<and> cr_sudo_secret_enc c = [] \<and>
    transportFactory (Some k) parse bins local extra h m' = Inr (SSHTransport
      \<lparr>tp_addr = JoinHostPort (h_primary_ip h) (Itoa (h_ssh_port h)), tp_user = cb_username b,
       tp_auth = login_methods parse (cr_auth_type c) (cb_secret b), tp_expected = h_ssh_host_key h,
       tp_learn = Some (h_id h), tp_binary = elf,
       tp_sudo = (if cb_sudo_password b \<noteq> [] then cb_sudo_password b
                  else if cr_auth_type c = AuthPassword then cb_secret b else [])\<rparr>)"
proof -
  from createCredential_created [OF created] obtain t sealed sudo where t: "t = AuthSSHKey \<or> t = AuthPassword"
    and s: "sealSecret k (cb_secret b) = Some sealed" and u: "seal_optional k (cb_sudo_password b) = Some sudo"
    and c: "c = shown_credential \<lparr>cr_id = uuid, cr_name = cb_name b, cr_username = cb_username b, cr_auth_type = t,
       cr_secret_enc = sealed, cr_sudo_secret_enc = sudo, cr_created_at = or_default_time 0 now\<rparr>"
    and m': "m' = m\<lparr>creds := (creds m)(uuid \<mapsto> \<lparr>cr_id = uuid, cr_name = cb_name b, cr_username = cb_username b,
       cr_auth_type = t, cr_secret_enc = sealed, cr_sudo_secret_enc = sudo, cr_created_at = or_default_time 0 now\<rparr>)\<rparr>"
    by metis
  have ct: "cr_auth_type c = t" by (simp add: c shown_credential_def)
  have open_s: "openSecret k sealed = Some (cb_secret b)" "canOpen k" using laws s by (auto simp: sealing_laws_def)
  have auth: "AuthFor parse t (cb_secret b) = Inr (login_methods parse t (cb_secret b))"
    using t key ct by (auto simp: AuthFor_def login_methods_def split: option.splits)
  let ?row = "\<lparr>cr_id = uuid, cr_name = cb_name b, cr_username = cb_username b, cr_auth_type = t,
       cr_secret_enc = sealed, cr_sudo_secret_enc = sudo, cr_created_at = or_default_time 0 now\<rparr>"
  define row where "row = ?row"
  have f: "cr_username row = cb_username b" "cr_auth_type row = t" by (simp_all add: row_def)
  have sudo: "sudoPasswordFor k row (cb_secret b) =
      (if cb_sudo_password b \<noteq> [] then cb_sudo_password b else if t = AuthPassword then cb_secret b else [])"
    using u laws by (auto simp: row_def sudoPasswordFor_def seal_optional_def sealing_laws_def split: if_splits)
  have "open_login (Some k) parse h m' = Inr (row, cb_secret b, login_methods parse t (cb_secret b))"
    by (simp add: open_login_def open_s GetCredential_def get_or_def m' host(1) auth row_def)
  then show ?thesis
    using host by (simp add: c shown_credential_def transportFactory_def bin ssh_to_def sudo f)
qed


definition demo_box :: crypto where
  "demo_box = \<lparr>canOpen = True, openSecret = (\<lambda>b. Some (tl b)), sealSecret = (\<lambda>s. Some (CHR ''!'' # s))\<rparr>"

theorem credential_reaches_the_wire_witness:
  "\<exists>m' c t. createCredential (Some demo_box) [] ''c1'' 5 (Inr \<lparr>cb_name = ''n'', cb_username = ''root'',
       cb_auth_type = AuthPassword, cb_secret = ''pw'', cb_sudo_password = []\<rparr>) NewMemory = (m', Body 201 c) \<and>
     transportFactory (Some demo_box) (\<lambda>_. None :: nat option) (\<lambda>_. Some ''elf'') [] [] demo_remote m' = Inr (SSHTransport t) \<and>
     tp_sudo t = ''pw'' \<and> PasswordAuth ''pw'' \<in> set (tp_auth t)"
proof -
  let ?b = "\<lparr>cb_name = ''n'', cb_username = ''root'', cb_auth_type = AuthPassword, cb_secret = ''pw'', cb_sudo_password = []\<rparr>"
  obtain m' c where c: "createCredential (Some demo_box) [] ''c1'' 5 (Inr ?b) NewMemory = (m', Body 201 c)"
      and t: "cr_auth_type c = AuthPassword"
    by (simp add: createCredential_def credential_auth_type_def demo_box_def seal_optional_def CreateCredential_def
        shown_credential_def Let_def)
  have l: "sealing_laws demo_box" by (simp add: sealing_laws_def demo_box_def)
  have h: "h_credential_id demo_remote = ''c1''" "h_primary_ip demo_remote \<noteq> []"
    by (simp_all add: demo_remote_def demo_host_def)
  from credential_reaches_the_wire [where parse = "\<lambda>_. None :: nat option" and bins = "\<lambda>_. Some ''elf''"
      and local = "[]" and extra = "[]", OF l c h(1) _ h(2) refl, unfolded t] c t
  show ?thesis by (simp add: login_methods_def)
qed

section \<open>Who chooses the address\<close>

text \<open>
  C32. The address a credential is sent to is not an administrator's choice. The middleware refuses an
  operator the credentials, but lets an operator's request to create a host through, and the host is
  taken as it was sent: with a stored password credential, any address and no pinned key. The next scan
  of that host then logs in at that address with the decrypted password, accepting whatever host key
  is shown there.
\<close>

theorem operator_sends_credential_anywhere:
  assumes laws: "canOpen k" "openSecret k (cr_secret_enc cred) = Some secret"
    and cred: "creds m cid = Some cred" "cr_auth_type cred = AuthPassword" "cid \<noteq> []"
    and user: "userFromRequest digest now r m = Some u" "u_role u = RoleOperator" "\<not> u_disabled u" "\<not> u_must_change_password u"
    and req: "rq_method r = MethodPost" "rq_path r = ''/api/v1/hosts''"
    and body: "h_credential_id h = cid" "h_primary_ip h = ip" "ip \<noteq> []" "h_ssh_host_key h = []" "h_ssh_port h = 0"
    and bin: "bins (host_arch h) = Some elf"
  shows "authMiddleware digest aid now cip r m = (m, Serve (Some u)) \<and> \<not> Allowed RoleOperator mth ''/api/v1/credentials'' \<and>
    (case createHost uuid now (Inr h) m of (m', reply) \<Rightarrow>
       \<exists>h' t. reply = Body 201 h' \<and> GetHost (h_id h') m' = Inr h' \<and>
         transportFactory (Some k) parse bins local extra h' m' = Inr (SSHTransport t) \<and>
         tp_addr t = JoinHostPort ip ''22'' \<and> PasswordAuth secret \<in> set (tp_auth t) \<and>
         (\<forall>key. snd (hostKeyCallback t key m') = None))"
proof (intro conjI)
  have "Allowed RoleOperator MethodPost ''/api/v1/hosts''"
    by (simp add: Allowed_def selfService_def adminOnly_def HasSuffix_def)
  then show "authMiddleware digest aid now cip r m = (m, Serve (Some u))"
    using user req by (simp add: authMiddleware_def publicPath_def is_event_path_def HasSuffix_def Let_def)
  show "\<not> Allowed RoleOperator mth ''/api/v1/credentials''"
    by (simp add: Allowed_def selfService_def adminOnly_def)
  define h' where "h' = h\<lparr>h_ssh_port := 22, h_mode := or_default (h_mode h) ModeScanOnly, h_status := StatusPending,
    h_id := or_default (h_id h) uuid, h_created_at := or_default_time (h_created_at h) now\<rparr>"
  define m' where "m' = m\<lparr>hosts := (hosts m)(h_id h' \<mapsto> h')\<rparr>"
  have created: "createHost uuid now (Inr h) m = (m', Body 201 h')"
    using body by (simp add: createHost_def shown_with_def CreateHost_def Let_def m'_def h'_def)
  have f: "h_credential_id h' = cid" "h_primary_ip h' = ip" "h_ssh_host_key h' = []" "h_ssh_port h' = 22"
    "host_arch h' = host_arch h" using body by (simp_all add: h'_def host_arch_def)
  have "open_login (Some k) parse h' m' = Inr (cred, secret, login_methods parse AuthPassword secret)"
    using laws cred by (simp add: open_login_def GetCredential_def get_or_def m'_def f AuthFor_def login_methods_def)
  then have tf: "transportFactory (Some k) parse bins local extra h' m' =
      Inr (SSHTransport (ssh_to k h' (cred, secret, login_methods parse AuthPassword secret) elf))"
    using bin cred(3) body(3) by (simp add: transportFactory_def f)
  have "Itoa 22 = ''22''" by code_simp
  then have "tp_addr (ssh_to k h' (cred, secret, login_methods parse AuthPassword secret) elf) = JoinHostPort ip ''22''"
    "PasswordAuth secret \<in> set (tp_auth (ssh_to k h' (cred, secret, login_methods parse AuthPassword secret) elf))"
    "snd (hostKeyCallback (ssh_to k h' (cred, secret, login_methods parse AuthPassword secret) elf) key m') = None" for key
    by (simp_all add: f ssh_to_def login_methods_def hostKeyCallback_def Let_def)
  then show "case createHost uuid now (Inr h) m of (m', reply) \<Rightarrow>
       \<exists>h' t. reply = Body 201 h' \<and> GetHost (h_id h') m' = Inr h' \<and>
         transportFactory (Some k) parse bins local extra h' m' = Inr (SSHTransport t) \<and>
         tp_addr t = JoinHostPort ip ''22'' \<and> PasswordAuth secret \<in> set (tp_auth t) \<and>
         (\<forall>key. snd (hostKeyCallback t key m') = None)"
    using tf by (simp add: created GetHost_def get_or_def) (simp add: m'_def)
qed


definition demo_desk_login :: memory where
  "demo_desk_login = NewMemory\<lparr>users := [''u2'' \<mapsto> demo_viewer\<lparr>u_role := RoleOperator\<rparr>],
     sessions := [''#tok'' \<mapsto> \<lparr>ss_token_hash = ''#tok'', ss_user_id = ''u2'', ss_expires_at = 50\<rparr>],
     creds := [''c1'' \<mapsto> \<lparr>cr_id = ''c1'', cr_name = ''n'', cr_username = ''root'', cr_auth_type = ''password'',
       cr_secret_enc = ''!pw'', cr_sudo_secret_enc = [], cr_created_at = 0\<rparr>]\<rparr>"

theorem operator_sends_credential_anywhere_witness:
  "\<exists>m' h' t. createHost ''h9'' 9 (Inr (demo_host\<lparr>h_credential_id := ''c1'', h_primary_ip := ''6.6.6.6'', h_ssh_port := 0\<rparr>))
       demo_desk_login = (m', Body 201 h') \<and>
     transportFactory (Some demo_box) (\<lambda>_. None :: nat option) (\<lambda>_. Some ''elf'') [] [] h' m' = Inr (SSHTransport t) \<and>
     PasswordAuth ''pw'' \<in> set (tp_auth t)"
proof -
  let ?h = "demo_host\<lparr>h_credential_id := ''c1'', h_primary_ip := ''6.6.6.6'', h_ssh_port := 0\<rparr>"
  let ?c = "\<lparr>cr_id = ''c1'', cr_name = ''n'', cr_username = ''root'', cr_auth_type = ''password'',
       cr_secret_enc = ''!pw'', cr_sudo_secret_enc = [], cr_created_at = 0\<rparr>"
  have u: "userFromRequest (\<lambda>t. CHR ''#'' # t) 9 (demo_request MethodPost ''/api/v1/hosts'') demo_desk_login =
      Some (demo_viewer\<lparr>u_role := RoleOperator\<rparr>)"
    by (simp add: userFromRequest_def demo_request_def demo_desk_login_def SessionUser_def bearerToken_def Let_def)
  have k: "canOpen demo_box" "openSecret demo_box (cr_secret_enc ?c) = Some ''pw''" "creds demo_desk_login ''c1'' = Some ?c"
    "cr_auth_type ?c = AuthPassword" "''c1'' \<noteq> []" by (simp_all add: demo_box_def demo_desk_login_def)
  have v: "u_role (demo_viewer\<lparr>u_role := RoleOperator\<rparr>) = RoleOperator" "\<not> u_disabled (demo_viewer\<lparr>u_role := RoleOperator\<rparr>)"
    "\<not> u_must_change_password (demo_viewer\<lparr>u_role := RoleOperator\<rparr>)" by (simp_all add: demo_viewer_def)
  have q: "rq_method (demo_request MethodPost ''/api/v1/hosts'') = MethodPost"
    "rq_path (demo_request MethodPost ''/api/v1/hosts'') = ''/api/v1/hosts''" by (simp_all add: demo_request_def)
  have b: "h_credential_id ?h = ''c1''" "h_primary_ip ?h = ''6.6.6.6''" "''6.6.6.6'' \<noteq> []" "h_ssh_host_key ?h = []" "h_ssh_port ?h = 0"
    by (simp_all add: demo_host_def)
  have "case createHost ''h9'' 9 (Inr ?h) demo_desk_login of (m', reply) \<Rightarrow>
       \<exists>h' t. reply = Body 201 h' \<and> GetHost (h_id h') m' = Inr h' \<and>
         transportFactory (Some demo_box) (\<lambda>_. None :: nat option) (\<lambda>_. Some ''elf'') [] [] h' m' = Inr (SSHTransport t) \<and>
         tp_addr t = JoinHostPort ''6.6.6.6'' ''22'' \<and> PasswordAuth ''pw'' \<in> set (tp_auth t) \<and>
         (\<forall>key. snd (hostKeyCallback t key m') = None)"
    by (rule operator_sends_credential_anywhere [where uuid = "''h9''" and bins = "\<lambda>_. Some ''elf''"
      and parse = "\<lambda>_. None :: nat option" and local = "[]" and extra = "[]", OF k u v q b refl, THEN conjunct2, THEN conjunct2])
  then show ?thesis by (cases "createHost ''h9'' 9 (Inr ?h) demo_desk_login") auto
qed

end
