(* ===== verification/UiForms.thy ===== *)
theory UiForms
  imports UiPages RemoteAccess Credentials
begin

text \<open>
  The forms of \<open>internal/api/ui.go\<close>: adding and editing a host, adding a schedule. A form is what \<open>FormValue\<close>
  gives for a name (the empty string for an absent one). \<open>time.ParseDuration\<close> is an argument.
\<close>

section \<open>Tags as lines\<close>

text \<open>Commas count as line breaks.\<close>

definition tag_of_line :: "string \<Rightarrow> (string \<times> string) option" where
  "tag_of_line line =
     (let line = TrimSpace line in
      if line = [] then None
      else (case Cut (CHR ''='') line of
          None \<Rightarrow> None
        | Some (k, v) \<Rightarrow> if TrimSpace k \<noteq> [] \<and> TrimSpace v \<noteq> [] then Some (TrimSpace k, TrimSpace v) else None))"

definition parseTagLines :: "string \<Rightarrow> string_map" where
  "parseTagLines s =
     foldl put_tag [] (List.map_filter tag_of_line (Split (CHR 10) (map (\<lambda>c. if c = CHR '','' then CHR 10 else c) s)))"

section \<open>Forms\<close>

type_synonym form = "string \<Rightarrow> string"

datatype ui_reply = UiError int string | UiStoreError store_error | UiRedirect string

definition form_port :: "form \<Rightarrow> int option" where
  "form_port fm = (case Atoi (TrimSpace (fm ''ssh_port'')) of None \<Rightarrow> None | Some p \<Rightarrow> if p > 0 then Some p else None)"

definition form_auth_type :: "form \<Rightarrow> string" where
  "form_auth_type fm =
     (if fm ''auth_type'' \<noteq> AuthSSHKey \<and> fm ''auth_type'' \<noteq> AuthPassword then AuthPassword else fm ''auth_type'')"

definition form_mode :: "form \<Rightarrow> string option" where
  "form_mode fm = (if fm ''mode'' = ModeScanOnly \<or> fm ''mode'' = ModeScanPlusSensor then Some (fm ''mode'') else None)"

text \<open>
  \<open>sealErr\<close> is the text of a sealing that fails. The credential is made before the host: \<open>uuid1\<close> and
  \<open>uuid2\<close> are their identifiers.
\<close>

definition uiAddHost ::
  "crypto option \<Rightarrow> string \<Rightarrow> string \<Rightarrow> string \<Rightarrow> go_time \<Rightarrow> string + form \<Rightarrow> memory \<Rightarrow> memory \<times> ui_reply" where
  "uiAddHost crypt sealErr uuid1 uuid2 now body m =
     (case body of
        Inl e \<Rightarrow> (m, UiError 400 e)
      | Inr fm \<Rightarrow>
          (let ip = TrimSpace (fm ''primary_ip''); usr = TrimSpace (fm ''username''); secret = fm ''secret'' in
           if ip = [] \<or> usr = [] \<or> secret = [] then (m, UiError 400 ''primary_ip, username and secret are required'')
           else (case crypt of
               None \<Rightarrow> (m, UiError 503 ''credential sealing disabled: no node key configured'')
             | Some k \<Rightarrow>
                 (let arch = (if TrimSpace (fm ''arch'') = [] then ''amd64'' else TrimSpace (fm ''arch'')) in
                  case sealSecret k secret of
                    None \<Rightarrow> (m, UiError 500 sealErr)
                  | Some sealed \<Rightarrow> (case seal_optional k (fm ''sudo_password'') of
                      None \<Rightarrow> (m, UiError 500 sealErr)
                    | Some sudo \<Rightarrow>
                        (case CreateCredential uuid1 now
                           \<lparr>cr_id = [], cr_name = usr @ ''@'' @ ip, cr_username = usr, cr_auth_type = form_auth_type fm,
                            cr_secret_enc = sealed, cr_sudo_secret_enc = sudo, cr_created_at = 0\<rparr> m of
                           (m, Inl e) \<Rightarrow> (m, UiError 500 (store_error_text e))
                         | (m, Inr cred) \<Rightarrow>
                             (case CreateHost uuid2 now
                                \<lparr>h_id = [], h_hostname = TrimSpace (fm ''hostname''), h_primary_ip = ip,
                                 h_ssh_port = (case form_port fm of None \<Rightarrow> 22 | Some p \<Rightarrow> p), h_credential_id = cr_id cred,
                                 h_ssh_host_key = [], h_os_name = [], h_os_version = [], h_kernel = [], h_arch = arch,
                                 h_mode = (case form_mode fm of None \<Rightarrow> ModeScanOnly | Some md \<Rightarrow> md),
                                 h_status = StatusPending, h_tags = [], h_last_seen = None, h_created_at = 0\<rparr> m of
                                (m, Inl e) \<Rightarrow> (m, UiError 500 (store_error_text e))
                              | (m, Inr _) \<Rightarrow> (m, UiRedirect ''/ui/hosts''))))))))"

text \<open>What the edit form does about the credential: \<open>Inl\<close> is an answer that ends the request.\<close>

definition new_credential ::
  "string \<Rightarrow> go_time \<Rightarrow> credential \<Rightarrow> memory \<Rightarrow> memory \<times> (ui_reply + string)" where
  "new_credential uuid now cred m =
     (case CreateCredential uuid now cred m of
        (m, Inl e) \<Rightarrow> (m, Inl (UiError 500 (store_error_text e)))
      | (m, Inr c) \<Rightarrow> (m, Inr (cr_id c)))"

definition edit_sudo ::
  "crypto option \<Rightarrow> string \<Rightarrow> string \<Rightarrow> go_time \<Rightarrow> form \<Rightarrow> host \<Rightarrow> memory \<Rightarrow> memory \<times> (ui_reply + host)" where
  "edit_sudo crypt sealErr uuid now fm h m =
     (if \<not> (TrimSpace (fm ''secret'') = [] \<and> fm ''sudo_password'' \<noteq> [] \<and> h_credential_id h \<noteq> []) then (m, Inr h)
      else (case crypt of
          None \<Rightarrow> (m, Inl (UiError 503 ''credential sealing disabled: no node key configured''))
        | Some k \<Rightarrow> (case GetCredential (h_credential_id h) m of
            Inl e \<Rightarrow> (m, Inl (UiStoreError e))
          | Inr old \<Rightarrow> (case sealSecret k (fm ''sudo_password'') of
              None \<Rightarrow> (m, Inl (UiError 500 sealErr))
            | Some sudo \<Rightarrow>
                (case new_credential uuid now
                   \<lparr>cr_id = [], cr_name = cr_name old, cr_username = cr_username old, cr_auth_type = cr_auth_type old,
                    cr_secret_enc = cr_secret_enc old, cr_sudo_secret_enc = sudo, cr_created_at = 0\<rparr> m of
                   (m, Inl r) \<Rightarrow> (m, Inl r)
                 | (m, Inr cid) \<Rightarrow> (m, Inr (h\<lparr>h_credential_id := cid\<rparr>)))))))"

text \<open>The sealed sudo password of the new login: the one given, or the old one when it can be read.\<close>

definition kept_sudo :: "crypto \<Rightarrow> form \<Rightarrow> host \<Rightarrow> memory \<Rightarrow> bytes option" where
  "kept_sudo k fm h m =
     (if fm ''sudo_password'' \<noteq> [] then sealSecret k (fm ''sudo_password'')
      else if h_credential_id h \<noteq> []
      then (case GetCredential (h_credential_id h) m of Inl _ \<Rightarrow> Some [] | Inr old \<Rightarrow> Some (cr_sudo_secret_enc old))
      else Some [])"

definition edit_login ::
  "crypto option \<Rightarrow> string \<Rightarrow> string \<Rightarrow> go_time \<Rightarrow> form \<Rightarrow> host \<Rightarrow> memory \<Rightarrow> memory \<times> (ui_reply + host)" where
  "edit_login crypt sealErr uuid now fm h m =
     (if TrimSpace (fm ''secret'') = [] then (m, Inr h)
      else (case crypt of
          None \<Rightarrow> (m, Inl (UiError 503 ''credential sealing disabled: no node key configured''))
        | Some k \<Rightarrow>
            (let usr = TrimSpace (fm ''username'') in
             if usr = [] then (m, Inl (UiError 400 ''username required to set a new credential''))
             else (case sealSecret k (fm ''secret'') of
                 None \<Rightarrow> (m, Inl (UiError 500 sealErr))
               | Some sealed \<Rightarrow> (case kept_sudo k fm h m of
                   None \<Rightarrow> (m, Inl (UiError 500 sealErr))
                 | Some sudo \<Rightarrow>
                     (case new_credential uuid now
                        \<lparr>cr_id = [], cr_name = usr @ ''@'' @ h_primary_ip h, cr_username = usr, cr_auth_type = form_auth_type fm,
                         cr_secret_enc = sealed, cr_sudo_secret_enc = sudo, cr_created_at = 0\<rparr> m of
                        (m, Inl r) \<Rightarrow> (m, Inl r)
                      | (m, Inr cid) \<Rightarrow>
                          (m, Inr (h\<lparr>h_credential_id := cid, h_ssh_host_key := [], h_status := StatusPending\<rparr>))))))))"

definition edited_host :: "form \<Rightarrow> host \<Rightarrow> host" where
  "edited_host fm h =
     (let h = h\<lparr>h_hostname := TrimSpace (fm ''hostname'')\<rparr>;
          h = (case form_mode fm of None \<Rightarrow> h | Some md \<Rightarrow> h\<lparr>h_mode := md\<rparr>);
          h = (case form_port fm of None \<Rightarrow> h | Some p \<Rightarrow> h\<lparr>h_ssh_port := p\<rparr>)
      in h\<lparr>h_tags := parseTagLines (fm ''tags'')\<rparr>)"

definition uiEditHost ::
  "crypto option \<Rightarrow> string \<Rightarrow> string \<Rightarrow> go_time \<Rightarrow> string \<Rightarrow> string + form \<Rightarrow> memory \<Rightarrow> memory \<times> ui_reply" where
  "uiEditHost crypt sealErr uuid now hid body m =
     (case GetHost hid m of
        Inl e \<Rightarrow> (m, UiStoreError e)
      | Inr h \<Rightarrow> (case body of
          Inl e \<Rightarrow> (m, UiError 400 e)
        | Inr fm \<Rightarrow>
            (case edit_sudo crypt sealErr uuid now fm (edited_host fm h) m of
               (m, Inl r) \<Rightarrow> (m, r)
             | (m, Inr h) \<Rightarrow> (case edit_login crypt sealErr uuid now fm h m of
                 (m, Inl r) \<Rightarrow> (m, r)
               | (m, Inr h) \<Rightarrow> (case UpdateHost h m of
                   (m, Inl e) \<Rightarrow> (m, UiStoreError e)
                 | (m, Inr _) \<Rightarrow> (m, UiRedirect ''/ui/hosts''))))))"

text \<open>What the edit page is filled with: the row, its tags line by line, and the user of its credential.\<close>

definition uiEditHostForm :: "string \<Rightarrow> memory \<Rightarrow> store_error + host \<times> string \<times> string \<times> string" where
  "uiEditHostForm hid m =
     (case GetHost hid m of
        Inl e \<Rightarrow> Inl e
      | Inr h \<Rightarrow>
          (let (usr, t) = (if h_credential_id h = [] then ([], AuthPassword)
                 else (case GetCredential (h_credential_id h) m of Inl _ \<Rightarrow> ([], AuthPassword) | Inr c \<Rightarrow> (cr_username c, cr_auth_type c)))
           in Inr (h, Join [CHR 10] (tagPairs (h_tags h)), usr, t)))"

text \<open>\<open>parse\<close> is \<open>time.ParseDuration\<close>; \<open>int64(d.Seconds())\<close> truncates toward zero.\<close>

definition uiAddSchedule ::
  "(string \<Rightarrow> duration option) \<Rightarrow> string \<Rightarrow> go_time \<Rightarrow> string + form \<Rightarrow> memory \<Rightarrow> memory \<times> ui_reply" where
  "uiAddSchedule parse uuid now body m =
     (case body of
        Inl e \<Rightarrow> (m, UiError 400 e)
      | Inr fm \<Rightarrow>
          (let iv = (case parse (TrimSpace (fm ''interval'')) of None \<Rightarrow> 0 | Some d \<Rightarrow> d sdiv Second) in
           if iv < minScheduleInterval then (m, UiError 400 ''interval must be at least 5m (recommended 15m-1h; e.g. 30m)'')
           else (case CreateSchedule uuid now
                \<lparr>sc_id = [], sc_name = TrimSpace (fm ''name''),
                 sc_host_id = (if fm ''target'' = ''host'' then fm ''host_id'' else []),
                 sc_collection_id = (if fm ''target'' = ''collection'' then fm ''collection_id'' else []),
                 sc_interval_s = iv, sc_enabled = True, sc_last_run = None, sc_next_run = now, sc_created_at = 0\<rparr> m of
                (m, Inl e) \<Rightarrow> (m, UiStoreError e)
              | (m, Inr _) \<Rightarrow> (m, UiRedirect ''/ui/schedules''))))"


section \<open>The edit form leaves alone what it shows\<close>

text \<open>A string that \<open>TrimSpace\<close> leaves alone, and tags the form can show: no key or value is cut or trimmed.\<close>

definition trimmed :: "string \<Rightarrow> bool" where
  "trimmed s \<longleftrightarrow> s \<noteq> [] \<and> \<not> is_space (hd s) \<and> \<not> is_space (last s)"

definition form_tags :: "string_map \<Rightarrow> bool" where
  "form_tags tags \<longleftrightarrow> distinct (map fst tags) \<and>
     (\<forall>(k, v) \<in> set tags. trimmed k \<and> trimmed v \<and> CHR ''='' \<notin> set k \<and> {CHR '','', CHR 10} \<inter> set (k @ v) = {})"

lemma TrimSpace_trimmed: "trimmed s \<Longrightarrow> TrimSpace s = s"
proof -
  assume s: "trimmed s"
  then have "dropWhile is_space s = s" by (cases s) (auto simp: trimmed_def)
  moreover have "dropWhile is_space (rev s) = rev s" using s by (cases s rule: rev_cases) (auto simp: trimmed_def)
  ultimately show ?thesis by (simp add: TrimSpace_def)
qed

lemma TrimSpace_trims: "TrimSpace s = [] \<or> trimmed (TrimSpace s)"
proof (cases "TrimSpace s = []")
  case False
  define d where "d = dropWhile is_space s"
  have t: "TrimSpace s = rev (dropWhile is_space (rev d))" by (simp add: TrimSpace_def d_def)
  with False have ne: "dropWhile is_space (rev d) \<noteq> []" by simp
  then have l: "\<not> is_space (hd (dropWhile is_space (rev d)))" by (rule hd_dropWhile)
  have "d \<noteq> []" using ne by auto
  then have "\<not> is_space (hd d)" unfolding d_def by (rule hd_dropWhile)
  moreover have "hd d = last (dropWhile is_space (rev d))"
    using ne \<open>d \<noteq> []\<close> by (metis hd_rev last_appendR takeWhile_dropWhile_id last_rev)
  ultimately show ?thesis using l ne by (simp add: trimmed_def t last_rev hd_rev)
qed simp

lemma tag_of_pair:
  assumes "trimmed k" and "trimmed v" and "CHR ''='' \<notin> set k"
  shows "tag_of_line (k @ ''='' @ v) = Some (k, v)"
proof -
  have "trimmed (k @ ''='' @ v)" using assms by (auto simp: trimmed_def)
  then have "TrimSpace (k @ ''='' @ v) = k @ ''='' @ v" by (rule TrimSpace_trimmed)
  moreover have "k \<noteq> []" "v \<noteq> []" using assms by (auto simp: trimmed_def)
  ultimately show ?thesis
    using assms Cut_append [of "CHR ''=''" k v] by (simp add: tag_of_line_def Let_def TrimSpace_trimmed)
qed

lemma map_of_put_tag: "map_of (put_tag acc kv) = (map_of acc)(fst kv \<mapsto> snd kv)"
proof
  fix x
  have "map_of (filter (\<lambda>e. fst e \<noteq> fst kv) acc) x = (if x = fst kv then None else map_of acc x)"
    by (induction acc) auto
  then show "map_of (put_tag acc kv) x = ((map_of acc)(fst kv \<mapsto> snd kv)) x"
    by (cases kv) (simp add: put_tag_def)
qed

lemma foldl_put_tag:
  "distinct (map fst kvs) \<Longrightarrow> map_of (foldl put_tag acc kvs) k = (map_of acc ++ map_of kvs) k"
proof (induction kvs arbitrary: acc)
  case (Cons kv kvs)
  obtain k' v where kv: "kv = (k', v)" by fastforce
  note p = map_of_put_tag [of acc "(k', v)", simplified]
  show ?case
  proof (cases "k = k'")
    case True
    then have "map_of kvs k = None" using Cons.prems by (simp add: kv map_of_eq_None_iff)
    then show ?thesis using Cons True by (simp add: kv p map_add_def)
  next
    case False
    then show ?thesis using Cons by (simp add: kv p map_add_def split: option.splits)
  qed
qed simp

lemma tagPairs_lines: obtains tags' where "tagPairs tags = map (\<lambda>(k, v). k @ ''='' @ v) tags'" and "mset tags' = mset tags"
proof
  let ?f = "\<lambda>(k, v). k @ ''='' @ v"
  show "mset (sort_key ?f tags) = mset tags" by simp
  show "tagPairs tags = map ?f (sort_key ?f tags)"
    unfolding tagPairs_def
  proof (rule properties_for_sort)
    show "mset (map ?f (sort_key ?f tags)) = mset (map ?f tags)" unfolding mset_map by (simp only: mset_sort)
  qed (rule sorted_sort_key)
qed

lemma parse_tags_text:
  assumes tags: "form_tags tags"
  shows "map_of (parseTagLines (Join [CHR 10] (tagPairs tags))) = map_of tags"
proof -
  let ?f = "\<lambda>(k, v). k @ ''='' @ v"
  obtain tags' where l: "tagPairs tags = map ?f tags'" and ms: "mset tags' = mset tags" by (rule tagPairs_lines)
  have set: "set tags' = set tags" using ms by (rule mset_eq_setD)
  have d: "distinct (map fst tags')"
  proof -
    have "mset (map fst tags') = mset (map fst tags)" using ms by simp
    then show ?thesis using tags by (metis form_tags_def mset_eq_imp_distinct_iff)
  qed
  have line: "tag_of_line (?f kv) = Some kv" "CHR 10 \<notin> set (?f kv)" "CHR '','' \<notin> set (?f kv)" if "kv \<in> set tags" for kv
  proof -
    obtain k v where kv: "kv = (k, v)" by fastforce
    have "trimmed k" "trimmed v" "CHR ''='' \<notin> set k" "{CHR '','', CHR 10} \<inter> set (k @ v) = {}"
      using that tags by (auto simp: form_tags_def kv)
    then show "tag_of_line (?f kv) = Some kv" and "CHR 10 \<notin> set (?f kv)" and "CHR '','' \<notin> set (?f kv)"
      by (auto simp: kv tag_of_pair [simplified])
  qed
  let ?t = "Join [CHR 10] (tagPairs tags)"
  have "CHR '','' \<notin> set ?t"
  proof
    assume "CHR '','' \<in> set ?t"
    from Join_chars [OF this] show False using line(3) set by (auto simp: l)
  qed
  then have commas: "map (\<lambda>c. if c = CHR '','' then CHR 10 else c) ?t = ?t" by (intro map_idI) auto
  have "List.map_filter tag_of_line (Split (CHR 10) ?t) = tags'"
  proof (cases "tags' = []")
    case True
    then show ?thesis by (simp add: l tag_of_line_def TrimSpace_def List.map_filter_def)
  next
    case False
    then have "Split (CHR 10) ?t = map ?f tags'" unfolding l using line(2) set by (intro Split_Join) auto
    moreover have "List.map_filter tag_of_line (map ?f tags') = tags'"
      using line(1) set by (auto simp: List.map_filter_def filter_id_conv o_def simp del: append.simps intro!: map_idI)
    ultimately show ?thesis by simp
  qed
  then have "parseTagLines ?t = foldl put_tag [] tags'" by (simp only: parseTagLines_def commas)
  then have "map_of (parseTagLines ?t) = map_of tags'" by (intro ext) (simp add: foldl_put_tag [OF d])
  also have "\<dots> = map_of tags" using d ms tags by (metis form_tags_def map_of_inject_set set)
  finally show ?thesis .
qed


text \<open>A browser sends line breaks as two characters.\<close>

definition sent_text :: "string \<Rightarrow> string" where
  "sent_text t = concat (map (\<lambda>c. if c = CHR 10 then [CHR 13, CHR 10] else [c]) t)"

lemma sent_lines:
  "list_all2 (\<lambda>l' l. l' = l \<or> l' = l @ [CHR 13])
     (Split (CHR 10) (map (\<lambda>c. if c = CHR '','' then CHR 10 else c) (sent_text t)))
     (Split (CHR 10) (map (\<lambda>c. if c = CHR '','' then CHR 10 else c) t))"
proof (induction t)
  case (Cons c t)
  let ?S = "\<lambda>t. Split (CHR 10) (map (\<lambda>c. if c = CHR '','' then CHR 10 else c) t)"
  have st: "sent_text (c # t) = (if c = CHR 10 then [CHR 13, CHR 10] else [c]) @ sent_text t" by (simp add: sent_text_def)
  obtain w ws where w: "?S t = w # ws" by (metis Split_not_Nil neq_Nil_conv)
  obtain w' ws' where w': "?S (sent_text t) = w' # ws'" by (metis Split_not_Nil neq_Nil_conv)
  show ?case using Cons w w' by (auto simp: st)
qed (simp add: sent_text_def)

lemma TrimSpace_cr: "TrimSpace (l @ [CHR 13]) = TrimSpace l"
proof -
  have "is_space (CHR 13)" by (simp add: is_space_def)
  moreover have "dropWhile is_space l = []" if "\<forall>c \<in> set l. is_space c" using that by simp
  ultimately show ?thesis by (cases "\<forall>c \<in> set l. is_space c") (auto simp: TrimSpace_def dropWhile_append dest: set_dropWhileD)
qed

lemma parse_sent: "parseTagLines (sent_text t) = parseTagLines t"
proof -
  have r: "tag_of_line l' = tag_of_line l" if "l' = l \<or> l' = l @ [CHR 13]" for l l'
    using that by (auto simp: tag_of_line_def TrimSpace_cr)
  have "list_all2 (\<lambda>l' l. tag_of_line l' = tag_of_line l)
     (Split (CHR 10) (map (\<lambda>c. if c = CHR '','' then CHR 10 else c) (sent_text t)))
     (Split (CHR 10) (map (\<lambda>c. if c = CHR '','' then CHR 10 else c) t))"
    by (rule list_all2_mono [OF sent_lines]) (rule r)
  then have "List.map_filter tag_of_line (Split (CHR 10) (map (\<lambda>c. if c = CHR '','' then CHR 10 else c) (sent_text t))) =
     List.map_filter tag_of_line (Split (CHR 10) (map (\<lambda>c. if c = CHR '','' then CHR 10 else c) t))"
    by (induction rule: list_all2_induct) (simp_all add: List.map_filter_def)
  then show ?thesis by (simp only: parseTagLines_def)
qed

lemma digits_value_snoc: "digits_value (ds @ [c]) acc = 10 * digits_value ds acc + (int (of_char c) - 48)"
  by (induction ds acc rule: digits_value.induct) simp_all

lemma digits_value_nat: "digits_value (nat_digits n) 0 = int n"
proof (induction n rule: nat_digits.induct)
  case (1 n)
  have c: "int (of_char (char_of (48 + n mod 10) :: char)) = 48 + int (n mod 10)" by (simp add: of_char_of)
  show ?case
  proof (cases "n < 10")
    case True
    then show ?thesis using c by (subst nat_digits.simps) simp
  next
    case False
    then have "digits_value (nat_digits n) 0 = 10 * int (n div 10) + int (n mod 10)"
      using 1 c by (subst nat_digits.simps) (simp add: digits_value_snoc)
    also have "\<dots> = int (10 * (n div 10) + n mod 10)" by (simp only: of_nat_add of_nat_mult of_nat_numeral)
    finally show ?thesis by (simp only: mult_div_mod_eq)
  qed
qed

lemma port_sent_back: "form_port (\<lambda>_. Itoa p) \<in> {None, Some p}"
proof -
  have d: "list_all is_digit (nat_digits n)" "nat_digits n \<noteq> []" for n
    by (rule nat_digits_digits) (subst nat_digits.simps, simp)
  have ns: "\<not> is_space c" if "is_digit c" for c using that by (auto simp: is_digit_def is_space_def)
  show ?thesis
  proof (cases "p < 0")
    case True
    then have "Itoa p = CHR ''-'' # nat_digits (nat (- p))" by (simp add: Itoa_def)
    moreover have "TrimSpace (Itoa p) = Itoa p"
      unfolding Itoa_def using d ns True by (intro TrimSpace_id) (auto simp: list_all_iff is_space_def)
    ultimately show ?thesis using d(1) [of "nat (- p)"] True
      by (simp add: form_port_def Atoi_def digits_value_nat)
  next
    case False
    then have i: "Itoa p = nat_digits (nat p)" by (simp add: Itoa_def)
    have t: "TrimSpace (nat_digits (nat p)) = nat_digits (nat p)"
      using d(1) [of "nat p"] ns by (intro TrimSpace_id) (auto simp: list_all_iff)
    obtain c cs where c: "nat_digits (nat p) = c # cs" using d(2) by (cases "nat_digits (nat p)") auto
    then have "is_digit c" using d(1) [of "nat p"] by simp
    then have "c \<noteq> CHR ''-''" "c \<noteq> CHR ''+''" by (auto simp: is_digit_def)
    then have "Atoi (nat_digits (nat p)) \<in> {None, Some (digits_value (nat_digits (nat p)) 0)}"
      unfolding Atoi_def c by (simp add: Let_def)
    then have a: "Atoi (nat_digits (nat p)) \<in> {None, Some p}" using False by (simp add: digits_value_nat)
    have "form_port (\<lambda>_. Itoa p) = (case Atoi (nat_digits (nat p)) of None \<Rightarrow> None | Some q \<Rightarrow> if q > 0 then Some q else None)"
      by (simp only: form_port_def i t)
    then show ?thesis using a by auto
  qed
qed




definition web_row :: host where
  "web_row = \<lparr>h_id = ''h1'', h_hostname = ''web-1'', h_primary_ip = ''10.0.0.5'', h_ssh_port = 2222, h_credential_id = ''c1'',
     h_ssh_host_key = ''k'', h_os_name = [], h_os_version = [], h_kernel = [], h_arch = ''amd64'', h_mode = ModeScanOnly,
     h_status = StatusOnline, h_tags = [(''team'', ''sec''), (''env'', ''prod'')], h_last_seen = None, h_created_at = 1\<rparr>"

definition demo_form :: form where
  "demo_form n =
     (if n = ''hostname'' then ''web-1'' else if n = ''mode'' then ModeScanOnly else if n = ''ssh_port'' then Itoa 2222
      else if n = ''tags'' then sent_text (Join [CHR 10] (tagPairs (h_tags web_row))) else [])"


text \<open>A comma in a value does not come back: the rest of it is dropped, or becomes a tag of its own.\<close>

lemma comma_tag_is_cut:
  "parseTagLines (sent_text (Join [CHR 10] (tagPairs [(''owner'', ''ann,bob'')]))) = [(''owner'', ''ann'')]"
  "parseTagLines (sent_text (Join [CHR 10] (tagPairs [(''owner'', ''ann,env=prod'')]))) = [(''env'', ''prod''), (''owner'', ''ann'')]"
  by (simp_all add: tagPairs_def sent_text_def parseTagLines_def tag_of_line_def put_tag_def Cut_def TrimSpace_def is_space_def
      List.map_filter_def Let_def)

section \<open>A new login\<close>

lemma edit_login_given:
  assumes given: "TrimSpace (fm ''secret'') \<noteq> []"
    and ok: "edit_login (Some k) sealErr uuid now fm h m = (m', Inr h')"
  obtains sealed sudo where "TrimSpace (fm ''username'') \<noteq> []" "sealSecret k (fm ''secret'') = Some sealed" "kept_sudo k fm h m = Some sudo"
    "h' = h\<lparr>h_credential_id := uuid, h_ssh_host_key := [], h_status := StatusPending\<rparr>"
    "m' = m\<lparr>creds := (creds m)(uuid \<mapsto> \<lparr>cr_id = uuid, cr_name = TrimSpace (fm ''username'') @ ''@'' @ h_primary_ip h,
       cr_username = TrimSpace (fm ''username''), cr_auth_type = form_auth_type fm, cr_secret_enc = sealed,
       cr_sudo_secret_enc = sudo, cr_created_at = or_default_time 0 now\<rparr>)\<rparr>"
  using ok given that
  by (auto simp: edit_login_def Let_def new_credential_def CreateCredential_def split: if_splits option.splits)

lemma edit_login_error: "edit_login crypt sealErr uuid now fm h m \<noteq> (m', Inl (UiRedirect to))"
  by (auto simp: edit_login_def Let_def new_credential_def CreateCredential_def split: option.splits)

lemma edited_host_keeps [simp]:
  "h_id (edited_host fm h) = h_id h" "h_credential_id (edited_host fm h) = h_credential_id h"
  "h_primary_ip (edited_host fm h) = h_primary_ip h"
  by (simp_all add: edited_host_def Let_def split: option.splits)

text \<open>
  C26. A new login through the edit form takes effect and loses nothing. The host points to a new credential
  that opens to the secret given, its host key is learnt anew, and the sudo password is the one given or, sealed
  as it was, the one of the old credential; no other host or credential changes.
\<close>

theorem new_login_keeps_sudo:
  assumes laws: "sealing_laws k" and row: "hosts m hid = Some h" "h_id h = hid"
    and given: "TrimSpace (fm ''secret'') \<noteq> []"
    and edited: "uiEditHost (Some k) sealErr uuid now hid (Inr fm) m = (m', UiRedirect to)"
  shows "\<exists>h' c. hosts m' = (hosts m)(hid \<mapsto> h') \<and> creds m' = (creds m)(uuid \<mapsto> c) \<and>
    h_credential_id h' = uuid \<and> h_ssh_host_key h' = [] \<and> h_status h' = StatusPending \<and>
    cr_username c = TrimSpace (fm ''username'') \<and> openSecret k (cr_secret_enc c) = Some (fm ''secret'') \<and>
    (if fm ''sudo_password'' \<noteq> [] then openSecret k (cr_sudo_secret_enc c) = Some (fm ''sudo_password'')
     else cr_sudo_secret_enc c = (case creds m (h_credential_id h) of
       Some old \<Rightarrow> if h_credential_id h = [] then [] else cr_sudo_secret_enc old | None \<Rightarrow> []))"
proof -
  let ?e = "edited_host fm h"
  have s: "edit_sudo (Some k) sealErr uuid now fm ?e m = (m, Inr ?e)" using given by (simp add: edit_sudo_def)
  obtain m1 h1 where l: "edit_login (Some k) sealErr uuid now fm ?e m = (m1, Inr h1)"
    using edited by (auto simp: uiEditHost_def GetHost_def get_or_def row s edit_login_error split: prod.splits sum.splits)
  from edit_login_given [OF given l] obtain sealed sudo where
    sealed: "sealSecret k (fm ''secret'') = Some sealed" and sudo: "kept_sudo k fm ?e m = Some sudo"
    and h1: "h1 = ?e\<lparr>h_credential_id := uuid, h_ssh_host_key := [], h_status := StatusPending\<rparr>"
    and m1: "m1 = m\<lparr>creds := (creds m)(uuid \<mapsto> \<lparr>cr_id = uuid, cr_name = TrimSpace (fm ''username'') @ ''@'' @ h_primary_ip ?e,
       cr_username = TrimSpace (fm ''username''), cr_auth_type = form_auth_type fm, cr_secret_enc = sealed,
       cr_sudo_secret_enc = sudo, cr_created_at = or_default_time 0 now\<rparr>)\<rparr>" by metis
  have m': "m' = m1\<lparr>hosts := (hosts m1)(hid \<mapsto> h1)\<rparr>"
    using edited row by (simp add: uiEditHost_def GetHost_def get_or_def s l UpdateHost_def h1 m1)
  have o: "openSecret k sealed = Some (fm ''secret'')" using laws sealed by (simp add: sealing_laws_def)
  have "if fm ''sudo_password'' \<noteq> [] then openSecret k sudo = Some (fm ''sudo_password'')
     else sudo = (case creds m (h_credential_id h) of
       Some old \<Rightarrow> if h_credential_id h = [] then [] else cr_sudo_secret_enc old | None \<Rightarrow> [])"
    using sudo laws by (auto simp: kept_sudo_def GetCredential_def get_or_def sealing_laws_def split: if_splits option.splits)
  then show ?thesis
    by (intro exI [of _ h1] exI [of _ "the (creds m1 uuid)"]) (simp add: m' h1 m1 o)
qed


definition login_form :: form where
  "login_form n = (if n = ''secret'' then ''new'' else if n = ''username'' then '' root '' else [])"

theorem new_login_keeps_sudo_witness:
  "\<exists>m' h' c. uiEditHost (Some demo_box) [] ''c2'' 5 ''h1'' (Inr login_form)
       (NewMemory\<lparr>hosts := [''h1'' \<mapsto> web_row], creds := [''c1'' \<mapsto> \<lparr>cr_id = ''c1'', cr_name = [], cr_username = ''root'',
          cr_auth_type = AuthPassword, cr_secret_enc = ''!old'', cr_sudo_secret_enc = ''!sudo'', cr_created_at = 1\<rparr>]\<rparr>) =
       (m', UiRedirect ''/ui/hosts'') \<and>
     hosts m' ''h1'' = Some h' \<and> h_credential_id h' = ''c2'' \<and> creds m' ''c2'' = Some c \<and> cr_username c = ''root'' \<and>
     cr_sudo_secret_enc c = ''!sudo''"
proof -
  define old where "old = \<lparr>cr_id = ''c1'', cr_name = [], cr_username = ''root'', cr_auth_type = AuthPassword,
     cr_secret_enc = ''!old'', cr_sudo_secret_enc = ''!sudo'', cr_created_at = 1\<rparr>"
  let ?m = "NewMemory\<lparr>hosts := [''h1'' \<mapsto> web_row], creds := [''c1'' \<mapsto> old]\<rparr>"
  have t: "TrimSpace '' root '' = ''root''" "TrimSpace ''new'' = ''new''" by (simp_all add: TrimSpace_def is_space_def)
  have row: "h_credential_id web_row = ''c1''" "h_id web_row = ''h1''" by (simp_all add: web_row_def)
  obtain m' where e: "uiEditHost (Some demo_box) [] ''c2'' 5 ''h1'' (Inr login_form) ?m = (m', UiRedirect ''/ui/hosts'')"
    by (simp add: uiEditHost_def GetHost_def get_or_def edit_sudo_def edit_login_def login_form_def t demo_box_def kept_sudo_def
        row GetCredential_def new_credential_def CreateCredential_def UpdateHost_def or_default_def Let_def)
  have laws: "sealing_laws demo_box" by (simp add: sealing_laws_def demo_box_def)
  from new_login_keeps_sudo [OF laws _ row(2) _ e] obtain h' c where
    "hosts m' = (hosts ?m)(''h1'' \<mapsto> h')" "creds m' = (creds ?m)(''c2'' \<mapsto> c)" "h_credential_id h' = ''c2''"
    "cr_username c = ''root''" "cr_sudo_secret_enc c = ''!sudo''"
    by (auto simp: login_form_def t row old_def)
  then show ?thesis using e unfolding old_def by (intro exI [of _ m'] exI [of _ h'] exI [of _ c]) simp
qed


text \<open>A schedule for one host whose identifier is missing is a schedule for the whole fleet; it is not looked up.\<close>

lemma unnamed_host_schedules_fleet:
  assumes "fm ''target'' = ''host''" and "fm ''host_id'' = []"
    and "uiAddSchedule parse uuid now (Inr fm) m = (m', UiRedirect to)" and "uuid \<noteq> []"
  shows "\<exists>sc. schedules m' uuid = Some sc \<and> sc_host_id sc = [] \<and> sc_collection_id sc = [] \<and> sc_enabled sc"
  using assms by (auto simp: uiAddSchedule_def Let_def CreateSchedule_def split: if_splits)

end
