(* ===== verification/Metrics.thy ===== *)
theory Metrics
  imports Text Complex_Main
begin

text \<open>
  The HTTP metrics of \<open>internal/api/metrics.go\<close>: counting requests, the recorder that learns the status of an
  answer, and the text of \<open>/metrics\<close>.

  Seconds are real numbers (\<open>float64\<close> in the code), \<open>fmt\<close> is their \<open>%g\<close> and \<open>quote\<close> is \<open>%q\<close>. Go's maps are met in the
  order \<open>ks\<close>.
\<close>

section \<open>Counting\<close>

record metrics =
  mt_requests :: "string \<rightharpoonup> int"
  mt_dur_sum :: real
  mt_dur_count :: int
  mt_audit_failures :: int

definition newMetrics :: metrics where
  "newMetrics = \<lparr>mt_requests = Map.empty, mt_dur_sum = 0, mt_dur_count = 0, mt_audit_failures = 0\<rparr>"

definition metric_key :: "string \<Rightarrow> int \<Rightarrow> string" where
  "metric_key mth code = mth @ [CHR 0x00] @ Itoa code"

definition counted :: "metrics \<Rightarrow> string \<Rightarrow> int" where
  "counted mt k = (case mt_requests mt k of None \<Rightarrow> 0 | Some n \<Rightarrow> n)"

definition observe_request :: "string \<Rightarrow> int \<Rightarrow> real \<Rightarrow> metrics \<Rightarrow> metrics" where
  "observe_request mth code secs mt =
     (let k = metric_key mth code in
      mt\<lparr>mt_requests := (mt_requests mt)(k \<mapsto> counted mt k + 1), mt_dur_sum := mt_dur_sum mt + secs,
         mt_dur_count := mt_dur_count mt + 1\<rparr>)"

definition auditFailed :: "metrics \<Rightarrow> metrics" where
  "auditFailed mt = mt\<lparr>mt_audit_failures := mt_audit_failures mt + 1\<rparr>"

definition request_line :: "(string \<Rightarrow> string) \<Rightarrow> string \<times> int \<Rightarrow> string" where
  "request_line quote kv =
     (let (mth, code) = (case Cut (CHR 0x00) (fst kv) of None \<Rightarrow> (fst kv, []) | Some mc \<Rightarrow> mc)
      in ''bladedr_http_requests_total{method='' @ quote mth @ '',code='' @ quote code @ ''} '' @ Itoa (snd kv))"

definition write_metrics :: "(string \<Rightarrow> string) \<Rightarrow> (real \<Rightarrow> string) \<Rightarrow> string list \<Rightarrow> metrics \<Rightarrow> string list" where
  "write_metrics quote fmt ks mt =
     [''# HELP bladedr_http_requests_total HTTP requests by method and status code.'',
      ''# TYPE bladedr_http_requests_total counter''] @
     map (request_line quote) (entries ks (mt_requests mt)) @
     [''# HELP bladedr_http_request_duration_seconds HTTP request duration summary.'',
      ''# TYPE bladedr_http_request_duration_seconds summary'',
      ''bladedr_http_request_duration_seconds_sum '' @ fmt (mt_dur_sum mt),
      ''bladedr_http_request_duration_seconds_count '' @ Itoa (mt_dur_count mt),
      ''# HELP bladedr_audit_append_failures_total Security events that could not be written to the audit log.'',
      ''# TYPE bladedr_audit_append_failures_total counter'',
      ''bladedr_audit_append_failures_total '' @ Itoa (mt_audit_failures mt)]"

section \<open>The recorder\<close>

text \<open>What reaches the writer below: a status line, or a piece of the body.\<close>

datatype sent = SentHeader int | SentBody string

record recorder =
  sr_status :: int
  sr_wrote_header :: bool
  sr_sent :: "sent list"

definition new_recorder :: recorder where
  "new_recorder = \<lparr>sr_status = 200, sr_wrote_header = False, sr_sent = []\<rparr>"

definition WriteHeader :: "int \<Rightarrow> recorder \<Rightarrow> recorder" where
  "WriteHeader code w =
     (if sr_wrote_header w then w
      else w\<lparr>sr_wrote_header := True, sr_status := code, sr_sent := sr_sent w @ [SentHeader code]\<rparr>)"

definition Write :: "string \<Rightarrow> recorder \<Rightarrow> recorder" where
  "Write p w =
     (let w = (if \<not> sr_wrote_header w then WriteHeader 200 w else w)
      in w\<lparr>sr_sent := sr_sent w @ [SentBody p]\<rparr>)"

datatype call = Header int | Body string

text \<open>What a handler does with the writer it is given.\<close>

fun handled :: "call list \<Rightarrow> recorder \<Rightarrow> recorder" where
  "handled [] w = w"
| "handled (Header c # cs) w = handled cs (WriteHeader c w)"
| "handled (Body p # cs) w = handled cs (Write p w)"

definition observe_handler :: "string \<Rightarrow> real \<Rightarrow> call list \<Rightarrow> metrics \<Rightarrow> metrics \<times> sent list" where
  "observe_handler mth secs cs mt =
     (let w = handled cs new_recorder in (observe_request mth (sr_status w) secs mt, sr_sent w))"

section \<open>What is counted\<close>

text \<open>The status a client sees: the first line it gets, and 200 when the handler leaves that to the server.\<close>

definition status_sent :: "sent list \<Rightarrow> int" where
  "status_sent ss = (case ss of SentHeader c # _ \<Rightarrow> c | _ \<Rightarrow> 200)"

definition recorder_ok :: "recorder \<Rightarrow> bool" where
  "recorder_ok w \<longleftrightarrow>
     (if sr_wrote_header w then \<exists>bs. sr_sent w = SentHeader (sr_status w) # map SentBody bs
      else sr_sent w = [] \<and> sr_status w = 200)"

lemma recorder_WriteHeader: "recorder_ok w \<Longrightarrow> recorder_ok (WriteHeader c w)"
  by (auto simp: recorder_ok_def WriteHeader_def)

lemma recorder_Write: "recorder_ok w \<Longrightarrow> recorder_ok (Write p w)"
proof -
  have snoc: "map SentBody bs @ [SentBody p] = map SentBody (bs @ [p])" for bs by simp
  show "recorder_ok w \<Longrightarrow> recorder_ok (Write p w)"
    unfolding recorder_ok_def Write_def WriteHeader_def Let_def
    by (auto split: if_splits) (metis snoc, metis list.simps(8) append_Nil snoc)
qed

lemma recorder_handled: "recorder_ok w \<Longrightarrow> recorder_ok (handled cs w)"
  by (induction cs w rule: handled.induct) (simp_all add: recorder_WriteHeader recorder_Write)

text \<open>Whatever a handler does, one status line goes out at most, before the body, and it is the one that is counted.\<close>

lemma counted_status_was_sent:
  assumes "observe_handler mth secs cs mt = (mt', out)"
  shows "mt' = observe_request mth (status_sent out) secs mt \<and>
    (out = [] \<or> (\<exists>bs. out = SentHeader (status_sent out) # map SentBody bs))"
proof -
  have "recorder_ok (handled cs new_recorder)"
    by (rule recorder_handled) (simp add: recorder_ok_def new_recorder_def)
  then show ?thesis using assms
    by (auto simp: observe_handler_def Let_def recorder_ok_def status_sent_def split: if_splits)
qed

text \<open>The counters add up to the number of requests.\<close>

definition requests_total :: "metrics \<Rightarrow> int" where
  "requests_total mt = (\<Sum>k \<in> dom (mt_requests mt). counted mt k)"

definition metrics_inv :: "metrics \<Rightarrow> bool" where
  "metrics_inv mt \<longleftrightarrow> finite (dom (mt_requests mt)) \<and> requests_total mt = mt_dur_count mt"

lemma metrics_inv_new: "metrics_inv newMetrics"
  by (simp add: metrics_inv_def newMetrics_def requests_total_def)

lemma metrics_inv_observe:
  assumes "metrics_inv mt"
  shows "metrics_inv (observe_request mth code secs mt)"
proof -
  let ?k = "metric_key mth code" and ?mt = "observe_request mth code secs mt"
  have fin: "finite (dom (mt_requests mt))" and tot: "requests_total mt = mt_dur_count mt"
    using assms by (simp_all add: metrics_inv_def)
  have d: "dom (mt_requests ?mt) = insert ?k (dom (mt_requests mt))" by (simp add: observe_request_def Let_def)
  have c: "counted ?mt k = (if k = ?k then counted mt k + 1 else counted mt k)" for k
    by (simp add: counted_def observe_request_def Let_def)
  have z: "counted mt k = 0" if "k \<notin> dom (mt_requests mt)" for k using that by (auto simp: counted_def split: option.splits)
  have "requests_total ?mt = (\<Sum>k \<in> insert ?k (dom (mt_requests mt)). counted mt k + (if k = ?k then 1 else 0))"
    unfolding requests_total_def d by (intro sum.cong) (simp_all add: c)
  also have "\<dots> = (\<Sum>k \<in> insert ?k (dom (mt_requests mt)). counted mt k) + 1"
    using fin by (simp add: sum.distrib)
  also have "(\<Sum>k \<in> insert ?k (dom (mt_requests mt)). counted mt k) = requests_total mt"
    using fin z by (auto simp: requests_total_def sum.insert_if)
  finally show ?thesis using fin tot d by (simp add: metrics_inv_def) (simp add: observe_request_def Let_def)
qed

text \<open>Every method has counters of its own, and a client names the method: \<open>n\<close> requests can leave \<open>n\<close> of them.\<close>

definition strange_method :: "nat \<Rightarrow> string" where
  "strange_method i = replicate (i + 1) (CHR ''X'')"

lemma methods_grow_metrics:
  "mt_requests (fold (\<lambda>i. observe_request (strange_method i) 401 secs) [0..<n] newMetrics) =
     (\<lambda>k. if k \<in> (\<lambda>i. metric_key (strange_method i) 401) ` {..<n} then Some 1 else None)"
proof (induction n)
  case 0
  show ?case by (simp add: newMetrics_def)
next
  case (Suc n)
  have inj: "metric_key (strange_method i) 401 = metric_key (strange_method j) 401 \<longleftrightarrow> i = j" for i j
  proof
    assume "metric_key (strange_method i) 401 = metric_key (strange_method j) 401"
    then have "length (metric_key (strange_method i) 401) = length (metric_key (strange_method j) 401)" by simp
    then show "i = j" by (simp add: metric_key_def strange_method_def)
  qed simp
  let ?mt = "fold (\<lambda>i. observe_request (strange_method i) 401 secs) [0..<n] newMetrics"
  have r: "mt_requests (observe_request mth c secs mt) = (mt_requests mt)(metric_key mth c \<mapsto> counted mt (metric_key mth c) + 1)"
    for mth c mt by (simp add: observe_request_def Let_def)
  have new: "mt_requests ?mt (metric_key (strange_method n) 401) = None"
    unfolding Suc using inj by auto
  have "mt_requests (fold (\<lambda>i. observe_request (strange_method i) 401 secs) [0..<Suc n] newMetrics) =
      (mt_requests ?mt)(metric_key (strange_method n) 401 \<mapsto> 1)"
    using new by (simp add: r) (simp add: counted_def)
  then show ?case unfolding Suc by (auto simp: lessThan_Suc)
qed

end
