(* ===== verification/Routes.thy ===== *)
theory Routes
  imports AuthPolicy Text
begin

text \<open>
  The routes of \<open>internal/api\<close> (\<open>Routes\<close> in \<open>api.go\<close>, \<open>registerUI\<close> in \<open>ui.go\<close>) behind the gate of \<open>AuthPolicy\<close>: who
  reaches which handler.

  A target is the list of its segments, as \<open>http.ServeMux\<close> sees them: unescaped one by one. The gate sees
  \<open>r.URL.Path\<close>, where a slash that was escaped inside a segment looks like any other. A pattern is one string
  of the source; \<open>{x}\<close> stands for one segment that is not empty, and a \<open>GET\<close> pattern also serves \<open>HEAD\<close>. What the
  multiplexer answers on its own (404, 405, a redirect to the cleaned path) reaches no handler.
\<close>

section \<open>Patterns\<close>

datatype segment = Lit string | Var

definition seg_of :: "string \<Rightarrow> segment" where
  "seg_of s = (if HasPrefix s ''{'' then Var else Lit s)"

definition parse_pattern :: "string \<Rightarrow> segment list" where
  "parse_pattern p = (if p = ''/{$}'' then [] else map seg_of (tl (Split (CHR ''/'') p)))"

definition seg_match :: "segment \<Rightarrow> string \<Rightarrow> bool" where
  "seg_match s w = (case s of Lit l \<Rightarrow> w = l | Var \<Rightarrow> w \<noteq> [])"

definition path_of :: "string list \<Rightarrow> string" where
  "path_of ss = CHR ''/'' # Join ''/'' ss"

text \<open>The values of the placeholders, in their order.\<close>

definition path_values :: "segment list \<Rightarrow> string list \<Rightarrow> string list" where
  "path_values pat ss = map snd (filter (\<lambda>(s, w). s = Var) (zip pat ss))"

section \<open>The routes\<close>

definition api_routes :: "(string \<times> string) list" where
  "api_routes = [
     (''GET /healthz'', ''health''),
     (''GET /readyz'', ''readyz''),
     (''GET /metrics'', ''serveMetrics''),
     (''GET /openapi.yaml'', ''serveOpenAPI''),
     (''GET /api/v1/hosts'', ''listHosts''),
     (''POST /api/v1/hosts'', ''createHost''),
     (''GET /api/v1/hosts/{id}'', ''getHost''),
     (''PATCH /api/v1/hosts/{id}'', ''patchHost''),
     (''DELETE /api/v1/hosts/{id}'', ''deleteHost''),
     (''POST /api/v1/hosts/{id}/scans'', ''triggerScan''),
     (''GET /api/v1/hosts/{id}/scans'', ''listScans''),
     (''GET /api/v1/hosts/{id}/baseline'', ''getBaseline''),
     (''DELETE /api/v1/hosts/{id}/baseline'', ''resetBaseline''),
     (''GET /api/v1/scans/{id}'', ''getScan''),
     (''GET /api/v1/scan-jobs'', ''listScanJobs''),
     (''GET /api/v1/scan-jobs/{id}'', ''getScanJob''),
     (''GET /api/v1/credentials'', ''listCredentials''),
     (''POST /api/v1/credentials'', ''createCredential''),
     (''DELETE /api/v1/credentials/{id}'', ''deleteCredential''),
     (''GET /api/v1/rules'', ''listRules''),
     (''GET /api/v1/rules/active'', ''listActiveRules''),
     (''GET /api/v1/policies'', ''listPolicies''),
     (''POST /api/v1/rules'', ''createRule''),
     (''PATCH /api/v1/rules/{id}'', ''patchRule''),
     (''DELETE /api/v1/rules/{id}'', ''deleteRule''),
     (''GET /api/v1/schedules'', ''listSchedules''),
     (''POST /api/v1/schedules'', ''createSchedule''),
     (''GET /api/v1/schedules/{id}'', ''getSchedule''),
     (''PATCH /api/v1/schedules/{id}'', ''patchSchedule''),
     (''DELETE /api/v1/schedules/{id}'', ''deleteSchedule''),
     (''POST /api/v1/schedules/{id}/run'', ''runSchedule''),
     (''GET /api/v1/collections'', ''listCollections''),
     (''POST /api/v1/collections'', ''createCollection''),
     (''GET /api/v1/collections/{id}'', ''getCollection''),
     (''PATCH /api/v1/collections/{id}'', ''patchCollection''),
     (''DELETE /api/v1/collections/{id}'', ''deleteCollection''),
     (''GET /api/v1/collections/{id}/hosts'', ''collectionHosts''),
     (''PUT /api/v1/collections/{id}/members/{host}'', ''addCollectionMember''),
     (''DELETE /api/v1/collections/{id}/members/{host}'', ''removeCollectionMember''),
     (''GET /api/v1/observations'', ''listObservations''),
     (''GET /api/v1/observations/{id}'', ''getObservation''),
     (''PATCH /api/v1/observations/{id}'', ''patchObservation''),
     (''POST /api/v1/observations/bulk'', ''bulkObservations''),
     (''POST /api/v1/hosts/{id}/sensor'', ''hostSensor''),
     (''GET /api/v1/hosts/{id}/sensor-tokens'', ''listSensorTokens''),
     (''POST /api/v1/hosts/{id}/sensor-tokens'', ''createSensorToken''),
     (''DELETE /api/v1/hosts/{id}/sensor-tokens/{token}'', ''revokeSensorToken''),
     (''POST /api/v1/hosts/{id}/events'', ''ingestEvents''),
     (''GET /api/v1/export/ecs'', ''exportECS''),
     (''GET /api/v1/export-targets'', ''listExportTargets''),
     (''POST /api/v1/export-targets'', ''createExportTarget''),
     (''GET /api/v1/export-targets/{id}'', ''getExportTarget''),
     (''PATCH /api/v1/export-targets/{id}'', ''patchExportTarget''),
     (''DELETE /api/v1/export-targets/{id}'', ''deleteExportTarget''),
     (''GET /api/v1/export-dlq'', ''listExportDLQ''),
     (''POST /api/v1/export-dlq/{id}/retry'', ''retryExportDelivery''),
     (''GET /api/v1/archive'', ''listArchive''),
     (''GET /api/v1/retention'', ''getRetentionPolicy''),
     (''POST /api/v1/retention/run'', ''runRetention''),
     (''GET /api/v1/responses'', ''listResponses''),
     (''POST /api/v1/responses'', ''createResponse''),
     (''GET /api/v1/responses/{id}'', ''getResponse''),
     (''POST /api/v1/responses/{id}/approve'', ''approveResponse''),
     (''POST /api/v1/responses/{id}/reject'', ''rejectResponse''),
     (''GET /api/v1/risk/stats'', ''riskStats''),
     (''GET /api/v1/risk/observations'', ''riskObservations''),
     (''POST /api/v1/login'', ''login''),
     (''POST /api/v1/logout'', ''logout''),
     (''GET /api/v1/me'', ''me''),
     (''POST /api/v1/me/password'', ''changeOwnPassword''),
     (''POST /api/v1/me/mfa/setup'', ''setupMFA''),
     (''POST /api/v1/me/mfa/confirm'', ''confirmMFA''),
     (''DELETE /api/v1/me/mfa'', ''disableMFA''),
     (''GET /api/v1/users'', ''listUsers''),
     (''POST /api/v1/users'', ''createUser''),
     (''PATCH /api/v1/users/{id}'', ''patchUser''),
     (''DELETE /api/v1/users/{id}'', ''deleteUser''),
     (''GET /api/v1/audit'', ''listAudit'')]"

text \<open>The handlers without a name of their own are \<open>uiRoot\<close> and \<open>uiRedirect\<close> (redirects), \<open>uiLogo\<close> and \<open>uiFavicon\<close>.\<close>

definition registerUI :: "(string \<times> string) list" where
  "registerUI = [
     (''GET /{$}'', ''uiRoot''),
     (''GET /ui'', ''uiRedirect''),
     (''GET /ui/dashboard'', ''uiDashboard''),
     (''GET /ui/observations'', ''uiObservations''),
     (''GET /ui/hosts'', ''uiHosts''),
     (''POST /ui/hosts'', ''uiAddHost''),
     (''GET /ui/hosts/{id}/edit'', ''uiEditHostForm''),
     (''POST /ui/hosts/{id}/edit'', ''uiEditHost''),
     (''GET /ui/schedules'', ''uiSchedules''),
     (''POST /ui/schedules'', ''uiAddSchedule''),
     (''GET /ui/rules'', ''uiRules''),
     (''GET /ui/policies'', ''uiPolicies''),
     (''GET /ui/login'', ''uiLogin''),
     (''GET /ui/password'', ''uiPassword''),
     (''POST /ui/password'', ''uiChangePassword''),
     (''GET /ui/logo.png'', ''uiLogo''),
     (''GET /ui/favicon.png'', ''uiFavicon''),
     (''GET /favicon.ico'', ''uiFavicon''),
     (''GET /ui/users'', ''uiUsers''),
     (''GET /ui/audit'', ''uiAudit'')]"

record route =
  rt_method :: string
  rt_pattern :: "segment list"
  rt_handler :: string

definition route_of :: "string \<times> string \<Rightarrow> route" where
  "route_of row =
     (case Cut (CHR '' '') (fst row) of
        None \<Rightarrow> \<lparr>rt_method = [], rt_pattern = parse_pattern (fst row), rt_handler = snd row\<rparr>
      | Some (mth, p) \<Rightarrow> \<lparr>rt_method = mth, rt_pattern = parse_pattern p, rt_handler = snd row\<rparr>)"

definition Routes :: "route list" where
  "Routes = map route_of (api_routes @ registerUI)"

definition route_match :: "string \<Rightarrow> string list \<Rightarrow> route \<Rightarrow> bool" where
  "route_match mth ss rt \<longleftrightarrow>
     (rt_method rt = mth \<or> rt_method rt = MethodGet \<and> mth = MethodHead) \<and> list_all2 seg_match (rt_pattern rt) ss"

definition dispatch :: "string \<Rightarrow> string list \<Rightarrow> (string \<times> string list) option" where
  "dispatch mth ss = map_option (\<lambda>rt. (rt_handler rt, path_values (rt_pattern rt) ss)) (find (route_match mth ss) Routes)"

section \<open>Who may call what\<close>

definition public_handlers :: "string list" where
  "public_handlers = [''uiRoot'', ''health'', ''readyz'', ''serveMetrics'', ''serveOpenAPI'', ''login'', ''uiLogin'', ''uiLogo'', ''uiFavicon'']"

definition admin_handlers :: "string list" where
  "admin_handlers = [
     ''listCredentials'', ''createCredential'', ''deleteCredential'', ''listSensorTokens'',
     ''createSensorToken'', ''revokeSensorToken'', ''listExportTargets'', ''createExportTarget'',
     ''getExportTarget'', ''patchExportTarget'', ''deleteExportTarget'', ''listExportDLQ'',
     ''retryExportDelivery'', ''listArchive'', ''getRetentionPolicy'', ''runRetention'', ''approveResponse'',
     ''rejectResponse'', ''listUsers'', ''createUser'', ''patchUser'', ''deleteUser'', ''listAudit'',
     ''uiUsers'', ''uiAudit'']"

definition self_handlers :: "string list" where
  "self_handlers = [''changeOwnPassword'', ''setupMFA'', ''confirmMFA'', ''disableMFA'', ''uiPassword'', ''uiChangePassword'']"

definition password_handlers :: "string list" where
  "password_handlers = [''changeOwnPassword'', ''me'', ''logout'', ''uiPassword'', ''uiChangePassword'']"


section \<open>What a pattern says of the path\<close>

definition lit :: "segment \<Rightarrow> string" where
  "lit s = (case s of Lit l \<Rightarrow> l | Var \<Rightarrow> [])"

definition lead :: "segment list \<Rightarrow> string list" where
  "lead pat = map lit (takeWhile (\<lambda>s. s \<noteq> Var) pat)"

text \<open>A path the pattern may have matched: known up to the first placeholder.\<close>

definition could :: "segment list \<Rightarrow> string \<Rightarrow> bool" where
  "could pat q = (if Var \<in> set pat then HasPrefix q (path_of (lead pat)) else q = path_of (lead pat))"

lemma Join_prefix: "\<exists>r. Join sep (xs @ ys) = Join sep xs @ r"
proof (induction sep xs rule: Join.induct)
  case (2 sep w)
  show ?case by (cases ys) auto
qed auto

lemma match_lead: "list_all2 seg_match pat ss \<Longrightarrow> \<exists>ws. ss = lead pat @ ws \<and> (Var \<notin> set pat \<longrightarrow> ws = [])"
proof (induction rule: list_all2_induct)
  case (Cons s pat w ss)
  then show ?case by (cases s) (auto simp: lead_def seg_match_def lit_def)
qed (simp add: lead_def)

lemma match_could:
  assumes "list_all2 seg_match pat ss"
  shows "could pat (path_of ss)"
proof -
  obtain ws where ws: "ss = lead pat @ ws" "Var \<notin> set pat \<longrightarrow> ws = []" using match_lead [OF assms] by blast
  obtain r where "Join ''/'' ss = Join ''/'' (lead pat) @ r" using Join_prefix ws(1) by blast
  then show ?thesis using ws by (auto simp: could_def path_of_def HasPrefix_iff)
qed

lemma Join_member: "w \<in> set ss \<Longrightarrow> \<exists>p q. CHR ''/'' # Join ''/'' ss = p @ CHR ''/'' # w @ q"
proof (induction ss)
  case (Cons v ss)
  show ?case
  proof (cases "w = v")
    case True
    show ?thesis
    proof (cases ss)
      case (Cons u us)
      then show ?thesis using True by (intro exI [of _ "[]"] exI [of _ "CHR ''/'' # Join ''/'' (u # us)"]) simp
    qed (use True in \<open>auto intro!: exI [of _ "[]"]\<close>)
  next
    case False
    then obtain p q where pq: "CHR ''/'' # Join ''/'' ss = p @ CHR ''/'' # w @ q" using Cons by auto
    have "ss \<noteq> []" using Cons.prems False by auto
    then have "CHR ''/'' # Join ''/'' (v # ss) = (CHR ''/'' # v) @ CHR ''/'' # Join ''/'' ss" by (cases ss) simp_all
    then show ?thesis using pq by (intro exI [of _ "(CHR ''/'' # v) @ p"] exI [of _ q]) simp
  qed
qed simp

lemma Join_last: "ss \<noteq> [] \<Longrightarrow> \<exists>p. CHR ''/'' # Join ''/'' ss = p @ CHR ''/'' # last ss"
proof (induction ss)
  case (Cons v ss)
  show ?case
  proof (cases ss)
    case (Cons u us)
    then obtain p where "CHR ''/'' # Join ''/'' ss = p @ CHR ''/'' # last ss" using Cons.IH by auto
    then have "CHR ''/'' # Join ''/'' (v # ss) = ((CHR ''/'' # v) @ p) @ CHR ''/'' # last ss" using Cons by simp
    then show ?thesis using Cons by auto
  qed (auto intro!: exI [of _ "[]"])
qed simp

lemma match_member: "list_all2 seg_match pat ss \<Longrightarrow> Lit l \<in> set pat \<Longrightarrow> l \<in> set ss"
  by (induction rule: list_all2_induct) (auto simp: seg_match_def)

lemma match_last: "list_all2 seg_match pat ss \<Longrightarrow> pat \<noteq> [] \<Longrightarrow> last pat = Lit l \<Longrightarrow> last ss = l"
  by (induction rule: list_all2_induct) (auto simp: seg_match_def split: if_splits)

lemma last_segment:
  assumes "p @ CHR ''/'' # l = q @ CHR ''/'' # e" and "CHR ''/'' \<notin> set l" and "CHR ''/'' \<notin> set e"
  shows "l = e"
proof -
  have "takeWhile (\<lambda>c. c \<noteq> CHR ''/'') (rev (p @ CHR ''/'' # l)) = rev l"
    using assms(2) by (auto simp: takeWhile_append takeWhile_tail)
  moreover have "takeWhile (\<lambda>c. c \<noteq> CHR ''/'') (rev (q @ CHR ''/'' # e)) = rev e"
    using assms(3) by (auto simp: takeWhile_append takeWhile_tail)
  ultimately show ?thesis using assms(1) by (metis rev_rev_ident)
qed

section \<open>Properties of the table\<close>

definition public_paths :: "string list" where
  "public_paths = [''/'', ''/healthz'', ''/readyz'', ''/metrics'', ''/openapi.yaml'', ''/api/v1/login'', ''/ui/login'', ''/ui/logo.png'',
     ''/ui/favicon.png'', ''/favicon.ico'']"

definition self_paths :: "string list" where
  "self_paths = [''/api/v1/me/password'', ''/ui/password'', ''/api/v1/me/mfa/setup'', ''/api/v1/me/mfa/confirm'', ''/api/v1/me/mfa'']"

definition password_paths :: "string list" where
  "password_paths = [''/api/v1/me/password'', ''/ui/password'', ''/api/v1/me'', ''/api/v1/logout'']"

definition only_on :: "string list \<Rightarrow> string list \<Rightarrow> bool" where
  "only_on paths handlers = list_all (\<lambda>rt. rt_handler rt \<in> set handlers \<or> \<not> list_ex (could (rt_pattern rt)) paths) Routes"

definition admin_prefixes :: "string list" where
  "admin_prefixes = [''/api/v1/users'', ''/api/v1/credentials'', ''/api/v1/export-targets'', ''/api/v1/export-dlq'', ''/api/v1/archive'',
     ''/api/v1/retention'', ''/api/v1/audit'', ''/ui/users'', ''/ui/audit'']"

definition admin_pattern :: "segment list \<Rightarrow> bool" where
  "admin_pattern pat \<longleftrightarrow> list_ex (HasPrefix (path_of (lead pat))) admin_prefixes \<or> Lit ''sensor-tokens'' \<in> set pat \<or>
     lead pat = [''api'', ''v1'', ''responses''] \<and> (last pat = Lit ''approve'' \<or> last pat = Lit ''reject'')"

lemma public_table: "only_on public_paths public_handlers" by code_simp
lemma self_table: "only_on self_paths self_handlers" by code_simp
lemma password_table: "only_on password_paths password_handlers" by code_simp

lemma admin_table:
  "list_all (\<lambda>rt. rt_handler rt \<in> set admin_handlers \<longrightarrow>
     admin_pattern (rt_pattern rt) \<and> rt_handler rt \<notin> set self_handlers) Routes" by code_simp

lemma post_table:
  "list_all (\<lambda>rt. rt_method rt = MethodPost \<longrightarrow> rt_handler rt = ''ingestEvents'' \<and> rt_pattern rt = [Lit ''api'', Lit ''v1'', Lit ''hosts'', Var, Lit ''events''] \<or>
     (case last (rt_pattern rt) of Lit l \<Rightarrow> rt_pattern rt \<noteq> [] \<and> CHR ''/'' \<notin> set l \<and> l \<noteq> ''events'' | Var \<Rightarrow> False)) Routes" by code_simp


text \<open>
  No request matches two routes: the rows can be looked up in any order. Patterns are compared from their
  ends, where they differ.
\<close>

fun overlap :: "segment list \<Rightarrow> segment list \<Rightarrow> bool" where
  "overlap [] [] = True"
| "overlap (Lit a # p) (Lit b # q) = (if a = b then overlap p q else False)"
| "overlap (Lit a # p) (Var # q) = (if a = [] then False else overlap p q)"
| "overlap (Var # p) (Lit b # q) = (if b = [] then False else overlap p q)"
| "overlap (Var # p) (Var # q) = overlap p q"
| "overlap _ _ = False"

fun apart :: "(string \<times> segment list) list \<Rightarrow> bool" where
  "apart [] = True"
| "apart ((mth, p) # rts) = (if list_ex (\<lambda>(mth', q). if mth' = mth then overlap p q else False) rts then False else apart rts)"

lemma apart_table: "apart (map (\<lambda>rt. (rt_method rt, rev (rt_pattern rt))) Routes)" by code_simp

lemma get_table: "list_all (\<lambda>rt. rt_method rt \<noteq> MethodHead) Routes" by code_simp

lemma match_overlap: "list_all2 seg_match p ss \<Longrightarrow> list_all2 seg_match q ss \<Longrightarrow> overlap p q"
proof (induction arbitrary: q rule: list_all2_induct)
  case Nil
  then show ?case by simp
next
  case (Cons s p w ss)
  from Cons.prems obtain t q' where q: "q = t # q'" and t: "seg_match t w" and r: "list_all2 seg_match q' ss"
    by (auto simp: list_all2_Cons2)
  then show ?case using Cons.IH [OF r] Cons.hyps(1) t by (cases s; cases t) (auto simp: seg_match_def)
qed

lemma apartD:
  "apart rts \<Longrightarrow> i < j \<Longrightarrow> j < length rts \<Longrightarrow> fst (rts ! i) = fst (rts ! j) \<Longrightarrow> \<not> overlap (snd (rts ! i)) (snd (rts ! j))"
proof (induction rts arbitrary: i j rule: apart.induct)
  case (2 mth p rts)
  then show ?case
  proof (cases i)
    case 0
    then have "rts ! (j - 1) \<in> set rts" "((mth, p) # rts) ! j = rts ! (j - 1)" using 2 by (auto simp: nth_Cons')
    then show ?thesis using 2 0 by (fastforce simp: list_ex_iff split: if_splits)
  next
    case (Suc i')
    then show ?thesis using 2 by (cases j) (auto split: if_splits)
  qed
qed simp

lemma one_route:
  assumes "i < length Routes" and "j < length Routes"
    and "route_match mth ss (Routes ! i)" and "route_match mth ss (Routes ! j)"
  shows "i = j"
proof -
  let ?t = "map (\<lambda>rt. (rt_method rt, rev (rt_pattern rt))) Routes"
  have m: "rt_method (Routes ! i) = rt_method (Routes ! j)"
    using assms get_table by (auto simp: route_match_def list_all_length)
  have o: "overlap (rev (rt_pattern (Routes ! i))) (rev (rt_pattern (Routes ! j)))"
    "overlap (rev (rt_pattern (Routes ! j))) (rev (rt_pattern (Routes ! i)))"
    using assms(3,4) by (auto intro!: match_overlap [of _ "rev ss"] simp: route_match_def)
  show ?thesis
  proof (rule ccontr)
    assume "i \<noteq> j"
    then consider "i < j" | "j < i" by linarith
    then show False
    proof cases
      case 1
      from apartD [OF apart_table 1] assms m o(1) show False by simp
    next
      case 2
      from apartD [OF apart_table 2] assms m o(2) show False by simp
    qed
  qed
qed

lemma dispatch_table:
  assumes "dispatch mth ss = Some (h, vs)"
  obtains rt where "rt \<in> set Routes" "list_all2 seg_match (rt_pattern rt) ss" "h = rt_handler rt"
    "rt_method rt = mth \<or> rt_method rt = MethodGet \<and> mth = MethodHead" "vs = path_values (rt_pattern rt) ss"
  using assms that by (auto simp: dispatch_def find_Some_iff route_match_def dest: nth_mem) 

lemma only_onD:
  assumes "only_on ps hs" and "rt \<in> set Routes" and "list_all2 seg_match (rt_pattern rt) ss" and "path_of ss \<in> set ps"
  shows "rt_handler rt \<in> set hs"
  using assms match_could [OF assms(3)] by (auto simp: only_on_def list_all_iff list_ex_iff)

lemma admin_route:
  assumes "rt \<in> set Routes" and "list_all2 seg_match (rt_pattern rt) ss" and "rt_handler rt \<in> set admin_handlers"
  shows "adminOnly (path_of ss) \<and> \<not> selfService (path_of ss)"
proof
  from assms(1,3) admin_table have pat: "admin_pattern (rt_pattern rt)" and ns: "rt_handler rt \<notin> set self_handlers"
    by (auto simp: list_all_iff)
  obtain ws where ws: "ss = lead (rt_pattern rt) @ ws" using match_lead [OF assms(2)] by blast
  obtain r where r: "path_of ss = path_of (lead (rt_pattern rt)) @ r"
    using Join_prefix [of "''/''" "lead (rt_pattern rt)" ws] by (auto simp: path_of_def ws)
  consider (pre) p where "p \<in> set admin_prefixes" "HasPrefix (path_of (lead (rt_pattern rt))) p"
    | (tok) "Lit ''sensor-tokens'' \<in> set (rt_pattern rt)"
    | (resp) "lead (rt_pattern rt) = [''api'', ''v1'', ''responses'']"
        "last (rt_pattern rt) = Lit ''approve'' \<or> last (rt_pattern rt) = Lit ''reject''"
    using pat by (auto simp: admin_pattern_def list_ex_iff)
  then show "adminOnly (path_of ss)"
  proof cases
    case pre
    then have "HasPrefix (path_of ss) p" by (auto simp: r HasPrefix_iff)
    then show ?thesis using pre(1) by (auto simp: admin_prefixes_def adminOnly_def)
  next
    case tok
    then have "''sensor-tokens'' \<in> set ss" by (rule match_member [OF assms(2)])
    from Join_member [OF this] obtain p q where "path_of ss = p @ ''/sensor-tokens'' @ q" by (auto simp: path_of_def)
    then have "Contains (path_of ss) ''/sensor-tokens''" by (auto simp: Contains_iff)
    then show ?thesis by (simp add: adminOnly_def)
  next
    case resp
    then have pn: "rt_pattern rt \<noteq> []" by (auto simp: lead_def)
    then have sn: "ss \<noteq> []" using assms(2) by auto
    have l: "last ss = ''approve'' \<or> last ss = ''reject''" using resp(2) match_last [OF assms(2) pn] by auto
    then have "ws \<noteq> []" using ws resp(1) by auto
    then have "HasPrefix (path_of ss) ''/api/v1/responses/''" by (cases ws) (simp_all add: ws resp(1) path_of_def)
    moreover have "HasSuffix (path_of ss) ''/approve'' \<or> HasSuffix (path_of ss) ''/reject''"
      using Join_last [OF sn] l by (auto simp: path_of_def HasSuffix_iff)
    ultimately show ?thesis by (auto simp: adminOnly_def)
  qed
  have "path_of ss \<notin> set self_paths" using only_onD [OF self_table assms(1,2)] ns by blast
  then show "\<not> selfService (path_of ss)" by (simp add: selfService_def self_paths_def)
qed

text \<open>A \<open>POST\<close> the gate takes for an event batch is one, and the host in the path is the placeholder's value.\<close>

lemma event_route:
  assumes "rt \<in> set Routes" and "list_all2 seg_match (rt_pattern rt) ss" and "rt_method rt = MethodPost"
    and "is_event_path (path_of ss)"
  shows "rt_handler rt = ''ingestEvents'' \<and> path_values (rt_pattern rt) ss = [event_host (path_of ss)]"
proof (cases "rt_pattern rt = [Lit ''api'', Lit ''v1'', Lit ''hosts'', Var, Lit ''events''] \<and> rt_handler rt = ''ingestEvents''")
  case True
  then obtain x where ss: "ss = [''api'', ''v1'', ''hosts'', x, ''events'']"
    using assms(2) by (auto simp: list_all2_Cons1 seg_match_def)
  have "path_of ss = ''/api/v1/hosts/'' @ x @ ''/events''" by (simp add: ss path_of_def)
  then have "event_host (path_of ss) = x" by (simp only: event_host_append)
  then show ?thesis using True by (simp add: ss path_values_def)
next
  case False
  have "case last (rt_pattern rt) of Lit l \<Rightarrow> rt_pattern rt \<noteq> [] \<and> CHR ''/'' \<notin> set l \<and> l \<noteq> ''events'' | Var \<Rightarrow> False"
    using bspec [OF post_table [unfolded list_all_iff] assms(1)] assms(3) False by blast
  then obtain l where l: "last (rt_pattern rt) = Lit l" "rt_pattern rt \<noteq> []" "CHR ''/'' \<notin> set l" "l \<noteq> ''events''"
    by (cases "last (rt_pattern rt)") simp_all
  then have "last ss = l" "ss \<noteq> []" using match_last [OF assms(2) l(2) l(1)] assms(2) by auto
  then obtain p where p: "path_of ss = p @ CHR ''/'' # l" using Join_last [of ss] by (auto simp: path_of_def)
  obtain q where q: "path_of ss = q @ ''/events''" using assms(4) by (auto simp: is_event_path_def HasSuffix_iff)
  then have "l = ''events''" using p l(3) by (intro last_segment [of p l q]) auto
  then show ?thesis using l(4) by simp
qed


section \<open>Every route is guarded\<close>

text \<open>
  C4. Every route is guarded. Whatever the request, however its target is escaped, a handler the multiplexer
  picks behind the gate is public, or takes the events of the host the sensor's token was made for, or runs for
  an enabled user; for an administrator if it is one of the administrators' handlers, for an administrator or
  an operator if the method changes things (the own account apart), and for a user under a forced password
  change only if it serves that change.
\<close>

theorem every_route_guarded:
  assumes gate: "authMiddleware digest uuid now ip r m = (m', Serve who)" and path: "rq_path r = path_of ss"
    and route: "dispatch (rq_method r) ss = Some (h, vs)"
  shows "case who of
      None \<Rightarrow> h \<in> set public_handlers \<or>
        h = ''ingestEvents'' \<and> SensorTokenValid now (hd vs) (digest (bearerToken r)) m
    | Some u \<Rightarrow> \<not> u_disabled u \<and> (h \<in> set admin_handlers \<longrightarrow> u_role u = RoleAdmin) \<and>
        (rq_method r \<noteq> MethodGet \<and> rq_method r \<noteq> MethodHead \<and> h \<notin> set self_handlers \<longrightarrow>
           u_role u = RoleAdmin \<or> u_role u = RoleOperator) \<and>
        (u_must_change_password u \<longrightarrow> h \<in> set password_handlers)"
proof -
  from route obtain rt where rt: "rt \<in> set Routes" "list_all2 seg_match (rt_pattern rt) ss" "h = rt_handler rt"
    "rt_method rt = rq_method r \<or> rt_method rt = MethodGet \<and> rq_method r = MethodHead" "vs = path_values (rt_pattern rt) ss"
    by (rule dispatch_table)
  let ?p = "path_of ss"
  have pub: "publicPath ?p \<Longrightarrow> h \<in> set public_handlers"
    using only_onD [OF public_table rt(1,2)] rt(3) by (simp add: publicPath_def public_paths_def)
  have self: "selfService ?p \<Longrightarrow> h \<in> set self_handlers"
    using only_onD [OF self_table rt(1,2)] rt(3) by (simp add: selfService_def self_paths_def)
  have pw: "passwordChangePath ?p \<Longrightarrow> h \<in> set password_handlers"
    using only_onD [OF password_table rt(1,2)] rt(3) by (simp add: passwordChangePath_def password_paths_def)
  show ?thesis
  proof (cases who)
    case None
    then have "publicPath ?p \<or> rq_method r = MethodPost \<and> is_event_path ?p \<and>
        SensorTokenValid now (event_host ?p) (digest (bearerToken r)) m"
      using gate by (auto simp: authMiddleware_def Let_def path split: if_splits option.splits)
    then show ?thesis using pub event_route [OF rt(1,2)] rt(3-5) None by auto
  next
    case (Some u)
    then have ok: "\<not> u_disabled u" "Allowed (u_role u) (rq_method r) ?p" "u_must_change_password u \<longrightarrow> passwordChangePath ?p"
      using gate by (auto simp: authMiddleware_def Let_def path split: if_splits option.splits)
    have "h \<in> set admin_handlers \<longrightarrow> u_role u = RoleAdmin"
      using Allowed_admin_route [OF ok(2)] admin_route [OF rt(1,2)] rt(3) by blast
    moreover have "u_role u = RoleAdmin \<or> u_role u = RoleOperator"
      if "rq_method r \<noteq> MethodGet" "rq_method r \<noteq> MethodHead" "h \<notin> set self_handlers"
      using ok(2) self that by (auto simp: Allowed_def split: if_splits)
    ultimately show ?thesis using ok pw Some by auto
  qed
qed

theorem every_route_guarded_witness:
  "\<exists>v. authMiddleware (\<lambda>t. CHR ''#'' # t) [] 9 [] (demo_request MethodGet ''/api/v1/scans/s1'') demo_accounts =
     (demo_accounts, Serve (Some v)) \<and>
   dispatch MethodGet [''api'', ''v1'', ''scans'', ''s1''] = Some (''getScan'', [''s1'']) \<and> \<not> u_disabled v"
proof -
  let ?r = "demo_request MethodGet ''/api/v1/scans/s1''"
  have a: "authMiddleware (\<lambda>t. CHR ''#'' # t) [] 9 [] ?r demo_accounts = (demo_accounts, Serve (Some demo_viewer))"
    using demo_request_user [of 9 MethodGet "''/api/v1/scans/s1''"]
    by (simp add: authMiddleware_def Let_def)
      (simp add: demo_request_def publicPath_def demo_viewer_def Allowed_def selfService_def adminOnly_def)
  have d: "dispatch MethodGet [''api'', ''v1'', ''scans'', ''s1''] = Some (''getScan'', [''s1''])" by code_simp
  have p: "rq_path ?r = path_of [''api'', ''v1'', ''scans'', ''s1'']" "rq_method ?r = MethodGet"
    by (simp_all add: demo_request_def path_of_def)
  from every_route_guarded [OF a p(1)] d p(2) have "\<not> u_disabled demo_viewer" by simp
  with a d show ?thesis by blast
qed

text \<open>Adding a host from the console stores a credential, and is open to an operator; the credentials of the API are not.\<close>

lemma operator_adds_credential_by_form:
  "dispatch MethodPost [''ui'', ''hosts''] = Some (''uiAddHost'', []) \<and> Allowed RoleOperator MethodPost ''/ui/hosts'' \<and>
   dispatch MethodPost [''api'', ''v1'', ''credentials''] = Some (''createCredential'', []) \<and>
   \<not> Allowed RoleOperator MethodPost ''/api/v1/credentials''"
  by code_simp

end
