(* ===== verification/ServerConfig.thy ===== *)
theory ServerConfig
  imports Routes Retention
begin

text \<open>
  How the server is set up from its environment (\<open>cmd/bladedr-server/main.go\<close>), and the address a request is
  attributed to (\<open>clientIP\<close> in \<open>internal/api/auth.go\<close>).

  \<open>os.Getenv\<close> is a function that gives the empty string for what is not set. \<open>time.ParseDuration\<close>, \<open>net.ParseIP\<close> and
  its relatives, bcrypt and the random source are arguments. \<open>None\<close> is a start that ends with \<open>log.Fatalf\<close>.
\<close>

section \<open>The environment\<close>

type_synonym environ = "string \<Rightarrow> string"

definition env :: "environ \<Rightarrow> string \<Rightarrow> string \<Rightarrow> string" where
  "env e key dflt = (if e key \<noteq> [] then e key else dflt)"

definition envBool :: "environ \<Rightarrow> string \<Rightarrow> bool" where
  "envBool e key = (let v = ToLower (TrimSpace (e key)) in v = ''1'' \<or> v = ''true'')"

definition schedulerTick :: "(string \<Rightarrow> duration option) \<Rightarrow> environ \<Rightarrow> duration" where
  "schedulerTick parse e =
     (let v = e ''BLADEDR_SCHEDULER_TICK'' in
      if v = [] then 30 * Second
      else (case parse v of Some d \<Rightarrow> if d > 0 then d else 30 * Second | None \<Rightarrow> 30 * Second))"

definition scanTimeout :: "(string \<Rightarrow> duration option) \<Rightarrow> environ \<Rightarrow> duration" where
  "scanTimeout parse e =
     (let v = e ''BLADEDR_SCAN_TIMEOUT'' in
      if v = [] then 5 * Minute
      else (case parse v of Some d \<Rightarrow> if d > 0 then d else 5 * Minute | None \<Rightarrow> 5 * Minute))"

definition scanWorkers :: "environ \<Rightarrow> int" where
  "scanWorkers e =
     (let v = e ''BLADEDR_SCAN_WORKERS'' in
      if v = [] then 4
      else (case Atoi v of Some n \<Rightarrow> if 1 \<le> n \<and> n \<le> 128 then n else 4 | None \<Rightarrow> 4))"

definition exportWorkers :: "environ \<Rightarrow> int" where
  "exportWorkers e =
     (let v = e ''BLADEDR_EXPORT_WORKERS'' in
      if v = [] then 2
      else (case Atoi v of Some n \<Rightarrow> if 1 \<le> n \<and> n \<le> 32 then n else 2 | None \<Rightarrow> 2))"

definition retentionDuration :: "(string \<Rightarrow> duration option) \<Rightarrow> environ \<Rightarrow> string \<Rightarrow> duration option" where
  "retentionDuration parse e key =
     (let v = TrimSpace (e key) in
      if v = [] \<or> v = ''0'' then Some 0
      else (case parse v of None \<Rightarrow> None | Some d \<Rightarrow> if d < Hour then None else Some d))"

definition retentionPolicy :: "(string \<Rightarrow> duration option) \<Rightarrow> environ \<Rightarrow> retention_policy option" where
  "retentionPolicy parse e =
     (case (retentionDuration parse e ''BLADEDR_RETENTION_OBSERVATIONS'', retentionDuration parse e ''BLADEDR_RETENTION_SCANS'',
            retentionDuration parse e ''BLADEDR_RETENTION_AUDIT'', retentionDuration parse e ''BLADEDR_RETENTION_ARCHIVE'') of
        (Some a, Some b, Some c, Some d) \<Rightarrow>
          Some \<lparr>rp_observation_age = a, rp_scan_age = b, rp_audit_age = c, rp_archive_age = d\<rparr>
      | _ \<Rightarrow> None)"

definition reopenAfter :: "(string \<Rightarrow> duration option) \<Rightarrow> environ \<Rightarrow> duration" where
  "reopenAfter parse e =
     (let v = ToLower (TrimSpace (e ''BLADEDR_REOPEN_AFTER'')) in
      if v = [] then DefaultReopenAfter
      else if v \<in> {''0'', ''off'', ''false'', ''disabled''} then 0
      else (case parse v of None \<Rightarrow> DefaultReopenAfter | Some d \<Rightarrow> if d < 0 then DefaultReopenAfter else d))"

text \<open>The store in memory; with a database the same two settings go there.\<close>

definition openStore :: "(string \<Rightarrow> duration option) \<Rightarrow> environ \<Rightarrow> memory" where
  "openStore parse e =
     NewMemory\<lparr>AllowSelfApproval := envBool e ''BLADEDR_RESPONSE_ALLOW_SELF_APPROVAL'', ReopenAfter := reopenAfter parse e\<rparr>"

text \<open>\<open>hash\<close> is bcrypt, \<open>rnd\<close> the generated password in base64. A count does not fail in memory.\<close>

definition bootstrapAdmin ::
  "(string \<Rightarrow> string option) \<Rightarrow> string \<Rightarrow> environ \<Rightarrow> string list \<Rightarrow> string \<Rightarrow> go_time \<Rightarrow> memory \<Rightarrow> memory option" where
  "bootstrapAdmin hash rnd e ks uuid now m =
     (if CountUsers ks m > 0 then Some m
      else
        (let usr = (if e ''BLADEDR_ADMIN_USER'' = [] then ''admin'' else e ''BLADEDR_ADMIN_USER'');
             generated = (e ''BLADEDR_ADMIN_PASSWORD'' = []);
             pw = (if generated then rnd else e ''BLADEDR_ADMIN_PASSWORD'')
         in case hash pw of
              None \<Rightarrow> None
            | Some h \<Rightarrow>
                (case CreateUser ks uuid now
                   \<lparr>u_id = [], u_username = usr, u_password_hash = h, u_role = RoleAdmin, u_disabled = False,
                    u_mfa_secret_enc = [], u_mfa_enabled = False, u_must_change_password = generated, u_created_at = 0\<rparr> m of
                   (_, Inl _) \<Rightarrow> None
                 | (m, Inr _) \<Rightarrow> Some m)))"

text \<open>The secure flag of the cookie follows from serving TLS, or is set for a proxy that does.\<close>

definition secureCookies :: "environ \<Rightarrow> bool" where
  "secureCookies e \<longleftrightarrow>
     (e ''BLADEDR_TLS_CERT'' \<noteq> [] \<and> e ''BLADEDR_TLS_KEY'' \<noteq> []) \<or> envBool e ''BLADEDR_SECURE_COOKIES''"

text \<open>The binaries pushed to hosts; \<open>file\<close> reads one.\<close>

definition load_binary :: "(string \<Rightarrow> bytes option) \<Rightarrow> environ \<Rightarrow> string \<times> string \<Rightarrow> (string \<rightharpoonup> bytes) option \<Rightarrow> (string \<rightharpoonup> bytes) option" where
  "load_binary file e ak bins =
     (case bins of
        None \<Rightarrow> None
      | Some b \<Rightarrow>
          if e (snd ak) = [] then Some b
          else (case file (e (snd ak)) of None \<Rightarrow> None | Some elf \<Rightarrow> Some (b(fst ak \<mapsto> elf))))"

definition loadProbeBinaries :: "(string \<Rightarrow> bytes option) \<Rightarrow> environ \<Rightarrow> (string \<rightharpoonup> bytes) option" where
  "loadProbeBinaries file e =
     fold (load_binary file e) [(''amd64'', ''BLADEDR_PROBE_LINUX_AMD64''), (''arm64'', ''BLADEDR_PROBE_LINUX_ARM64'')] (Some Map.empty)"

definition loadSensorBinaries :: "(string \<Rightarrow> bytes option) \<Rightarrow> environ \<Rightarrow> (string \<rightharpoonup> bytes) option" where
  "loadSensorBinaries file e =
     fold (load_binary file e) [(''amd64'', ''BLADEDR_SENSOR_LINUX_AMD64''), (''arm64'', ''BLADEDR_SENSOR_LINUX_ARM64'')] (Some Map.empty)"

text \<open>
  The files of the policy bundle. An entry is a directory or has a content, which may not be readable; \<open>pack\<close> is
  the compressed archive. No directory is \<open>[]\<close>, one that cannot be listed ends the start.
\<close>

definition policy_file :: "string \<times> bool \<times> bytes option \<Rightarrow> (string \<times> bytes) option" where
  "policy_file entry =
     (case entry of (name, dir, content) \<Rightarrow>
        if dir \<or> (\<not> HasSuffix name ''.yml'' \<and> \<not> HasSuffix name ''.yaml'') then None
        else map_option (Pair name) content)"

definition loadPolicyTar ::
  "((string \<times> bytes) list \<Rightarrow> bytes) \<Rightarrow> (string \<Rightarrow> (string \<times> bool \<times> bytes option) list option) \<Rightarrow> environ \<Rightarrow> bytes option" where
  "loadPolicyTar pack readDir e =
     (if e ''BLADEDR_POLICY_DIR'' = [] then Some []
      else (case readDir (e ''BLADEDR_POLICY_DIR'') of
          None \<Rightarrow> None
        | Some es \<Rightarrow> (let fs = List.map_filter policy_file es in Some (if fs = [] then [] else pack fs))))"

section \<open>Where a request comes from\<close>

text \<open>What \<open>net\<close> knows of addresses.\<close>

record ('ip, 'net) net_lib =
  nl_parse_ip :: "string \<Rightarrow> 'ip option"
  nl_is4 :: "'ip \<Rightarrow> bool"
  nl_show :: "'ip \<Rightarrow> string"
  nl_parse_cidr :: "string \<Rightarrow> 'net option"
  nl_contains :: "'net \<Rightarrow> 'ip \<Rightarrow> bool"
  nl_host_of :: "string \<Rightarrow> string option"

definition proxy_network :: "('ip, 'net) net_lib \<Rightarrow> string \<Rightarrow> 'net list option" where
  "proxy_network nl v =
     (let v = TrimSpace v in
      if v = [] then Some []
      else if CHR ''/'' \<notin> set v
      then (case nl_parse_ip nl v of
          None \<Rightarrow> None
        | Some ip \<Rightarrow> map_option (\<lambda>n. [n]) (nl_parse_cidr nl (if nl_is4 nl ip then v @ ''/32'' else v @ ''/128'')))
      else map_option (\<lambda>n. [n]) (nl_parse_cidr nl v))"

definition trustedProxies :: "('ip, 'net) net_lib \<Rightarrow> environ \<Rightarrow> 'net list option" where
  "trustedProxies nl e =
     (let raw = TrimSpace (e ''BLADEDR_TRUSTED_PROXY_CIDRS'') in
      if raw = [] then Some [] else map_option concat (those (map (proxy_network nl) (Split (CHR '','') raw))))"

definition remoteIP :: "('ip, 'net) net_lib \<Rightarrow> string \<Rightarrow> 'ip option" where
  "remoteIP nl addr = nl_parse_ip nl (TrimSpace (case nl_host_of nl addr of None \<Rightarrow> addr | Some ip \<Rightarrow> ip))"

definition clientIP :: "('ip, 'net) net_lib \<Rightarrow> 'net list \<Rightarrow> string \<Rightarrow> string \<Rightarrow> string" where
  "clientIP nl trusted addr forwarded =
     (let peer = remoteIP nl addr;
          ok = (case peer of None \<Rightarrow> False | Some ip \<Rightarrow> list_ex (\<lambda>n. nl_contains nl n ip) trusted);
          first = TrimSpace (hd (Split (CHR '','') forwarded))
      in if ok \<and> nl_parse_ip nl first \<noteq> None then first
         else (case peer of Some ip \<Rightarrow> nl_show nl ip | None \<Rightarrow> addr))"

section \<open>What the settings can be\<close>

lemma worker_bounds: "1 \<le> scanWorkers e \<and> scanWorkers e \<le> 128 \<and> 1 \<le> exportWorkers e \<and> exportWorkers e \<le> 32"
  by (auto simp: scanWorkers_def exportWorkers_def Let_def split: option.splits)

lemma times_positive: "0 < schedulerTick parse e \<and> 0 < scanTimeout parse e \<and> 0 \<le> reopenAfter parse e"
  by (auto simp: schedulerTick_def scanTimeout_def reopenAfter_def Let_def DefaultReopenAfter_def
      split: option.splits)

lemma retention_age: "retentionDuration parse e key = Some d \<Longrightarrow> d = 0 \<or> Hour \<le> d"
  unfolding retentionDuration_def Let_def by (simp split: option.splits if_splits)

lemma retention_ages:
  assumes "retentionPolicy parse e = Some p"
  shows "rp_observation_age p = 0 \<or> Hour \<le> rp_observation_age p" and "rp_scan_age p = 0 \<or> Hour \<le> rp_scan_age p"
    and "rp_audit_age p = 0 \<or> Hour \<le> rp_audit_age p"
proof -
  obtain a b c d where r: "retentionDuration parse e ''BLADEDR_RETENTION_OBSERVATIONS'' = Some a"
    "retentionDuration parse e ''BLADEDR_RETENTION_SCANS'' = Some b" "retentionDuration parse e ''BLADEDR_RETENTION_AUDIT'' = Some c"
    and p: "p = \<lparr>rp_observation_age = a, rp_scan_age = b, rp_audit_age = c, rp_archive_age = d\<rparr>"
    using assms unfolding retentionPolicy_def by (auto split: option.splits)
  show "rp_observation_age p = 0 \<or> Hour \<le> rp_observation_age p" "rp_scan_age p = 0 \<or> Hour \<le> rp_scan_age p"
    "rp_audit_age p = 0 \<or> Hour \<le> rp_audit_age p"
    using r [THEN retention_age] by (simp_all add: p)
qed

text \<open>What an address that is not trusted says of others does not count.\<close>

lemma spoofed_header_ignored:
  assumes "\<And>ip n. remoteIP nl addr = Some ip \<Longrightarrow> n \<in> set trusted \<Longrightarrow> \<not> nl_contains nl n ip"
  shows "clientIP nl trusted addr forwarded = clientIP nl trusted addr []"
  using assms by (auto simp: clientIP_def Let_def list_ex_iff split: option.splits)

text \<open>A proxy that appends to the header lets its client choose: the first element counts.\<close>

lemma first_element_chosen:
  assumes "remoteIP nl addr = Some proxy" and "n \<in> set trusted" and "nl_contains nl n proxy"
    and "nl_parse_ip nl chosen \<noteq> None" and "CHR '','' \<notin> set chosen" and "\<forall>c \<in> set chosen. \<not> is_space c"
  shows "clientIP nl trusted addr (chosen @ '', '' @ client) = chosen"
proof -
  have "Split (CHR '','') (chosen @ '', '' @ client) = chosen # Split (CHR '','') (CHR '' '' # client)"
    using Split_append [OF assms(5), of "CHR '' '' # client"] by simp
  moreover have "TrimSpace chosen = chosen"
  proof -
    have d: "dropWhile is_space s = s" if "\<forall>c \<in> set s. \<not> is_space c" for s using that by (cases s) auto
    have "dropWhile is_space (rev chosen) = rev chosen" using assms(6) by (intro d) simp
    then show ?thesis using d [OF assms(6)] by (simp add: TrimSpace_def)
  qed
  ultimately show ?thesis using assms(1-4) by (auto simp: clientIP_def Let_def list_ex_iff)
qed


section \<open>A new installation\<close>

lemma bootstrap_new:
  assumes "bootstrapAdmin hash rnd e [] uuid now (openStore parse e) = Some m" and "e ''BLADEDR_ADMIN_PASSWORD'' = []"
  obtains h where "hash rnd = Some h" "m = (openStore parse e)\<lparr>users := [uuid \<mapsto>
     \<lparr>u_id = uuid, u_username = env e ''BLADEDR_ADMIN_USER'' ''admin'', u_password_hash = h, u_role = RoleAdmin, u_disabled = False,
      u_mfa_secret_enc = [], u_mfa_enabled = False, u_must_change_password = True, u_created_at = or_default_time 0 now\<rparr>]\<rparr>"
proof -
  have "users (openStore parse e) = Map.empty" by (simp add: openStore_def NewMemory_def)
  then show ?thesis using assms that
    by (auto simp: bootstrapAdmin_def CountUsers_def CreateUser_def env_def Let_def split: option.splits if_splits)
qed

text \<open>
  C24. A fresh installation is closed. When no administrator's password is set, the account the start makes has
  the random one that went to the log, and until it is changed every request served for a user, whatever
  sessions there are, reaches only the handlers for changing the password, leaving, and asking who one is.
  One person deciding alone about a response is possible only when the environment says so.
\<close>

theorem fresh_install_locked_down:
  assumes boot: "bootstrapAdmin hash rnd e [] uuid now (openStore parse e) = Some m" and unset: "e ''BLADEDR_ADMIN_PASSWORD'' = []"
    and later: "users m1 = users m" and gate: "authMiddleware digest aid t ip r m1 = (m2, Serve (Some u))"
    and path: "rq_path r = path_of ss" and route: "dispatch (rq_method r) ss = Some (h, vs)"
  shows "h \<in> set password_handlers \<and> u_role u = RoleAdmin \<and> hash rnd = Some (u_password_hash u) \<and>
    (AllowSelfApproval m \<longleftrightarrow> envBool e ''BLADEDR_RESPONSE_ALLOW_SELF_APPROVAL'')"
proof -
  from bootstrap_new [OF boot unset] obtain hs where hs: "hash rnd = Some hs" and m: "m = (openStore parse e)\<lparr>users := [uuid \<mapsto>
     \<lparr>u_id = uuid, u_username = env e ''BLADEDR_ADMIN_USER'' ''admin'', u_password_hash = hs, u_role = RoleAdmin, u_disabled = False,
      u_mfa_secret_enc = [], u_mfa_enabled = False, u_must_change_password = True, u_created_at = or_default_time 0 now\<rparr>]\<rparr>" .
  have served: "userFromRequest digest t r m1 = Some u" "u_must_change_password u \<longrightarrow> passwordChangePath (rq_path r)"
    using gate by (auto simp: authMiddleware_def Let_def split: if_splits option.splits)
  from userFromRequest_Some [OF served(1)] obtain i where "users m1 i = Some u" by blast
  then have u: "u_must_change_password u" "u_role u = RoleAdmin" "u_password_hash u = hs"
    by (auto simp: later m split: if_splits)
  from route obtain rt where rt: "rt \<in> set Routes" "list_all2 seg_match (rt_pattern rt) ss" "h = rt_handler rt"
    by (rule dispatch_table)
  have "path_of ss \<in> set password_paths" using served(2) u(1) path by (simp add: passwordChangePath_def password_paths_def)
  then have "h \<in> set password_handlers" using only_onD [OF password_table rt(1,2)] rt(3) by simp
  then show ?thesis using u hs by (simp add: m openStore_def)
qed

theorem fresh_install_locked_down_witness:
  "\<exists>m u. bootstrapAdmin Some ''pw'' (\<lambda>_. []) [] ''u1'' 5 (openStore (\<lambda>_. None) (\<lambda>_. [])) = Some m \<and>
     authMiddleware (\<lambda>t. CHR ''#'' # t) [] 9 [] (demo_request MethodGet ''/api/v1/me'')
       (m\<lparr>sessions := [''#tok'' \<mapsto> \<lparr>ss_token_hash = ''#tok'', ss_user_id = ''u1'', ss_expires_at = 50\<rparr>]\<rparr>) =
       (m\<lparr>sessions := [''#tok'' \<mapsto> \<lparr>ss_token_hash = ''#tok'', ss_user_id = ''u1'', ss_expires_at = 50\<rparr>]\<rparr>, Serve (Some u)) \<and>
     u_role u = RoleAdmin \<and> u_password_hash u = ''pw'' \<and> \<not> AllowSelfApproval m"
proof -
  define u :: user where "u = \<lparr>u_id = ''u1'', u_username = ''admin'', u_password_hash = ''pw'', u_role = RoleAdmin, u_disabled = False,
      u_mfa_secret_enc = [], u_mfa_enabled = False, u_must_change_password = True, u_created_at = 5\<rparr>"
  define m where "m = (openStore (\<lambda>_. None) (\<lambda>_. []))\<lparr>users := [''u1'' \<mapsto> u]\<rparr>"
  define ss where "ss = \<lparr>ss_token_hash = ''#tok'', ss_user_id = ''u1'', ss_expires_at = 50\<rparr>"
  let ?m = "m\<lparr>sessions := [''#tok'' \<mapsto> ss]\<rparr>" and ?r = "demo_request MethodGet ''/api/v1/me''"
  have boot: "bootstrapAdmin Some ''pw'' (\<lambda>_. []) [] ''u1'' 5 (openStore (\<lambda>_. None) (\<lambda>_. [])) = Some m"
    by (simp add: bootstrapAdmin_def CountUsers_def CreateUser_def m_def u_def openStore_def NewMemory_def or_default_def
        or_default_time_def Let_def)
  have who: "userFromRequest (\<lambda>t. CHR ''#'' # t) 9 ?r ?m = Some u"
    by (simp add: userFromRequest_def demo_request_def bearerToken_def SessionUser_def ss_def m_def)
  have gate: "authMiddleware (\<lambda>t. CHR ''#'' # t) [] 9 [] ?r ?m = (?m, Serve (Some u))"
    using who by (simp add: authMiddleware_def Let_def)
      (simp add: demo_request_def publicPath_def Allowed_def selfService_def adminOnly_def passwordChangePath_def u_def)
  have path: "rq_path ?r = path_of [''api'', ''v1'', ''me'']" by (simp add: demo_request_def path_of_def)
  have route: "dispatch (rq_method ?r) [''api'', ''v1'', ''me''] = Some (''me'', [])"
    unfolding demo_request_def request.simps by code_simp
  have "u_role u = RoleAdmin" "u_password_hash u = ''pw''" "\<not> AllowSelfApproval m"
    using fresh_install_locked_down [OF boot refl _ gate path route]
    by (simp_all add: envBool_def TrimSpace_def ToLower_def)
  with boot gate show ?thesis unfolding ss_def by blast
qed

section \<open>What retention may take\<close>

lemma recent_rows_are_kept:
  assumes policy: "retentionPolicy parse e = Some p"
    and tables: "iterates obsKs (obs m)" "iterates scanKs (scans m)" "obs_inv m"
    and run: "ApplyRetention obsKs scanKs uuids now p m = (m', r)"
  shows "(\<forall>k ob. obs m k = Some ob \<and> now - Hour \<le> o_last_seen ob \<longrightarrow> obs m' k = Some ob) \<and>
    (\<forall>k s. scans m k = Some s \<and> now - Hour \<le> s_started_at s \<longrightarrow> scans m' k = Some s) \<and>
    (\<forall>ev \<in> set (audit m). now - Hour \<le> a_time ev \<longrightarrow> ev \<in> set (audit m'))"
  using retention_tables [OF tables run] retention_ages [OF policy] by (force simp: obs_retired_def)

end
